(* ===== verification/Prelude.thy ===== *)
theory Prelude
  imports Complex_Main "HOL-Library.AList"
begin

text \<open>
  Shared vocabulary of the development: Python values that the runtime passes around
  (JSON objects, ordered dictionaries), the fold that every projection of a record log
  is an instance of, and the three interfaces (locales) under which facts about a fold
  are proved once: an invariant of its step, a projection that its step updates
  homomorphically, and a relation between two folds that keeps their outcomes equal.

  A Python \<open>str\<close> is a \<open>string\<close> (a list of 8-bit characters, so only Latin-1 code
  points are represented); a Python \<open>int\<close> is an \<open>int\<close>; a \<open>datetime\<close> is an \<open>int\<close>
  (microseconds since the epoch, the resolution Python gives it); a \<open>Decimal\<close> is a \<open>rat\<close>.
\<close>

section \<open>Collections of facts\<close>

named_theorems op_defs \<open>the defining equations of the operations of a component\<close>
named_theorems dict_laws \<open>lookup and key laws of the ordered dictionaries\<close>

section \<open>Values\<close>

text \<open>
  A value of a \<open>dict[str, Any]\<close> that came from JSON. A float is carried by its \<open>repr\<close>,
  which identifies it and is what \<open>json.dumps\<close> writes.
\<close>

datatype json =
    JNull
  | JBool bool
  | JInt int
  | JFloat string
  | JStr string
  | JArr "json list"
  | JObj "(string \<times> json) list"

type_synonym obj = "(string \<times> json) list"

type_synonym timestamp = int
type_synonym run_id = string
type_synonym step_id = string
type_synonym attempt_id = string
type_synonym worker_id = string
type_synonym call_id = string
type_synonym version_hash = string

section \<open>Ordered dictionaries\<close>

text \<open>
  A Python \<open>dict\<close> keeps insertion order: assigning to a present key keeps its place,
  assigning to a new one appends, and deleting closes the gap. That is the association
  list of \<open>HOL-Library.AList\<close>.
\<close>

type_synonym ('k, 'v) dict = "('k \<times> 'v) list"

abbreviation dict_get :: "('k, 'v) dict \<Rightarrow> 'k \<Rightarrow> 'v option" where
  "dict_get d k \<equiv> map_of d k"

abbreviation dict_put :: "'k \<Rightarrow> 'v \<Rightarrow> ('k, 'v) dict \<Rightarrow> ('k, 'v) dict" where
  "dict_put k v d \<equiv> AList.update k v d"

abbreviation dict_del :: "'k \<Rightarrow> ('k, 'v) dict \<Rightarrow> ('k, 'v) dict" where
  "dict_del k d \<equiv> AList.delete k d"

abbreviation dict_keys :: "('k, 'v) dict \<Rightarrow> 'k set" where
  "dict_keys d \<equiv> fst ` set d"

text \<open>\<open>d.update(other)\<close>: the pairs of the other dictionary, assigned in its order.\<close>

definition dict_merge :: "('k, 'v) dict \<Rightarrow> ('k, 'v) dict \<Rightarrow> ('k, 'v) dict" where
  "dict_merge d other = fold (\<lambda>(k, v). dict_put k v) other d"

definition dict_wf :: "('k, 'v) dict \<Rightarrow> bool" where
  "dict_wf d \<longleftrightarrow> distinct (map fst d)"

lemma dict_get_put [dict_laws, simp]:
  "dict_get (dict_put k v d) k' = (if k' = k then Some v else dict_get d k')"
  by (simp add: update_conv')

lemma dict_get_del [dict_laws, simp]:
  "dict_get (dict_del k d) k' = (if k' = k then None else dict_get d k')"
  by (simp add: delete_conv')

lemma dict_keys_put [dict_laws, simp]: "dict_keys (dict_put k v d) = insert k (dict_keys d)"
  by (simp add: dom_update)

lemma dict_keys_del [dict_laws, simp]: "dict_keys (dict_del k d) = dict_keys d - {k}"
  by (simp add: AList.delete_eq) force

lemma dict_wf_put [dict_laws, simp]: "dict_wf d \<Longrightarrow> dict_wf (dict_put k v d)"
  by (simp add: dict_wf_def distinct_update)

lemma dict_wf_del [dict_laws, simp]: "dict_wf d \<Longrightarrow> dict_wf (dict_del k d)"
  by (simp add: dict_wf_def distinct_delete)

lemma dict_wf_Nil [simp]: "dict_wf []"
  by (simp add: dict_wf_def)

lemma dict_get_None_iff: "dict_get d k = None \<longleftrightarrow> k \<notin> dict_keys d"
  by (simp add: map_of_eq_None_iff)

lemma dict_get_keyD: "dict_get d k = Some v \<Longrightarrow> k \<in> dict_keys d"
  by (force dest: map_of_SomeD)

lemma dict_keysI: "(k, v) \<in> set d \<Longrightarrow> k \<in> dict_keys d"
  by force

lemma dict_get_merge:
  "dict_get (dict_merge d other) k =
     (case dict_get (rev other) k of Some v \<Rightarrow> Some v | None \<Rightarrow> dict_get d k)"
  by (induction other arbitrary: d)
     (auto simp: dict_merge_def map_add_def split: option.splits prod.splits)

lemma dict_wf_merge [simp]: "dict_wf d \<Longrightarrow> dict_wf (dict_merge d other)"
  by (induction other arbitrary: d) (auto simp: dict_merge_def split: prod.splits)

text \<open>A dictionary from a list of keyed values: \<open>{key(x): x for x in xs}\<close>.\<close>

definition dict_of :: "('v \<Rightarrow> 'k) \<Rightarrow> 'v list \<Rightarrow> ('k, 'v) dict" where
  "dict_of key xs = fold (\<lambda>x. dict_put (key x) x) xs []"

lemma dict_get_fold_put:
  "dict_get (fold (\<lambda>x. dict_put (key x) x) xs d) k =
     (case find (\<lambda>x. key x = k) (rev xs) of Some x \<Rightarrow> Some x | None \<Rightarrow> dict_get d k)"
  by (induction xs rule: rev_induct) auto

lemma dict_get_dict_of:
  "dict_get (dict_of key xs) k = find (\<lambda>x. key x = k) (rev xs)"
  by (simp add: dict_of_def dict_get_fold_put split: option.splits)

section \<open>The fold over a log\<close>

text \<open>
  \<open>for record in log: state = step(state, record)\<close>, where the step may raise. The fold
  stops at the first raise, as the loop does.
\<close>

fun fold_log :: "('s \<Rightarrow> 'r \<Rightarrow> 'e + 's) \<Rightarrow> 's \<Rightarrow> 'r list \<Rightarrow> 'e + 's" where
  "fold_log step s [] = Inr s"
| "fold_log step s (r # rs) =
     (case step s r of Inl e \<Rightarrow> Inl e | Inr s' \<Rightarrow> fold_log step s' rs)"

lemma fold_log_append:
  "fold_log step s (xs @ ys) =
     (case fold_log step s xs of Inl e \<Rightarrow> Inl e | Inr s' \<Rightarrow> fold_log step s' ys)"
  by (induction xs arbitrary: s) (auto split: sum.splits)

lemma fold_log_snoc:
  "fold_log step s (xs @ [r]) =
     (case fold_log step s xs of Inl e \<Rightarrow> Inl e | Inr s' \<Rightarrow> step s' r)"
  by (auto simp: fold_log_append split: sum.splits)

lemma fold_log_prefix:
  "fold_log step s (xs @ ys) = Inr t \<Longrightarrow> \<exists>u. fold_log step s xs = Inr u \<and> fold_log step u ys = Inr t"
  by (auto simp: fold_log_append split: sum.splits)

lemma fold_log_at:
  assumes "fold_log step s (xs @ r # ys) = Inr t"
  obtains u w where "fold_log step s xs = Inr u" "step u r = Inr w" "fold_log step w ys = Inr t"
  using assms by (auto simp: fold_log_append split: sum.splits)

lemma fold_ignore [simp]: "fold (\<lambda>_ a. a) xs a = a"
  by (induction xs) auto

text \<open>An invariant of the step is an invariant of the fold.\<close>

locale fold_invariant =
  fixes step :: "'s \<Rightarrow> 'r \<Rightarrow> 'e + 's"
    and inv :: "'s \<Rightarrow> bool"
  assumes step_keeps: "inv s \<Longrightarrow> step s r = Inr s' \<Longrightarrow> inv s'"
begin

lemma fold_keeps: "inv s \<Longrightarrow> fold_log step s rs = Inr s' \<Longrightarrow> inv s'"
  by (induction rs arbitrary: s) (auto split: sum.splits dest: step_keeps)

end

text \<open>
  A relation between the records folded so far and the state reached, kept by every step:
  it then relates every log to the state the fold of it returns.
\<close>

locale fold_history =
  fixes step :: "'s \<Rightarrow> 'r \<Rightarrow> 'e + 's"
    and hist :: "'r list \<Rightarrow> 's \<Rightarrow> bool"
  assumes step_extends: "hist hs s \<Longrightarrow> step s r = Inr s' \<Longrightarrow> hist (hs @ [r]) s'"
begin

lemma fold_extends: "hist hs s \<Longrightarrow> fold_log step s rs = Inr s' \<Longrightarrow> hist (hs @ rs) s'"
proof (induction rs arbitrary: hs s)
  case (Cons r rs)
  then obtain t where "step s r = Inr t" "fold_log step t rs = Inr s'"
    by (auto split: sum.splits)
  with Cons.IH[of "hs @ [r]" t] Cons.prems(1) step_extends show ?case by auto
qed simp

lemma fold_history: "hist [] s \<Longrightarrow> fold_log step s rs = Inr s' \<Longrightarrow> hist rs s'"
  using fold_extends[of "[]"] by simp

end

text \<open>
  A projection of the state that every accepted record updates by a function of the
  record alone: the fold then computes the pure fold of that function, which is the
  abstract specification of the projection.
\<close>

locale fold_projection =
  fixes step :: "'s \<Rightarrow> 'r \<Rightarrow> 'e + 's"
    and proj :: "'s \<Rightarrow> 'a"
    and upd :: "'r \<Rightarrow> 'a \<Rightarrow> 'a"
  assumes step_updates: "step s r = Inr s' \<Longrightarrow> proj s' = upd r (proj s)"
begin

lemma fold_projects: "fold_log step s rs = Inr s' \<Longrightarrow> proj s' = fold upd rs (proj s)"
  by (induction rs arbitrary: s) (auto split: sum.splits dest: step_updates)

end

text \<open>
  Two steps related by \<open>rel\<close> on the records that satisfy \<open>ok\<close>: related states give the
  same error or related successors, hence the two folds do.
\<close>

locale fold_relation =
  fixes step :: "'s \<Rightarrow> 'r \<Rightarrow> 'e + 's"
    and step' :: "'t \<Rightarrow> 'r \<Rightarrow> 'e + 't"
    and rel :: "'s \<Rightarrow> 't \<Rightarrow> bool"
    and ok :: "'r \<Rightarrow> bool"
  assumes step_related: "rel s t \<Longrightarrow> ok r \<Longrightarrow> rel_sum (=) rel (step s r) (step' t r)"
begin

lemma fold_related:
  "rel s t \<Longrightarrow> list_all ok rs \<Longrightarrow> rel_sum (=) rel (fold_log step s rs) (fold_log step' t rs)"
proof (induction rs arbitrary: s t)
  case Nil
  then show ?case by simp
next
  case (Cons r rs)
  then have "rel_sum (=) rel (step s r) (step' t r)"
    by (simp add: step_related)
  with Cons show ?case
    by (cases "step s r"; cases "step' t r") auto
qed

end

section \<open>Lists and options\<close>

lemma find_None_iff_filter: "find P xs = None \<longleftrightarrow> filter P xs = []"
  by (induction xs) auto

lemma find_append_cases:
  "find P (xs @ ys) = (case find P xs of Some x \<Rightarrow> Some x | None \<Rightarrow> find P ys)"
  by (induction xs) auto

lemma find_SomeD: "find P xs = Some x \<Longrightarrow> x \<in> set xs \<and> P x"
  by (induction xs) (auto split: if_splits)

lemma distinct_find_rev:
  "distinct (map key xs) \<Longrightarrow> find (\<lambda>x. key x = k) (rev xs) = find (\<lambda>x. key x = k) xs"
proof (induction xs)
  case (Cons x xs)
  then show ?case
    by (auto simp: find_append_cases split: option.splits dest!: find_SomeD)
qed simp

lemma map_filter_snoc:
  "List.map_filter f (xs @ [x]) = List.map_filter f xs @ (case f x of None \<Rightarrow> [] | Some y \<Rightarrow> [y])"
  by (induction xs) (auto simp: map_filter_simps split: option.splits)

lemma map_filter_Nil [simp]: "List.map_filter f [] = []"
  by (simp add: map_filter_simps)

lemma set_map_filter_iff: "y \<in> set (List.map_filter f xs) \<longleftrightarrow> (\<exists>x \<in> set xs. f x = Some y)"
  by (induction xs) (auto simp: map_filter_simps split: option.splits)

end
