(* ===== verification/Usage.thy ===== *)
theory Usage
  imports PyText
begin

text \<open>
  Token usage and cost (\<open>psych_runtime/core/usage.py\<close>): the two value types every model
  call record carries, their validators and their addition.

  Shown here: usages form a commutative monoid and their validity (the one-hour cache
  writes are a subset of the cache writes) survives addition, so the constructor call
  inside \<open>Usage.__add__\<close> never raises; costs of one currency form a commutative semigroup,
  so a total does not depend on the order in which calls are added.
\<close>

section \<open>Usage\<close>

datatype usage = Usage
  (u_input: int) (u_output: int) (u_cache_read: int)
  (u_cache_write: int) (u_cache_write_1h: int) (u_reasoning: int)

text \<open>Field constraints \<open>ge=0\<close> and the validator \<open>_one_hour_writes_are_a_subset\<close>.\<close>

definition valid_usage :: "usage \<Rightarrow> bool" where
  "valid_usage u \<longleftrightarrow>
     0 \<le> u_input u \<and> 0 \<le> u_output u \<and> 0 \<le> u_cache_read u \<and> 0 \<le> u_cache_write u \<and>
     0 \<le> u_cache_write_1h u \<and> 0 \<le> u_reasoning u \<and>
     \<not> (u_cache_write_1h u > u_cache_write u)"

definition total_billable :: "usage \<Rightarrow> int" where
  "total_billable u = u_input u + u_output u + u_cache_read u + u_cache_write u"

definition usage_add :: "usage \<Rightarrow> usage \<Rightarrow> usage" where
  "usage_add a b = Usage
     (u_input a + u_input b)
     (u_output a + u_output b)
     (u_cache_read a + u_cache_read b)
     (u_cache_write a + u_cache_write b)
     (u_cache_write_1h a + u_cache_write_1h b)
     (u_reasoning a + u_reasoning b)"

definition usage_zero :: usage where
  "usage_zero = Usage 0 0 0 0 0 0"

instantiation usage :: comm_monoid_add
begin

definition plus_usage :: "usage \<Rightarrow> usage \<Rightarrow> usage" where
  "plus_usage = usage_add"

definition zero_usage :: usage where
  "zero_usage = usage_zero"

instance
  by standard (auto simp: plus_usage_def zero_usage_def usage_add_def usage_zero_def)

end

lemma usage_sel_plus [simp]:
  "u_input (a + b) = u_input a + u_input b"
  "u_output (a + b) = u_output a + u_output b"
  "u_cache_read (a + b) = u_cache_read a + u_cache_read b"
  "u_cache_write (a + b) = u_cache_write a + u_cache_write b"
  "u_cache_write_1h (a + b) = u_cache_write_1h a + u_cache_write_1h b"
  "u_reasoning (a + b) = u_reasoning a + u_reasoning b"
  by (simp_all add: plus_usage_def usage_add_def)

lemma usage_sel_zero [simp]:
  "u_input 0 = 0" "u_output 0 = 0" "u_cache_read 0 = 0" "u_cache_write 0 = 0"
  "u_cache_write_1h 0 = 0" "u_reasoning 0 = 0"
  by (simp_all add: zero_usage_def usage_zero_def)

lemma valid_usage_zero [simp]: "valid_usage 0"
  by (simp add: valid_usage_def)

lemma valid_usage_plus [simp]: "valid_usage a \<Longrightarrow> valid_usage b \<Longrightarrow> valid_usage (a + b)"
  by (simp add: valid_usage_def)

lemma valid_usage_sum_list: "list_all valid_usage us \<Longrightarrow> valid_usage (sum_list us)"
  by (induction us) auto

lemma total_billable_plus [simp]: "total_billable (a + b) = total_billable a + total_billable b"
  by (simp add: total_billable_def)

section \<open>Cost\<close>

datatype cost_source = Computed | Provider | Mixed

record cost =
  c_amount :: rat
  c_currency :: string
  c_model :: string
  c_source :: cost_source
  c_input_amount :: "rat option"
  c_output_amount :: "rat option"
  c_cache_read_amount :: "rat option"
  c_cache_write_amount :: "rat option"

definition opt_nonneg :: "rat option \<Rightarrow> bool" where
  "opt_nonneg x = (case x of None \<Rightarrow> True | Some q \<Rightarrow> 0 \<le> q)"

definition valid_cost :: "cost \<Rightarrow> bool" where
  "valid_cost c \<longleftrightarrow>
     0 \<le> c_amount c \<and>
     length (c_currency c) = 3 \<and> list_all (\<lambda>x. CHR ''A'' \<le> x \<and> x \<le> CHR ''Z'') (c_currency c) \<and>
     c_model c \<noteq> [] \<and>
     opt_nonneg (c_input_amount c) \<and> opt_nonneg (c_output_amount c) \<and>
     opt_nonneg (c_cache_read_amount c) \<and> opt_nonneg (c_cache_write_amount c)"

definition has_breakdown :: "cost \<Rightarrow> bool" where
  "has_breakdown c \<longleftrightarrow>
     list_all (\<lambda>v. v \<noteq> None)
       [c_input_amount c, c_output_amount c, c_cache_read_amount c, c_cache_write_amount c]"

definition add_optional_amount :: "rat option \<Rightarrow> rat option \<Rightarrow> rat option" where
  "add_optional_amount left right =
     (case (left, right) of (Some l, Some r) \<Rightarrow> Some (l + r) | _ \<Rightarrow> None)"

text \<open>\<open>Cost.__add__\<close>: \<open>None\<close> is the \<open>ValueError\<close> for two currencies.\<close>

definition cost_add :: "cost \<Rightarrow> cost \<Rightarrow> cost option" where
  "cost_add a b =
     (if c_currency a \<noteq> c_currency b then None
      else Some \<lparr>
        c_amount = c_amount a + c_amount b,
        c_currency = c_currency a,
        c_model = (if c_model a = c_model b then c_model a else ''<mixed>''),
        c_source = (if c_source a = c_source b then c_source a else Mixed),
        c_input_amount = add_optional_amount (c_input_amount a) (c_input_amount b),
        c_output_amount = add_optional_amount (c_output_amount a) (c_output_amount b),
        c_cache_read_amount = add_optional_amount (c_cache_read_amount a) (c_cache_read_amount b),
        c_cache_write_amount = add_optional_amount (c_cache_write_amount a) (c_cache_write_amount b)\<rparr>)"

lemma add_optional_amount_commute: "add_optional_amount a b = add_optional_amount b a"
  by (auto simp: add_optional_amount_def split: option.splits)

lemma add_optional_amount_assoc:
  "add_optional_amount (add_optional_amount a b) c = add_optional_amount a (add_optional_amount b c)"
  by (auto simp: add_optional_amount_def split: option.splits)

lemma add_optional_amount_Some_iff:
  "add_optional_amount a b \<noteq> None \<longleftrightarrow> a \<noteq> None \<and> b \<noteq> None"
  by (auto simp: add_optional_amount_def split: option.splits)

lemma opt_nonneg_add [simp]: "opt_nonneg a \<Longrightarrow> opt_nonneg b \<Longrightarrow> opt_nonneg (add_optional_amount a b)"
  by (auto simp: opt_nonneg_def add_optional_amount_def split: option.splits)

lemma cost_add_commute: "cost_add a b = cost_add b a"
  by (auto simp: cost_add_def add_optional_amount_commute add.commute)

lemma cost_add_assoc:
  "Option.bind (cost_add a b) (\<lambda>ab. cost_add ab c) = Option.bind (cost_add b c) (\<lambda>bc. cost_add a bc)"
  by (auto simp: cost_add_def add_optional_amount_assoc)

lemma cost_add_SomeD:
  "cost_add a b = Some c \<Longrightarrow>
     c_amount c = c_amount a + c_amount b \<and> c_currency c = c_currency a \<and> c_currency b = c_currency a"
  by (auto simp: cost_add_def split: if_splits)

lemma cost_add_defined: "c_currency a = c_currency b \<Longrightarrow> \<exists>c. cost_add a b = Some c"
  by (simp add: cost_add_def)

lemma valid_cost_add: "cost_add a b = Some c \<Longrightarrow> valid_cost a \<Longrightarrow> valid_cost b \<Longrightarrow> valid_cost c"
  by (auto simp: cost_add_def valid_cost_def split: if_splits)

text \<open>The running total of a list of costs, as the fold of \<open>+\<close>.\<close>

fun cost_total :: "cost \<Rightarrow> cost list \<Rightarrow> cost option" where
  "cost_total c [] = Some c"
| "cost_total c (d # ds) = Option.bind (cost_add c d) (\<lambda>e. cost_total e ds)"

lemma cost_total_swap: "cost_total c (d # e # ds) = cost_total c (e # d # ds)"
proof -
  have "Option.bind (cost_add c d) (\<lambda>x. cost_add x e) = Option.bind (cost_add c e) (\<lambda>x. cost_add x d)"
    by (metis cost_add_assoc cost_add_commute)
  then have "Option.bind (Option.bind (cost_add c d) (\<lambda>x. cost_add x e)) (\<lambda>y. cost_total y ds)
           = Option.bind (Option.bind (cost_add c e) (\<lambda>x. cost_add x d)) (\<lambda>y. cost_total y ds)"
    by simp
  then show ?thesis by simp
qed

lemma cost_total_SomeD:
  "cost_total c ds = Some t \<Longrightarrow>
     c_amount t = c_amount c + sum_list (map c_amount ds) \<and> c_currency t = c_currency c \<and>
     (\<forall>d \<in> set ds. c_currency d = c_currency c)"
proof (induction ds arbitrary: c)
  case (Cons d ds)
  then obtain e where e: "cost_add c d = Some e" "cost_total e ds = Some t"
    by (auto simp: bind_eq_Some_conv)
  from Cons.IH[OF e(2)] cost_add_SomeD[OF e(1)] show ?case by simp
qed simp

lemma cost_total_defined_iff:
  "(\<exists>t. cost_total c ds = Some t) \<longleftrightarrow> (\<forall>d \<in> set ds. c_currency d = c_currency c)"
proof (induction ds arbitrary: c)
  case (Cons d ds)
  show ?case
  proof (cases "c_currency d = c_currency c")
    case True
    then obtain e where e: "cost_add c d = Some e" using cost_add_defined by metis
    then have "c_currency e = c_currency c" using cost_add_SomeD by blast
    with Cons.IH[of e] e True show ?thesis by simp
  next
    case False
    then show ?thesis by (simp add: cost_add_def)
  qed
qed simp

end
