(* ===== verification/Identity.thy ===== *)
theory Identity
  imports PyText
begin

text \<open>
  Scopes (\<open>psych_runtime/core/scope.py\<close>) and derived step identifiers
  (\<open>psych_runtime/core/ids.py\<close>). A step identifier is a hash of the Run id and the step's
  position; the lemmas show that the bytes it hashes determine both, so two positions
  share an identifier only if SHA-256 itself collides on 128 bits.
\<close>

section \<open>Scope\<close>

record scope =
  sc_tenant :: string
  sc_principal :: "string option"
  sc_labels :: "(string, string) dict"

definition max_labels :: nat where "max_labels = 32"
definition max_label_length :: nat where "max_label_length = 256"

definition labels_are_bounded :: "(string, string) dict \<Rightarrow> bool" where
  "labels_are_bounded value \<longleftrightarrow>
     \<not> (length value > max_labels) \<and>
     list_all (\<lambda>(key, label). key \<noteq> [] \<and>
       \<not> (length key > max_label_length \<or> length label > max_label_length)) value"

definition valid_scope :: "scope \<Rightarrow> bool" where
  "valid_scope s \<longleftrightarrow>
     1 \<le> length (sc_tenant s) \<and> length (sc_tenant s) \<le> 256 \<and>
     (case sc_principal s of None \<Rightarrow> True | Some p \<Rightarrow> length p \<le> 256) \<and>
     labels_are_bounded (sc_labels s)"

definition pool_key :: "scope \<Rightarrow> string \<times> string option" where
  "pool_key s = (sc_tenant s, sc_principal s)"

definition scope_str :: "scope \<Rightarrow> string" where
  "scope_str s = (case sc_principal s of
       None \<Rightarrow> ''tenant='' @ sc_tenant s
     | Some p \<Rightarrow> ''tenant='' @ sc_tenant s @ '' principal='' @ p)"

lemma pool_key_eq_iff:
  "pool_key a = pool_key b \<longleftrightarrow> sc_tenant a = sc_tenant b \<and> sc_principal a = sc_principal b"
  by (simp add: pool_key_def)

section \<open>Step identifiers\<close>

datatype path_elem = PName string | PIndex int

text \<open>
  The separator byte \<open>0x1f\<close>, the type tag and the element, for every element of the path.
\<close>

definition sep_char :: char where "sep_char = CHR 0x1F"

fun path_elem_str :: "path_elem \<Rightarrow> string" where
  "path_elem_str (PIndex i) = sep_char # CHR ''i'' # int_str i"
| "path_elem_str (PName s) = sep_char # CHR ''s'' # s"

definition step_preimage :: "run_id \<Rightarrow> path_elem list \<Rightarrow> byte list" where
  "step_preimage run path = utf8 (run @ concat (map path_elem_str path))"

definition step_id_length :: nat where "step_id_length = 32"

definition derive_step_id :: "run_id \<Rightarrow> path_elem list \<Rightarrow> step_id" where
  "derive_step_id run path = ''stp_'' @ take step_id_length (sha256_hex (step_preimage run path))"

text \<open>No element spells the separator: true of integers, and of every name without \<open>0x1f\<close>.\<close>

fun elem_plain :: "path_elem \<Rightarrow> bool" where
  "elem_plain (PIndex i) = True"
| "elem_plain (PName s) = (sep_char \<notin> set s)"

fun utf8_decode :: "byte list \<Rightarrow> string" where
  "utf8_decode [] = []"
| "utf8_decode (b # bs) =
     (if unat b < 128 then char_of (unat b) # utf8_decode bs
      else case bs of [] \<Rightarrow> [] | c # cs \<Rightarrow>
        char_of ((unat b - 192) * 64 + (unat c - 128)) # utf8_decode cs)"

lemma unat_byte: "n < 256 \<Longrightarrow> unat (of_nat n :: byte) = n"
  by (simp add: unat_of_nat take_bit_eq_mod)

lemma of_char_less: "(of_char c :: nat) < 256"
  by (simp add: of_char_def)

lemma utf8_decode_utf8: "utf8_decode (utf8 s) = s"
proof (induction s)
  case Nil
  then show ?case by (simp add: utf8_def)
next
  case (Cons c s)
  let ?n = "of_char c :: nat"
  have n: "?n < 256" by (rule of_char_less)
  then have "?n div 64 < 4" by linarith
  then have a: "unat (of_nat (192 + ?n div 64) :: byte) = 192 + ?n div 64"
    by (intro unat_byte) auto
  have b: "unat (of_nat (128 + ?n mod 64) :: byte) = 128 + ?n mod 64"
    by (intro unat_byte) (simp add: less_trans[OF mod_less_divisor])
  show ?case
  proof (cases "?n < 128")
    case True
    then show ?thesis using Cons n by (simp add: utf8_def utf8_char_def unat_byte)
  next
    case False
    have "utf8 (c # s) = of_nat (192 + ?n div 64) # of_nat (128 + ?n mod 64) # utf8 s"
      using False by (simp add: utf8_def utf8_char_def Let_def)
    then show ?thesis using Cons a b False
      by (simp del: of_nat_add)
  qed
qed

lemma utf8_inject: "utf8 s = utf8 t \<longleftrightarrow> s = t"
  by (metis utf8_decode_utf8)

lemma split_at_sep:
  assumes "a @ x = b @ y" "sep_char \<notin> set a" "sep_char \<notin> set b"
    "x = [] \<or> (\<exists>r. x = sep_char # r)" "y = [] \<or> (\<exists>r. y = sep_char # r)"
  shows "a = b \<and> x = y"
  using assms
proof (induction a arbitrary: b)
  case Nil
  then show ?case by (cases b) auto
next
  case (Cons c a)
  then show ?case by (cases b) auto
qed

lemma int_str_plain: "sep_char \<notin> set (int_str i)"
  using int_str_code[of sep_char i] by (auto simp: sep_char_def)

lemma path_str_shape:
  "concat (map path_elem_str path) = [] \<or> (\<exists>r. concat (map path_elem_str path) = sep_char # r)"
proof (cases path)
  case (Cons e es)
  then show ?thesis by (cases e) auto
qed simp

lemma path_str_Cons_ne: "concat (map path_elem_str (e # es)) \<noteq> []"
  by (cases e) auto

lemma path_str_inject:
  "concat (map path_elem_str p) = concat (map path_elem_str q) \<Longrightarrow>
   list_all elem_plain p \<Longrightarrow> list_all elem_plain q \<Longrightarrow> p = q"
proof (induction p arbitrary: q)
  case Nil
  then show ?case
    using path_str_Cons_ne by (metis concat.simps(1) list.exhaust list.simps(8))
next
  case (Cons e es)
  obtain f fs where q: "q = f # fs"
    using Cons.prems(1) path_str_Cons_ne by (metis concat.simps(1) list.exhaust list.simps(8))
  note shape = path_str_shape[of es] path_str_shape[of fs]
  have *: "e = f \<and> concat (map path_elem_str es) = concat (map path_elem_str fs)"
    using Cons.prems shape unfolding q
    by (cases e; cases f)
       (auto dest!: split_at_sep simp: int_str_plain int_str_inject)
  then show ?case using Cons q by auto
qed

lemma step_preimage_inject:
  assumes "step_preimage r p = step_preimage r' p'"
    "sep_char \<notin> set r" "sep_char \<notin> set r'" "list_all elem_plain p" "list_all elem_plain p'"
  shows "r = r' \<and> p = p'"
proof -
  have "r @ concat (map path_elem_str p) = r' @ concat (map path_elem_str p')"
    using assms(1) by (simp add: step_preimage_def utf8_inject)
  then have "r = r' \<and> concat (map path_elem_str p) = concat (map path_elem_str p')"
    by (rule split_at_sep) (use assms path_str_shape in auto)
  then show ?thesis using path_str_inject assms by blast
qed

end
