(* ===== verification/Payloads.thy ===== *)
theory Payloads
  imports PyText
begin

text \<open>
  The structured payloads an agent shows or asks for, which records carry whole:
  tasks (\<open>core/tasks.py\<close>), questions (\<open>core/questions.py\<close>) and components
  (\<open>core/components.py\<close>), with the constraints their models declare and the renderings
  the modules define. Shown: a link or image address that passes the validator is empty
  or starts with an http scheme, and validating it again changes nothing.
\<close>

section \<open>Tasks\<close>

definition max_tasks :: nat where "max_tasks = 40"

datatype task_status = TaskPending | TaskInProgress | TaskCompleted

record task =
  t_title :: string
  t_active_form :: string
  t_description :: string
  t_status :: task_status

definition valid_task :: "task \<Rightarrow> bool" where
  "valid_task t \<longleftrightarrow> 1 \<le> length (t_title t) \<and> length (t_title t) \<le> 200 \<and>
     length (t_active_form t) \<le> 200 \<and> length (t_description t) \<le> 2000"

definition active_label :: "task \<Rightarrow> string" where
  "active_label t = (if py_strip (t_active_form t) \<noteq> [] then py_strip (t_active_form t) else t_title t)"

definition task_summary :: "task list \<Rightarrow> string" where
  "task_summary tasks =
     (if tasks = [] then []
      else let n_done = length (filter (\<lambda>t. t_status t = TaskCompleted) tasks);
               active = find (\<lambda>t. t_status t = TaskInProgress) tasks;
               progress = nat_str n_done @ '' of '' @ nat_str (length tasks) @ '' done''
           in case active of
                Some a \<Rightarrow> active_label a @ [CHR '' '', CHR 0xB7, CHR '' ''] @ progress
              | None \<Rightarrow> progress)"

section \<open>Questions\<close>

definition max_questions :: nat where "max_questions = 4"
definition max_options :: nat where "max_options = 4"

record question_option =
  qo_label :: string
  qo_description :: string

record asked_question =
  aq_question :: string
  aq_header :: string
  aq_options :: "question_option list"
  aq_multi_select :: bool

definition valid_question_option :: "question_option \<Rightarrow> bool" where
  "valid_question_option q \<longleftrightarrow> 1 \<le> length (qo_label q) \<and> length (qo_label q) \<le> 80 \<and>
     length (qo_description q) \<le> 400"

definition valid_asked_question :: "asked_question \<Rightarrow> bool" where
  "valid_asked_question q \<longleftrightarrow> 1 \<le> length (aq_question q) \<and> length (aq_question q) \<le> 2000 \<and>
     length (aq_header q) \<le> 24 \<and> length (aq_options q) \<le> max_options \<and>
     list_all valid_question_option (aq_options q)"

definition render_questions :: "asked_question list \<Rightarrow> string" where
  "render_questions questions =
     (case questions of
        [] \<Rightarrow> []
      | [q] \<Rightarrow> aq_question q
      | _ \<Rightarrow> join '' '' (map (\<lambda>(i, q). ''('' @ nat_str (i + 1) @ '') '' @ aq_question q)
                               (enumerate 0 questions)))"

section \<open>Components\<close>

definition max_badges :: nat where "max_badges = 6"
definition max_fields :: nat where "max_fields = 12"
definition max_cards :: nat where "max_cards = 12"
definition max_steps_shown :: nat where "max_steps_shown = 24"
definition max_series :: nat where "max_series = 5"
definition max_points :: nat where "max_points = 400"

text \<open>\<open>_require_web_url\<close>: \<open>None\<close> is the \<open>ValueError\<close>.\<close>

definition require_web_url :: "string \<Rightarrow> string option" where
  "require_web_url value =
     (if value = [] then Some value
      else let candidate = py_strip value in
        if \<not> (py_startswith (py_lower candidate) ''http://'' \<or> py_startswith (py_lower candidate) ''https://'')
        then None else Some candidate)"

definition valid_web_url :: "string \<Rightarrow> bool" where
  "valid_web_url u \<longleftrightarrow> length u \<le> 2048 \<and> require_web_url u = Some u"

datatype chart_mark = MarkLine | MarkBar | MarkArea | MarkPie
datatype trend_direction = TrendUp | TrendDown | TrendFlat
datatype timeline_state = StepDone | StepCurrent | StepUpcoming

text \<open>A field declared \<open>float | str\<close>; a float is carried by its \<open>repr\<close>.\<close>

datatype num_or_text = NumFloat string | NumText string

record component_field =
  cf_label :: string
  cf_value :: string

record card =
  card_title :: string
  card_subtitle :: string
  card_image_url :: string
  card_badges :: "string list"
  card_fields :: "component_field list"
  card_href :: string

record carousel =
  car_title :: string
  car_cards :: "card list"

record detail =
  det_title :: string
  det_subtitle :: string
  det_status :: string
  det_fields :: "component_field list"
  det_total :: "component_field option"
  det_href :: string

record timeline_step =
  ts_label :: string
  ts_at :: string
  ts_description :: string
  ts_state :: timeline_state

record timeline =
  tl_title :: string
  tl_steps :: "timeline_step list"

record point =
  pt_x :: num_or_text
  pt_y :: string

record series =
  se_name :: string
  se_points :: "point list"

record chart =
  ch_title :: string
  ch_mark :: chart_mark
  ch_series :: "series list"
  ch_x_label :: string
  ch_y_label :: string

record metric =
  me_label :: string
  me_value :: num_or_text
  me_unit :: string
  me_delta :: string
  me_direction :: "trend_direction option"

datatype component =
    Card card | Carousel carousel | Detail detail | Timeline timeline | Chart chart | Metric metric

definition valid_component_field :: "component_field \<Rightarrow> bool" where
  "valid_component_field f \<longleftrightarrow> 1 \<le> length (cf_label f) \<and> length (cf_label f) \<le> 80 \<and> length (cf_value f) \<le> 400"

definition valid_card :: "card \<Rightarrow> bool" where
  "valid_card c \<longleftrightarrow>
     1 \<le> length (card_title c) \<and> length (card_title c) \<le> 200 \<and> length (card_subtitle c) \<le> 300 \<and>
     valid_web_url (card_image_url c) \<and>
     length (card_badges c) \<le> max_badges \<and>
     list_all (\<lambda>b. 1 \<le> length b \<and> length b \<le> 40) (card_badges c) \<and>
     length (card_fields c) \<le> max_fields \<and> list_all valid_component_field (card_fields c) \<and>
     valid_web_url (card_href c)"

definition valid_num_or_text :: "nat \<Rightarrow> num_or_text \<Rightarrow> bool" where
  "valid_num_or_text n v = (case v of NumFloat _ \<Rightarrow> True | NumText s \<Rightarrow> length s \<le> n)"

fun valid_component :: "component \<Rightarrow> bool" where
  "valid_component (Card c) = valid_card c"
| "valid_component (Carousel c) =
     (length (car_title c) \<le> 200 \<and> length (car_cards c) \<le> max_cards \<and> list_all valid_card (car_cards c))"
| "valid_component (Detail d) =
     (1 \<le> length (det_title d) \<and> length (det_title d) \<le> 200 \<and> length (det_subtitle d) \<le> 300 \<and>
      length (det_status d) \<le> 60 \<and>
      length (det_fields d) \<le> max_fields \<and> list_all valid_component_field (det_fields d) \<and>
      (case det_total d of None \<Rightarrow> True | Some f \<Rightarrow> valid_component_field f) \<and> valid_web_url (det_href d))"
| "valid_component (Timeline t) =
     (length (tl_title t) \<le> 200 \<and> length (tl_steps t) \<le> max_steps_shown \<and>
      list_all (\<lambda>s. 1 \<le> length (ts_label s) \<and> length (ts_label s) \<le> 200 \<and> length (ts_at s) \<le> 80 \<and>
                 length (ts_description s) \<le> 600) (tl_steps t))"
| "valid_component (Chart c) =
     (length (ch_title c) \<le> 200 \<and> length (ch_series c) \<le> max_series \<and>
      list_all (\<lambda>s. length (se_name s) \<le> 80 \<and> length (se_points s) \<le> max_points \<and>
                 list_all (\<lambda>p. valid_num_or_text 80 (pt_x p)) (se_points s)) (ch_series c) \<and>
      length (ch_x_label c) \<le> 80 \<and> length (ch_y_label c) \<le> 80)"
| "valid_component (Metric m) =
     (1 \<le> length (me_label m) \<and> length (me_label m) \<le> 120 \<and> valid_num_or_text 40 (me_value m) \<and>
      length (me_unit m) \<le> 24 \<and> length (me_delta m) \<le> 40)"

fun mark_str :: "chart_mark \<Rightarrow> string" where
  "mark_str MarkLine = ''line''"
| "mark_str MarkBar = ''bar''"
| "mark_str MarkArea = ''area''"
| "mark_str MarkPie = ''pie''"

definition str_or :: "string \<Rightarrow> string \<Rightarrow> string" where
  "str_or a b = (if a \<noteq> [] then a else b)"

fun component_summary :: "component \<Rightarrow> string" where
  "component_summary (Card c) = ''card: '' @ card_title c"
| "component_summary (Detail d) = ''detail: '' @ det_title d"
| "component_summary (Carousel c) =
     ''carousel: '' @ str_or (car_title c) (nat_str (length (car_cards c)) @ '' cards'')"
| "component_summary (Timeline t) =
     ''timeline: '' @ str_or (tl_title t) (nat_str (length (tl_steps t)) @ '' steps'')"
| "component_summary (Chart c) =
     mark_str (ch_mark c) @ '' chart: '' @ str_or (ch_title c) (str_or (ch_y_label c) ''untitled'')"
| "component_summary (Metric m) = ''metric: '' @ me_label m"

text \<open>The addresses a component hands to whoever renders it.\<close>

definition card_urls :: "card \<Rightarrow> string list" where
  "card_urls c = [card_image_url c, card_href c]"

fun component_urls :: "component \<Rightarrow> string list" where
  "component_urls (Card c) = card_urls c"
| "component_urls (Carousel c) = concat (map card_urls (car_cards c))"
| "component_urls (Detail d) = [det_href d]"
| "component_urls _ = []"

section \<open>Facts\<close>

lemma dropWhile_rev_fix:
  "dropWhile P xs = xs \<Longrightarrow> dropWhile P (rev (dropWhile P (rev xs))) = rev (dropWhile P (rev xs))"
proof -
  assume fx: "dropWhile P xs = xs"
  obtain ys where ys: "rev xs = ys @ dropWhile P (rev xs)"
    by (metis takeWhile_dropWhile_id)
  show ?thesis
  proof (cases "rev (dropWhile P (rev xs))")
    case (Cons z zs)
    have "xs = rev (dropWhile P (rev xs)) @ rev ys"
      using ys by (metis rev_append rev_rev_ident)
    with Cons have "xs = z # zs @ rev ys" by simp
    with fx have "\<not> P z"
      by (metis dropWhile_eq_Cons_conv list.sel(1) dropWhile_eq_Nil_conv hd_dropWhile list.distinct(1))
    with Cons show ?thesis by simp
  next
    case Nil
    then show ?thesis by (simp only: dropWhile.simps)
  qed
qed

lemma py_strip_idem: "py_strip (py_strip s) = py_strip s"
  unfolding py_strip_def
  using dropWhile_rev_fix[of py_isspace "dropWhile py_isspace s"]
  by simp

lemma require_web_url_idem: "require_web_url u = Some v \<Longrightarrow> require_web_url v = Some v"
  by (auto simp: require_web_url_def py_strip_idem Let_def split: if_splits)

lemma require_web_url_http:
  "require_web_url u = Some v \<Longrightarrow> v \<noteq> [] \<Longrightarrow>
     py_startswith (py_lower v) ''http://'' \<or> py_startswith (py_lower v) ''https://''"
  by (auto simp: require_web_url_def Let_def split: if_splits)

lemma valid_component_urls: "valid_component c \<Longrightarrow> u \<in> set (component_urls c) \<Longrightarrow> valid_web_url u"
  by (cases c) (auto simp: card_urls_def valid_card_def list_all_iff)

end
