(* ===== verification/Records.thy ===== *)
theory Records
  imports Usage Identity Payloads
begin

text \<open>
  The record log's vocabulary (\<open>psych_runtime/core/records.py\<close>) and the reasons a log can be
  impossible (\<open>psych_runtime/core/corruption.py\<close>): one HOL record per record class with the
  fields of the class, one constructor of \<open>body\<close> per member of the union \<open>Record\<close>, and
  the field constraints and validators as \<open>valid_record\<close>. A field prefix names its class.

  Shown: a clamped text never exceeds its limit (for the limits that leave room for the
  truncation marker), so a \<open>ToolFailure\<close> can be built from whatever a failure said.
\<close>

section \<open>Enumerations\<close>

datatype queue_kind = Steer | FollowUp | NextRun

datatype terminal_state = Completed | Failed | Aborted | Abandoned | ForceSettled

datatype suspend_reason = Approval | Question | External | Timer | Breakpoint | Children

datatype tool_outcome = OutcomeOk | OutcomeError | OutcomeAborted | OutcomeUnknown

datatype corruption_reason =
    MultipleOpenOperations
  | UnknownOperation
  | RecordAfterFinish
  | NonConsecutiveSeq
  | NonConsecutiveAttempt
  | QueueAfterAbort
  | InvalidQueueCancellation
  | InconsistentStep
  | ToolCallMismatch
  | DuplicateToolInvocation
  | ProvisionedEntryMismatch
  | InvalidDeferredHandle
  | InvalidCompactionReason
  | InconsistentCost

section \<open>Tool failures\<close>

definition truncation_marker :: string where
  "truncation_marker = ''... [truncated]''"

definition clamped :: "string \<Rightarrow> int \<Rightarrow> string" where
  "clamped text limit =
     (if int (length text) \<le> limit then text
      else take (nat (max (limit - int (length truncation_marker)) 0)) text @ truncation_marker)"

record tool_failure =
  tf_kind :: string
  tf_message :: string
  tf_traceback :: "string option"
  tf_transient :: bool
  tf_traceback_is_for_the_model :: bool

text \<open>The constructor: the before-validator \<open>_clamp\<close>, then the field constraints.\<close>

definition mk_tool_failure :: "string \<Rightarrow> string \<Rightarrow> string option \<Rightarrow> bool \<Rightarrow> bool \<Rightarrow> tool_failure option" where
  "mk_tool_failure kind message tb transient for_model =
     (let f = \<lparr>tf_kind = kind, tf_message = clamped message 8192,
               tf_traceback = map_option (\<lambda>t. clamped t 65536) tb,
               tf_transient = transient, tf_traceback_is_for_the_model = for_model\<rparr>
      in if 1 \<le> length kind \<and> length kind \<le> 128 then Some f else None)"

definition valid_tool_failure :: "tool_failure \<Rightarrow> bool" where
  "valid_tool_failure f \<longleftrightarrow>
     1 \<le> length (tf_kind f) \<and> length (tf_kind f) \<le> 128 \<and> int (length (tf_message f)) \<le> 8192 \<and>
     (case tf_traceback f of None \<Rightarrow> True | Some t \<Rightarrow> int (length t) \<le> 65536)"

section \<open>Result attachments and timings\<close>

datatype stored_kind = StoredInline | StoredBlob | StoredPreviewOnly

record result_attachment =
  at_name :: string
  at_handle :: string
  at_content_type :: string
  at_size_bytes :: int
  at_observed_bytes :: int
  at_truncated :: bool
  at_data :: "byte list option"
  at_stored :: stored_kind
  at_sha256 :: "string option"
  at_readable :: bool

text \<open>\<open>_storage_is_consistent\<close>.\<close>

definition storage_is_consistent :: "result_attachment \<Rightarrow> bool" where
  "storage_is_consistent a \<longleftrightarrow>
     \<not> (at_stored a = StoredInline \<and> at_data a = None) \<and>
     \<not> (at_stored a \<noteq> StoredInline \<and> at_data a \<noteq> None) \<and>
     \<not> (at_observed_bytes a < at_size_bytes a)"

definition valid_attachment :: "result_attachment \<Rightarrow> bool" where
  "valid_attachment a \<longleftrightarrow>
     1 \<le> length (at_name a) \<and> length (at_name a) \<le> 512 \<and>
     1 \<le> length (at_handle a) \<and> length (at_handle a) \<le> 256 \<and>
     1 \<le> length (at_content_type a) \<and> length (at_content_type a) \<le> 128 \<and>
     0 \<le> at_size_bytes a \<and> 0 \<le> at_observed_bytes a \<and>
     (case at_sha256 a of None \<Rightarrow> True | Some h \<Rightarrow> length h = 64) \<and>
     storage_is_consistent a"

record model_timings =
  mt_queue_wait_seconds :: rat
  mt_time_to_first_token_seconds :: "rat option"
  mt_stream_duration_seconds :: rat

definition valid_timings :: "model_timings \<Rightarrow> bool" where
  "valid_timings t \<longleftrightarrow> 0 \<le> mt_queue_wait_seconds t \<and>
     opt_nonneg (mt_time_to_first_token_seconds t) \<and> 0 \<le> mt_stream_duration_seconds t"

section \<open>Lifecycle records\<close>

record run_admitted =
  ra_version_hash :: version_hash
  ra_input :: obj
  ra_idempotency_key :: "string option"
  ra_deadline_at :: timestamp
  ra_parent_run_id :: "run_id option"
  ra_delegation_depth :: int
  ra_replays_run_id :: "run_id option"
  ra_replay_from_step :: "string option"
  ra_breakpoints :: "string list"
  ra_step_mode :: bool
  ra_continues_run_id :: "run_id option"

record attempt_started =
  as_worker_id :: worker_id
  as_attempt_number :: int
  as_reclaimed_expired_lease :: bool

record run_settled =
  rs_state :: terminal_state
  rs_output :: "obj option"
  rs_failure :: "tool_failure option"
  rs_orphaned_attempt_id :: "attempt_id option"

section \<open>Turns and model calls\<close>

record turn_started =
  tu_turn :: int
  tu_step_id :: "step_id option"

record model_call_started =
  ms_turn :: int
  ms_model :: string
  ms_prompt_tokens_estimate :: "int option"
  ms_tool_names :: "string list"
  ms_system_prompt :: string

record model_call_finished =
  mf_turn :: int
  mf_model :: string
  mf_usage :: usage
  mf_usage_reported :: bool
  mf_cost :: "cost option"
  mf_timings :: model_timings
  mf_finish_reason :: string
  mf_text :: string
  mf_tool_calls :: "call_id list"

record model_call_failed =
  mx_turn :: int
  mx_model :: string
  mx_failure :: tool_failure
  mx_will_retry :: bool

section \<open>Tool calls\<close>

record tool_call_started =
  tcs_call_id :: call_id
  tcs_tool :: string
  tcs_arguments :: obj
  tcs_turn :: int
  tcs_step_id :: "step_id option"
  tcs_interruptible :: bool
  tcs_safe_to_retry :: bool
  tcs_parent_call_id :: "call_id option"

record tool_call_finished =
  tcf_call_id :: call_id
  tcf_outcome :: tool_outcome
  tcf_result :: json
  tcf_failure :: "tool_failure option"
  tcf_duration_seconds :: rat
  tcf_result_handle :: "string option"
  tcf_preview :: "string option"
  tcf_result_bytes :: int
  tcf_result_blob_key :: "string option"
  tcf_result_content_type :: "string option"
  tcf_attachments :: "result_attachment list"

text \<open>\<open>_offload_fields_are_consistent\<close>.\<close>

definition offload_fields_are_consistent :: "tool_call_finished \<Rightarrow> bool" where
  "offload_fields_are_consistent f \<longleftrightarrow>
     (tcf_result_blob_key f = None) = (tcf_result_content_type f = None) \<and>
     \<not> (tcf_result_blob_key f \<noteq> None \<and> tcf_result f \<noteq> JNull) \<and>
     (let handles = map at_handle (tcf_attachments f) in
        distinct handles \<and>
        (case tcf_result_handle f of None \<Rightarrow> True | Some h \<Rightarrow> h \<notin> set handles))"

section \<open>Steps\<close>

record step_started =
  ss_step_id :: step_id
  ss_name :: string
  ss_kind :: string
  ss_attempt_number :: int
  ss_input :: obj
  ss_path :: "path_elem list"
  ss_parent_step_id :: "step_id option"
  ss_iteration :: "int option"
  ss_replayed_from :: "run_id option"

record step_completed =
  sc_step_id :: step_id
  sc_output :: "obj option"
  sc_failure :: "tool_failure option"
  sc_child_run_id :: "run_id option"
  sc_skipped :: bool
  sc_will_retry :: bool
  sc_retry_at :: "timestamp option"

definition step_completed_shape :: "step_completed \<Rightarrow> bool" where
  "step_completed_shape s \<longleftrightarrow>
     \<not> (sc_will_retry s \<and> sc_failure s = None) \<and>
     \<not> (sc_skipped s \<and> (sc_output s \<noteq> None \<or> sc_failure s \<noteq> None))"

section \<open>Interrupts, steering, suspension\<close>

record abort_requested =
  ab_reason :: string
  ab_requested_by :: "string option"

record queue_enqueued =
  qe_queue :: queue_kind
  qe_entry_id :: string
  qe_payload :: obj

record queue_cancelled =
  qx_entry_id :: string

record queue_consumed =
  qc_entry_id :: string

record subagent_spawned =
  sp_child_run_id :: run_id
  sp_name :: string
  sp_call_id :: call_id
  sp_child_version_hash :: version_hash
  sp_purpose :: string
  sp_task :: string
  sp_deliverable :: string
  sp_tools :: "string list"
  sp_model :: string
  sp_delegation_depth :: int
  sp_background :: bool

record subagent_messaged =
  sm_child_run_id :: run_id
  sm_name :: string
  sm_call_id :: call_id
  sm_entry_id :: string
  sm_message :: string

record subagent_finished =
  sf_child_run_id :: run_id
  sf_name :: string
  sf_state :: terminal_state
  sf_output :: "obj option"
  sf_failure :: "tool_failure option"
  sf_usage :: usage
  sf_unreported_usage_calls :: int
  sf_cost :: "cost option"
  sf_unpriced_model_calls :: int

record suspended =
  su_reason :: suspend_reason
  su_payload_schema :: obj
  su_expires_at :: timestamp
  su_step_id :: "step_id option"
  su_step_name :: "string option"
  su_event :: "string option"
  su_wake_at :: "timestamp option"
  su_pending_call_id :: "call_id option"
  su_question :: "string option"
  su_questions :: "asked_question list"

record resumed =
  re_payload :: obj
  re_approved :: "bool option"
  re_resumed_by :: "string option"

section \<open>Projections over the conversation\<close>

datatype compaction_reason = ByThreshold | ByHand | ByOverflow

record compaction_applied =
  ca_reason :: compaction_reason
  ca_timings :: model_timings
  ca_replaced_from_seq :: int
  ca_replaced_to_seq :: int
  ca_summary :: string
  ca_model :: string
  ca_usage :: usage
  ca_usage_reported :: bool
  ca_cost :: "cost option"

record task_list_updated =
  tl_tasks :: "task list"

record component_shown =
  cs_component :: component

section \<open>The union\<close>

datatype body =
    RunAdmitted run_admitted
  | AttemptStarted attempt_started
  | RunSettled run_settled
  | TurnStarted turn_started
  | ModelCallStarted model_call_started
  | ModelCallFinished model_call_finished
  | ModelCallFailed model_call_failed
  | ToolCallStarted tool_call_started
  | ToolCallFinished tool_call_finished
  | StepStarted step_started
  | StepCompleted step_completed
  | AbortRequested abort_requested
  | QueueEnqueued queue_enqueued
  | QueueCancelled queue_cancelled
  | QueueConsumed queue_consumed
  | Suspended suspended
  | Resumed resumed
  | CompactionApplied compaction_applied
  | TaskListUpdated task_list_updated
  | ComponentShown component_shown
  | SubagentSpawned subagent_spawned
  | SubagentMessaged subagent_messaged
  | SubagentFinished subagent_finished

text \<open>\<open>_RecordBase\<close> and the record's own fields.\<close>

record log_record =
  r_run_id :: run_id
  r_seq :: int
  r_at :: timestamp
  r_scope :: scope
  r_attempt_id :: "attempt_id option"
  r_body :: body

section \<open>Field constraints\<close>

definition len_between :: "nat \<Rightarrow> nat \<Rightarrow> string \<Rightarrow> bool" where
  "len_between lo hi s \<longleftrightarrow> lo \<le> length s \<and> length s \<le> hi"

definition opt_len_le :: "nat \<Rightarrow> string option \<Rightarrow> bool" where
  "opt_len_le hi s = (case s of None \<Rightarrow> True | Some t \<Rightarrow> length t \<le> hi)"

definition opt_ok :: "('a \<Rightarrow> bool) \<Rightarrow> 'a option \<Rightarrow> bool" where
  "opt_ok P x = (case x of None \<Rightarrow> True | Some y \<Rightarrow> P y)"

fun valid_body :: "body \<Rightarrow> bool" where
  "valid_body (RunAdmitted r) =
     (opt_len_le 256 (ra_idempotency_key r) \<and> 0 \<le> ra_delegation_depth r \<and>
      opt_len_le 128 (ra_replay_from_step r))"
| "valid_body (AttemptStarted r) = (1 \<le> as_attempt_number r)"
| "valid_body (RunSettled r) = opt_ok valid_tool_failure (rs_failure r)"
| "valid_body (TurnStarted r) = (1 \<le> tu_turn r)"
| "valid_body (ModelCallStarted r) =
     (1 \<le> ms_turn r \<and> ms_model r \<noteq> [] \<and> opt_ok (\<lambda>n. 0 \<le> n) (ms_prompt_tokens_estimate r))"
| "valid_body (ModelCallFinished r) =
     (1 \<le> mf_turn r \<and> mf_model r \<noteq> [] \<and> valid_usage (mf_usage r) \<and> opt_ok valid_cost (mf_cost r) \<and>
      valid_timings (mf_timings r) \<and> mf_finish_reason r \<noteq> [])"
| "valid_body (ModelCallFailed r) =
     (1 \<le> mx_turn r \<and> mx_model r \<noteq> [] \<and> valid_tool_failure (mx_failure r))"
| "valid_body (ToolCallStarted r) = (tcs_tool r \<noteq> [] \<and> 1 \<le> tcs_turn r)"
| "valid_body (ToolCallFinished r) =
     (opt_ok valid_tool_failure (tcf_failure r) \<and> 0 \<le> tcf_duration_seconds r \<and> 0 \<le> tcf_result_bytes r \<and>
      list_all valid_attachment (tcf_attachments r) \<and> offload_fields_are_consistent r)"
| "valid_body (StepStarted r) =
     (ss_name r \<noteq> [] \<and> len_between 1 32 (ss_kind r) \<and> 1 \<le> ss_attempt_number r \<and>
      opt_ok (\<lambda>n. 0 \<le> n) (ss_iteration r))"
| "valid_body (StepCompleted r) =
     (opt_ok valid_tool_failure (sc_failure r) \<and> step_completed_shape r)"
| "valid_body (AbortRequested r) = (length (ab_reason r) \<le> 1024 \<and> opt_len_le 256 (ab_requested_by r))"
| "valid_body (QueueEnqueued r) = len_between 1 128 (qe_entry_id r)"
| "valid_body (QueueCancelled r) = len_between 1 128 (qx_entry_id r)"
| "valid_body (QueueConsumed r) = len_between 1 128 (qc_entry_id r)"
| "valid_body (Suspended r) =
     (opt_len_le 128 (su_step_name r) \<and> opt_len_le 128 (su_event r) \<and> opt_len_le 8192 (su_question r) \<and>
      list_all valid_asked_question (su_questions r))"
| "valid_body (Resumed r) = opt_len_le 256 (re_resumed_by r)"
| "valid_body (CompactionApplied r) =
     (valid_timings (ca_timings r) \<and> 1 \<le> ca_replaced_from_seq r \<and> 1 \<le> ca_replaced_to_seq r \<and>
      ca_summary r \<noteq> [] \<and> valid_usage (ca_usage r) \<and> opt_ok valid_cost (ca_cost r))"
| "valid_body (TaskListUpdated r) = list_all valid_task (tl_tasks r)"
| "valid_body (ComponentShown r) = valid_component (cs_component r)"
| "valid_body (SubagentSpawned r) =
     (len_between 1 128 (sp_name r) \<and> length (sp_purpose r) \<le> 2048 \<and> length (sp_task r) \<le> 65536 \<and>
      length (sp_deliverable r) \<le> 4096 \<and> len_between 1 256 (sp_model r) \<and> 0 \<le> sp_delegation_depth r)"
| "valid_body (SubagentMessaged r) =
     (len_between 1 128 (sm_name r) \<and> len_between 1 128 (sm_entry_id r) \<and> length (sm_message r) \<le> 65536)"
| "valid_body (SubagentFinished r) =
     (len_between 1 128 (sf_name r) \<and> opt_ok valid_tool_failure (sf_failure r) \<and> valid_usage (sf_usage r) \<and>
      0 \<le> sf_unreported_usage_calls r \<and> opt_ok valid_cost (sf_cost r) \<and> 0 \<le> sf_unpriced_model_calls r)"

definition valid_record :: "log_record \<Rightarrow> bool" where
  "valid_record r \<longleftrightarrow> 1 \<le> r_seq r \<and> valid_scope (r_scope r) \<and> valid_body (r_body r)"

section \<open>Facts\<close>

lemma length_marker: "length truncation_marker = 15"
  by (simp add: truncation_marker_def)

lemma clamped_length: "15 \<le> limit \<Longrightarrow> int (length (clamped text limit)) \<le> limit"
  by (simp add: clamped_def length_marker)

lemma clamped_id: "int (length text) \<le> limit \<Longrightarrow> clamped text limit = text"
  by (simp add: clamped_def)

lemma clamped_idem: "15 \<le> limit \<Longrightarrow> clamped (clamped text limit) limit = clamped text limit"
  by (rule clamped_id) (rule clamped_length)

lemma clamped_caps [simp]:
  "length (clamped t 8192) \<le> 8192" "length (clamped t 65536) \<le> 65536"
  using clamped_length[of 8192 t] clamped_length[of 65536 t] by linarith+

lemma mk_tool_failure_valid:
  "mk_tool_failure k m tb t fm = Some f \<Longrightarrow> valid_tool_failure f"
  by (auto simp: mk_tool_failure_def valid_tool_failure_def Let_def
           split: if_splits option.splits)

end
