(* ===== verification/View.thy ===== *)
theory View
  imports Records
begin

text \<open>
  The derived state of a Run (\<open>RunStateView\<close> and the dataclasses it holds, in
  \<open>psych_runtime/core/reducer.py\<close>) and its computed properties. The field \<open>v_x\<close> is the
  attribute \<open>x\<close>; the accumulated suspension time is kept in microseconds
  (\<open>v_suspended_us\<close>) where the code keeps float seconds.
\<close>

record open_tool_call =
  oc_call_id :: call_id
  oc_tool :: string
  oc_arguments :: obj
  oc_turn :: int
  oc_step_id :: "step_id option"
  oc_interruptible :: bool
  oc_safe_to_retry :: bool
  oc_started_at :: timestamp

record pending_queue_entry =
  pe_entry_id :: string
  pe_queue :: queue_kind
  pe_payload :: obj
  pe_enqueued_seq :: int

record child_run =
  cr_run_id :: run_id
  cr_name :: string
  cr_call_id :: call_id
  cr_version_hash :: version_hash
  cr_depth :: int
  cr_background :: bool
  cr_tools :: "string list"
  cr_model :: string
  cr_spawned_seq :: int
  cr_terminal_state :: "terminal_state option"
  cr_output :: "obj option"
  cr_failure :: "tool_failure option"
  cr_usage :: usage
  cr_unreported_usage_calls :: int
  cr_cost :: "cost option"
  cr_unpriced_model_calls :: int
  cr_messages_sent :: int
  cr_finished_seq :: "int option"

definition child_alive :: "child_run \<Rightarrow> bool" where
  "child_alive c \<longleftrightarrow> cr_terminal_state c = None"

record step_record =
  sr_step_id :: step_id
  sr_name :: string
  sr_kind :: string
  sr_attempt_number :: int
  sr_input :: obj
  sr_completed :: bool
  sr_output :: "obj option"
  sr_failure :: "tool_failure option"
  sr_child_run_id :: "run_id option"
  sr_path :: "path_elem list"
  sr_parent_step_id :: "step_id option"
  sr_iteration :: "int option"
  sr_skipped :: bool
  sr_will_retry :: bool
  sr_retry_at :: "timestamp option"
  sr_started_at :: "timestamp option"
  sr_completed_at :: "timestamp option"
  sr_started_seq :: int
  sr_completed_seq :: "int option"
  sr_replayed_from :: "run_id option"

definition step_settled :: "step_record \<Rightarrow> bool" where
  "step_settled s \<longleftrightarrow> sr_completed s \<and> \<not> sr_will_retry s"

record step_resume =
  sv_reason :: suspend_reason
  sv_payload :: obj
  sv_approved :: "bool option"
  sv_seq :: int

record tool_result =
  tr_call_id :: call_id
  tr_tool :: string
  tr_outcome :: tool_outcome
  tr_result :: json
  tr_failure :: "tool_failure option"
  tr_duration_seconds :: rat
  tr_result_handle :: "string option"
  tr_preview :: "string option"
  tr_turn :: int
  tr_blob_key :: "string option"
  tr_content_type :: "string option"
  tr_attachments :: "result_attachment list"

record repeat_tally =
  rt_result_digest :: string
  rt_count :: int

record run_state_view =
  v_run_id :: run_id
  v_scope :: scope
  v_version_hash :: version_hash
  v_head_seq :: int
  v_admitted :: bool
  v_settled :: bool
  v_terminal_state :: "terminal_state option"
  v_output :: "obj option"
  v_failure :: "tool_failure option"
  v_deadline_at :: "timestamp option"
  v_parent_run_id :: "run_id option"
  v_delegation_depth :: int
  v_continues_run_id :: "run_id option"
  v_idempotency_key :: "string option"
  v_run_input :: obj
  v_attempt_count :: int
  v_current_attempt :: "attempt_id option"
  v_turn :: int
  v_turn_open :: bool
  v_model_call_open :: bool
  v_abort_seq :: "int option"
  v_suspended :: bool
  v_suspend_reason :: "suspend_reason option"
  v_suspend_expires_at :: "timestamp option"
  v_suspended_at :: "timestamp option"
  v_pending_approval_call_id :: "call_id option"
  v_suspend_question :: "string option"
  v_suspend_questions :: "asked_question list"
  v_resumed_since_attempt :: bool
  v_suspended_us :: int
  v_resume_payloads :: "(call_id, obj) dict"
  v_approval_decisions :: "(call_id, bool) dict"
  v_open_tool_calls :: "(call_id, open_tool_call) dict"
  v_tool_results :: "tool_result list"
  v_steps :: "(step_id, step_record) dict"
  v_step_starts :: int
  v_suspended_step_id :: "step_id option"
  v_suspended_step_name :: "string option"
  v_suspend_payload_schema :: obj
  v_suspend_event :: "string option"
  v_suspend_wake_at :: "timestamp option"
  v_step_resumes :: "(step_id, step_resume list) dict"
  v_workflow_state_updates :: obj
  v_replays_run_id :: "run_id option"
  v_replay_from_step :: "string option"
  v_breakpoints :: "string list"
  v_step_mode :: bool
  v_pending_steer :: "pending_queue_entry list"
  v_pending_follow_up :: "pending_queue_entry list"
  v_pending_next_run :: "pending_queue_entry list"
  v_tasks :: "task list"
  v_components :: "component list"
  v_usage :: usage
  v_unreported_usage_calls :: int
  v_cost :: "cost option"
  v_unpriced_model_calls :: int
  v_provider_reported_costs :: int
  v_model_calls :: int
  v_failed_model_calls :: int
  v_transient_retries_used :: int
  v_last_prompt_tokens :: int
  v_failure_streaks :: "(string, int) dict"
  v_repeat_counts :: "(string, repeat_tally) dict"
  v_compaction_boundary_seq :: int
  v_compaction_summaries :: "string list"
  v_compaction_calls :: int
  v_children :: "(run_id, child_run) dict"
  v_result_handles :: "(string, call_id) dict"
  v_program_call_ids :: "call_id set"
  v_program_binding_call_ids :: "call_id set"
  v_program_preserved_bytes :: int
  v_program_tool_calls :: int

text \<open>\<open>RunStateView(run_id=..., scope=..., version_hash=VersionHash(""))\<close>: the field defaults.\<close>

definition initial_view :: "run_id \<Rightarrow> scope \<Rightarrow> run_state_view" where
  "initial_view rid sc = \<lparr>
     v_run_id = rid, v_scope = sc, v_version_hash = [],
     v_head_seq = 0, v_admitted = False, v_settled = False, v_terminal_state = None,
     v_output = None, v_failure = None, v_deadline_at = None, v_parent_run_id = None,
     v_delegation_depth = 0, v_continues_run_id = None, v_idempotency_key = None, v_run_input = [],
     v_attempt_count = 0, v_current_attempt = None,
     v_turn = 0, v_turn_open = False, v_model_call_open = False, v_abort_seq = None,
     v_suspended = False, v_suspend_reason = None, v_suspend_expires_at = None,
     v_suspended_at = None, v_pending_approval_call_id = None, v_suspend_question = None,
     v_suspend_questions = [], v_resumed_since_attempt = False, v_suspended_us = 0,
     v_resume_payloads = [], v_approval_decisions = [], v_open_tool_calls = [], v_tool_results = [],
     v_steps = [], v_step_starts = 0, v_suspended_step_id = None, v_suspended_step_name = None,
     v_suspend_payload_schema = [], v_suspend_event = None, v_suspend_wake_at = None,
     v_step_resumes = [], v_workflow_state_updates = [], v_replays_run_id = None,
     v_replay_from_step = None, v_breakpoints = [], v_step_mode = False,
     v_pending_steer = [], v_pending_follow_up = [], v_pending_next_run = [],
     v_tasks = [], v_components = [], v_usage = 0, v_unreported_usage_calls = 0, v_cost = None,
     v_unpriced_model_calls = 0, v_provider_reported_costs = 0, v_model_calls = 0,
     v_failed_model_calls = 0, v_transient_retries_used = 0, v_last_prompt_tokens = 0,
     v_failure_streaks = [], v_repeat_counts = [], v_compaction_boundary_seq = 0,
     v_compaction_summaries = [], v_compaction_calls = 0, v_children = [], v_result_handles = [],
     v_program_call_ids = {}, v_program_binding_call_ids = {}, v_program_preserved_bytes = 0,
     v_program_tool_calls = 0\<rparr>"

section \<open>Computed properties\<close>

definition has_dangling_tool_calls :: "run_state_view \<Rightarrow> bool" where
  "has_dangling_tool_calls st \<longleftrightarrow> v_open_tool_calls st \<noteq> []"

definition view_aborted :: "run_state_view \<Rightarrow> bool" where
  "view_aborted st \<longleftrightarrow> v_abort_seq st \<noteq> None"

definition effective_deadline_at :: "run_state_view \<Rightarrow> timestamp option" where
  "effective_deadline_at st =
     (case v_deadline_at st of None \<Rightarrow> None | Some d \<Rightarrow> Some (d + v_suspended_us st))"

definition pending_call :: "run_state_view \<Rightarrow> open_tool_call option" where
  "pending_call st =
     (case v_pending_approval_call_id st of None \<Rightarrow> None
      | Some c \<Rightarrow> dict_get (v_open_tool_calls st) c)"

definition live_children :: "run_state_view \<Rightarrow> child_run list" where
  "live_children st = filter child_alive (map snd (v_children st))"

definition is_runnable :: "run_state_view \<Rightarrow> bool" where
  "is_runnable st \<longleftrightarrow> v_admitted st \<and> \<not> v_settled st \<and> \<not> v_suspended st"

end
