(* ===== verification/Reducer.thy ===== *)
theory Reducer
  imports View
begin

text \<open>
  The reducer (\<open>psych_runtime/core/reducer.py\<close>): the pure fold from a record log to the
  state of a Run, which refuses every log the protocol cannot produce. One definition per
  record kind, holding the body of its \<open>case\<close> in \<open>reduce\<close>; \<open>fold_step\<close> is one turn of the
  loop with its four checks, \<open>reduce\<close> the whole function. The sets and dictionaries that
  \<open>reduce\<close> keeps in local variables are the record \<open>fold_ctx\<close>.

  An error is the reason, the Run and the sequence of \<open>CorruptLog\<close>, or \<open>ValueError\<close>; the
  prose of the message is left out. \<open>reduce\<close> is a function here, so what it returns is
  modelled and not the way \<open>_continue_from\<close> shares objects with the prior state.
\<close>

datatype fold_error =
    CorruptLog corruption_reason run_id int
  | ValueError

record fold_ctx =
  fc_expected_seq :: int
  fc_started :: "call_id set"
  fc_settled :: "call_id set"
  fc_enqueued :: "(string, pending_queue_entry) dict"
  fc_cancelled :: "string set"
  fc_consumed :: "string set"

type_synonym fold_state = "run_state_view \<times> fold_ctx"

definition corrupt :: "corruption_reason \<Rightarrow> run_state_view \<Rightarrow> log_record \<Rightarrow> fold_error + 'a" where
  "corrupt reason st r = Inl (CorruptLog reason (v_run_id st) (r_seq r))"

definition run_code_tool_name :: string where
  "run_code_tool_name = ''run_code''"

section \<open>Checks\<close>

definition check_belongs :: "log_record \<Rightarrow> run_state_view \<Rightarrow> bool" where
  "check_belongs r st \<longleftrightarrow>
     r_run_id r = v_run_id st \<and> sc_tenant (r_scope r) = sc_tenant (v_scope st)"

definition check_sequence :: "log_record \<Rightarrow> int \<Rightarrow> bool" where
  "check_sequence r expected \<longleftrightarrow> r_seq r = expected"

definition check_turn :: "int \<Rightarrow> int \<Rightarrow> bool" where
  "check_turn turn state_turn \<longleftrightarrow> turn = state_turn"

definition fold_cost :: "run_state_view \<Rightarrow> cost option \<Rightarrow> log_record \<Rightarrow> fold_error + run_state_view" where
  "fold_cost st cost r =
     (case cost of
        None \<Rightarrow> Inr (st\<lparr>v_unpriced_model_calls := v_unpriced_model_calls st + 1\<rparr>)
      | Some c \<Rightarrow>
          let st1 = (if c_source c = Provider
                     then st\<lparr>v_provider_reported_costs := v_provider_reported_costs st + 1\<rparr> else st)
          in case v_cost st1 of
               None \<Rightarrow> Inr (st1\<lparr>v_cost := Some c\<rparr>)
             | Some sofar \<Rightarrow>
                 (case cost_add sofar c of
                    None \<Rightarrow> corrupt InconsistentCost st r
                  | Some t \<Rightarrow> Inr (st1\<lparr>v_cost := Some t\<rparr>)))"

definition check_deferred_handle :: "run_state_view \<Rightarrow> tool_call_started \<Rightarrow> bool" where
  "check_deferred_handle st s \<longleftrightarrow>
     (case dict_get (tcs_arguments s) ''handle'' of
        Some (JStr handle) \<Rightarrow>
          tcs_tool s \<noteq> ''read_tool_output'' \<or> tcs_parent_call_id s \<noteq> None \<or>
          handle \<in> dict_keys (v_result_handles st)
      | _ \<Rightarrow> True)"

section \<open>Derivation helpers\<close>

fun queue_for :: "run_state_view \<Rightarrow> queue_kind \<Rightarrow> pending_queue_entry list" where
  "queue_for st Steer = v_pending_steer st"
| "queue_for st FollowUp = v_pending_follow_up st"
| "queue_for st NextRun = v_pending_next_run st"

fun set_queue :: "run_state_view \<Rightarrow> queue_kind \<Rightarrow> pending_queue_entry list \<Rightarrow> run_state_view" where
  "set_queue st Steer q = st\<lparr>v_pending_steer := q\<rparr>"
| "set_queue st FollowUp q = st\<lparr>v_pending_follow_up := q\<rparr>"
| "set_queue st NextRun q = st\<lparr>v_pending_next_run := q\<rparr>"

text \<open>\<open>del queue[index]\<close> at the first entry with the id.\<close>

fun drop_entry :: "string \<Rightarrow> pending_queue_entry list \<Rightarrow> pending_queue_entry list" where
  "drop_entry eid [] = []"
| "drop_entry eid (p # ps) = (if pe_entry_id p = eid then ps else p # drop_entry eid ps)"

definition remove_entry :: "run_state_view \<Rightarrow> pending_queue_entry \<Rightarrow> run_state_view" where
  "remove_entry st e = set_queue st (pe_queue e) (drop_entry (pe_entry_id e) (queue_for st (pe_queue e)))"

definition digest_length :: nat where "digest_length = 16"

definition call_digest :: "string \<Rightarrow> json \<Rightarrow> json option \<Rightarrow> string" where
  "call_digest tool arguments result =
     (let body = [(''tool'', JStr tool), (''arguments'', arguments)]
                   @ (case result of None \<Rightarrow> [] | Some res \<Rightarrow> [(''result'', res)]);
          payload = json_dumps (JObj body)
      in take digest_length (sha256_hex (utf8 payload)))"

definition update_repeat_count ::
    "run_state_view \<Rightarrow> string \<Rightarrow> obj \<Rightarrow> tool_call_finished \<Rightarrow> tool_outcome \<Rightarrow> run_state_view" where
  "update_repeat_count st tool arguments f outcome =
     (if outcome \<noteq> OutcomeOk then st
      else let answer = (case tcf_result_blob_key f of None \<Rightarrow> tcf_result f | Some k \<Rightarrow> JStr k);
               call_key = call_digest tool (JObj arguments) None;
               answer_key = call_digest tool (JObj arguments) (Some answer);
               fresh = \<lparr>rt_result_digest = answer_key, rt_count = 1\<rparr>
           in case dict_get (v_repeat_counts st) call_key of
                None \<Rightarrow> st\<lparr>v_repeat_counts := dict_put call_key fresh (v_repeat_counts st)\<rparr>
              | Some tally \<Rightarrow>
                  if rt_result_digest tally \<noteq> answer_key
                  then st\<lparr>v_repeat_counts := dict_put call_key fresh (v_repeat_counts st)\<rparr>
                  else st\<lparr>v_repeat_counts := dict_put call_key (tally\<lparr>rt_count := rt_count tally + 1\<rparr>)
                                               (v_repeat_counts st)\<rparr>)"

definition update_failure_streak :: "run_state_view \<Rightarrow> string \<Rightarrow> tool_outcome \<Rightarrow> run_state_view" where
  "update_failure_streak st tool outcome =
     (case outcome of
        OutcomeOk \<Rightarrow> st\<lparr>v_failure_streaks := dict_del tool (v_failure_streaks st)\<rparr>
      | OutcomeError \<Rightarrow> st\<lparr>v_failure_streaks :=
          dict_put tool ((case dict_get (v_failure_streaks st) tool of None \<Rightarrow> 0 | Some n \<Rightarrow> n) + 1) (v_failure_streaks st)\<rparr>
      | OutcomeUnknown \<Rightarrow> st\<lparr>v_failure_streaks :=
          dict_put tool ((case dict_get (v_failure_streaks st) tool of None \<Rightarrow> 0 | Some n \<Rightarrow> n) + 1) (v_failure_streaks st)\<rparr>
      | OutcomeAborted \<Rightarrow> st)"

section \<open>One definition per record kind\<close>

definition on_run_admitted :: "log_record \<Rightarrow> run_admitted \<Rightarrow> run_state_view \<Rightarrow> fold_error + run_state_view" where
  "on_run_admitted r b st =
     (if v_admitted st then corrupt MultipleOpenOperations st r
      else Inr (st\<lparr>v_admitted := True,
                   v_version_hash := ra_version_hash b,
                   v_deadline_at := Some (ra_deadline_at b),
                   v_parent_run_id := ra_parent_run_id b,
                   v_delegation_depth := ra_delegation_depth b,
                   v_continues_run_id := ra_continues_run_id b,
                   v_idempotency_key := ra_idempotency_key b,
                   v_run_input := ra_input b,
                   v_replays_run_id := ra_replays_run_id b,
                   v_replay_from_step := ra_replay_from_step b,
                   v_breakpoints := ra_breakpoints b,
                   v_step_mode := ra_step_mode b\<rparr>))"

definition on_attempt_started :: "log_record \<Rightarrow> attempt_started \<Rightarrow> run_state_view \<Rightarrow> fold_error + run_state_view" where
  "on_attempt_started r b st =
     (if \<not> v_admitted st then corrupt UnknownOperation st r
      else if as_attempt_number b \<noteq> v_attempt_count st + 1 then corrupt NonConsecutiveAttempt st r
      else Inr (st\<lparr>v_resumed_since_attempt := False,
                   v_attempt_count := as_attempt_number b,
                   v_current_attempt := r_attempt_id r,
                   v_turn_open := False,
                   v_model_call_open := False\<rparr>))"

definition on_turn_started :: "log_record \<Rightarrow> turn_started \<Rightarrow> run_state_view \<Rightarrow> fold_error + run_state_view" where
  "on_turn_started r b st =
     (if v_turn_open st then corrupt MultipleOpenOperations st r
      else if tu_turn b \<noteq> v_turn st + 1 then corrupt NonConsecutiveAttempt st r
      else Inr (st\<lparr>v_turn := tu_turn b, v_turn_open := True\<rparr>))"

definition on_model_call_started :: "log_record \<Rightarrow> model_call_started \<Rightarrow> run_state_view \<Rightarrow> fold_error + run_state_view" where
  "on_model_call_started r b st =
     (if \<not> v_turn_open st then corrupt UnknownOperation st r
      else if \<not> check_turn (ms_turn b) (v_turn st) then corrupt UnknownOperation st r
      else if v_model_call_open st then corrupt MultipleOpenOperations st r
      else Inr (st\<lparr>v_model_call_open := True\<rparr>))"

definition on_model_call_finished :: "log_record \<Rightarrow> model_call_finished \<Rightarrow> run_state_view \<Rightarrow> fold_error + run_state_view" where
  "on_model_call_finished r b st =
     (if \<not> v_model_call_open st then corrupt UnknownOperation st r
      else if \<not> check_turn (mf_turn b) (v_turn st) then corrupt UnknownOperation st r
      else let st1 = st\<lparr>v_model_calls := v_model_calls st + 1,
                        v_usage := v_usage st + mf_usage b,
                        v_unreported_usage_calls := (if \<not> mf_usage_reported b
                          then v_unreported_usage_calls st + 1 else v_unreported_usage_calls st),
                        v_last_prompt_tokens :=
                          u_input (mf_usage b) + u_cache_read (mf_usage b) + u_cache_write (mf_usage b)\<rparr>
           in case fold_cost st1 (mf_cost b) r of
                Inl e \<Rightarrow> Inl e
              | Inr st2 \<Rightarrow> Inr (st2\<lparr>v_model_call_open := False, v_turn_open := False\<rparr>))"

definition on_model_call_failed :: "log_record \<Rightarrow> model_call_failed \<Rightarrow> run_state_view \<Rightarrow> fold_error + run_state_view" where
  "on_model_call_failed r b st =
     (if \<not> v_model_call_open st then corrupt UnknownOperation st r
      else if \<not> check_turn (mx_turn b) (v_turn st) then corrupt UnknownOperation st r
      else Inr (st\<lparr>v_failed_model_calls := v_failed_model_calls st + 1,
                   v_transient_retries_used := (if mx_will_retry b
                     then v_transient_retries_used st + 1 else v_transient_retries_used st),
                   v_model_call_open := False,
                   v_turn_open := False\<rparr>))"

definition count_program_call :: "tool_call_started \<Rightarrow> run_state_view \<Rightarrow> run_state_view" where
  "count_program_call b st =
     (if tcs_tool b = run_code_tool_name
      then st\<lparr>v_program_call_ids := insert (tcs_call_id b) (v_program_call_ids st)\<rparr>
      else case tcs_parent_call_id b of
             None \<Rightarrow> st
           | Some parent \<Rightarrow>
               if parent \<in> v_program_call_ids st
               then st\<lparr>v_program_tool_calls := v_program_tool_calls st + 1,
                       v_program_binding_call_ids := insert (tcs_call_id b) (v_program_binding_call_ids st)\<rparr>
               else st)"

definition on_tool_call_started :: "log_record \<Rightarrow> tool_call_started \<Rightarrow> fold_state \<Rightarrow> fold_error + fold_state" where
  "on_tool_call_started r b s = (case s of (st, cx) \<Rightarrow>
     if tcs_call_id b \<in> fc_started cx then corrupt DuplicateToolInvocation st r
     else if \<not> check_turn (tcs_turn b) (max (v_turn st) 1) then corrupt UnknownOperation st r
     else let st1 = count_program_call b st in
       if \<not> check_deferred_handle st1 b then corrupt InvalidDeferredHandle st r
       else Inr (st1\<lparr>v_open_tool_calls := dict_put (tcs_call_id b)
                      \<lparr>oc_call_id = tcs_call_id b, oc_tool = tcs_tool b, oc_arguments = tcs_arguments b,
                       oc_turn = tcs_turn b, oc_step_id = tcs_step_id b,
                       oc_interruptible = tcs_interruptible b, oc_safe_to_retry = tcs_safe_to_retry b,
                       oc_started_at = r_at r\<rparr>
                      (v_open_tool_calls st1)\<rparr>,
                 cx\<lparr>fc_started := insert (tcs_call_id b) (fc_started cx)\<rparr>))"

definition register_handles :: "tool_call_finished \<Rightarrow> (string, call_id) dict \<Rightarrow> (string, call_id) dict" where
  "register_handles b d =
     (let d1 = (case tcf_result_handle b of None \<Rightarrow> d | Some h \<Rightarrow> dict_put h (tcf_call_id b) d)
      in fold (\<lambda>a d. if at_readable a then dict_put (at_handle a) (tcf_call_id b) d else d)
           (tcf_attachments b) d1)"

definition settled_result :: "open_tool_call \<Rightarrow> tool_call_finished \<Rightarrow> tool_result" where
  "settled_result oc b =
     \<lparr>tr_call_id = tcf_call_id b, tr_tool = oc_tool oc, tr_outcome = tcf_outcome b,
      tr_result = tcf_result b, tr_failure = tcf_failure b,
      tr_duration_seconds = tcf_duration_seconds b, tr_result_handle = tcf_result_handle b,
      tr_preview = tcf_preview b, tr_turn = oc_turn oc, tr_blob_key = tcf_result_blob_key b,
      tr_content_type = tcf_result_content_type b, tr_attachments = tcf_attachments b\<rparr>"

definition on_tool_call_finished :: "log_record \<Rightarrow> tool_call_finished \<Rightarrow> fold_state \<Rightarrow> fold_error + fold_state" where
  "on_tool_call_finished r b s = (case s of (st, cx) \<Rightarrow>
     (case dict_get (v_open_tool_calls st) (tcf_call_id b) of
        None \<Rightarrow> corrupt ToolCallMismatch st r
      | Some oc \<Rightarrow>
          let from_program = tcf_call_id b \<in> v_program_binding_call_ids st;
              st1 = st\<lparr>v_open_tool_calls := dict_del (tcf_call_id b) (v_open_tool_calls st),
                       v_program_binding_call_ids := v_program_binding_call_ids st - {tcf_call_id b},
                       v_program_preserved_bytes :=
                         (if from_program \<and> tcf_result_handle b \<noteq> None
                          then v_program_preserved_bytes st + tcf_result_bytes b
                          else v_program_preserved_bytes st),
                       v_result_handles := register_handles b (v_result_handles st),
                       v_tool_results := v_tool_results st @ [settled_result oc b]\<rparr>;
              st2 = update_failure_streak st1 (oc_tool oc) (tcf_outcome b);
              st3 = update_repeat_count st2 (oc_tool oc) (oc_arguments oc) b (tcf_outcome b)
          in Inr (st3, cx\<lparr>fc_settled := insert (tcf_call_id b) (fc_settled cx)\<rparr>)))"

definition on_step_started :: "log_record \<Rightarrow> step_started \<Rightarrow> run_state_view \<Rightarrow> fold_error + run_state_view" where
  "on_step_started r b st =
     (let accept = Inr (st\<lparr>v_steps := dict_put (ss_step_id b)
                 \<lparr>sr_step_id = ss_step_id b, sr_name = ss_name b, sr_kind = ss_kind b,
                  sr_attempt_number = ss_attempt_number b, sr_input = ss_input b, sr_completed = False,
                  sr_output = None, sr_failure = None, sr_child_run_id = None, sr_path = ss_path b,
                  sr_parent_step_id = ss_parent_step_id b, sr_iteration = ss_iteration b,
                  sr_skipped = False, sr_will_retry = False, sr_retry_at = None,
                  sr_started_at = Some (r_at r), sr_completed_at = None, sr_started_seq = r_seq r,
                  sr_completed_seq = None, sr_replayed_from = ss_replayed_from b\<rparr> (v_steps st),
                v_step_starts := v_step_starts st + 1\<rparr>)
      in case dict_get (v_steps st) (ss_step_id b) of
           Some existing \<Rightarrow>
             if sr_completed existing \<and> \<not> sr_will_retry existing then corrupt InconsistentStep st r
             else if ss_attempt_number b \<noteq> sr_attempt_number existing + 1 then corrupt NonConsecutiveAttempt st r
             else accept
         | None \<Rightarrow>
             if ss_attempt_number b \<noteq> 1 then corrupt NonConsecutiveAttempt st r else accept)"

definition on_step_completed :: "log_record \<Rightarrow> step_completed \<Rightarrow> run_state_view \<Rightarrow> fold_error + run_state_view" where
  "on_step_completed r b st =
     (case dict_get (v_steps st) (sc_step_id b) of
        None \<Rightarrow> corrupt InconsistentStep st r
      | Some started \<Rightarrow>
          if sr_completed started then corrupt InconsistentStep st r
          else let st1 = st\<lparr>v_steps := dict_put (sc_step_id b)
                 (started\<lparr>sr_completed := True, sr_output := sc_output b, sr_failure := sc_failure b,
                          sr_child_run_id := sc_child_run_id b, sr_skipped := sc_skipped b,
                          sr_will_retry := sc_will_retry b, sr_retry_at := sc_retry_at b,
                          sr_completed_at := Some (r_at r), sr_completed_seq := Some (r_seq r)\<rparr>)
                 (v_steps st)\<rparr>
               in case sc_output b of
                    Some out \<Rightarrow>
                      if sr_kind started = ''set_state'' \<and> sc_failure b = None \<and> \<not> sc_skipped b
                      then Inr (st1\<lparr>v_workflow_state_updates := dict_merge (v_workflow_state_updates st) out\<rparr>)
                      else Inr st1
                  | None \<Rightarrow> Inr st1)"

definition on_abort_requested :: "log_record \<Rightarrow> abort_requested \<Rightarrow> run_state_view \<Rightarrow> fold_error + run_state_view" where
  "on_abort_requested r b st =
     Inr (if v_abort_seq st = None then st\<lparr>v_abort_seq := Some (r_seq r)\<rparr> else st)"

definition on_queue_enqueued :: "log_record \<Rightarrow> queue_enqueued \<Rightarrow> fold_state \<Rightarrow> fold_error + fold_state" where
  "on_queue_enqueued r b s = (case s of (st, cx) \<Rightarrow>
     if qe_queue b \<noteq> NextRun \<and> (case v_abort_seq st of None \<Rightarrow> False | Some a \<Rightarrow> r_seq r > a)
     then corrupt QueueAfterAbort st r
     else if qe_entry_id b \<in> dict_keys (fc_enqueued cx) then corrupt ProvisionedEntryMismatch st r
     else let entry = \<lparr>pe_entry_id = qe_entry_id b, pe_queue = qe_queue b, pe_payload = qe_payload b,
                       pe_enqueued_seq = r_seq r\<rparr>
          in Inr (set_queue st (qe_queue b) (queue_for st (qe_queue b) @ [entry]),
                  cx\<lparr>fc_enqueued := dict_put (qe_entry_id b) entry (fc_enqueued cx)\<rparr>))"

definition on_queue_cancelled :: "log_record \<Rightarrow> queue_cancelled \<Rightarrow> fold_state \<Rightarrow> fold_error + fold_state" where
  "on_queue_cancelled r b s = (case s of (st, cx) \<Rightarrow>
     (case dict_get (fc_enqueued cx) (qx_entry_id b) of
        None \<Rightarrow> corrupt InvalidQueueCancellation st r
      | Some origin \<Rightarrow>
          if pe_enqueued_seq origin \<ge> r_seq r \<or> qx_entry_id b \<in> fc_cancelled cx \<or> qx_entry_id b \<in> fc_consumed cx
          then corrupt InvalidQueueCancellation st r
          else Inr (remove_entry st origin,
                    cx\<lparr>fc_cancelled := insert (qx_entry_id b) (fc_cancelled cx)\<rparr>)))"

definition on_queue_consumed :: "log_record \<Rightarrow> queue_consumed \<Rightarrow> fold_state \<Rightarrow> fold_error + fold_state" where
  "on_queue_consumed r b s = (case s of (st, cx) \<Rightarrow>
     (case dict_get (fc_enqueued cx) (qc_entry_id b) of
        None \<Rightarrow> corrupt ProvisionedEntryMismatch st r
      | Some origin \<Rightarrow>
          if qc_entry_id b \<in> fc_cancelled cx then corrupt ProvisionedEntryMismatch st r
          else if qc_entry_id b \<in> fc_consumed cx then corrupt ProvisionedEntryMismatch st r
          else Inr (remove_entry st origin,
                    cx\<lparr>fc_consumed := insert (qc_entry_id b) (fc_consumed cx)\<rparr>)))"

definition on_subagent_spawned :: "log_record \<Rightarrow> subagent_spawned \<Rightarrow> run_state_view \<Rightarrow> fold_error + run_state_view" where
  "on_subagent_spawned r b st =
     (if sp_child_run_id b \<in> dict_keys (v_children st) then corrupt MultipleOpenOperations st r
      else if list_ex (\<lambda>c. cr_name c = sp_name b \<and> child_alive c) (map snd (v_children st))
      then corrupt MultipleOpenOperations st r
      else Inr (st\<lparr>v_children := dict_put (sp_child_run_id b)
             \<lparr>cr_run_id = sp_child_run_id b, cr_name = sp_name b, cr_call_id = sp_call_id b,
              cr_version_hash = sp_child_version_hash b, cr_depth = sp_delegation_depth b,
              cr_background = sp_background b, cr_tools = sp_tools b, cr_model = sp_model b,
              cr_spawned_seq = r_seq r, cr_terminal_state = None, cr_output = None, cr_failure = None,
              cr_usage = 0, cr_unreported_usage_calls = 0, cr_cost = None, cr_unpriced_model_calls = 0,
              cr_messages_sent = 0, cr_finished_seq = None\<rparr> (v_children st)\<rparr>))"

definition on_subagent_messaged :: "log_record \<Rightarrow> subagent_messaged \<Rightarrow> run_state_view \<Rightarrow> fold_error + run_state_view" where
  "on_subagent_messaged r b st =
     (case dict_get (v_children st) (sm_child_run_id b) of
        None \<Rightarrow> corrupt UnknownOperation st r
      | Some messaged \<Rightarrow>
          Inr (st\<lparr>v_children := dict_put (sm_child_run_id b)
                  (messaged\<lparr>cr_messages_sent := cr_messages_sent messaged + 1\<rparr>) (v_children st)\<rparr>))"

definition on_subagent_finished :: "log_record \<Rightarrow> subagent_finished \<Rightarrow> run_state_view \<Rightarrow> fold_error + run_state_view" where
  "on_subagent_finished r b st =
     (case dict_get (v_children st) (sf_child_run_id b) of
        None \<Rightarrow> corrupt UnknownOperation st r
      | Some finished \<Rightarrow>
          if \<not> child_alive finished then corrupt MultipleOpenOperations st r
          else Inr (st\<lparr>v_children := dict_put (sf_child_run_id b)
                 (finished\<lparr>cr_terminal_state := Some (sf_state b), cr_output := sf_output b,
                           cr_failure := sf_failure b, cr_usage := sf_usage b,
                           cr_unreported_usage_calls := sf_unreported_usage_calls b,
                           cr_cost := sf_cost b, cr_unpriced_model_calls := sf_unpriced_model_calls b,
                           cr_finished_seq := Some (r_seq r)\<rparr>) (v_children st)\<rparr>))"

definition on_suspended :: "log_record \<Rightarrow> suspended \<Rightarrow> run_state_view \<Rightarrow> fold_error + run_state_view" where
  "on_suspended r b st =
     (if v_suspended st then corrupt MultipleOpenOperations st r
      else if su_reason b = Approval \<and>
              (case su_pending_call_id b of None \<Rightarrow> False | Some c \<Rightarrow> c \<notin> dict_keys (v_open_tool_calls st))
      then corrupt ToolCallMismatch st r
      else Inr (st\<lparr>v_suspended := True,
                   v_suspend_reason := Some (su_reason b),
                   v_suspend_expires_at := Some (su_expires_at b),
                   v_suspended_at := Some (r_at r),
                   v_pending_approval_call_id := su_pending_call_id b,
                   v_suspend_question := su_question b,
                   v_suspend_questions := su_questions b,
                   v_suspended_step_id := su_step_id b,
                   v_suspended_step_name := su_step_name b,
                   v_suspend_payload_schema := su_payload_schema b,
                   v_suspend_event := su_event b,
                   v_suspend_wake_at := su_wake_at b,
                   v_turn_open := False,
                   v_model_call_open := False\<rparr>))"

text \<open>What a \<open>resumed\<close> record delivers, before the suspension is cleared.\<close>

definition deliver_to_call :: "resumed \<Rightarrow> run_state_view \<Rightarrow> run_state_view" where
  "deliver_to_call b st =
     (case v_pending_approval_call_id st of
        None \<Rightarrow> st
      | Some c \<Rightarrow>
          let st1 = (case re_approved b of None \<Rightarrow> st
                     | Some a \<Rightarrow> st\<lparr>v_approval_decisions := dict_put c a (v_approval_decisions st)\<rparr>)
          in if re_payload b \<noteq> []
             then st1\<lparr>v_resume_payloads := dict_put c (re_payload b) (v_resume_payloads st1)\<rparr> else st1)"

definition deliver_to_step :: "log_record \<Rightarrow> resumed \<Rightarrow> run_state_view \<Rightarrow> run_state_view" where
  "deliver_to_step r b st =
     (case (v_suspended_step_id st, v_suspend_reason st) of
        (Some sid, Some reason) \<Rightarrow>
          let earlier = (case dict_get (v_step_resumes st) sid of None \<Rightarrow> [] | Some xs \<Rightarrow> xs);
              st1 = st\<lparr>v_step_resumes := dict_put sid
                      (earlier @ [\<lparr>sv_reason = reason, sv_payload = re_payload b, sv_approved = re_approved b,
                                   sv_seq = r_seq r\<rparr>]) (v_step_resumes st)\<rparr>
          in if reason = Breakpoint
             then (case dict_get (re_payload b) ''step_mode'' of
                     Some (JBool m) \<Rightarrow> st1\<lparr>v_step_mode := m\<rparr>
                   | _ \<Rightarrow> st1)
             else st1
      | _ \<Rightarrow> st)"

definition on_resumed :: "log_record \<Rightarrow> resumed \<Rightarrow> run_state_view \<Rightarrow> fold_error + run_state_view" where
  "on_resumed r b st =
     (if \<not> v_suspended st then corrupt UnknownOperation st r
      else let st1 = deliver_to_step r b (deliver_to_call b st);
               st2 = (case v_suspended_at st1 of
                        None \<Rightarrow> st1
                      | Some t \<Rightarrow> st1\<lparr>v_suspended_us := v_suspended_us st1 + max (r_at r - t) 0\<rparr>)
           in Inr (st2\<lparr>v_suspended := False,
                       v_resumed_since_attempt := True,
                       v_suspend_reason := None,
                       v_suspend_expires_at := None,
                       v_suspended_at := None,
                       v_pending_approval_call_id := None,
                       v_suspend_question := None,
                       v_suspend_questions := [],
                       v_suspended_step_id := None,
                       v_suspended_step_name := None,
                       v_suspend_payload_schema := [],
                       v_suspend_event := None,
                       v_suspend_wake_at := None\<rparr>))"

definition on_task_list_updated :: "log_record \<Rightarrow> task_list_updated \<Rightarrow> run_state_view \<Rightarrow> fold_error + run_state_view" where
  "on_task_list_updated r b st = Inr (st\<lparr>v_tasks := tl_tasks b\<rparr>)"

definition on_component_shown :: "log_record \<Rightarrow> component_shown \<Rightarrow> run_state_view \<Rightarrow> fold_error + run_state_view" where
  "on_component_shown r b st = Inr (st\<lparr>v_components := v_components st @ [cs_component b]\<rparr>)"

definition on_compaction_applied :: "log_record \<Rightarrow> compaction_applied \<Rightarrow> run_state_view \<Rightarrow> fold_error + run_state_view" where
  "on_compaction_applied r b st =
     (if ca_replaced_to_seq b < ca_replaced_from_seq b then corrupt InvalidCompactionReason st r
      else if ca_replaced_to_seq b \<ge> r_seq r then corrupt InvalidCompactionReason st r
      else let st1 = st\<lparr>v_compaction_boundary_seq := max (v_compaction_boundary_seq st) (ca_replaced_to_seq b),
                        v_compaction_summaries := v_compaction_summaries st @ [ca_summary b],
                        v_compaction_calls := v_compaction_calls st + 1,
                        v_usage := v_usage st + ca_usage b,
                        v_unreported_usage_calls := (if \<not> ca_usage_reported b
                          then v_unreported_usage_calls st + 1 else v_unreported_usage_calls st)\<rparr>
           in fold_cost st1 (ca_cost b) r)"

definition on_run_settled :: "log_record \<Rightarrow> run_settled \<Rightarrow> run_state_view \<Rightarrow> fold_error + run_state_view" where
  "on_run_settled r b st =
     Inr (st\<lparr>v_settled := True,
             v_terminal_state := Some (rs_state b),
             v_output := rs_output b,
             v_failure := rs_failure b,
             v_turn_open := False,
             v_model_call_open := False\<rparr>)"

section \<open>The fold\<close>

definition on_view :: "(run_state_view \<Rightarrow> fold_error + run_state_view) \<Rightarrow> fold_state \<Rightarrow> fold_error + fold_state" where
  "on_view f s = (case f (fst s) of Inl e \<Rightarrow> Inl e | Inr st \<Rightarrow> Inr (st, snd s))"

fun apply_body :: "log_record \<Rightarrow> body \<Rightarrow> fold_state \<Rightarrow> fold_error + fold_state" where
  "apply_body r (RunAdmitted b) s = on_view (on_run_admitted r b) s"
| "apply_body r (AttemptStarted b) s = on_view (on_attempt_started r b) s"
| "apply_body r (TurnStarted b) s = on_view (on_turn_started r b) s"
| "apply_body r (ModelCallStarted b) s = on_view (on_model_call_started r b) s"
| "apply_body r (ModelCallFinished b) s = on_view (on_model_call_finished r b) s"
| "apply_body r (ModelCallFailed b) s = on_view (on_model_call_failed r b) s"
| "apply_body r (ToolCallStarted b) s = on_tool_call_started r b s"
| "apply_body r (ToolCallFinished b) s = on_tool_call_finished r b s"
| "apply_body r (StepStarted b) s = on_view (on_step_started r b) s"
| "apply_body r (StepCompleted b) s = on_view (on_step_completed r b) s"
| "apply_body r (AbortRequested b) s = on_view (on_abort_requested r b) s"
| "apply_body r (QueueEnqueued b) s = on_queue_enqueued r b s"
| "apply_body r (QueueCancelled b) s = on_queue_cancelled r b s"
| "apply_body r (QueueConsumed b) s = on_queue_consumed r b s"
| "apply_body r (SubagentSpawned b) s = on_view (on_subagent_spawned r b) s"
| "apply_body r (SubagentMessaged b) s = on_view (on_subagent_messaged r b) s"
| "apply_body r (SubagentFinished b) s = on_view (on_subagent_finished r b) s"
| "apply_body r (Suspended b) s = on_view (on_suspended r b) s"
| "apply_body r (Resumed b) s = on_view (on_resumed r b) s"
| "apply_body r (TaskListUpdated b) s = on_view (on_task_list_updated r b) s"
| "apply_body r (ComponentShown b) s = on_view (on_component_shown r b) s"
| "apply_body r (CompactionApplied b) s = on_view (on_compaction_applied r b) s"
| "apply_body r (RunSettled b) s = on_view (on_run_settled r b) s"

definition is_run_settled :: "body \<Rightarrow> bool" where
  "is_run_settled b = (case b of RunSettled _ \<Rightarrow> True | _ \<Rightarrow> False)"

text \<open>One turn of the loop: the checks every record passes, then its own case.\<close>

definition fold_step :: "fold_state \<Rightarrow> log_record \<Rightarrow> fold_error + fold_state" where
  "fold_step s r = (case s of (st, cx) \<Rightarrow>
     if \<not> check_belongs r st then corrupt UnknownOperation st r
     else if \<not> check_sequence r (fc_expected_seq cx) then corrupt NonConsecutiveSeq st r
     else if v_settled st \<and> \<not> is_run_settled (r_body r) then corrupt RecordAfterFinish st r
     else apply_body r (r_body r)
            (st\<lparr>v_head_seq := r_seq r\<rparr>, cx\<lparr>fc_expected_seq := r_seq r + 1\<rparr>))"

text \<open>The local variables of \<open>reduce\<close>, derived from the state the fold starts from.\<close>

definition ctx_of :: "run_state_view \<Rightarrow> int \<Rightarrow> fold_ctx" where
  "ctx_of st expected = \<lparr>
     fc_expected_seq = expected,
     fc_started = dict_keys (v_open_tool_calls st) \<union> set (map tr_call_id (v_tool_results st)),
     fc_settled = set (map tr_call_id (v_tool_results st)),
     fc_enqueued = dict_of pe_entry_id (v_pending_steer st @ v_pending_follow_up st @ v_pending_next_run st),
     fc_cancelled = {},
     fc_consumed = {}\<rparr>"

definition reduce :: "run_id option \<Rightarrow> run_state_view option \<Rightarrow> log_record list \<Rightarrow> fold_error + run_state_view" where
  "reduce rid prior records =
     (case prior of
        Some p \<Rightarrow>
          if rid \<noteq> None \<and> rid \<noteq> Some (v_run_id p) then Inl ValueError
          else map_sum id fst (fold_log fold_step (p, ctx_of p (v_head_seq p + 1)) records)
      | None \<Rightarrow>
          (case records of
             [] \<Rightarrow> Inl ValueError
           | first # _ \<Rightarrow>
               let st = initial_view (case rid of Some i \<Rightarrow> i | None \<Rightarrow> r_run_id first) (r_scope first)
               in map_sum id fst (fold_log fold_step (st, ctx_of st 1) records)))"

lemmas view_op_defs [op_defs] =
  on_run_admitted_def on_attempt_started_def on_turn_started_def on_model_call_started_def
  on_model_call_finished_def on_model_call_failed_def on_step_started_def on_step_completed_def
  on_abort_requested_def on_subagent_spawned_def on_subagent_messaged_def on_subagent_finished_def
  on_suspended_def on_resumed_def on_task_list_updated_def on_component_shown_def
  on_compaction_applied_def on_run_settled_def

lemmas ctx_op_defs [op_defs] =
  on_tool_call_started_def on_tool_call_finished_def on_queue_enqueued_def on_queue_cancelled_def
  on_queue_consumed_def

lemmas helper_defs =
  fold_cost_def count_program_call_def update_failure_streak_def update_repeat_count_def
  deliver_to_call_def deliver_to_step_def remove_entry_def corrupt_def

end
