(* ===== verification/ReducerFacts.thy ===== *)
theory ReducerFacts
  imports Reducer
begin

text \<open>
  The normal forms under which the proofs about the reducer run: every helper of
  \<open>Reducer\<close> is one record update of the fields it owns, every step of the fold is its
  checks and then the body of its case. Also the two shapes facts about the fold take:
  an invariant of \<open>fold_step\<close> and a projection that \<open>fold_step\<close> updates by a function
  of the record, from the same statement about \<open>apply_body\<close>.
\<close>

section \<open>One step\<close>

lemma corrupt_not_Inr [simp]: "corrupt x st r = Inr y \<longleftrightarrow> False" "Inr y = corrupt x st r \<longleftrightarrow> False"
  by (simp_all add: corrupt_def)

lemma on_view_Inr_iff [simp]:
  "on_view f (st, cx) = Inr s' \<longleftrightarrow> (\<exists>st'. f st = Inr st' \<and> s' = (st', cx))"
  by (auto simp: on_view_def split: sum.splits)

definition bump :: "log_record \<Rightarrow> fold_state \<Rightarrow> fold_state" where
  "bump r s = ((fst s)\<lparr>v_head_seq := r_seq r\<rparr>, (snd s)\<lparr>fc_expected_seq := r_seq r + 1\<rparr>)"

lemma bump_simps [simp]:
  "bump r (st, cx) = (st\<lparr>v_head_seq := r_seq r\<rparr>, cx\<lparr>fc_expected_seq := r_seq r + 1\<rparr>)"
  by (simp add: bump_def)

lemma fold_step_Inr_iff:
  "fold_step s r = Inr s' \<longleftrightarrow>
     check_belongs r (fst s) \<and> check_sequence r (fc_expected_seq (snd s)) \<and>
     (v_settled (fst s) \<longrightarrow> is_run_settled (r_body r)) \<and> apply_body r (r_body r) (bump r s) = Inr s'"
  by (cases s) (auto simp: fold_step_def corrupt_def)

lemma fold_step_applies:
  "fold_step s r = Inr s' \<Longrightarrow>
     apply_body r (r_body r) ((fst s)\<lparr>v_head_seq := r_seq r\<rparr>, (snd s)\<lparr>fc_expected_seq := r_seq r + 1\<rparr>)
       = Inr (fst s', snd s')"
  by (simp add: fold_step_Inr_iff bump_def)

lemma map_sum_fst_Inr_iff: "map_sum id fst x = Inr v \<longleftrightarrow> (\<exists>cx. x = Inr (v, cx))"
  by (cases x) auto

lemma map_sum_fst_Inl_iff: "map_sum id fst x = Inl e \<longleftrightarrow> x = Inl e"
  by (cases x) auto

section \<open>Helpers as one update\<close>

definition cost_totals_after :: "cost option \<Rightarrow> int \<times> int \<times> cost option \<Rightarrow> (int \<times> int \<times> cost option) option" where
  "cost_totals_after c t = (case t of (unpriced, reported, sofar) \<Rightarrow>
     (case c of
        None \<Rightarrow> Some (unpriced + 1, reported, sofar)
      | Some x \<Rightarrow>
          let reported' = (if c_source x = Provider then reported + 1 else reported)
          in case sofar of None \<Rightarrow> Some (unpriced, reported', Some x)
             | Some y \<Rightarrow> map_option (\<lambda>z. (unpriced, reported', Some z)) (cost_add y x)))"

definition cost_totals :: "run_state_view \<Rightarrow> int \<times> int \<times> cost option" where
  "cost_totals st = (v_unpriced_model_calls st, v_provider_reported_costs st, v_cost st)"

lemma fold_cost_Inr_iff:
  "fold_cost st c r = Inr st' \<longleftrightarrow>
     (\<exists>u p t. cost_totals_after c (cost_totals st) = Some (u, p, t) \<and>
        st' = st\<lparr>v_unpriced_model_calls := u, v_provider_reported_costs := p, v_cost := t\<rparr>)"
  by (cases c; cases "v_cost st")
     (auto simp: fold_cost_def cost_totals_after_def cost_totals_def Let_def split: option.splits)

definition streaks_after :: "string \<Rightarrow> tool_outcome \<Rightarrow> (string, int) dict \<Rightarrow> (string, int) dict" where
  "streaks_after tool outcome d =
     (if outcome = OutcomeOk then dict_del tool d
      else if outcome = OutcomeAborted then d
      else dict_put tool ((case dict_get d tool of None \<Rightarrow> 0 | Some n \<Rightarrow> n) + 1) d)"

lemma update_failure_streak_eq:
  "update_failure_streak st tool outcome = st\<lparr>v_failure_streaks := streaks_after tool outcome (v_failure_streaks st)\<rparr>"
  by (cases outcome) (simp_all add: update_failure_streak_def streaks_after_def)

definition answer_of :: "tool_call_finished \<Rightarrow> json" where
  "answer_of f = (case tcf_result_blob_key f of None \<Rightarrow> tcf_result f | Some k \<Rightarrow> JStr k)"

definition tallies_after :: "string \<Rightarrow> string \<Rightarrow> (string, repeat_tally) dict \<Rightarrow> (string, repeat_tally) dict" where
  "tallies_after call_key answer_key d =
     dict_put call_key
       \<lparr>rt_result_digest = answer_key,
        rt_count = (case dict_get d call_key of
                      Some t \<Rightarrow> if rt_result_digest t = answer_key then rt_count t + 1 else 1
                    | None \<Rightarrow> 1)\<rparr> d"

lemma tally_count_update:
  "rt_result_digest t = d \<Longrightarrow> t\<lparr>rt_count := n\<rparr> = \<lparr>rt_result_digest = d, rt_count = n\<rparr>"
  by (cases t) simp

lemma update_repeat_count_eq:
  "update_repeat_count st tool arguments f outcome =
     st\<lparr>v_repeat_counts :=
        (if outcome = OutcomeOk
         then tallies_after (call_digest tool (JObj arguments) None)
                            (call_digest tool (JObj arguments) (Some (answer_of f))) (v_repeat_counts st)
         else v_repeat_counts st)\<rparr>"
  by (auto simp: update_repeat_count_def tallies_after_def answer_of_def Let_def tally_count_update split: option.splits)

definition program_sets_after ::
    "tool_call_started \<Rightarrow> call_id set \<times> int \<times> call_id set \<Rightarrow> call_id set \<times> int \<times> call_id set" where
  "program_sets_after b t = (case t of (programs, n, bindings) \<Rightarrow>
     if tcs_tool b = run_code_tool_name then (insert (tcs_call_id b) programs, n, bindings)
     else case tcs_parent_call_id b of
            None \<Rightarrow> (programs, n, bindings)
          | Some p \<Rightarrow> if p \<in> programs then (programs, n + 1, insert (tcs_call_id b) bindings)
                      else (programs, n, bindings))"

definition program_sets :: "run_state_view \<Rightarrow> call_id set \<times> int \<times> call_id set" where
  "program_sets st = (v_program_call_ids st, v_program_tool_calls st, v_program_binding_call_ids st)"

lemma count_program_call_eq:
  "count_program_call b st =
     st\<lparr>v_program_call_ids := fst (program_sets_after b (program_sets st)),
        v_program_tool_calls := fst (snd (program_sets_after b (program_sets st))),
        v_program_binding_call_ids := snd (snd (program_sets_after b (program_sets st)))\<rparr>"
  by (auto simp: count_program_call_def program_sets_after_def program_sets_def split: option.splits)

lemma set_queue_eq:
  "set_queue st k q =
     st\<lparr>v_pending_steer := (if k = Steer then q else v_pending_steer st),
        v_pending_follow_up := (if k = FollowUp then q else v_pending_follow_up st),
        v_pending_next_run := (if k = NextRun then q else v_pending_next_run st)\<rparr>"
  by (cases k) simp_all

definition decisions_after :: "resumed \<Rightarrow> run_state_view \<Rightarrow> (call_id, bool) dict" where
  "decisions_after b st =
     (case (v_pending_approval_call_id st, re_approved b) of
        (Some c, Some a) \<Rightarrow> dict_put c a (v_approval_decisions st)
      | _ \<Rightarrow> v_approval_decisions st)"

definition payloads_after :: "resumed \<Rightarrow> run_state_view \<Rightarrow> (call_id, obj) dict" where
  "payloads_after b st =
     (case v_pending_approval_call_id st of
        Some c \<Rightarrow> if re_payload b \<noteq> [] then dict_put c (re_payload b) (v_resume_payloads st)
                  else v_resume_payloads st
      | None \<Rightarrow> v_resume_payloads st)"

lemma deliver_to_call_eq:
  "deliver_to_call b st =
     st\<lparr>v_approval_decisions := decisions_after b st, v_resume_payloads := payloads_after b st\<rparr>"
  by (cases "v_pending_approval_call_id st"; cases "re_approved b")
     (simp_all add: deliver_to_call_def decisions_after_def payloads_after_def)

definition step_resumes_after :: "log_record \<Rightarrow> resumed \<Rightarrow> run_state_view \<Rightarrow> (step_id, step_resume list) dict" where
  "step_resumes_after r b st =
     (case (v_suspended_step_id st, v_suspend_reason st) of
        (Some sid, Some reason) \<Rightarrow>
          dict_put sid ((case dict_get (v_step_resumes st) sid of None \<Rightarrow> [] | Some xs \<Rightarrow> xs)
            @ [\<lparr>sv_reason = reason, sv_payload = re_payload b, sv_approved = re_approved b, sv_seq = r_seq r\<rparr>])
            (v_step_resumes st)
      | _ \<Rightarrow> v_step_resumes st)"

definition step_mode_after :: "resumed \<Rightarrow> run_state_view \<Rightarrow> bool" where
  "step_mode_after b st =
     (case (v_suspended_step_id st, v_suspend_reason st, dict_get (re_payload b) ''step_mode'') of
        (Some _, Some Breakpoint, Some (JBool m)) \<Rightarrow> m
      | _ \<Rightarrow> v_step_mode st)"

lemma deliver_to_step_eq:
  "deliver_to_step r b st =
     st\<lparr>v_step_resumes := step_resumes_after r b st, v_step_mode := step_mode_after b st\<rparr>"
  by (cases "v_suspended_step_id st"; cases "v_suspend_reason st")
     (auto simp: deliver_to_step_def step_resumes_after_def step_mode_after_def Let_def
           split: option.splits suspend_reason.splits json.splits)

lemmas helper_eqs [simp] =
  fold_cost_Inr_iff update_failure_streak_eq update_repeat_count_eq count_program_call_eq
  set_queue_eq deliver_to_call_eq deliver_to_step_eq

end
