(* ===== verification/Samples.thy ===== *)
theory Samples
  imports Reducer
begin

text \<open>
  Concrete records from which the witnesses build their logs: one log of a whole Run (a
  model call, a failed tool call, a steering message, a workflow step, a subagent, a
  suspension, a compaction) and the constructors to write shorter ones. \<open>log_of\<close> numbers
  bodies as a log is numbered.
\<close>

definition s_scope :: scope where
  "s_scope = \<lparr>sc_tenant = ''t'', sc_principal = None, sc_labels = []\<rparr>"

definition rec_at :: "int \<Rightarrow> body \<Rightarrow> log_record" where
  "rec_at n b = \<lparr>r_run_id = ''run'', r_seq = n, r_at = n, r_scope = s_scope, r_attempt_id = None, r_body = b\<rparr>"

fun number :: "int \<Rightarrow> body list \<Rightarrow> log_record list" where
  "number n [] = []"
| "number n (b # bs) = rec_at n b # number (n + 1) bs"

definition log_of :: "body list \<Rightarrow> log_record list" where
  "log_of bs = number 1 bs"

definition accepted :: "log_record list \<Rightarrow> bool" where
  "accepted rs = (case reduce None None rs of Inl _ \<Rightarrow> False | Inr _ \<Rightarrow> True)"

lemma acceptedD: "accepted rs \<Longrightarrow> \<exists>v. reduce None None rs = Inr v"
  by (auto simp: accepted_def split: sum.splits)

definition b_admitted :: body where
  "b_admitted = RunAdmitted \<lparr>ra_version_hash = ''v'', ra_input = [], ra_idempotency_key = None,
     ra_deadline_at = 100, ra_parent_run_id = None, ra_delegation_depth = 0, ra_replays_run_id = None,
     ra_replay_from_step = None, ra_breakpoints = [], ra_step_mode = False, ra_continues_run_id = None\<rparr>"

definition b_attempt :: "int \<Rightarrow> body" where
  "b_attempt n = AttemptStarted \<lparr>as_worker_id = ''w'', as_attempt_number = n, as_reclaimed_expired_lease = False\<rparr>"

definition b_turn :: "int \<Rightarrow> body" where
  "b_turn n = TurnStarted \<lparr>tu_turn = n, tu_step_id = None\<rparr>"

definition b_call :: "int \<Rightarrow> body" where
  "b_call n = ModelCallStarted \<lparr>ms_turn = n, ms_model = ''m'', ms_prompt_tokens_estimate = None,
     ms_tool_names = [], ms_system_prompt = []\<rparr>"

definition s_timings :: model_timings where
  "s_timings = \<lparr>mt_queue_wait_seconds = 0, mt_time_to_first_token_seconds = None, mt_stream_duration_seconds = 0\<rparr>"

definition s_cost :: "rat \<Rightarrow> cost" where
  "s_cost q = \<lparr>c_amount = q, c_currency = ''USD'', c_model = ''m'', c_source = Computed, c_input_amount = None,
     c_output_amount = None, c_cache_read_amount = None, c_cache_write_amount = None\<rparr>"

definition b_answer :: "int \<Rightarrow> usage \<Rightarrow> cost option \<Rightarrow> body" where
  "b_answer n u c = ModelCallFinished \<lparr>mf_turn = n, mf_model = ''m'', mf_usage = u, mf_usage_reported = True,
     mf_cost = c, mf_timings = s_timings, mf_finish_reason = ''stop'', mf_text = [], mf_tool_calls = []\<rparr>"

definition s_failure :: tool_failure where
  "s_failure = \<lparr>tf_kind = ''k'', tf_message = ''m'', tf_traceback = None, tf_transient = False,
     tf_traceback_is_for_the_model = False\<rparr>"

definition b_tool :: "call_id \<Rightarrow> string \<Rightarrow> int \<Rightarrow> body" where
  "b_tool c t n = ToolCallStarted \<lparr>tcs_call_id = c, tcs_tool = t, tcs_arguments = [], tcs_turn = n, tcs_step_id = None,
     tcs_interruptible = False, tcs_safe_to_retry = False, tcs_parent_call_id = None\<rparr>"

definition b_result :: "call_id \<Rightarrow> tool_outcome \<Rightarrow> body" where
  "b_result c x = ToolCallFinished \<lparr>tcf_call_id = c, tcf_outcome = x, tcf_result = JNull, tcf_failure = Some s_failure,
     tcf_duration_seconds = 0, tcf_result_handle = None, tcf_preview = None, tcf_result_bytes = 0,
     tcf_result_blob_key = None, tcf_result_content_type = None, tcf_attachments = []\<rparr>"

definition b_step :: "step_id \<Rightarrow> int \<Rightarrow> body" where
  "b_step i n = StepStarted \<lparr>ss_step_id = i, ss_name = ''s'', ss_kind = ''set_state'', ss_attempt_number = n,
     ss_input = [], ss_path = [], ss_parent_step_id = None, ss_iteration = None, ss_replayed_from = None\<rparr>"

definition b_step_done :: "step_id \<Rightarrow> obj \<Rightarrow> body" where
  "b_step_done i x = StepCompleted \<lparr>sc_step_id = i, sc_output = Some x, sc_failure = None, sc_child_run_id = None,
     sc_skipped = False, sc_will_retry = False, sc_retry_at = None\<rparr>"

definition b_abort :: body where
  "b_abort = AbortRequested \<lparr>ab_reason = [], ab_requested_by = None\<rparr>"

definition b_enqueue :: "queue_kind \<Rightarrow> string \<Rightarrow> body" where
  "b_enqueue k i = QueueEnqueued \<lparr>qe_queue = k, qe_entry_id = i, qe_payload = []\<rparr>"

definition b_consume :: "string \<Rightarrow> body" where
  "b_consume i = QueueConsumed \<lparr>qc_entry_id = i\<rparr>"

definition b_cancel :: "string \<Rightarrow> body" where
  "b_cancel i = QueueCancelled \<lparr>qx_entry_id = i\<rparr>"

definition b_spawn :: "run_id \<Rightarrow> string \<Rightarrow> body" where
  "b_spawn c n = SubagentSpawned \<lparr>sp_child_run_id = c, sp_name = n, sp_call_id = ''c'', sp_child_version_hash = ''v'',
     sp_purpose = [], sp_task = [], sp_deliverable = [], sp_tools = [], sp_model = ''m'', sp_delegation_depth = 1,
     sp_background = True\<rparr>"

definition b_child_done :: "run_id \<Rightarrow> string \<Rightarrow> body" where
  "b_child_done c n = SubagentFinished \<lparr>sf_child_run_id = c, sf_name = n, sf_state = Completed, sf_output = None,
     sf_failure = None, sf_usage = 0, sf_unreported_usage_calls = 0, sf_cost = None, sf_unpriced_model_calls = 0\<rparr>"

definition b_suspend :: "suspend_reason \<Rightarrow> step_id option \<Rightarrow> body" where
  "b_suspend x sid = Suspended \<lparr>su_reason = x, su_payload_schema = [], su_expires_at = 50, su_step_id = sid,
     su_step_name = None, su_event = None, su_wake_at = None, su_pending_call_id = None, su_question = None,
     su_questions = []\<rparr>"

definition b_resume :: body where
  "b_resume = Resumed \<lparr>re_payload = [], re_approved = None, re_resumed_by = None\<rparr>"

definition b_compact :: "int \<Rightarrow> int \<Rightarrow> body" where
  "b_compact i j = CompactionApplied \<lparr>ca_reason = ByHand, ca_timings = s_timings, ca_replaced_from_seq = i,
     ca_replaced_to_seq = j, ca_summary = ''s'', ca_model = ''m'', ca_usage = Usage 1 1 0 0 0 0,
     ca_usage_reported = True, ca_cost = None\<rparr>"

definition b_settled :: "terminal_state \<Rightarrow> body" where
  "b_settled x = RunSettled \<lparr>rs_state = x, rs_output = None, rs_failure = None, rs_orphaned_attempt_id = None\<rparr>"

definition whole_run :: "body list" where
  "whole_run = [b_admitted, b_attempt 1, b_turn 1, b_call 1, b_answer 1 (Usage 3 2 0 0 0 0) (Some (s_cost 2)),
     b_tool ''c1'' ''search'' 1, b_result ''c1'' OutcomeError, b_enqueue Steer ''q1'', b_consume ''q1'',
     b_step ''s1'' 1, b_step_done ''s1'' [(''x'', JInt 1)], b_spawn ''kid'' ''helper'',
     b_suspend Children (Some ''s1''), b_child_done ''kid'' ''helper'', b_resume, b_compact 2 4,
     b_turn 2, b_call 2, b_answer 2 (Usage 1 1 0 0 0 0) (Some (s_cost 1)), b_settled Completed]"

definition whole_log :: "log_record list" where
  "whole_log = log_of whole_run"

lemma whole_log_accepted: "accepted whole_log"
  by code_simp

end
