(* ===== verification/LogShape.thy ===== *)
theory LogShape
  imports ReducerFacts Samples
begin

text \<open>
  What an accepted log looks like: the state a whole-log fold starts from, the addresses
  and sequence numbers of the records, the settlement that ends the log, and that every
  prefix of an accepted log is accepted. The checks proved here are the ones at the top
  of the loop of \<open>reduce\<close>; the interpretations say the address of the Run never changes
  and the head advances with every record.
\<close>

section \<open>The whole-log fold\<close>

definition fresh_state :: "run_id option \<Rightarrow> log_record \<Rightarrow> fold_state" where
  "fresh_state rid first =
     (let st = initial_view (case rid of Some i \<Rightarrow> i | None \<Rightarrow> r_run_id first) (r_scope first)
      in (st, ctx_of st 1))"

definition continued_state :: "run_state_view \<Rightarrow> fold_state" where
  "continued_state p = (p, ctx_of p (v_head_seq p + 1))"

lemma reduce_whole_Inr_iff:
  "reduce rid None rs = Inr v \<longleftrightarrow>
     rs \<noteq> [] \<and> (\<exists>cx. fold_log fold_step (fresh_state rid (hd rs)) rs = Inr (v, cx))"
proof (cases rs)
  case (Cons r rest)
  show ?thesis
    by (simp only: Cons reduce_def fresh_state_def Let_def option.case list.case list.sel
                   map_sum_fst_Inr_iff) simp
qed (simp add: reduce_def)

lemma reduce_continued_Inr_iff:
  "reduce rid (Some p) rs = Inr v \<longleftrightarrow>
     (rid = None \<or> rid = Some (v_run_id p)) \<and>
     (\<exists>cx. fold_log fold_step (continued_state p) rs = Inr (v, cx))"
  by (simp only: reduce_def continued_state_def option.case Let_def map_sum_fst_Inr_iff if_distrib)
     (auto simp: map_sum_fst_Inr_iff)

lemma reduce_at:
  assumes "reduce rid None (xs @ r # ys) = Inr v"
  obtains u w cx where "fold_log fold_step (fresh_state rid (hd (xs @ r # ys))) xs = Inr u"
    "fold_step u r = Inr w" "fold_log fold_step w ys = Inr (v, cx)"
  using assms by (auto simp: reduce_whole_Inr_iff elim!: fold_log_at)

lemma reduce_history:
  assumes "fold_history fold_step J" and "\<And>first. J [] (fresh_state rid first)" and "reduce rid None rs = Inr v"
  shows "\<exists>cx. J rs (v, cx)"
  using assms by (auto simp: reduce_whole_Inr_iff dest: fold_history.fold_history)

lemma fresh_state_simps [simp]:
  "fst (fresh_state rid r) = initial_view (case rid of Some i \<Rightarrow> i | None \<Rightarrow> r_run_id r) (r_scope r)"
  "fc_expected_seq (snd (fresh_state rid r)) = 1"
  by (simp_all add: fresh_state_def ctx_of_def Let_def)

section \<open>Address and head\<close>

lemma apply_address:
  "apply_body r b (st, cx) = Inr (st', cx') \<Longrightarrow>
     v_run_id st' = v_run_id st \<and> v_scope st' = v_scope st \<and> v_head_seq st' = v_head_seq st \<and>
     fc_expected_seq cx' = fc_expected_seq cx"
  by (cases b) (auto simp: op_defs Let_def remove_entry_def split: if_splits option.splits sum.splits)

lemma step_address:
  "fold_step s r = Inr s' \<Longrightarrow>
     v_run_id (fst s') = v_run_id (fst s) \<and> v_scope (fst s') = v_scope (fst s) \<and>
     v_head_seq (fst s') = fc_expected_seq (snd s) \<and> fc_expected_seq (snd s') = fc_expected_seq (snd s) + 1 \<and>
     r_seq r = fc_expected_seq (snd s) \<and> r_run_id r = v_run_id (fst s) \<and>
     sc_tenant (r_scope r) = sc_tenant (v_scope (fst s))"
  by (cases s; cases s')
     (auto simp: fold_step_Inr_iff check_belongs_def check_sequence_def dest!: apply_address)

lemma apply_settled:
  "apply_body r b (st, cx) = Inr (st', cx') \<Longrightarrow> v_settled st' \<longleftrightarrow> v_settled st \<or> is_run_settled b"
  by (cases b) (auto simp: op_defs Let_def remove_entry_def is_run_settled_def
                     split: if_splits option.splits sum.splits)

lemma fold_log_shape:
  "fold_log fold_step s rs = Inr s' \<Longrightarrow>
     v_run_id (fst s') = v_run_id (fst s) \<and> v_scope (fst s') = v_scope (fst s) \<and>
     map r_seq rs = map (\<lambda>i. fc_expected_seq (snd s) + int i) [0..<length rs] \<and>
     fc_expected_seq (snd s') = fc_expected_seq (snd s) + int (length rs) \<and>
     (rs \<noteq> [] \<longrightarrow> v_head_seq (fst s') = fc_expected_seq (snd s) + int (length rs) - 1) \<and>
     (\<forall>r \<in> set rs. r_run_id r = v_run_id (fst s) \<and> sc_tenant (r_scope r) = sc_tenant (v_scope (fst s)))"
proof (induction rs arbitrary: s' rule: rev_induct)
  case (snoc r rs)
  then obtain t where t: "fold_log fold_step s rs = Inr t" "fold_step t r = Inr s'"
    by (auto simp: fold_log_snoc split: sum.splits)
  from snoc.IH[OF t(1)] step_address[OF t(2)] show ?case by auto
qed simp

interpretation address: fold_projection fold_step
  "\<lambda>s. (v_run_id (fst s), v_scope (fst s))" "\<lambda>_ a. a"
  by unfold_locales (auto dest: step_address)

interpretation head_behind: fold_invariant fold_step
  "\<lambda>s. v_head_seq (fst s) = fc_expected_seq (snd s) - 1"
  by unfold_locales (auto dest: step_address)

section \<open>Settlement\<close>

lemma fold_settled:
  "fold_log fold_step s rs = Inr s' \<Longrightarrow>
     (v_settled (fst s') \<longleftrightarrow> v_settled (fst s) \<or> list_ex (is_run_settled \<circ> r_body) rs) \<and>
     (v_settled (fst s) \<longrightarrow> list_all (is_run_settled \<circ> r_body) rs)"
proof (induction rs arbitrary: s)
  case (Cons r rs)
  then obtain t where t: "fold_step s r = Inr t" "fold_log fold_step t rs = Inr s'"
    by (auto split: sum.splits)
  from t(1) have "v_settled (fst t) \<longleftrightarrow> v_settled (fst s) \<or> is_run_settled (r_body r)"
    and "v_settled (fst s) \<longrightarrow> is_run_settled (r_body r)"
    by (cases s; cases t; auto simp: fold_step_Inr_iff dest!: apply_settled)+
  with Cons.IH[OF t(2)] show ?case by auto
qed simp

lemma reduce_address:
  assumes "reduce rid None rs = Inr v"
  shows "v_run_id v = (case rid of Some i \<Rightarrow> i | None \<Rightarrow> r_run_id (hd rs))" and "v_scope v = r_scope (hd rs)"
  using assms by (auto simp: reduce_whole_Inr_iff initial_view_def dest!: address.fold_projects)

section \<open>Properties\<close>

text \<open>C1. An accepted log is the gapless sequence 1, 2, ..., n of records of one Run and one
  tenant, and the head of the derived state is n.\<close>

theorem accepted_log_is_gapless:
  assumes "reduce rid None rs = Inr v"
  shows "map r_seq rs = map int [1..<Suc (length rs)] \<and> v_head_seq v = int (length rs) \<and>
         (\<forall>r \<in> set rs. r_run_id r = v_run_id v \<and> sc_tenant (r_scope r) = sc_tenant (v_scope v))"
proof -
  from assms obtain cx where "rs \<noteq> []" and f: "fold_log fold_step (fresh_state rid (hd rs)) rs = Inr (v, cx)"
    by (auto simp: reduce_whole_Inr_iff)
  moreover have "map (\<lambda>i. 1 + int i) [0..<length rs] = map int [1..<Suc (length rs)]"
    by (simp add: map_Suc_upt[symmetric] del: upt_Suc)
  ultimately show ?thesis using fold_log_shape[OF f] by auto
qed

lemma accepted_log_is_gapless_witness:
  "\<exists>v. reduce None None whole_log = Inr v \<and> map r_seq whole_log = map int [1..<Suc (length whole_log)]"
  using acceptedD[OF whole_log_accepted] accepted_log_is_gapless by blast

text \<open>Settlement ends the log: from a log whose record at position i is the terminal
  settlement, every record after it is a settlement too, and the derived state is settled exactly
  when the log holds one.\<close>

theorem nothing_follows_settlement:
  assumes "reduce rid None (xs @ r # ys) = Inr v" and "is_run_settled (r_body r)"
  shows "v_settled v \<and> list_all (is_run_settled \<circ> r_body) ys"
proof -
  from assms(1) obtain u w cx where "fold_step u r = Inr w" and w: "fold_log fold_step w ys = Inr (v, cx)"
    by (rule reduce_at)
  then have "fold_log fold_step u [r] = Inr w" by simp
  from fold_settled[OF this] assms(2) have "v_settled (fst w)" by simp
  with fold_settled[OF w] show ?thesis by simp
qed

lemma nothing_follows_settlement_witness:
  "\<exists>v. reduce None None (log_of ([b_admitted] @ b_settled Aborted # [b_settled Failed])) = Inr v \<and> v_settled v"
proof -
  have "accepted ([rec_at 1 b_admitted] @ rec_at 2 (b_settled Aborted) # [rec_at 3 (b_settled Failed)])"
    by code_simp
  from acceptedD[OF this] obtain v where
    "reduce None None ([rec_at 1 b_admitted] @ rec_at 2 (b_settled Aborted) # [rec_at 3 (b_settled Failed)]) = Inr v"
    by blast
  with nothing_follows_settlement[OF this] show ?thesis
    by (simp add: log_of_def rec_at_def b_settled_def is_run_settled_def)
qed

text \<open>Every prefix of an accepted log is accepted, so a write that stopped half way leaves a
  log a reclaiming Worker can fold.\<close>

theorem prefix_of_accepted_log_is_accepted:
  assumes "reduce rid None (xs @ ys) = Inr v" and "xs \<noteq> []"
  shows "\<exists>u. reduce rid None xs = Inr u \<and> v_head_seq u = int (length xs)"
proof -
  from assms obtain cx where "fold_log fold_step (fresh_state rid (hd xs)) (xs @ ys) = Inr (v, cx)"
    by (auto simp: reduce_whole_Inr_iff)
  then obtain t where t: "fold_log fold_step (fresh_state rid (hd xs)) xs = Inr t"
    by (auto dest: fold_log_prefix)
  then have "reduce rid None xs = Inr (fst t)"
    using assms(2) by (cases t) (auto simp: reduce_whole_Inr_iff)
  with fold_log_shape[OF t] assms(2) show ?thesis by auto
qed

lemma prefix_of_accepted_log_is_accepted_witness:
  "\<exists>u. reduce None None (take 5 whole_log) = Inr u \<and> v_head_seq u = 5"
proof -
  have "take 5 whole_log \<noteq> [] \<and> length (take 5 whole_log) = 5" by code_simp
  moreover obtain v where "reduce None None (take 5 whole_log @ drop 5 whole_log) = Inr v"
    using acceptedD[OF whole_log_accepted] by auto
  ultimately show ?thesis
    using prefix_of_accepted_log_is_accepted[of None "take 5 whole_log" "drop 5 whole_log"] by auto
qed

end
