(* ===== verification/Metering.thy ===== *)
theory Metering
  imports LogShape
begin

text \<open>
  What the fold counts. Each counter of the derived state is a projection that one record
  updates by a function of that record alone, so an accepted log has exactly the total
  the abstract specification (a sum or a filter over the bodies of the log) gives: tokens,
  money, model calls, attempts, turns, step starts, tasks, components, summaries.
\<close>

section \<open>What one record contributes\<close>

definition usage_of :: "body \<Rightarrow> usage" where
  "usage_of b = (case b of ModelCallFinished m \<Rightarrow> mf_usage m | CompactionApplied c \<Rightarrow> ca_usage c | _ \<Rightarrow> 0)"

definition priced_call :: "body \<Rightarrow> cost option option" where
  "priced_call b = (case b of ModelCallFinished m \<Rightarrow> Some (mf_cost m) | CompactionApplied c \<Rightarrow> Some (ca_cost c) | _ \<Rightarrow> None)"

definition costs_of :: "body list \<Rightarrow> cost list" where
  "costs_of bs = List.map_filter (\<lambda>b. Option.bind (priced_call b) id) bs"

definition unpriced_of :: "body list \<Rightarrow> int" where
  "unpriced_of bs = int (length (filter (\<lambda>b. priced_call b = Some None) bs))"

type_synonym call_counts = "int \<times> int \<times> int \<times> int \<times> int \<times> int"

definition call_counts :: "run_state_view \<Rightarrow> call_counts" where
  "call_counts st = (v_attempt_count st, v_turn st, v_model_calls st, v_failed_model_calls st,
                     v_step_starts st, v_compaction_calls st)"

definition count_call :: "body \<Rightarrow> call_counts \<Rightarrow> call_counts" where
  "count_call b c = (case c of (attempts, turns, calls, failed, steps, compactions) \<Rightarrow>
     (case b of
        AttemptStarted _ \<Rightarrow> (attempts + 1, turns, calls, failed, steps, compactions)
      | TurnStarted _ \<Rightarrow> (attempts, turns + 1, calls, failed, steps, compactions)
      | ModelCallFinished _ \<Rightarrow> (attempts, turns, calls + 1, failed, steps, compactions)
      | ModelCallFailed _ \<Rightarrow> (attempts, turns, calls, failed + 1, steps, compactions)
      | StepStarted _ \<Rightarrow> (attempts, turns, calls, failed, steps + 1, compactions)
      | CompactionApplied _ \<Rightarrow> (attempts, turns, calls, failed, steps, compactions + 1)
      | _ \<Rightarrow> c))"

definition shown_tasks :: "run_state_view \<Rightarrow> task list \<times> component list \<times> string list" where
  "shown_tasks st = (v_tasks st, v_components st, v_compaction_summaries st)"

definition show_task :: "body \<Rightarrow> task list \<times> component list \<times> string list \<Rightarrow> task list \<times> component list \<times> string list" where
  "show_task b t = (case t of (tasks, components, summaries) \<Rightarrow>
     (case b of
        TaskListUpdated u \<Rightarrow> (tl_tasks u, components, summaries)
      | ComponentShown c \<Rightarrow> (tasks, components @ [cs_component c], summaries)
      | CompactionApplied c \<Rightarrow> (tasks, components, summaries @ [ca_summary c])
      | _ \<Rightarrow> t))"

section \<open>One record\<close>

lemmas body_split = if_splits option.splits sum.splits

lemma apply_usage:
  "apply_body r b (st, cx) = Inr (st', cx') \<Longrightarrow> v_usage st' = v_usage st + usage_of b"
  by (cases b) (auto simp: op_defs Let_def remove_entry_def usage_of_def split: body_split)

lemma apply_cost:
  "apply_body r b (st, cx) = Inr (st', cx') \<Longrightarrow>
     (case priced_call b of
        None \<Rightarrow> cost_totals st' = cost_totals st
      | Some c \<Rightarrow> cost_totals_after c (cost_totals st) = Some (cost_totals st'))"
  by (cases b) (auto simp: op_defs Let_def remove_entry_def priced_call_def cost_totals_def split: body_split)

lemma apply_call_counts:
  "apply_body r b (st, cx) = Inr (st', cx') \<Longrightarrow> call_counts st' = count_call b (call_counts st)"
  by (cases b) (auto simp: op_defs Let_def remove_entry_def call_counts_def count_call_def split: body_split)

lemma apply_shown:
  "apply_body r b (st, cx) = Inr (st', cx') \<Longrightarrow> shown_tasks st' = show_task b (shown_tasks st)"
  by (cases b) (auto simp: op_defs Let_def remove_entry_def shown_tasks_def show_task_def split: body_split)

section \<open>The projections\<close>

lemma bump_frame [simp]:
  "cost_totals (st\<lparr>v_head_seq := n\<rparr>) = cost_totals st" "call_counts (st\<lparr>v_head_seq := n\<rparr>) = call_counts st"
  "shown_tasks (st\<lparr>v_head_seq := n\<rparr>) = shown_tasks st"
  by (simp_all add: cost_totals_def call_counts_def shown_tasks_def)

interpretation metered_usage: fold_projection fold_step "\<lambda>s. v_usage (fst s)" "\<lambda>r u. u + usage_of (r_body r)"
  by unfold_locales (auto simp: fold_step_Inr_iff bump_def dest!: apply_usage)

interpretation metered_cost: fold_projection fold_step "\<lambda>s. Some (cost_totals (fst s))"
  "\<lambda>r t. case priced_call (r_body r) of None \<Rightarrow> t | Some c \<Rightarrow> Option.bind t (cost_totals_after c)"
  by unfold_locales (auto simp: fold_step_Inr_iff bump_def dest!: apply_cost split: option.splits)

interpretation counted: fold_projection fold_step "\<lambda>s. call_counts (fst s)" "\<lambda>r. count_call (r_body r)"
  by unfold_locales (auto simp: fold_step_Inr_iff bump_def dest!: apply_call_counts)

interpretation shown: fold_projection fold_step "\<lambda>s. shown_tasks (fst s)" "\<lambda>r. show_task (r_body r)"
  by unfold_locales (auto simp: fold_step_Inr_iff bump_def dest!: apply_shown)

section \<open>Totals over a log\<close>

text \<open>The total of a list of costs as a fold that starts from no total; \<open>None\<close> is two currencies.\<close>

definition add_cost :: "cost \<Rightarrow> cost option option \<Rightarrow> cost option option" where
  "add_cost d t = (case t of
       None \<Rightarrow> None
     | Some None \<Rightarrow> Some (Some d)
     | Some (Some c) \<Rightarrow> map_option Some (cost_add c d))"

definition total_cost :: "cost list \<Rightarrow> cost option option" where
  "total_cost cs = fold add_cost cs (Some None)"

lemma add_cost_simps [simp]:
  "add_cost d None = None" "add_cost d (Some None) = Some (Some d)"
  "add_cost d (Some (Some c)) = map_option Some (cost_add c d)"
  by (simp_all add: add_cost_def)

lemma add_cost_swap: "add_cost d \<circ> add_cost e = add_cost e \<circ> add_cost d"
proof
  fix t
  have "Option.bind (cost_add c e) (\<lambda>x. cost_add x d) = Option.bind (cost_add c d) (\<lambda>x. cost_add x e)" for c
    by (metis cost_add_assoc cost_add_commute)
  then show "(add_cost d \<circ> add_cost e) t = (add_cost e \<circ> add_cost d) t"
    by (cases t rule: option.exhaust; cases "the t"; cases "cost_add (the (the t)) d"; cases "cost_add (the (the t)) e")
       (auto simp: add_cost_def cost_add_commute split: option.splits, (metis bind.bind_lunit bind.bind_lzero)+)
qed

lemma total_cost_permute: "mset cs = mset ds \<Longrightarrow> total_cost cs = total_cost ds"
  unfolding total_cost_def using fold_multiset_equiv[of cs add_cost ds] add_cost_swap by metis

lemma fold_add_cost_None [simp]: "fold add_cost cs None = None"
  by (induction cs) simp_all

lemma fold_add_cost_Some: "fold add_cost cs (Some (Some c)) = map_option Some (cost_total c cs)"
  by (induction cs arbitrary: c) (auto split: option.splits bind_splits)

lemma total_cost_eq:
  "total_cost cs = (case cs of [] \<Rightarrow> Some None | c # ds \<Rightarrow> map_option Some (cost_total c ds))"
  by (cases cs) (simp_all add: total_cost_def add_cost_def fold_add_cost_Some)

lemma fold_cost_totals:
  "fold (\<lambda>b t. case priced_call b of None \<Rightarrow> t | Some c \<Rightarrow> Option.bind t (cost_totals_after c)) bs (Some (u, p, t))
     = Some (u', p', t') \<Longrightarrow>
   Some t' = fold add_cost (costs_of bs) (Some t) \<and> u' = u + unpriced_of bs"
proof (induction bs arbitrary: u p t)
  case Nil
  then show ?case by (simp add: costs_of_def unpriced_of_def map_filter_simps)
next
  case (Cons b bs)
  let ?upd = "\<lambda>b t. case priced_call b of None \<Rightarrow> t | Some c \<Rightarrow> Option.bind t (cost_totals_after c)"
  have none: "fold ?upd cs None = None" for cs
    by (induction cs) (auto split: option.splits)
  show ?case
  proof (cases "?upd b (Some (u, p, t))")
    case None
    with Cons.prems none show ?thesis by simp
  next
    case (Some x)
    obtain u1 p1 t1 where x: "x = (u1, p1, t1)" by (cases x) auto
    from Cons.IH[of u1 p1 t1] Cons.prems Some x
    have "Some t' = fold add_cost (costs_of bs) (Some t1) \<and> u' = u1 + unpriced_of bs" by simp
    with Some x show ?thesis
      by (auto simp: costs_of_def unpriced_of_def map_filter_simps cost_totals_after_def Let_def
               split: option.splits prod.splits)
  qed
qed

lemma total_cost_amount:
  "total_cost cs = Some (Some t) \<Longrightarrow>
     c_amount t = sum_list (map c_amount cs) \<and> (\<forall>c \<in> set cs. c_currency c = c_currency t)"
  by (auto simp: total_cost_eq split: list.splits dest!: cost_total_SomeD)

lemma reduce_projected:
  assumes "reduce rid None rs = Inr v"
  shows "v_usage v = fold (\<lambda>r u. u + usage_of (r_body r)) rs 0"
    and "Some (cost_totals v) = fold (\<lambda>r t. case priced_call (r_body r) of None \<Rightarrow> t
           | Some c \<Rightarrow> Option.bind t (cost_totals_after c)) rs (Some (0, 0, None))"
    and "call_counts v = fold (\<lambda>r. count_call (r_body r)) rs (0, 0, 0, 0, 0, 0)"
    and "shown_tasks v = fold (\<lambda>r. show_task (r_body r)) rs ([], [], [])"
  using assms
  by (auto simp: reduce_whole_Inr_iff initial_view_def cost_totals_def call_counts_def shown_tasks_def
           dest: metered_usage.fold_projects metered_cost.fold_projects counted.fold_projects shown.fold_projects)

lemma fold_usage: "fold (\<lambda>r u. u + usage_of (r_body r)) rs u = u + sum_list (map (usage_of \<circ> r_body) rs)"
  by (induction rs arbitrary: u) (simp_all add: add.assoc)

lemma fold_count_call:
  "fold (\<lambda>r. count_call (r_body r)) rs (a, t, m, f, s, c) =
     (a + int (length (filter (\<lambda>r. case r_body r of AttemptStarted _ \<Rightarrow> True | _ \<Rightarrow> False) rs)),
      t + int (length (filter (\<lambda>r. case r_body r of TurnStarted _ \<Rightarrow> True | _ \<Rightarrow> False) rs)),
      m + int (length (filter (\<lambda>r. case r_body r of ModelCallFinished _ \<Rightarrow> True | _ \<Rightarrow> False) rs)),
      f + int (length (filter (\<lambda>r. case r_body r of ModelCallFailed _ \<Rightarrow> True | _ \<Rightarrow> False) rs)),
      s + int (length (filter (\<lambda>r. case r_body r of StepStarted _ \<Rightarrow> True | _ \<Rightarrow> False) rs)),
      c + int (length (filter (\<lambda>r. case r_body r of CompactionApplied _ \<Rightarrow> True | _ \<Rightarrow> False) rs)))"
proof (induction rs arbitrary: a t m f s c)
  case (Cons r rs)
  then show ?case by (cases "r_body r") (simp_all add: count_call_def)
qed simp

lemma fold_show_task:
  "fold (\<lambda>r. show_task (r_body r)) rs (ts, cs, ss) =
     (last (ts # List.map_filter (\<lambda>r. case r_body r of TaskListUpdated u \<Rightarrow> Some (tl_tasks u) | _ \<Rightarrow> None) rs),
      cs @ List.map_filter (\<lambda>r. case r_body r of ComponentShown c \<Rightarrow> Some (cs_component c) | _ \<Rightarrow> None) rs,
      ss @ List.map_filter (\<lambda>r. case r_body r of CompactionApplied c \<Rightarrow> Some (ca_summary c) | _ \<Rightarrow> None) rs)"
  by (induction rs arbitrary: ts cs ss)
     (auto simp: show_task_def map_filter_simps split: body.splits)

section \<open>Numbering of attempts and turns\<close>

definition attempt_numbers :: "log_record list \<Rightarrow> int list" where
  "attempt_numbers rs =
     List.map_filter (\<lambda>r. case r_body r of AttemptStarted a \<Rightarrow> Some (as_attempt_number a) | _ \<Rightarrow> None) rs"

definition turn_numbers :: "log_record list \<Rightarrow> int list" where
  "turn_numbers rs = List.map_filter (\<lambda>r. case r_body r of TurnStarted t \<Rightarrow> Some (tu_turn t) | _ \<Rightarrow> None) rs"

lemma apply_numbering:
  "apply_body r b (st, cx) = Inr s' \<Longrightarrow>
     (case b of AttemptStarted a \<Rightarrow> as_attempt_number a = v_attempt_count st + 1
      | TurnStarted t \<Rightarrow> tu_turn t = v_turn st + 1
      | _ \<Rightarrow> True)"
  by (cases b) (auto simp: op_defs split: if_splits)

lemma upto_snoc: "(a :: int) \<le> b + 1 \<Longrightarrow> [a..b] @ [b + 1] = [a..b + 1]"
  by (simp add: upto_rec2)

lemma fold_numbering:
  "fold_log fold_step s rs = Inr s' \<Longrightarrow> v_attempt_count (fst s) = 0 \<Longrightarrow> v_turn (fst s) = 0 \<Longrightarrow>
     attempt_numbers rs = [1..v_attempt_count (fst s')] \<and> turn_numbers rs = [1..v_turn (fst s')] \<and>
     0 \<le> v_attempt_count (fst s') \<and> 0 \<le> v_turn (fst s')"
proof (induction rs arbitrary: s' rule: rev_induct)
  case Nil
  then show ?case by (simp add: attempt_numbers_def turn_numbers_def map_filter_simps)
next
  case (snoc r rs)
  then obtain t where t: "fold_log fold_step s rs = Inr t" "fold_step t r = Inr s'"
    by (auto simp: fold_log_snoc split: sum.splits)
  from t(2) have a: "apply_body r (r_body r) (bump r t) = Inr (fst s', snd s')"
    by (simp add: fold_step_Inr_iff)
  note n = apply_numbering[OF a[unfolded bump_def]]
  from a have c: "call_counts (fst s') = count_call (r_body r) (call_counts (fst t))"
    using apply_call_counts[OF a[unfolded bump_def]] by simp
  from snoc.IH[OF t(1) snoc.prems(2,3)] n c show ?case
    by (cases "r_body r")
       (simp_all add: attempt_numbers_def turn_numbers_def map_filter_snoc call_counts_def count_call_def upto_snoc)
qed

section \<open>Properties\<close>



text \<open>C17. The derived cost of an accepted log is the total of the priced calls of the log in any
  order, its amount is the sum of their amounts, they all carry one currency, and every call
  without a price is counted as unpriced.\<close>

theorem cost_is_the_total_of_the_calls:
  assumes "reduce rid None rs = Inr v" and "mset cs = mset (costs_of (map r_body rs))"
  shows "total_cost cs = Some (v_cost v) \<and> v_unpriced_model_calls v = unpriced_of (map r_body rs) \<and>
         (case v_cost v of
            None \<Rightarrow> cs = []
          | Some t \<Rightarrow> c_amount t = sum_list (map c_amount cs) \<and> (\<forall>c \<in> set cs. c_currency c = c_currency t))"
proof -
  from reduce_projected(2)[OF assms(1)]
  have "fold (\<lambda>b t. case priced_call b of None \<Rightarrow> t | Some c \<Rightarrow> Option.bind t (cost_totals_after c)) (map r_body rs)
          (Some (0, 0, None)) = Some (v_unpriced_model_calls v, v_provider_reported_costs v, v_cost v)"
    by (simp add: cost_totals_def fold_map comp_def)
  from fold_cost_totals[OF this] have
    "Some (v_cost v) = total_cost (costs_of (map r_body rs))" "v_unpriced_model_calls v = unpriced_of (map r_body rs)"
    by (simp_all add: total_cost_def)
  moreover from this(1) assms(2) have t: "total_cost cs = Some (v_cost v)"
    using total_cost_permute by metis
  moreover from t have "v_cost v = None \<Longrightarrow> cs = []"
    by (auto simp: total_cost_eq split: list.splits)
  ultimately show ?thesis
    using total_cost_amount[of cs] by (auto split: option.splits)
qed

lemma cost_is_the_total_of_the_calls_witness:
  "\<exists>v. reduce None None whole_log = Inr v \<and> total_cost [s_cost 1, s_cost 2] = Some (v_cost v) \<and>
       v_unpriced_model_calls v = 1"
proof -
  have "mset [s_cost 1, s_cost 2] = mset (costs_of (map r_body whole_log)) \<and> unpriced_of (map r_body whole_log) = 1"
    by code_simp
  then show ?thesis
    using acceptedD[OF whole_log_accepted] cost_is_the_total_of_the_calls by metis
qed

text \<open>Attempts and turns are numbered 1, 2, 3, ... in the order of the log, and the derived
  counters of attempts, turns, finished and failed model calls, step starts and compactions are
  the numbers of such records.\<close>

theorem attempts_and_turns_are_consecutive:
  assumes "reduce rid None rs = Inr v"
  shows "attempt_numbers rs = [1..v_attempt_count v] \<and> turn_numbers rs = [1..v_turn v] \<and>
         v_model_calls v = int (length (filter (\<lambda>r. case r_body r of ModelCallFinished _ \<Rightarrow> True | _ \<Rightarrow> False) rs)) \<and>
         v_failed_model_calls v = int (length (filter (\<lambda>r. case r_body r of ModelCallFailed _ \<Rightarrow> True | _ \<Rightarrow> False) rs)) \<and>
         v_step_starts v = int (length (filter (\<lambda>r. case r_body r of StepStarted _ \<Rightarrow> True | _ \<Rightarrow> False) rs)) \<and>
         v_compaction_calls v = int (length (filter (\<lambda>r. case r_body r of CompactionApplied _ \<Rightarrow> True | _ \<Rightarrow> False) rs))"
proof -
  from assms obtain cx where f: "fold_log fold_step (fresh_state rid (hd rs)) rs = Inr (v, cx)"
    by (auto simp: reduce_whole_Inr_iff)
  have "attempt_numbers rs = [1..v_attempt_count v] \<and> turn_numbers rs = [1..v_turn v]"
    using fold_numbering[OF f] by (simp add: initial_view_def)
  moreover from reduce_projected(3)[OF assms] have
    "call_counts v = fold (\<lambda>r. count_call (r_body r)) rs (0, 0, 0, 0, 0, 0)" .
  ultimately show ?thesis
    by (simp add: fold_count_call call_counts_def)
qed

lemma attempts_and_turns_are_consecutive_witness:
  "\<exists>v. reduce None None whole_log = Inr v \<and> turn_numbers whole_log = [1..v_turn v] \<and> v_model_calls v = 2"
proof -
  have "int (length (filter (\<lambda>r. case r_body r of ModelCallFinished _ \<Rightarrow> True | _ \<Rightarrow> False) whole_log)) = 2"
    by code_simp
  then show ?thesis
    using acceptedD[OF whole_log_accepted] attempts_and_turns_are_consecutive by metis
qed

text \<open>The plan is the last task list written and nothing else, while components and compaction
  summaries accumulate in the order they were shown.\<close>

theorem plan_is_replaced_and_components_accumulate:
  assumes "reduce rid None rs = Inr v"
  shows "v_tasks v = last ([] # List.map_filter (\<lambda>r. case r_body r of TaskListUpdated u \<Rightarrow> Some (tl_tasks u) | _ \<Rightarrow> None) rs) \<and>
         v_components v = List.map_filter (\<lambda>r. case r_body r of ComponentShown c \<Rightarrow> Some (cs_component c) | _ \<Rightarrow> None) rs \<and>
         v_compaction_summaries v =
           List.map_filter (\<lambda>r. case r_body r of CompactionApplied c \<Rightarrow> Some (ca_summary c) | _ \<Rightarrow> None) rs"
  using reduce_projected(4)[OF assms] by (simp add: fold_show_task shown_tasks_def)

lemma plan_is_replaced_and_components_accumulate_witness:
  "\<exists>v. reduce None None whole_log = Inr v \<and> v_compaction_summaries v = [''s'']"
proof -
  have "List.map_filter (\<lambda>r. case r_body r of CompactionApplied c \<Rightarrow> Some (ca_summary c) | _ \<Rightarrow> None) whole_log = [''s'']"
    by code_simp
  moreover obtain v where v: "reduce None None whole_log = Inr v"
    using acceptedD[OF whole_log_accepted] by blast
  ultimately show ?thesis
    using plan_is_replaced_and_components_accumulate[OF v] by (intro exI[of _ v]) (elim conjE, simp only:)
qed

end
