(* ===== verification/ToolCalls.thy ===== *)
theory ToolCalls
  imports LogShape
begin

text \<open>
  The tool-call discipline of the log. The abstract ledger of a log is three lists: the call
  ids started, the call ids settled, and the ids started and not settled. The fold's open calls,
  results and set of started ids are the ledger of the log it accepted, every id is started and
  settled at most once, and no call is settled that was not open. Also the handles under which
  settled calls left preserved output, which are the only ones a later read may name.
\<close>

section \<open>The ledger of a log\<close>

definition started_ids :: "log_record list \<Rightarrow> call_id list" where
  "started_ids rs = List.map_filter (\<lambda>r. case r_body r of ToolCallStarted s \<Rightarrow> Some (tcs_call_id s) | _ \<Rightarrow> None) rs"

definition finished_ids :: "log_record list \<Rightarrow> call_id list" where
  "finished_ids rs = List.map_filter (\<lambda>r. case r_body r of ToolCallFinished f \<Rightarrow> Some (tcf_call_id f) | _ \<Rightarrow> None) rs"

type_synonym ledger = "call_id list \<times> call_id list \<times> call_id set"

definition ledger_of :: "fold_state \<Rightarrow> ledger" where
  "ledger_of s = (map fst (v_open_tool_calls (fst s)), map tr_call_id (v_tool_results (fst s)), fc_started (snd s))"

definition ledger_step :: "body \<Rightarrow> ledger \<Rightarrow> ledger" where
  "ledger_step b l = (case l of (opened, settled, started) \<Rightarrow>
     (case b of
        ToolCallStarted s \<Rightarrow>
          (if tcs_call_id s \<in> set opened then opened else opened @ [tcs_call_id s], settled,
           insert (tcs_call_id s) started)
      | ToolCallFinished f \<Rightarrow>
          (removeAll (tcf_call_id f) opened, settled @ [tcf_call_id f], started)
      | _ \<Rightarrow> l))"

definition ledger_allows :: "body \<Rightarrow> ledger \<Rightarrow> bool" where
  "ledger_allows b l = (case l of (opened, settled, started) \<Rightarrow>
     (case b of
        ToolCallStarted s \<Rightarrow> tcs_call_id s \<notin> started
      | ToolCallFinished f \<Rightarrow> tcf_call_id f \<in> set opened
      | _ \<Rightarrow> True))"

lemma apply_ledger:
  "apply_body r b (st, cx) = Inr s' \<Longrightarrow>
     ledger_of s' = ledger_step b (ledger_of (st, cx)) \<and> ledger_allows b (ledger_of (st, cx))"
  by (cases b)
     (auto simp: op_defs Let_def remove_entry_def ledger_of_def ledger_step_def ledger_allows_def
                 update_keys delete_keys settled_result_def
           dest!: dict_get_keyD dest: dict_keysI split: if_splits option.splits sum.splits)

lemma ledger_of_bump [simp]: "ledger_of (bump r s) = ledger_of s"
  by (simp add: ledger_of_def bump_def)

lemma step_ledger:
  "fold_step s r = Inr s' \<Longrightarrow>
     ledger_of s' = ledger_step (r_body r) (ledger_of s) \<and> ledger_allows (r_body r) (ledger_of s)"
  using apply_ledger[of r "r_body r" "fst (bump r s)" "snd (bump r s)" s'] by (simp add: fold_step_Inr_iff)

definition ledger_matches :: "log_record list \<Rightarrow> ledger \<Rightarrow> bool" where
  "ledger_matches rs l = (case l of (opened, settled, started) \<Rightarrow>
     distinct (started_ids rs) \<and> started = set (started_ids rs) \<and>
     settled = finished_ids rs \<and> distinct (finished_ids rs) \<and>
     set (finished_ids rs) \<subseteq> set (started_ids rs) \<and>
     opened = filter (\<lambda>c. c \<notin> set (finished_ids rs)) (started_ids rs))"

lemma ledger_matches_snoc:
  assumes "ledger_matches rs l" and "ledger_allows (r_body r) l"
  shows "ledger_matches (rs @ [r]) (ledger_step (r_body r) l)"
proof -
  obtain opened settled started where l: "l = (opened, settled, started)" by (cases l) auto
  have ids: "started_ids (rs @ [r]) = started_ids rs @ (case r_body r of ToolCallStarted s \<Rightarrow> [tcs_call_id s] | _ \<Rightarrow> [])"
    "finished_ids (rs @ [r]) = finished_ids rs @ (case r_body r of ToolCallFinished f \<Rightarrow> [tcf_call_id f] | _ \<Rightarrow> [])"
    by (cases "r_body r"; simp add: started_ids_def finished_ids_def map_filter_snoc)+
  show ?thesis
    using assms unfolding l
    by (cases "r_body r")
       (auto simp: ids ledger_matches_def ledger_step_def ledger_allows_def removeAll_filter_not_eq
             intro!: filter_cong)
qed

interpretation tool_ledger: fold_history fold_step "\<lambda>rs s. ledger_matches rs (ledger_of s)"
  by unfold_locales (simp add: step_ledger ledger_matches_snoc)

lemma ledger_matches_fresh: "ledger_matches [] (ledger_of (fresh_state rid r))"
  by (simp add: ledger_matches_def ledger_of_def fresh_state_def ctx_of_def initial_view_def
                started_ids_def finished_ids_def Let_def)

lemma reduce_ledger:
  assumes "reduce rid None rs = Inr v"
  obtains cx where "ledger_matches rs (ledger_of (v, cx))"
  using reduce_history[OF tool_ledger.fold_history_axioms ledger_matches_fresh assms] by auto

section \<open>Handles of preserved output\<close>

definition handles_of :: "body \<Rightarrow> string set" where
  "handles_of b = (case b of
     ToolCallFinished f \<Rightarrow> set_option (tcf_result_handle f) \<union> at_handle ` {a \<in> set (tcf_attachments f). at_readable a}
   | _ \<Rightarrow> {})"

lemma dict_keys_register:
  "dict_keys (fold (\<lambda>a d. if at_readable a then dict_put (at_handle a) c d else d) xs d) =
     dict_keys d \<union> at_handle ` {a \<in> set xs. at_readable a}"
  by (induction xs arbitrary: d) auto

lemma keys_register_handles:
  "dict_keys (register_handles f d) = dict_keys d \<union> handles_of (ToolCallFinished f)"
  by (auto simp: register_handles_def handles_of_def dict_keys_register Let_def split: option.splits)

definition handle_step :: "body \<Rightarrow> (string, call_id) dict \<Rightarrow> (string, call_id) dict" where
  "handle_step b d = (case b of ToolCallFinished f \<Rightarrow> register_handles f d | _ \<Rightarrow> d)"

lemma apply_handles:
  "apply_body r b (st, cx) = Inr (st', cx') \<Longrightarrow> v_result_handles st' = handle_step b (v_result_handles st)"
  by (cases b) (auto simp: op_defs Let_def remove_entry_def handle_step_def split: if_splits option.splits sum.splits)

interpretation handles: fold_projection fold_step "\<lambda>s. v_result_handles (fst s)" "\<lambda>r. handle_step (r_body r)"
  by unfold_locales (auto dest!: fold_step_applies apply_handles)

lemma keys_handle_step: "dict_keys (handle_step b d) = dict_keys d \<union> handles_of b"
proof (cases b)
  case (ToolCallFinished f)
  then show ?thesis unfolding handle_step_def by (simp only: body.case keys_register_handles)
qed (simp_all add: handle_step_def handles_of_def)

lemma fold_handles:
  "dict_keys (fold (\<lambda>r. handle_step (r_body r)) rs d) = dict_keys d \<union> (\<Union>r \<in> set rs. handles_of (r_body r))"
proof (induction rs arbitrary: d)
  case (Cons r rs)
  show ?case
    by (simp only: fold_Cons comp_apply Cons.IH keys_handle_step) auto
qed simp

lemma apply_deferred:
  "apply_body r (ToolCallStarted s) (st, cx) = Inr s' \<Longrightarrow> tcs_tool s = ''read_tool_output'' \<Longrightarrow>
     tcs_parent_call_id s = None \<Longrightarrow> dict_get (tcs_arguments s) ''handle'' = Some (JStr h) \<Longrightarrow>
     h \<in> dict_keys (v_result_handles st)"
  by (auto simp: op_defs Let_def check_deferred_handle_def split: if_splits)

section \<open>Properties\<close>

text \<open>C4. Every tool call is started once and settled at most once: the started ids of an accepted
  log are distinct, so are the settled ones, every settled call was started, the results are the
  settled calls in order, and the open calls are exactly the started ones without a settlement.\<close>

theorem tool_calls_settle_exactly_once:
  assumes "reduce rid None rs = Inr v"
  shows "distinct (started_ids rs) \<and> distinct (finished_ids rs) \<and> set (finished_ids rs) \<subseteq> set (started_ids rs) \<and>
         map tr_call_id (v_tool_results v) = finished_ids rs \<and>
         map fst (v_open_tool_calls v) = filter (\<lambda>c. c \<notin> set (finished_ids rs)) (started_ids rs)"
  by (rule reduce_ledger[OF assms]) (simp add: ledger_matches_def ledger_of_def)

lemma tool_calls_settle_exactly_once_witness:
  "\<exists>v. reduce None None whole_log = Inr v \<and> map tr_call_id (v_tool_results v) = [''c1''] \<and> v_open_tool_calls v = []"
proof -
  have "finished_ids whole_log = [''c1''] \<and> started_ids whole_log = [''c1'']" by code_simp
  moreover obtain v where "reduce None None whole_log = Inr v"
    using acceptedD[OF whole_log_accepted] by blast
  ultimately show ?thesis
    using tool_calls_settle_exactly_once[of None whole_log v] by auto
qed

text \<open>A deferred read of preserved output names a handle that an earlier settled call of the same
  log produced, as its own result or as a readable attachment.\<close>

theorem deferred_read_names_an_earlier_handle:
  assumes "reduce rid None (xs @ r # ys) = Inr v"
    and "r_body r = ToolCallStarted s" and "tcs_tool s = ''read_tool_output''" and "tcs_parent_call_id s = None"
    and "dict_get (tcs_arguments s) ''handle'' = Some (JStr h)"
  shows "\<exists>x \<in> set xs. \<exists>f. r_body x = ToolCallFinished f \<and>
           (tcf_result_handle f = Some h \<or> (\<exists>a \<in> set (tcf_attachments f). at_readable a \<and> at_handle a = h))"
proof -
  from assms(1) obtain u w cx where
    u: "fold_log fold_step (fresh_state rid (hd (xs @ r # ys))) xs = Inr u" and w: "fold_step u r = Inr w"
    by (rule reduce_at)
  have "h \<in> dict_keys (v_result_handles (fst u))"
    using apply_deferred[OF fold_step_applies[OF w, unfolded assms(2)] assms(3-5)]
    by simp
  also have "dict_keys (v_result_handles (fst u)) = (\<Union>x \<in> set xs. handles_of (r_body x))"
    using handles.fold_projects[OF u] by (simp only: fold_handles) (simp add: initial_view_def)
  finally show ?thesis
    by (force simp: handles_of_def split: body.splits)
qed

definition handle_log_front :: "log_record list" where
  "handle_log_front = log_of [b_admitted, b_attempt 1, b_turn 1, b_tool ''c1'' ''search'' 1,
     ToolCallFinished \<lparr>tcf_call_id = ''c1'', tcf_outcome = OutcomeError, tcf_result = JNull, tcf_failure = None,
       tcf_duration_seconds = 0, tcf_result_handle = Some ''h1'', tcf_preview = Some ''p'', tcf_result_bytes = 9,
       tcf_result_blob_key = None, tcf_result_content_type = None, tcf_attachments = []\<rparr>]"

definition handle_read :: tool_call_started where
  "handle_read = \<lparr>tcs_call_id = ''c2'', tcs_tool = ''read_tool_output'', tcs_arguments = [(''handle'', JStr ''h1'')],
     tcs_turn = 1, tcs_step_id = None, tcs_interruptible = False, tcs_safe_to_retry = True, tcs_parent_call_id = None\<rparr>"

lemma deferred_read_names_an_earlier_handle_witness:
  "\<exists>x \<in> set handle_log_front. \<exists>f. r_body x = ToolCallFinished f \<and> tcf_result_handle f = Some ''h1''"
proof -
  have "accepted (handle_log_front @ rec_at 6 (ToolCallStarted handle_read) # [])" by code_simp
  then obtain v where v: "reduce None None (handle_log_front @ rec_at 6 (ToolCallStarted handle_read) # []) = Inr v"
    using acceptedD by blast
  have "\<exists>x \<in> set handle_log_front. \<exists>f. r_body x = ToolCallFinished f \<and>
          (tcf_result_handle f = Some ''h1'' \<or> (\<exists>a \<in> set (tcf_attachments f). at_readable a \<and> at_handle a = ''h1''))"
    by (rule deferred_read_names_an_earlier_handle[OF v, of handle_read]) (simp_all add: rec_at_def handle_read_def)
  then show ?thesis
    by (auto simp: handle_log_front_def log_of_def rec_at_def b_admitted_def b_attempt_def b_turn_def b_tool_def)
qed

end
