(* ===== verification/Guards.thy ===== *)
theory Guards
  imports ToolCalls
begin

text \<open>
  The two guards against a Run that burns its budget: the failure streak
  (\<open>psych_runtime/tools/failure_streak.py\<close>) and the repetition guard
  (\<open>psych_runtime/tools/repetition.py\<close>), with the counters the reducer keeps for them and the
  guard's use in the turn (\<open>runtime/agent.py\<close>).

  The abstract specification pairs every settlement of a log with the start it answers
  (\<open>settled_calls\<close>); the streak of a tool is then the number of failures after its last success,
  and the tally of a call the length of the last run of identical answers to it.
\<close>

section \<open>Verdicts\<close>

record streak_verdict =
  kv_tool :: string
  kv_streak :: int
  kv_withhold :: bool
  kv_fail_turn :: bool
  kv_advisory :: "string option"

record repetition_verdict =
  rv_digest :: string
  rv_repeats :: int
  rv_refuse :: bool
  rv_fail_turn :: bool
  rv_advisory :: "string option"

definition streak_advisory :: "string \<Rightarrow> int \<Rightarrow> string" where
  "streak_advisory tool streak =
     ''The tool '' @ repr_str tool @ '' has now failed '' @ int_str streak @ '' times in a row, so it has been '' @
     ''removed from the tools available to you for the rest of this run. Do not '' @
     ''look for another way to call it. Either solve the problem with the tools '' @
     ''you still have, or explain to the user what is broken and ask how they '' @
     ''would like to proceed.''"

definition assess_streak :: "string \<Rightarrow> int \<Rightarrow> int \<Rightarrow> int \<Rightarrow> streak_verdict" where
  "assess_streak tool streak threshold hard_stop =
     (if streak \<ge> hard_stop then
        \<lparr>kv_tool = tool, kv_streak = streak, kv_withhold = True, kv_fail_turn = True,
         kv_advisory = Some (repr_str tool @ '' failed '' @ int_str streak @
           '' times in a row. The turn is being stopped '' @
           ''rather than spending more of the step budget on it.'')\<rparr>
      else if streak \<ge> threshold then
        \<lparr>kv_tool = tool, kv_streak = streak, kv_withhold = True, kv_fail_turn = False,
         kv_advisory = Some (streak_advisory tool streak)\<rparr>
      else \<lparr>kv_tool = tool, kv_streak = streak, kv_withhold = False, kv_fail_turn = False, kv_advisory = None\<rparr>)"

definition withheld_tools :: "(string, int) dict \<Rightarrow> int \<Rightarrow> int \<Rightarrow> string set" where
  "withheld_tools streaks threshold hard_stop =
     fst ` set (filter (\<lambda>(tool, streak). kv_withhold (assess_streak tool streak threshold hard_stop)) streaks)"

definition repetition_advisory :: "int \<Rightarrow> string" where
  "repetition_advisory repeats =
     ''You have already made this exact call '' @ int_str repeats @ '' times and received the '' @
     ''same result every time, so it has not been run again. You already have '' @
     ''this answer: use it. If it does not contain what you need, call '' @
     ''something different or change the arguments meaningfully. If neither '' @
     ''will help, tell the user what is missing rather than repeating this.''"

definition assess_repetition :: "string \<Rightarrow> int \<Rightarrow> int \<Rightarrow> int \<Rightarrow> repetition_verdict" where
  "assess_repetition digest repeats threshold hard_stop =
     (if repeats \<ge> hard_stop then
        \<lparr>rv_digest = digest, rv_repeats = repeats, rv_refuse = True, rv_fail_turn = True,
         rv_advisory = Some (''The same call has now been made '' @ int_str repeats @ '' times with the same '' @
           ''arguments and the same result. The turn is being stopped rather '' @
           ''than spending more of the budget repeating it.'')\<rparr>
      else if repeats \<ge> threshold then
        \<lparr>rv_digest = digest, rv_repeats = repeats, rv_refuse = True, rv_fail_turn = False,
         rv_advisory = Some (repetition_advisory repeats)\<rparr>
      else \<lparr>rv_digest = digest, rv_repeats = repeats, rv_refuse = False, rv_fail_turn = False, rv_advisory = None\<rparr>)"

text \<open>The check in \<open>AgentLoop._run_tool_calls\<close>, made before the call runs.\<close>

definition repetition_gate :: "run_state_view \<Rightarrow> string \<Rightarrow> obj \<Rightarrow> int \<Rightarrow> int \<Rightarrow> repetition_verdict" where
  "repetition_gate st name arguments threshold hard_stop =
     (let call_key = call_digest name (JObj arguments) None;
          tally = dict_get (v_repeat_counts st) call_key
      in assess_repetition call_key ((case tally of Some t \<Rightarrow> rt_count t | None \<Rightarrow> 0) + 1) threshold hard_stop)"

section \<open>The settled calls of a log\<close>

type_synonym settled_call = "tool_call_started \<times> tool_call_finished"

definition pair_call ::
    "body \<Rightarrow> (call_id, tool_call_started) dict \<times> settled_call list \<Rightarrow> (call_id, tool_call_started) dict \<times> settled_call list" where
  "pair_call b p = (case p of (open_calls, pairs) \<Rightarrow>
     (case b of
        ToolCallStarted s \<Rightarrow> (dict_put (tcs_call_id s) s open_calls, pairs)
      | ToolCallFinished f \<Rightarrow>
          (open_calls, case dict_get open_calls (tcf_call_id f) of Some s \<Rightarrow> pairs @ [(s, f)] | None \<Rightarrow> pairs)
      | _ \<Rightarrow> p))"

definition paired :: "log_record list \<Rightarrow> (call_id, tool_call_started) dict \<times> settled_call list" where
  "paired rs = fold (\<lambda>r. pair_call (r_body r)) rs ([], [])"

definition settled_calls :: "log_record list \<Rightarrow> settled_call list" where
  "settled_calls rs = snd (paired rs)"

definition answer_keys :: "settled_call \<Rightarrow> string \<times> string" where
  "answer_keys p = (call_digest (tcs_tool (fst p)) (JObj (tcs_arguments (fst p))) None,
                    call_digest (tcs_tool (fst p)) (JObj (tcs_arguments (fst p))) (Some (answer_of (snd p))))"

definition ok_answers :: "settled_call list \<Rightarrow> (string \<times> string) list" where
  "ok_answers ps = map answer_keys (filter (\<lambda>p. tcf_outcome (snd p) = OutcomeOk) ps)"

definition counters_match :: "log_record list \<Rightarrow> fold_state \<Rightarrow> bool" where
  "counters_match rs s \<longleftrightarrow>
     (\<forall>c oc. dict_get (v_open_tool_calls (fst s)) c = Some oc \<longrightarrow>
        (\<exists>b. dict_get (fst (paired rs)) c = Some b \<and> oc_tool oc = tcs_tool b \<and> oc_arguments oc = tcs_arguments b)) \<and>
     v_failure_streaks (fst s) = fold (\<lambda>p. streaks_after (tcs_tool (fst p)) (tcf_outcome (snd p))) (settled_calls rs) [] \<and>
     v_repeat_counts (fst s) = fold (\<lambda>(k, a). tallies_after k a) (ok_answers (settled_calls rs)) []"

lemma apply_counters:
  "apply_body r b (st, cx) = Inr (st', cx') \<Longrightarrow>
     (case b of
        ToolCallStarted s \<Rightarrow>
          (\<exists>oc. v_open_tool_calls st' = dict_put (tcs_call_id s) oc (v_open_tool_calls st) \<and>
                oc_tool oc = tcs_tool s \<and> oc_arguments oc = tcs_arguments s) \<and>
          v_failure_streaks st' = v_failure_streaks st \<and> v_repeat_counts st' = v_repeat_counts st
      | ToolCallFinished f \<Rightarrow>
          (\<exists>oc. dict_get (v_open_tool_calls st) (tcf_call_id f) = Some oc \<and>
                v_open_tool_calls st' = dict_del (tcf_call_id f) (v_open_tool_calls st) \<and>
                v_failure_streaks st' = streaks_after (oc_tool oc) (tcf_outcome f) (v_failure_streaks st) \<and>
                v_repeat_counts st' =
                  (if tcf_outcome f = OutcomeOk
                   then tallies_after (call_digest (oc_tool oc) (JObj (oc_arguments oc)) None)
                          (call_digest (oc_tool oc) (JObj (oc_arguments oc)) (Some (answer_of f))) (v_repeat_counts st)
                   else v_repeat_counts st))
      | _ \<Rightarrow> v_open_tool_calls st' = v_open_tool_calls st \<and> v_failure_streaks st' = v_failure_streaks st \<and>
             v_repeat_counts st' = v_repeat_counts st)"
  by (cases b) (auto simp: op_defs Let_def remove_entry_def split: if_splits option.splits sum.splits)

lemma paired_snoc [simp]: "paired (rs @ [r]) = pair_call (r_body r) (paired rs)"
  by (simp add: paired_def)

lemma counters_match_snoc:
  assumes "counters_match rs s" and "fold_step s r = Inr s'"
  shows "counters_match (rs @ [r]) s'"
proof -
  note c = apply_counters[OF fold_step_applies[OF assms(2)]]
  obtain d ps where p: "paired rs = (d, ps)" by fastforce
  show ?thesis
  proof (cases "r_body r")
    case (ToolCallFinished f)
    with c obtain oc where oc: "dict_get (v_open_tool_calls (fst s)) (tcf_call_id f) = Some oc" by auto
    with assms(1) p obtain b where b: "dict_get d (tcf_call_id f) = Some b"
      "oc_tool oc = tcs_tool b" "oc_arguments oc = tcs_arguments b"
      by (auto simp: counters_match_def)
    with ToolCallFinished c oc assms(1) p show ?thesis
      by (auto simp: counters_match_def settled_calls_def pair_call_def ok_answers_def answer_keys_def)
  qed (use c assms(1) p in \<open>auto simp: counters_match_def settled_calls_def pair_call_def\<close>)
qed

interpretation counters: fold_history fold_step counters_match
  by unfold_locales (rule counters_match_snoc)

lemma counters_match_fresh: "counters_match [] (fresh_state rid r)"
  by (simp add: counters_match_def settled_calls_def paired_def ok_answers_def initial_view_def)

lemma reduce_counters:
  assumes "reduce rid None rs = Inr v"
  shows "v_failure_streaks v = fold (\<lambda>p. streaks_after (tcs_tool (fst p)) (tcf_outcome (snd p))) (settled_calls rs) []"
    and "v_repeat_counts v = fold (\<lambda>(k, a). tallies_after k a) (ok_answers (settled_calls rs)) []"
  using reduce_history[OF counters.fold_history_axioms counters_match_fresh assms]
  by (auto simp: counters_match_def)

section \<open>What the counters count\<close>

definition failed_outcome :: "tool_outcome \<Rightarrow> bool" where
  "failed_outcome x \<longleftrightarrow> x = OutcomeError \<or> x = OutcomeUnknown"

definition trailing_failures :: "string \<Rightarrow> settled_call list \<Rightarrow> nat" where
  "trailing_failures tool ps =
     length (takeWhile (\<lambda>p. failed_outcome (tcf_outcome (snd p)))
       (rev (filter (\<lambda>p. tcs_tool (fst p) = tool \<and> tcf_outcome (snd p) \<noteq> OutcomeAborted) ps)))"

lemma streak_counts:
  "dict_get (fold (\<lambda>p. streaks_after (tcs_tool (fst p)) (tcf_outcome (snd p))) ps []) tool =
     (if trailing_failures tool ps = 0 then None else Some (int (trailing_failures tool ps)))"
proof (induction ps rule: rev_induct)
  case Nil
  then show ?case by (simp add: trailing_failures_def)
next
  case (snoc p ps)
  then show ?case
    by (cases "tcf_outcome (snd p)")
       (auto simp: streaks_after_def trailing_failures_def failed_outcome_def)
qed

definition trailing_answers :: "string \<Rightarrow> (string \<times> string) list \<Rightarrow> nat" where
  "trailing_answers key qs =
     (case rev (filter (\<lambda>q. fst q = key) qs) of
        [] \<Rightarrow> 0
      | q # rest \<Rightarrow> length (takeWhile (\<lambda>x. x = q) (q # rest)))"

lemma trailing_answers_snoc:
  "trailing_answers key (qs @ [(k, a)]) =
     (if k \<noteq> key then trailing_answers key qs
      else case rev (filter (\<lambda>q. fst q = key) qs) of
             [] \<Rightarrow> 1
           | q # _ \<Rightarrow> if q = (k, a) then trailing_answers key qs + 1 else 1)"
  by (auto simp: trailing_answers_def split: list.splits)

lemma tally_counts:
  "dict_get (fold (\<lambda>(k, a). tallies_after k a) qs []) key =
     (case rev (filter (\<lambda>q. fst q = key) qs) of
        [] \<Rightarrow> None
      | q # _ \<Rightarrow> Some \<lparr>rt_result_digest = snd q, rt_count = int (trailing_answers key qs)\<rparr>)"
proof (induction qs rule: rev_induct)
  case (snoc q qs)
  obtain k a where q: "q = (k, a)" by fastforce
  show ?case
  proof (cases "k = key")
    case True
    show ?thesis
    proof (cases "rev (filter (\<lambda>q. fst q = key) qs)")
      case Nil
      with snoc q True show ?thesis by (simp add: tallies_after_def trailing_answers_snoc)
    next
      case (Cons x xs)
      have "list_all (\<lambda>q. fst q = key) (rev (filter (\<lambda>q. fst q = key) qs))" by (simp add: list_all_iff)
      then have "fst x = key" unfolding Cons by simp
      then obtain a' where "x = (key, a')" by (cases x) simp
      with snoc q True Cons show ?thesis by (simp add: tallies_after_def trailing_answers_snoc)
    qed
  next
    case False
    with snoc q show ?thesis by (simp add: tallies_after_def trailing_answers_snoc cong: list.case_cong)
  qed
qed simp

lemma tally_count_is_trailing:
  "(case dict_get (fold (\<lambda>(k, a). tallies_after k a) qs []) key of Some t \<Rightarrow> rt_count t | None \<Rightarrow> 0)
     = int (trailing_answers key qs)"
  by (simp add: tally_counts trailing_answers_def split: list.splits)

lemma dict_wf_streaks: "dict_wf d \<Longrightarrow> dict_wf (fold (\<lambda>p. streaks_after (tcs_tool (fst p)) (tcf_outcome (snd p))) ps d)"
  by (induction ps arbitrary: d) (auto simp: streaks_after_def)

lemma withheld_iff:
  "dict_wf d \<Longrightarrow> tool \<in> withheld_tools d threshold hard_stop \<longleftrightarrow>
     (\<exists>n. dict_get d tool = Some n \<and> (n \<ge> hard_stop \<or> n \<ge> threshold))"
  by (force simp: withheld_tools_def assess_streak_def dict_wf_def split: if_splits)

section \<open>The guarded calls of a turn\<close>

text \<open>
  One call of a turn as \<open>_run_tool_calls\<close> makes it: a refused call is settled with an error
  outcome, any other with the outcome of its tool.
\<close>

definition guarded_call ::
    "int \<Rightarrow> int \<Rightarrow> string \<times> obj \<times> tool_call_finished \<times> tool_outcome \<Rightarrow> run_state_view \<Rightarrow> run_state_view" where
  "guarded_call threshold hard_stop c st = (case c of (name, arguments, f, outcome) \<Rightarrow>
     update_repeat_count st name arguments f
       (if rv_refuse (repetition_gate st name arguments threshold hard_stop) then OutcomeError else outcome))"

definition counts_below :: "int \<Rightarrow> run_state_view \<Rightarrow> bool" where
  "counts_below n st \<longleftrightarrow> (\<forall>k t. dict_get (v_repeat_counts st) k = Some t \<longrightarrow> 1 \<le> rt_count t \<and> rt_count t < n)"

lemma counts_belowD:
  "counts_below n st \<Longrightarrow> dict_get (v_repeat_counts st) k = Some t \<Longrightarrow> 1 \<le> rt_count t \<and> rt_count t < n"
  by (simp add: counts_below_def)

lemma guarded_call_below:
  assumes "counts_below threshold st" and "threshold \<le> hard_stop"
  shows "counts_below threshold (guarded_call threshold hard_stop c st)"
proof -
  obtain name arguments f outcome where c: "c = (name, arguments, f, outcome)" by (cases c) auto
  let ?k = "call_digest name (JObj arguments) None"
  show ?thesis
  proof (cases "dict_get (v_repeat_counts st) ?k")
    case None
    with assms show ?thesis
      by (auto simp: c guarded_call_def repetition_gate_def assess_repetition_def Let_def counts_below_def tallies_after_def)
  next
    case (Some t)
    with counts_belowD[OF assms(1)] obtain n where "rt_count t = n" "1 \<le> n" "n < threshold" by blast
    with Some assms show ?thesis
      by (auto simp: c guarded_call_def repetition_gate_def assess_repetition_def Let_def counts_below_def tallies_after_def)
  qed
qed

lemma guarded_calls_below:
  "counts_below threshold st \<Longrightarrow> threshold \<le> hard_stop \<Longrightarrow>
     counts_below threshold (fold (guarded_call threshold hard_stop) cs st)"
  by (induction cs arbitrary: st) (simp_all add: guarded_call_below)

section \<open>Properties\<close>

text \<open>The failure streak of a tool is the number of its settlements with an error or an unknown
  outcome after its last success, aborted calls not counting, whatever the failure was (a refusal by
  the policy included), and with ordered thresholds the tool is withheld exactly when that number
  has reached the threshold.\<close>

theorem streak_is_the_trailing_failures:
  assumes "reduce rid None rs = Inr v" and "0 < threshold" and "threshold \<le> hard_stop"
  shows "(case dict_get (v_failure_streaks v) tool of None \<Rightarrow> 0 | Some n \<Rightarrow> n)
           = int (trailing_failures tool (settled_calls rs)) \<and>
         (tool \<in> withheld_tools (v_failure_streaks v) threshold hard_stop \<longleftrightarrow>
            threshold \<le> int (trailing_failures tool (settled_calls rs)))"
  using assms(2,3) by (auto simp: reduce_counters(1)[OF assms(1)] streak_counts withheld_iff dict_wf_streaks)

definition streak_log :: "log_record list" where
  "streak_log = log_of [b_admitted, b_attempt 1, b_turn 1,
     b_tool ''a'' ''search'' 1, b_result ''a'' OutcomeError, b_tool ''b'' ''search'' 1, b_result ''b'' OutcomeAborted,
     b_tool ''c'' ''search'' 1, b_result ''c'' OutcomeUnknown, b_tool ''d'' ''search'' 1, b_result ''d'' OutcomeError]"

lemma streak_is_the_trailing_failures_witness:
  "\<exists>v. reduce None None streak_log = Inr v \<and> ''search'' \<in> withheld_tools (v_failure_streaks v) 3 6"
proof -
  have "accepted streak_log" and "trailing_failures ''search'' (settled_calls streak_log) = 3" by code_simp+
  moreover from this(1) obtain v where "reduce None None streak_log = Inr v" using acceptedD by blast
  ultimately show ?thesis using streak_is_the_trailing_failures[of None streak_log v 3 6 "''search''"] by auto
qed



text \<open>A refused call is settled as an error, which does not count as an answer, so the tally of a call
  stays below the refusal threshold and the hard stop of the repetition guard is never reached by the
  guarded calls of a Run when it lies above the threshold.\<close>

theorem repetition_hard_stop_is_unreachable:
  assumes "v_repeat_counts st = []" and "1 \<le> threshold" and "threshold < hard_stop"
  shows "\<not> rv_fail_turn (repetition_gate (fold (guarded_call threshold hard_stop) cs st) name arguments threshold hard_stop)"
proof -
  have "counts_below threshold st" by (simp add: counts_below_def assms(1))
  then have "counts_below threshold (fold (guarded_call threshold hard_stop) cs st)"
    using assms(3) by (simp add: guarded_calls_below)
  note below = counts_belowD[OF this, of "call_digest name (JObj arguments) None"]
  show ?thesis
    using assms(2,3) below
    by (auto simp: repetition_gate_def assess_repetition_def Let_def split: option.splits)
qed

lemma repetition_hard_stop_is_unreachable_witness:
  "\<not> rv_fail_turn (repetition_gate (fold (guarded_call 3 6)
       (replicate 9 (''lookup'', [], \<lparr>tcf_call_id = ''c'', tcf_outcome = OutcomeOk, tcf_result = JStr ''x'',
          tcf_failure = None, tcf_duration_seconds = 0, tcf_result_handle = None, tcf_preview = None,
          tcf_result_bytes = 0, tcf_result_blob_key = None, tcf_result_content_type = None, tcf_attachments = []\<rparr>,
          OutcomeOk)) (initial_view ''run'' s_scope)) ''lookup'' [] 3 6)"
  by (rule repetition_hard_stop_is_unreachable) (simp_all add: initial_view_def)

end
