(* ===== verification/Queues.thy ===== *)
theory Queues
  imports LogShape
begin

text \<open>
  Steering, follow-up and next-run entries. The abstract specification reads the log: the
  entries enqueued, in order, and the ids spent (cancelled or consumed). The pending queues
  of the fold are the entries not spent, each entry is spent at most once and only after it
  was enqueued, and an abort closes the two queues that feed the running Run.
\<close>

section \<open>The entries of a log\<close>

definition entries :: "log_record list \<Rightarrow> pending_queue_entry list" where
  "entries rs = List.map_filter (\<lambda>r. case r_body r of
     QueueEnqueued b \<Rightarrow> Some \<lparr>pe_entry_id = qe_entry_id b, pe_queue = qe_queue b, pe_payload = qe_payload b,
                            pe_enqueued_seq = r_seq r\<rparr>
   | _ \<Rightarrow> None) rs"

definition cancelled_ids :: "log_record list \<Rightarrow> string list" where
  "cancelled_ids rs = List.map_filter (\<lambda>r. case r_body r of QueueCancelled b \<Rightarrow> Some (qx_entry_id b) | _ \<Rightarrow> None) rs"

definition consumed_ids :: "log_record list \<Rightarrow> string list" where
  "consumed_ids rs = List.map_filter (\<lambda>r. case r_body r of QueueConsumed b \<Rightarrow> Some (qc_entry_id b) | _ \<Rightarrow> None) rs"

definition pending_in :: "queue_kind \<Rightarrow> log_record list \<Rightarrow> pending_queue_entry list" where
  "pending_in k rs = filter (\<lambda>e. pe_queue e = k \<and> pe_entry_id e \<notin> set (cancelled_ids rs) \<union> set (consumed_ids rs)) (entries rs)"

definition aborted_in :: "log_record list \<Rightarrow> bool" where
  "aborted_in rs \<longleftrightarrow> list_ex (\<lambda>r. case r_body r of AbortRequested _ \<Rightarrow> True | _ \<Rightarrow> False) rs"

definition queues_match :: "log_record list \<Rightarrow> fold_state \<Rightarrow> bool" where
  "queues_match rs s \<longleftrightarrow>
     distinct (map pe_entry_id (entries rs)) \<and>
     distinct (cancelled_ids rs @ consumed_ids rs) \<and>
     set (cancelled_ids rs @ consumed_ids rs) \<subseteq> pe_entry_id ` set (entries rs) \<and>
     fc_enqueued (snd s) = map (\<lambda>e. (pe_entry_id e, e)) (entries rs) \<and>
     fc_cancelled (snd s) = set (cancelled_ids rs) \<and> fc_consumed (snd s) = set (consumed_ids rs) \<and>
     (\<forall>k. queue_for (fst s) k = pending_in k rs) \<and>
     (v_abort_seq (fst s) \<noteq> None \<longleftrightarrow> aborted_in rs) \<and>
     (\<forall>a. v_abort_seq (fst s) = Some a \<longrightarrow> a < fc_expected_seq (snd s))"

section \<open>One record\<close>

lemma queue_for_set_queue: "queue_for (set_queue st k q) = (queue_for st)(k := q)"
proof
  fix k'
  show "queue_for (set_queue st k q) k' = ((queue_for st)(k := q)) k'" by (cases k; cases k') simp_all
qed

lemma queue_for_cong:
  assumes "v_pending_steer st' = v_pending_steer st" and "v_pending_follow_up st' = v_pending_follow_up st"
    and "v_pending_next_run st' = v_pending_next_run st"
  shows "queue_for st' = queue_for st"
proof
  fix k show "queue_for st' k = queue_for st k" using assms by (cases k) simp_all
qed

lemma abort_seq_set_queue: "v_abort_seq (set_queue st k q) = v_abort_seq st"
  by (cases k) simp_all

lemma apply_enqueued:
  "apply_body r (QueueEnqueued q) (st, cx) = Inr (st', cx') \<Longrightarrow>
     (let e = \<lparr>pe_entry_id = qe_entry_id q, pe_queue = qe_queue q, pe_payload = qe_payload q, pe_enqueued_seq = r_seq r\<rparr> in
      (qe_queue q = NextRun \<or> (case v_abort_seq st of None \<Rightarrow> True | Some a \<Rightarrow> r_seq r \<le> a)) \<and>
      qe_entry_id q \<notin> dict_keys (fc_enqueued cx) \<and>
      st' = set_queue st (qe_queue q) (queue_for st (qe_queue q) @ [e]) \<and>
      cx' = cx\<lparr>fc_enqueued := dict_put (qe_entry_id q) e (fc_enqueued cx)\<rparr>)"
  by (auto simp: on_queue_enqueued_def Let_def dest: dict_keysI simp del: set_queue_eq dict_keys_put
           split: if_splits option.splits)

lemma apply_cancelled:
  "apply_body r (QueueCancelled q) (st, cx) = Inr (st', cx') \<Longrightarrow>
     (\<exists>e. dict_get (fc_enqueued cx) (qx_entry_id q) = Some e \<and> st' = remove_entry st e) \<and>
     qx_entry_id q \<notin> fc_cancelled cx \<union> fc_consumed cx \<and> cx' = cx\<lparr>fc_cancelled := insert (qx_entry_id q) (fc_cancelled cx)\<rparr>"
  by (auto simp: on_queue_cancelled_def split: if_splits option.splits)

lemma apply_consumed:
  "apply_body r (QueueConsumed q) (st, cx) = Inr (st', cx') \<Longrightarrow>
     (\<exists>e. dict_get (fc_enqueued cx) (qc_entry_id q) = Some e \<and> st' = remove_entry st e) \<and>
     qc_entry_id q \<notin> fc_cancelled cx \<union> fc_consumed cx \<and> cx' = cx\<lparr>fc_consumed := insert (qc_entry_id q) (fc_consumed cx)\<rparr>"
  by (auto simp: on_queue_consumed_def split: if_splits option.splits)

definition is_queue_body :: "body \<Rightarrow> bool" where
  "is_queue_body b = (case b of QueueEnqueued _ \<Rightarrow> True | QueueCancelled _ \<Rightarrow> True | QueueConsumed _ \<Rightarrow> True | _ \<Rightarrow> False)"

lemma apply_no_queue:
  "apply_body r b (st, cx) = Inr (st', cx') \<Longrightarrow> \<not> is_queue_body b \<Longrightarrow>
     v_pending_steer st' = v_pending_steer st \<and> v_pending_follow_up st' = v_pending_follow_up st \<and>
     v_pending_next_run st' = v_pending_next_run st \<and> fc_enqueued cx' = fc_enqueued cx \<and>
     fc_cancelled cx' = fc_cancelled cx \<and> fc_consumed cx' = fc_consumed cx \<and>
     v_abort_seq st' = (case b of AbortRequested _ \<Rightarrow>
       (if v_abort_seq st = None then Some (r_seq r) else v_abort_seq st) | _ \<Rightarrow> v_abort_seq st)"
  by (cases b) (auto simp: op_defs Let_def is_queue_body_def split: if_splits option.splits sum.splits)

section \<open>The queues of a log\<close>

lemma drop_entry_filter:
  "distinct (map pe_entry_id xs) \<Longrightarrow> drop_entry i (filter P xs) = filter (\<lambda>e. P e \<and> pe_entry_id e \<noteq> i) xs"
proof (induction xs)
  case (Cons x xs)
  have "pe_entry_id e \<noteq> pe_entry_id x" if "e \<in> set xs" for e
    using Cons.prems imageI[OF that, of pe_entry_id] by auto
  then have "filter (\<lambda>e. P e \<and> pe_entry_id e \<noteq> pe_entry_id x) xs = filter P xs"
    by (auto intro!: filter_cong)
  with Cons show ?case by auto
qed simp

lemma queue_for_remove:
  assumes "distinct (map pe_entry_id es)" and "e \<in> set es" and "\<forall>k. queue_for st k = filter (\<lambda>x. pe_queue x = k \<and> Q x) es"
  shows "queue_for (remove_entry st e) k = filter (\<lambda>x. pe_queue x = k \<and> Q x \<and> pe_entry_id x \<noteq> pe_entry_id e) es"
proof -
  have same: "x \<in> set es \<Longrightarrow> pe_entry_id x = pe_entry_id e \<Longrightarrow> x = e" for x
    using assms(1,2) by (meson distinct_map inj_onD)
  show ?thesis
    using assms(3) same
    by (auto simp: remove_entry_def queue_for_set_queue drop_entry_filter[OF assms(1)] simp del: set_queue_eq
             intro!: filter_cong)
qed

lemma dict_put_new: "k \<notin> dict_keys d \<Longrightarrow> dict_put k v d = d @ [(k, v)]"
  by (induction d) auto

lemma scans_snoc:
  "entries (rs @ [r]) = entries rs @ (case r_body r of
     QueueEnqueued b \<Rightarrow> [\<lparr>pe_entry_id = qe_entry_id b, pe_queue = qe_queue b, pe_payload = qe_payload b,
                        pe_enqueued_seq = r_seq r\<rparr>] | _ \<Rightarrow> [])"
  "cancelled_ids (rs @ [r]) = cancelled_ids rs @ (case r_body r of QueueCancelled b \<Rightarrow> [qx_entry_id b] | _ \<Rightarrow> [])"
  "consumed_ids (rs @ [r]) = consumed_ids rs @ (case r_body r of QueueConsumed b \<Rightarrow> [qc_entry_id b] | _ \<Rightarrow> [])"
  "aborted_in (rs @ [r]) \<longleftrightarrow> aborted_in rs \<or> (case r_body r of AbortRequested _ \<Rightarrow> True | _ \<Rightarrow> False)"
  by (cases "r_body r"; simp add: entries_def cancelled_ids_def consumed_ids_def aborted_in_def map_filter_snoc)+

lemma queue_for_bump: "queue_for (st\<lparr>v_head_seq := n\<rparr>) k = queue_for st k"
  by (cases k) simp_all

lemma remove_entry_abort [simp]: "v_abort_seq (remove_entry st e) = v_abort_seq st"
  by (simp add: remove_entry_def)

lemma spend_entry:
  assumes J: "queues_match rs s" and "\<exists>e. dict_get (fc_enqueued (snd s)) i = Some e \<and> st' = remove_entry ((fst s)\<lparr>v_head_seq := n\<rparr>) e"
  shows "i \<in> pe_entry_id ` set (entries rs) \<and> v_abort_seq st' = v_abort_seq (fst s) \<and>
         (\<forall>k. queue_for st' k = filter (\<lambda>x. pe_entry_id x \<noteq> i) (pending_in k rs))"
proof -
  from J have J': "distinct (map pe_entry_id (entries rs))" "\<forall>k. queue_for (fst s) k = pending_in k rs"
    "fc_enqueued (snd s) = map (\<lambda>e. (pe_entry_id e, e)) (entries rs)"
    by (simp_all add: queues_match_def)
  from assms(2) J'(3) obtain e where e: "e \<in> set (entries rs)" "pe_entry_id e = i"
    "st' = remove_entry ((fst s)\<lparr>v_head_seq := n\<rparr>) e"
    by (auto dest!: map_of_SomeD)
  have "queue_for st' k = filter (\<lambda>x. pe_entry_id x \<noteq> i) (pending_in k rs)" for k
    unfolding e(3) using J'(2)
    by (subst queue_for_remove[OF J'(1) e(1),
          where Q = "\<lambda>x. pe_entry_id x \<notin> set (cancelled_ids rs) \<union> set (consumed_ids rs)"])
       (auto simp: queue_for_bump pending_in_def e(2) intro!: filter_cong)
  with e show ?thesis by auto
qed

lemma queues_matchI:
  assumes "distinct (map pe_entry_id es)" and "distinct (cs @ ds)" and "set (cs @ ds) \<subseteq> pe_entry_id ` set es"
    and "fc_enqueued (snd s) = map (\<lambda>e. (pe_entry_id e, e)) es"
    and "fc_cancelled (snd s) = set cs" and "fc_consumed (snd s) = set ds"
    and "\<forall>k. queue_for (fst s) k = pending_in k rs"
    and "v_abort_seq (fst s) \<noteq> None \<longleftrightarrow> aborted_in rs"
    and "\<And>a. v_abort_seq (fst s) = Some a \<Longrightarrow> a < fc_expected_seq (snd s)"
    and "es = entries rs" and "cs = cancelled_ids rs" and "ds = consumed_ids rs"
  shows "queues_match rs s"
  using assms by (simp add: queues_match_def)

lemma queues_matchD:
  assumes "queues_match rs s"
  shows "distinct (map pe_entry_id (entries rs))" and "distinct (cancelled_ids rs @ consumed_ids rs)"
    and "set (cancelled_ids rs) \<union> set (consumed_ids rs) \<subseteq> pe_entry_id ` set (entries rs)"
    and "fc_enqueued (snd s) = map (\<lambda>e. (pe_entry_id e, e)) (entries rs)"
    and "fc_cancelled (snd s) = set (cancelled_ids rs)" and "fc_consumed (snd s) = set (consumed_ids rs)"
    and "\<forall>k. queue_for (fst s) k = pending_in k rs"
    and "v_abort_seq (fst s) \<noteq> None \<longleftrightarrow> aborted_in rs"
    and "\<And>a. v_abort_seq (fst s) = Some a \<Longrightarrow> a < fc_expected_seq (snd s)"
  using assms by (simp_all add: queues_match_def)

lemma queues_match_snoc:
  assumes J: "queues_match rs s" and step: "fold_step s r = Inr s'"
  shows "queues_match (rs @ [r]) s'"
proof -
  note a = fold_step_applies[OF step] and D = queues_matchD[OF J]
  have seq: "r_seq r = fc_expected_seq (snd s)" "fc_expected_seq (snd s') = fc_expected_seq (snd s) + 1"
    using step_address[OF step] by simp_all
  have bound: "x < fc_expected_seq (snd s')" if "v_abort_seq (fst s') = v_abort_seq (fst s)" "v_abort_seq (fst s') = Some x" for x
    using D(9)[of x] that seq by simp
  show ?thesis
  proof (cases "is_queue_body (r_body r)")
    case False
    note n = apply_no_queue[OF a False]
    then have "queue_for (fst s') = queue_for (fst s)" by (intro queue_for_cong) simp_all
    with n False J seq show ?thesis
      by (cases "r_body r") (auto simp: queues_match_def scans_snoc pending_in_def is_queue_body_def)
  next
    case True
    show ?thesis
    proof (cases "r_body r")
      case (QueueEnqueued q)
      note e = apply_enqueued[OF a[unfolded QueueEnqueued]]
      define entry where "entry = \<lparr>pe_entry_id = qe_entry_id q, pe_queue = qe_queue q, pe_payload = qe_payload q,
                                  pe_enqueued_seq = r_seq r\<rparr>"
      have keys: "dict_keys (fc_enqueued (snd s)) = pe_entry_id ` set (entries rs)"
        using J by (simp add: queues_match_def image_image)
      have new: "qe_entry_id q \<notin> pe_entry_id ` set (entries rs)"
        using e unfolding keys[symmetric] by (simp add: Let_def)
      then have unspent: "qe_entry_id q \<notin> set (cancelled_ids rs) \<union> set (consumed_ids rs)"
        using J by (auto simp: queues_match_def)
      have e': "fst s' = set_queue ((fst s)\<lparr>v_head_seq := r_seq r\<rparr>) (qe_queue q) (queue_for (fst s) (qe_queue q) @ [entry])"
        "snd s' = (snd s)\<lparr>fc_expected_seq := r_seq r + 1,
                    fc_enqueued := dict_put (qe_entry_id q) entry (fc_enqueued (snd s))\<rparr>"
        using e by (simp_all add: Let_def entry_def queue_for_bump del: set_queue_eq)
      have pend: "pending_in k (rs @ [r]) = (if k = qe_queue q then pending_in k rs @ [entry] else pending_in k rs)" for k
        using unspent by (simp add: pending_in_def scans_snoc QueueEnqueued entry_def)
      have "queue_for (fst s') k = (if k = qe_queue q then queue_for (fst s) k @ [entry] else queue_for (fst s) k)" for k
        unfolding e'(1) by (simp only: queue_for_set_queue queue_for_bump fun_upd_apply) simp
      with J pend have "\<forall>k. queue_for (fst s') k = pending_in k (rs @ [r])"
        by (simp add: queues_match_def)
      moreover have "fc_enqueued (snd s') = map (\<lambda>e. (pe_entry_id e, e)) (entries rs @ [entry])"
        using J new keys by (simp add: e'(2) dict_put_new queues_match_def entry_def del: dict_keys_put)
      moreover have "v_abort_seq (fst s') = v_abort_seq (fst s)"
        by (simp add: e'(1))
      ultimately show ?thesis
        using D new bound
        by (intro queues_matchI[where es = "entries rs @ [entry]" and cs = "cancelled_ids rs" and ds = "consumed_ids rs"])
           (auto simp: scans_snoc QueueEnqueued e'(2) entry_def[symmetric], auto simp: entry_def)
    next
      case (QueueCancelled q)
      note c = apply_cancelled[OF a[unfolded QueueCancelled]]
      have p: "pending_in k (rs @ [r]) = filter (\<lambda>x. pe_entry_id x \<noteq> qx_entry_id q) (pending_in k rs)" for k
        by (auto simp: pending_in_def scans_snoc QueueCancelled intro!: filter_cong)
      have e: "qx_entry_id q \<in> pe_entry_id ` set (entries rs) \<and> v_abort_seq (fst s') = v_abort_seq (fst s) \<and>
         (\<forall>k. queue_for (fst s') k = pending_in k (rs @ [r]))"
        unfolding p by (rule spend_entry[OF J]) (use c in auto)
      with c D bound show ?thesis
        by (intro queues_matchI[where es = "entries rs" and cs = "cancelled_ids rs @ [qx_entry_id q]" and ds = "consumed_ids rs"])
           (auto simp: scans_snoc QueueCancelled)
    next
      case (QueueConsumed q)
      note c = apply_consumed[OF a[unfolded QueueConsumed]]
      have p: "pending_in k (rs @ [r]) = filter (\<lambda>x. pe_entry_id x \<noteq> qc_entry_id q) (pending_in k rs)" for k
        by (auto simp: pending_in_def scans_snoc QueueConsumed intro!: filter_cong)
      have e: "qc_entry_id q \<in> pe_entry_id ` set (entries rs) \<and> v_abort_seq (fst s') = v_abort_seq (fst s) \<and>
         (\<forall>k. queue_for (fst s') k = pending_in k (rs @ [r]))"
        unfolding p by (rule spend_entry[OF J]) (use c in auto)
      with c D bound show ?thesis
        by (intro queues_matchI[where es = "entries rs" and cs = "cancelled_ids rs" and ds = "consumed_ids rs @ [qc_entry_id q]"])
           (auto simp: scans_snoc QueueConsumed)
    qed (use True in \<open>auto simp: is_queue_body_def\<close>)
  qed
qed

interpretation queues: fold_history fold_step queues_match
  by unfold_locales (rule queues_match_snoc)

lemma queues_match_fresh: "queues_match [] (fresh_state rid r)"
proof -
  have "queue_for (initial_view i sc) k = []" for i sc k by (cases k) (simp_all add: initial_view_def)
  then show ?thesis
    by (simp add: queues_match_def entries_def cancelled_ids_def consumed_ids_def pending_in_def aborted_in_def
                  fresh_state_def ctx_of_def dict_of_def Let_def initial_view_def)
qed

lemma reduce_queues_at:
  assumes "reduce rid None (xs @ r # ys) = Inr v"
  obtains u w where "queues_match xs u" and "fold_step u r = Inr w"
  using assms queues.fold_history[OF queues_match_fresh] by (elim reduce_at) blast

section \<open>Properties\<close>

text \<open>C18. Every queue entry is delivered at most once: the ids enqueued by an accepted log are distinct,
  no id is cancelled or consumed twice or both, and each pending queue is the entries of its kind
  that were neither cancelled nor consumed, in the order they were enqueued.\<close>

theorem queue_entries_are_delivered_once:
  assumes "reduce rid None rs = Inr v"
  shows "distinct (map pe_entry_id (entries rs)) \<and> distinct (cancelled_ids rs @ consumed_ids rs) \<and>
         v_pending_steer v = pending_in Steer rs \<and> v_pending_follow_up v = pending_in FollowUp rs \<and>
         v_pending_next_run v = pending_in NextRun rs"
proof -
  obtain cx where "queues_match rs (v, cx)"
    using reduce_history[OF queues.fold_history_axioms queues_match_fresh assms] by auto
  from queues_matchD(1,2,7)[OF this] show ?thesis
    by (metis fst_conv queue_for.simps)
qed

lemma queue_entries_are_delivered_once_witness:
  "\<exists>v. reduce None None whole_log = Inr v \<and> v_pending_steer v = []"
proof -
  obtain v where v: "reduce None None whole_log = Inr v" using acceptedD[OF whole_log_accepted] by blast
  have "pending_in Steer whole_log = []" by code_simp
  with v queue_entries_are_delivered_once[OF v] show ?thesis by auto
qed

text \<open>Only a pending entry is delivered: a consumed entry was enqueued by an earlier record of the log
  and neither cancelled nor consumed by any.\<close>

theorem consumed_entry_was_pending:
  assumes "reduce rid None (xs @ r # ys) = Inr v" and "r_body r = QueueConsumed q"
  shows "\<exists>k. \<exists>e \<in> set (pending_in k xs). pe_entry_id e = qc_entry_id q"
proof -
  obtain u w where u: "queues_match xs u" "fold_step u r = Inr w"
    using assms(1) by (rule reduce_queues_at)
  note c = apply_consumed[OF fold_step_applies[OF u(2), unfolded assms(2)]]
  from c queues_matchD(4)[OF u(1)] obtain e where "e \<in> set (entries xs)" "pe_entry_id e = qc_entry_id q"
    by (auto dest!: map_of_SomeD)
  with c queues_matchD(5,6)[OF u(1)] show ?thesis
    by (auto simp: pending_in_def intro!: exI[of _ "pe_queue e"] bexI[of _ e])
qed

lemma consumed_entry_was_pending_witness:
  "\<exists>k. \<exists>e \<in> set (pending_in k (log_of [b_admitted, b_enqueue FollowUp ''q''])). pe_entry_id e = ''q''"
proof -
  have "accepted (log_of [b_admitted, b_enqueue FollowUp ''q''] @ rec_at 3 (b_consume ''q'') # [])" by code_simp
  then obtain v where v: "reduce None None (log_of [b_admitted, b_enqueue FollowUp ''q''] @ rec_at 3 (b_consume ''q'') # []) = Inr v"
    using acceptedD by blast
  show ?thesis
    using consumed_entry_was_pending[OF v, of "\<lparr>qc_entry_id = ''q''\<rparr>"] by (simp add: rec_at_def b_consume_def)
qed

text \<open>An abort closes the queues of the Run: after an abort request of an accepted log, no steering
  and no follow-up message is enqueued, only messages for the next Run.\<close>

theorem nothing_is_steered_after_an_abort:
  assumes "reduce rid None (xs @ r # ys) = Inr v" and "aborted_in xs" and "r_body r = QueueEnqueued q"
  shows "qe_queue q = NextRun"
proof -
  obtain u w where u: "queues_match xs u" "fold_step u r = Inr w"
    using assms(1) by (rule reduce_queues_at)
  from queues_matchD(8,9)[OF u(1)] assms(2) step_address[OF u(2)]
  obtain a where "v_abort_seq (fst u) = Some a" "a < r_seq r" by auto
  with apply_enqueued[OF fold_step_applies[OF u(2), unfolded assms(3)]] show ?thesis
    by (auto simp: Let_def)
qed

lemma nothing_is_steered_after_an_abort_witness:
  "\<exists>v q. reduce None None (log_of [b_admitted, b_abort] @ rec_at 3 (b_enqueue NextRun ''q'') # []) = Inr v \<and>
         b_enqueue NextRun ''q'' = QueueEnqueued q \<and> qe_queue q = NextRun"
proof -
  let ?q = "\<lparr>qe_queue = NextRun, qe_entry_id = ''q'', qe_payload = []\<rparr>"
  have "accepted (log_of [b_admitted, b_abort] @ rec_at 3 (b_enqueue NextRun ''q'') # [])"
    and a: "aborted_in (log_of [b_admitted, b_abort])" by code_simp+
  then obtain v where v: "reduce None None (log_of [b_admitted, b_abort] @ rec_at 3 (b_enqueue NextRun ''q'') # []) = Inr v"
    using acceptedD by blast
  have b: "b_enqueue NextRun ''q'' = QueueEnqueued ?q" by (simp add: b_enqueue_def)
  then have "r_body (rec_at 3 (b_enqueue NextRun ''q'')) = QueueEnqueued ?q" by (simp add: rec_at_def)
  from nothing_is_steered_after_an_abort[OF v a this] v b show ?thesis by blast
qed

end
