(* ===== verification/Steps.thy ===== *)
theory Steps
  imports LogShape
begin

text \<open>
  Workflow steps. A step is memoised by the log: once it completed without asking for a retry,
  no record of an accepted log starts or completes it again and the derived state keeps the
  recorded outcome to the end, so a reclaiming Worker never runs it twice. The starts of a step
  are its attempts 1, 2, ..., and the workflow state is the merge of the outputs of the
  successful \<open>set_state\<close> steps in log order.
\<close>

definition started_step :: "log_record \<Rightarrow> step_started \<Rightarrow> step_record" where
  "started_step r s =
     \<lparr>sr_step_id = ss_step_id s, sr_name = ss_name s, sr_kind = ss_kind s,
      sr_attempt_number = ss_attempt_number s, sr_input = ss_input s, sr_completed = False,
      sr_output = None, sr_failure = None, sr_child_run_id = None, sr_path = ss_path s,
      sr_parent_step_id = ss_parent_step_id s, sr_iteration = ss_iteration s,
      sr_skipped = False, sr_will_retry = False, sr_retry_at = None,
      sr_started_at = Some (r_at r), sr_completed_at = None, sr_started_seq = r_seq r,
      sr_completed_seq = None, sr_replayed_from = ss_replayed_from s\<rparr>"

definition completed_step :: "log_record \<Rightarrow> step_completed \<Rightarrow> step_record \<Rightarrow> step_record" where
  "completed_step r c sr =
     sr\<lparr>sr_completed := True, sr_output := sc_output c, sr_failure := sc_failure c,
        sr_child_run_id := sc_child_run_id c, sr_skipped := sc_skipped c,
        sr_will_retry := sc_will_retry c, sr_retry_at := sc_retry_at c,
        sr_completed_at := Some (r_at r), sr_completed_seq := Some (r_seq r)\<rparr>"

definition writes_state :: "string \<Rightarrow> step_completed \<Rightarrow> obj option" where
  "writes_state kind c =
     (if kind = ''set_state'' \<and> sc_failure c = None \<and> \<not> sc_skipped c then sc_output c else None)"

section \<open>One record\<close>

lemma apply_step_started:
  "apply_body r (StepStarted s) (st, cx) = Inr (st', cx') \<Longrightarrow>
     v_steps st' = dict_put (ss_step_id s) (started_step r s) (v_steps st) \<and>
     v_workflow_state_updates st' = v_workflow_state_updates st \<and>
     (case dict_get (v_steps st) (ss_step_id s) of
        None \<Rightarrow> ss_attempt_number s = 1
      | Some sr \<Rightarrow> \<not> step_settled sr \<and> ss_attempt_number s = sr_attempt_number sr + 1)"
  by (auto simp: on_step_started_def started_step_def step_settled_def Let_def split: option.splits if_splits)

lemma apply_step_completed:
  "apply_body r (StepCompleted c) (st, cx) = Inr (st', cx') \<Longrightarrow>
     (\<exists>sr. dict_get (v_steps st) (sc_step_id c) = Some sr \<and> \<not> sr_completed sr \<and>
           v_steps st' = dict_put (sc_step_id c) (completed_step r c sr) (v_steps st) \<and>
           v_workflow_state_updates st' =
             (case writes_state (sr_kind sr) c of
                None \<Rightarrow> v_workflow_state_updates st
              | Some x \<Rightarrow> dict_merge (v_workflow_state_updates st) x))"
  by (auto simp: on_step_completed_def completed_step_def writes_state_def Let_def split: option.splits if_splits)

lemma apply_no_step:
  "apply_body r b (st, cx) = Inr (st', cx') \<Longrightarrow> (\<And>s. b \<noteq> StepStarted s) \<Longrightarrow> (\<And>c. b \<noteq> StepCompleted c) \<Longrightarrow>
     v_steps st' = v_steps st \<and> v_workflow_state_updates st' = v_workflow_state_updates st"
  by (cases b) (auto simp: op_defs Let_def remove_entry_def split: if_splits option.splits sum.splits)

lemma step_steps:
  assumes "fold_step s r = Inr s'"
  shows "(case r_body r of
            StepStarted b \<Rightarrow>
              v_steps (fst s') = dict_put (ss_step_id b) (started_step r b) (v_steps (fst s)) \<and>
              v_workflow_state_updates (fst s') = v_workflow_state_updates (fst s) \<and>
              (case dict_get (v_steps (fst s)) (ss_step_id b) of
                 None \<Rightarrow> ss_attempt_number b = 1
               | Some sr \<Rightarrow> \<not> step_settled sr \<and> ss_attempt_number b = sr_attempt_number sr + 1)
          | StepCompleted c \<Rightarrow>
              (\<exists>sr. dict_get (v_steps (fst s)) (sc_step_id c) = Some sr \<and> \<not> sr_completed sr \<and>
                 v_steps (fst s') = dict_put (sc_step_id c) (completed_step r c sr) (v_steps (fst s)) \<and>
                 v_workflow_state_updates (fst s') =
                   (case writes_state (sr_kind sr) c of
                      None \<Rightarrow> v_workflow_state_updates (fst s)
                    | Some x \<Rightarrow> dict_merge (v_workflow_state_updates (fst s)) x))
          | _ \<Rightarrow> v_steps (fst s') = v_steps (fst s) \<and>
                 v_workflow_state_updates (fst s') = v_workflow_state_updates (fst s))"
proof -
  note a = fold_step_applies[OF assms]
  show ?thesis
  proof (cases "r_body r")
    case (StepStarted b)
    from apply_step_started[OF a[unfolded StepStarted]] StepStarted show ?thesis by simp
  next
    case (StepCompleted c)
    from apply_step_completed[OF a[unfolded StepCompleted]] StepCompleted show ?thesis by (simp cong: option.case_cong)
  qed (use apply_no_step[OF a] in simp_all)
qed

section \<open>Settled steps\<close>

definition touches_step :: "step_id \<Rightarrow> log_record \<Rightarrow> bool" where
  "touches_step i r \<longleftrightarrow> (case r_body r of
     StepStarted s \<Rightarrow> ss_step_id s = i | StepCompleted c \<Rightarrow> sc_step_id c = i | _ \<Rightarrow> False)"

lemma settled_step_untouched:
  assumes "fold_step s r = Inr s'" and "dict_get (v_steps (fst s)) i = Some sr" and "step_settled sr"
  shows "dict_get (v_steps (fst s')) i = Some sr \<and> \<not> touches_step i r"
  using step_steps[OF assms(1)] assms(2,3)
  by (cases "r_body r") (auto simp: touches_step_def step_settled_def)

interpretation settled_step: fold_invariant fold_step
  "\<lambda>s. dict_get (v_steps (fst s)) i = Some sr \<and> step_settled sr" for i sr
  by unfold_locales (auto dest: settled_step_untouched)

lemma settled_step_stays:
  "fold_log fold_step s rs = Inr s' \<Longrightarrow> dict_get (v_steps (fst s)) i = Some sr \<Longrightarrow> step_settled sr \<Longrightarrow>
     list_all (\<lambda>r. \<not> touches_step i r) rs"
proof (induction rs arbitrary: s)
  case (Cons r rs)
  then obtain t where t: "fold_step s r = Inr t" "fold_log fold_step t rs = Inr s'"
    by (auto split: sum.splits)
  from settled_step_untouched[OF t(1)] Cons.prems(2,3) have
    "dict_get (v_steps (fst t)) i = Some sr" "\<not> touches_step i r" by blast+
  with Cons.IH[OF t(2)] Cons.prems(3) show ?case by simp
qed simp

section \<open>Attempts and workflow state\<close>

definition step_attempts :: "step_id \<Rightarrow> log_record list \<Rightarrow> int list" where
  "step_attempts i rs = List.map_filter (\<lambda>r. case r_body r of
     StepStarted s \<Rightarrow> if ss_step_id s = i then Some (ss_attempt_number s) else None | _ \<Rightarrow> None) rs"

text \<open>The kind of each step by its last start, and the workflow state its completions wrote.\<close>

definition write_state :: "body \<Rightarrow> (step_id, string) dict \<times> obj \<Rightarrow> (step_id, string) dict \<times> obj" where
  "write_state b p = (case p of (kinds, updates) \<Rightarrow>
     (case b of
        StepStarted s \<Rightarrow> (dict_put (ss_step_id s) (ss_kind s) kinds, updates)
      | StepCompleted c \<Rightarrow>
          (kinds, case Option.bind (dict_get kinds (sc_step_id c)) (\<lambda>k. writes_state k c) of
                    None \<Rightarrow> updates | Some x \<Rightarrow> dict_merge updates x)
      | _ \<Rightarrow> p))"

definition state_writes :: "log_record list \<Rightarrow> (step_id, string) dict \<times> obj" where
  "state_writes rs = fold (\<lambda>r. write_state (r_body r)) rs ([], [])"

definition steps_match :: "log_record list \<Rightarrow> fold_state \<Rightarrow> bool" where
  "steps_match rs s \<longleftrightarrow>
     (\<forall>i. step_attempts i rs = (case dict_get (v_steps (fst s)) i of None \<Rightarrow> [] | Some sr \<Rightarrow> [1..sr_attempt_number sr])) \<and>
     (\<forall>i sr. dict_get (v_steps (fst s)) i = Some sr \<longrightarrow> 1 \<le> sr_attempt_number sr) \<and>
     (\<forall>i. dict_get (fst (state_writes rs)) i = map_option sr_kind (dict_get (v_steps (fst s)) i)) \<and>
     snd (state_writes rs) = v_workflow_state_updates (fst s)"

lemma step_attempts_snoc:
  "step_attempts i (rs @ [r]) = step_attempts i rs @ (case r_body r of
     StepStarted s \<Rightarrow> if ss_step_id s = i then [ss_attempt_number s] else [] | _ \<Rightarrow> [])"
  by (cases "r_body r") (auto simp: step_attempts_def map_filter_snoc)

lemma state_writes_snoc: "state_writes (rs @ [r]) = write_state (r_body r) (state_writes rs)"
  by (simp add: state_writes_def)

lemma upto_step: "1 \<le> (n :: int) \<Longrightarrow> [1..n] @ [n + 1] = [1..n + 1]"
  by (simp add: upto_rec2)

lemma steps_match_snoc:
  assumes "steps_match rs s" and "fold_step s r = Inr s'"
  shows "steps_match (rs @ [r]) s'"
proof (cases "r_body r")
  case (StepStarted b)
  have "0 \<le> sr_attempt_number sr" if "dict_get (v_steps (fst s)) (ss_step_id b) = Some sr" for sr
    using assms(1) that by (fastforce simp: steps_match_def)
  with StepStarted step_steps[OF assms(2)] assms(1) show ?thesis
    by (cases "state_writes rs"; cases "dict_get (v_steps (fst s)) (ss_step_id b)")
       (auto simp: steps_match_def step_attempts_snoc state_writes_snoc write_state_def started_step_def upto_step)
next
  case (StepCompleted c)
  with step_steps[OF assms(2)] obtain sr where
    sr: "dict_get (v_steps (fst s)) (sc_step_id c) = Some sr"
    "v_steps (fst s') = dict_put (sc_step_id c) (completed_step r c sr) (v_steps (fst s))"
    "v_workflow_state_updates (fst s') = (case writes_state (sr_kind sr) c of
        None \<Rightarrow> v_workflow_state_updates (fst s) | Some x \<Rightarrow> dict_merge (v_workflow_state_updates (fst s)) x)"
    by auto
  with assms(1) StepCompleted show ?thesis
    by (cases "state_writes rs"; cases "writes_state (sr_kind sr) c")
       (auto simp: steps_match_def step_attempts_snoc state_writes_snoc write_state_def completed_step_def)
qed (use step_steps[OF assms(2)] assms(1) in
      \<open>auto simp: steps_match_def step_attempts_snoc state_writes_snoc write_state_def split: prod.splits\<close>)

interpretation steps: fold_history fold_step steps_match
  by unfold_locales (rule steps_match_snoc)

lemma steps_match_fresh: "steps_match [] (fresh_state rid r)"
  by (simp add: steps_match_def step_attempts_def state_writes_def initial_view_def)

section \<open>Properties\<close>

text \<open>C8. A settled step is memoised: when a record of an accepted log completes a step without asking for
  a retry, no later record starts or completes that step, and the derived state still holds the
  output and the failure of that completion.\<close>

theorem settled_step_never_runs_again:
  assumes "reduce rid None (xs @ r # ys) = Inr v" and "r_body r = StepCompleted c" and "\<not> sc_will_retry c"
  shows "list_all (\<lambda>x. \<not> touches_step (sc_step_id c) x) ys \<and>
         (\<exists>sr. dict_get (v_steps v) (sc_step_id c) = Some sr \<and> step_settled sr \<and>
               sr_output sr = sc_output c \<and> sr_failure sr = sc_failure c)"
proof -
  obtain u w cx where w: "fold_step u r = Inr w" "fold_log fold_step w ys = Inr (v, cx)"
    using assms(1) by (rule reduce_at)
  from step_steps[OF w(1)] assms(2) obtain sr where
    "dict_get (v_steps (fst w)) (sc_step_id c) = Some (completed_step r c sr)" by auto
  moreover from assms(3) have "step_settled (completed_step r c sr)"
    by (simp add: step_settled_def completed_step_def)
  ultimately show ?thesis
    using settled_step.fold_keeps[of w "sc_step_id c" "completed_step r c sr" ys "(v, cx)"] w(2) settled_step_stays[OF w(2)]
    by (auto simp: completed_step_def)
qed

lemma settled_step_never_runs_again_witness:
  "\<exists>v sr. reduce None None whole_log = Inr v \<and> dict_get (v_steps v) ''s1'' = Some sr \<and>
          sr_output sr = Some [(''x'', JInt 1)]"
proof -
  obtain v where v: "reduce None None whole_log = Inr v" using acceptedD[OF whole_log_accepted] by blast
  have "whole_log = take 10 whole_log @ rec_at 11 (b_step_done ''s1'' [(''x'', JInt 1)]) # drop 11 whole_log" by code_simp
  with v have v': "reduce None None (take 10 whole_log @ rec_at 11 (b_step_done ''s1'' [(''x'', JInt 1)]) # drop 11 whole_log) = Inr v"
    by simp
  show ?thesis
    using v settled_step_never_runs_again[OF v'] by (simp add: rec_at_def b_step_done_def) blast
qed

text \<open>The starts of every workflow step in an accepted log carry the attempt numbers 1, 2, ..., n, where
  n is the attempt of the derived step, and a step that is not in the derived state never started.\<close>

theorem step_attempts_are_consecutive:
  assumes "reduce rid None rs = Inr v"
  shows "step_attempts i rs = (case dict_get (v_steps v) i of None \<Rightarrow> [] | Some sr \<Rightarrow> [1..sr_attempt_number sr]) \<and>
         (dict_get (v_steps v) i = None \<longleftrightarrow> step_attempts i rs = [])"
proof -
  obtain cx where "steps_match rs (v, cx)"
    using reduce_history[OF steps.fold_history_axioms steps_match_fresh assms] by auto
  then have "step_attempts i rs = (case dict_get (v_steps v) i of None \<Rightarrow> [] | Some sr \<Rightarrow> [1..sr_attempt_number sr])"
    and "\<And>sr. dict_get (v_steps v) i = Some sr \<Longrightarrow> 1 \<le> sr_attempt_number sr"
    by (auto simp: steps_match_def)
  then show ?thesis by (cases "dict_get (v_steps v) i") auto
qed

lemma step_attempts_are_consecutive_witness:
  "\<exists>v. reduce None None whole_log = Inr v \<and> dict_get (v_steps v) ''s1'' \<noteq> None \<and> dict_get (v_steps v) ''s2'' = None"
proof -
  obtain v where v: "reduce None None whole_log = Inr v" using acceptedD[OF whole_log_accepted] by blast
  have n: "step_attempts ''s1'' whole_log = [1]" "step_attempts ''s2'' whole_log = []" by code_simp+
  show ?thesis
    using v n conjunct2[OF step_attempts_are_consecutive[OF v, of "''s1''"]]
      conjunct2[OF step_attempts_are_consecutive[OF v, of "''s2''"]] by auto
qed

text \<open>The workflow state of an accepted log is the merge, in log order, of the outputs of the steps of
  kind \<open>set_state\<close> that completed without failing and without being skipped; no other record writes it.\<close>

theorem workflow_state_is_the_merge_of_its_writes:
  assumes "reduce rid None rs = Inr v"
  shows "v_workflow_state_updates v = snd (state_writes rs)"
proof -
  obtain cx where "steps_match rs (v, cx)"
    using reduce_history[OF steps.fold_history_axioms steps_match_fresh assms] by auto
  then show ?thesis by (simp add: steps_match_def)
qed

lemma workflow_state_is_the_merge_of_its_writes_witness:
  "\<exists>v. reduce None None whole_log = Inr v \<and> v_workflow_state_updates v = [(''x'', JInt 1)]"
proof -
  obtain v where v: "reduce None None whole_log = Inr v" using acceptedD[OF whole_log_accepted] by blast
  have "snd (state_writes whole_log) = [(''x'', JInt 1)]" by code_simp
  with v workflow_state_is_the_merge_of_its_writes[OF v] show ?thesis by auto
qed

end
