(* ===== verification/Children.thy ===== *)
theory Children
  imports LogShape
begin

text \<open>
  Subagents. The derived children are the spawn records of the log in order, a child finishes
  at most once and only after it was spawned, what its parent records of it is what its finish
  record carried, and no two live children share a name, so a message addressed by name has
  one receiver.
\<close>

definition spawned_ids :: "log_record list \<Rightarrow> run_id list" where
  "spawned_ids rs = List.map_filter (\<lambda>r. case r_body r of SubagentSpawned b \<Rightarrow> Some (sp_child_run_id b) | _ \<Rightarrow> None) rs"

definition child_ends :: "log_record list \<Rightarrow> (run_id \<times> subagent_finished) list" where
  "child_ends rs = List.map_filter (\<lambda>r. case r_body r of SubagentFinished b \<Rightarrow> Some (sf_child_run_id b, b) | _ \<Rightarrow> None) rs"

definition messages_to :: "run_id \<Rightarrow> log_record list \<Rightarrow> int" where
  "messages_to i rs = int (length (filter (\<lambda>r. case r_body r of SubagentMessaged b \<Rightarrow> sm_child_run_id b = i | _ \<Rightarrow> False) rs))"

definition ended_as :: "subagent_finished \<Rightarrow> child_run \<Rightarrow> bool" where
  "ended_as b c \<longleftrightarrow>
     cr_terminal_state c = Some (sf_state b) \<and> cr_output c = sf_output b \<and> cr_failure c = sf_failure b \<and>
     cr_usage c = sf_usage b \<and> cr_cost c = sf_cost b \<and>
     cr_unreported_usage_calls c = sf_unreported_usage_calls b \<and> cr_unpriced_model_calls c = sf_unpriced_model_calls b"

definition child_matches :: "log_record list \<Rightarrow> run_id \<Rightarrow> child_run \<Rightarrow> bool" where
  "child_matches rs i c \<longleftrightarrow>
     cr_messages_sent c = messages_to i rs \<and>
     (case dict_get (child_ends rs) i of None \<Rightarrow> child_alive c | Some b \<Rightarrow> ended_as b c)"

definition live_names_unique :: "(run_id, child_run) dict \<Rightarrow> bool" where
  "live_names_unique d \<longleftrightarrow>
     (\<forall>i j c e. dict_get d i = Some c \<longrightarrow> dict_get d j = Some e \<longrightarrow> child_alive c \<longrightarrow> child_alive e \<longrightarrow>
        cr_name c = cr_name e \<longrightarrow> i = j)"

definition children_match :: "log_record list \<Rightarrow> fold_state \<Rightarrow> bool" where
  "children_match rs s \<longleftrightarrow>
     map fst (v_children (fst s)) = spawned_ids rs \<and> distinct (spawned_ids rs) \<and>
     distinct (map fst (child_ends rs)) \<and> set (map fst (child_ends rs)) \<subseteq> set (spawned_ids rs) \<and>
     (\<forall>i. i \<notin> set (spawned_ids rs) \<longrightarrow> messages_to i rs = 0) \<and>
     (\<forall>i c. dict_get (v_children (fst s)) i = Some c \<longrightarrow> child_matches rs i c) \<and>
     live_names_unique (v_children (fst s))"

section \<open>One record\<close>

lemma apply_spawned:
  "apply_body r (SubagentSpawned b) (st, cx) = Inr (st', cx') \<Longrightarrow>
     sp_child_run_id b \<notin> dict_keys (v_children st) \<and>
     (\<forall>i c. (i, c) \<in> set (v_children st) \<longrightarrow> child_alive c \<longrightarrow> cr_name c \<noteq> sp_name b) \<and>
     (\<exists>c. v_children st' = dict_put (sp_child_run_id b) c (v_children st) \<and> cr_name c = sp_name b \<and>
          cr_terminal_state c = None \<and> cr_messages_sent c = 0)"
  by (auto simp: on_subagent_spawned_def list_ex_iff dest: dict_keysI split: if_splits)

lemma apply_messaged:
  "apply_body r (SubagentMessaged b) (st, cx) = Inr (st', cx') \<Longrightarrow>
     (\<exists>c. dict_get (v_children st) (sm_child_run_id b) = Some c \<and>
          v_children st' = dict_put (sm_child_run_id b) (c\<lparr>cr_messages_sent := cr_messages_sent c + 1\<rparr>) (v_children st))"
  by (auto simp: on_subagent_messaged_def split: option.splits)

lemma apply_child_finished:
  "apply_body r (SubagentFinished b) (st, cx) = Inr (st', cx') \<Longrightarrow>
     (\<exists>c e. dict_get (v_children st) (sf_child_run_id b) = Some c \<and> child_alive c \<and>
          v_children st' = dict_put (sf_child_run_id b) e (v_children st) \<and> ended_as b e \<and>
          cr_messages_sent e = cr_messages_sent c)"
  by (auto simp: on_subagent_finished_def ended_as_def split: option.splits if_splits)

definition is_child_body :: "body \<Rightarrow> bool" where
  "is_child_body b = (case b of SubagentSpawned _ \<Rightarrow> True | SubagentMessaged _ \<Rightarrow> True | SubagentFinished _ \<Rightarrow> True | _ \<Rightarrow> False)"

lemma apply_no_child:
  "apply_body r b (st, cx) = Inr (st', cx') \<Longrightarrow> \<not> is_child_body b \<Longrightarrow> v_children st' = v_children st"
  by (cases b) (auto simp: op_defs Let_def remove_entry_def is_child_body_def split: if_splits option.splits sum.splits)

section \<open>The children of a log\<close>

lemma child_scans_snoc:
  "spawned_ids (rs @ [r]) = spawned_ids rs @ (case r_body r of SubagentSpawned b \<Rightarrow> [sp_child_run_id b] | _ \<Rightarrow> [])"
  "child_ends (rs @ [r]) = child_ends rs @ (case r_body r of SubagentFinished b \<Rightarrow> [(sf_child_run_id b, b)] | _ \<Rightarrow> [])"
  "messages_to i (rs @ [r]) = messages_to i rs + (case r_body r of SubagentMessaged b \<Rightarrow> if sm_child_run_id b = i then 1 else 0 | _ \<Rightarrow> 0)"
  by (cases "r_body r"; simp add: spawned_ids_def child_ends_def messages_to_def map_filter_snoc)+

lemma live_names_unique_put:
  assumes "live_names_unique d" and "dict_get d i = Some c" and "cr_name e = cr_name c" and "child_alive e \<longrightarrow> child_alive c"
  shows "live_names_unique (dict_put i e d)"
  unfolding live_names_unique_def
proof (intro allI impI)
  fix a b x y
  assume *: "dict_get (dict_put i e d) a = Some x" "dict_get (dict_put i e d) b = Some y"
    "child_alive x" "child_alive y" "cr_name x = cr_name y"
  have kept: "\<exists>x'. dict_get d a = Some x' \<and> child_alive x' \<and> cr_name x' = cr_name x"
    if "dict_get (dict_put i e d) a = Some x" "child_alive x" for a x
    using that assms(2-4) by (cases "a = i") auto
  from kept[OF *(1,3)] kept[OF *(2,4)] *(5) assms(1) show "a = b"
    unfolding live_names_unique_def by metis
qed

lemma live_names_unique_new:
  assumes "live_names_unique d" and "\<forall>j c. dict_get d j = Some c \<longrightarrow> child_alive c \<longrightarrow> cr_name c \<noteq> cr_name e"
  shows "live_names_unique (dict_put i e d)"
  using assms unfolding live_names_unique_def by (auto split: if_splits) metis+

lemma child_matches_other:
  assumes "child_matches rs i c" and "\<not> (\<exists>b. r_body r = SubagentMessaged b \<and> sm_child_run_id b = i)"
    and "\<not> (\<exists>b. r_body r = SubagentFinished b \<and> sf_child_run_id b = i)"
  shows "child_matches (rs @ [r]) i c"
  using assms by (cases "r_body r") (auto simp: child_matches_def child_scans_snoc map_add_def split: option.splits)

lemma children_matchI:
  assumes "map fst (v_children (fst s)) = spawned_ids rs" and "distinct (spawned_ids rs)"
    and "distinct (map fst (child_ends rs))" and "set (map fst (child_ends rs)) \<subseteq> set (spawned_ids rs)"
    and "\<And>i. i \<notin> set (spawned_ids rs) \<Longrightarrow> messages_to i rs = 0"
    and "\<And>i c. dict_get (v_children (fst s)) i = Some c \<Longrightarrow> child_matches rs i c"
    and "live_names_unique (v_children (fst s))"
  shows "children_match rs s"
  using assms by (simp add: children_match_def)

lemma children_matchD:
  assumes "children_match rs s"
  shows "map fst (v_children (fst s)) = spawned_ids rs" and "distinct (spawned_ids rs)"
    and "distinct (map fst (child_ends rs))" and "set (map fst (child_ends rs)) \<subseteq> set (spawned_ids rs)"
    and "\<And>i. i \<notin> set (spawned_ids rs) \<Longrightarrow> messages_to i rs = 0"
    and "\<And>i c. dict_get (v_children (fst s)) i = Some c \<Longrightarrow> child_matches rs i c"
    and "live_names_unique (v_children (fst s))"
    and "\<And>i c. dict_get (v_children (fst s)) i = Some c \<Longrightarrow> i \<in> set (spawned_ids rs)"
proof -
  show "map fst (v_children (fst s)) = spawned_ids rs" using assms by (simp add: children_match_def)
  then have "set (spawned_ids rs) = dict_keys (v_children (fst s))"
    by (metis set_map)
  then show "dict_get (v_children (fst s)) i = Some c \<Longrightarrow> i \<in> set (spawned_ids rs)" for i c
    by (simp only: dict_get_keyD)
qed (use assms in \<open>simp_all add: children_match_def\<close>)

lemma children_match_snoc:
  assumes J: "children_match rs s" and step: "fold_step s r = Inr s'"
  shows "children_match (rs @ [r]) s'"
proof -
  note a = fold_step_applies[OF step] and D = children_matchD[OF J]
  have same: "v_children ((fst s)\<lparr>v_head_seq := n\<rparr>) = v_children (fst s)" for n by simp
  have keys: "dict_keys (v_children (fst s)) = set (spawned_ids rs)"
    using D(1) by (metis set_map)
  show ?thesis
  proof (cases "is_child_body (r_body r)")
    case False
    note n = apply_no_child[OF a False, unfolded same]
    from False have "child_matches rs i c \<Longrightarrow> child_matches (rs @ [r]) i c" for i c
      by (intro child_matches_other) (auto simp: is_child_body_def)
    with n D False show ?thesis
      by (intro children_matchI) (cases "r_body r"; auto simp: child_scans_snoc is_child_body_def)+
  next
    case True
    show ?thesis
    proof (cases "r_body r")
      case (SubagentSpawned b)
      from apply_spawned[OF a[unfolded SubagentSpawned], unfolded same] obtain c where
        new: "sp_child_run_id b \<notin> set (spawned_ids rs)" and
        names: "\<forall>i e. (i, e) \<in> set (v_children (fst s)) \<longrightarrow> child_alive e \<longrightarrow> cr_name e \<noteq> sp_name b" and
        put: "v_children (fst s') = dict_put (sp_child_run_id b) c (v_children (fst s))" and
        c: "cr_name c = sp_name b" "cr_terminal_state c = None" "cr_messages_sent c = 0"
        unfolding keys by blast
      have "dict_get (child_ends rs) (sp_child_run_id b) = None"
        using D(4) new by (auto simp: map_of_eq_None_iff)
      then have "child_matches (rs @ [r]) (sp_child_run_id b) c"
        using D(5)[OF new] c by (simp add: child_matches_def child_scans_snoc SubagentSpawned child_alive_def)
      moreover have "child_matches (rs @ [r]) i e" if "dict_get (v_children (fst s)) i = Some e" for i e
        using D(6)[OF that] by (intro child_matches_other) (simp_all add: SubagentSpawned)
      ultimately have "child_matches (rs @ [r]) i e" if "dict_get (v_children (fst s')) i = Some e" for i e
        using that unfolding put by (auto split: if_splits)
      moreover have "live_names_unique (v_children (fst s'))"
        unfolding put using D(7) names c(1) by (intro live_names_unique_new) (auto dest: map_of_SomeD)
      moreover have "map fst (v_children (fst s')) = spawned_ids rs @ [sp_child_run_id b]"
        unfolding put using D(1) new by (simp add: update_keys)
      ultimately show ?thesis
        using D(2-5) new by (intro children_matchI) (auto simp: child_scans_snoc SubagentSpawned)
    next
      case (SubagentMessaged b)
      from apply_messaged[OF a[unfolded SubagentMessaged], unfolded same] obtain c where
        c: "dict_get (v_children (fst s)) (sm_child_run_id b) = Some c" and
        put: "v_children (fst s') = dict_put (sm_child_run_id b) (c\<lparr>cr_messages_sent := cr_messages_sent c + 1\<rparr>) (v_children (fst s))"
        by blast
      have "child_matches (rs @ [r]) (sm_child_run_id b) (c\<lparr>cr_messages_sent := cr_messages_sent c + 1\<rparr>)"
        using D(6)[OF c] by (auto simp: child_matches_def child_scans_snoc SubagentMessaged child_alive_def ended_as_def
                                  split: option.splits)
      moreover have "child_matches (rs @ [r]) i e"
        if "dict_get (v_children (fst s)) i = Some e" "i \<noteq> sm_child_run_id b" for i e
        using D(6)[OF that(1)] that(2) by (intro child_matches_other) (simp_all add: SubagentMessaged)
      ultimately have "child_matches (rs @ [r]) i e" if "dict_get (v_children (fst s')) i = Some e" for i e
        using that unfolding put by (auto split: if_splits)
      moreover have "live_names_unique (v_children (fst s'))"
        unfolding put using D(7) c by (rule live_names_unique_put) (simp_all add: child_alive_def)
      moreover have "map fst (v_children (fst s')) = spawned_ids rs"
        unfolding put using D(1) D(8)[OF c] by (simp add: update_keys)
      ultimately show ?thesis
        using D(2-5) D(8)[OF c] by (intro children_matchI) (auto simp: child_scans_snoc SubagentMessaged)
    next
      case (SubagentFinished b)
      from apply_child_finished[OF a[unfolded SubagentFinished], unfolded same] obtain c e where
        c: "dict_get (v_children (fst s)) (sf_child_run_id b) = Some c" "child_alive c" and
        put: "v_children (fst s') = dict_put (sf_child_run_id b) e (v_children (fst s))" and
        e: "ended_as b e" "cr_messages_sent e = cr_messages_sent c"
        by blast
      have open_child: "dict_get (child_ends rs) (sf_child_run_id b) = None"
        using D(6)[OF c(1)] c(2) by (auto simp: child_matches_def ended_as_def child_alive_def split: option.splits)
      then have "child_matches (rs @ [r]) (sf_child_run_id b) e"
        using D(6)[OF c(1)] e by (simp add: child_matches_def child_scans_snoc SubagentFinished map_add_def)
      moreover have "child_matches (rs @ [r]) i x"
        if "dict_get (v_children (fst s)) i = Some x" "i \<noteq> sf_child_run_id b" for i x
        using D(6)[OF that(1)] that(2) by (intro child_matches_other) (simp_all add: SubagentFinished)
      ultimately have "child_matches (rs @ [r]) i x" if "dict_get (v_children (fst s')) i = Some x" for i x
        using that unfolding put by (auto split: if_splits)
      moreover have "\<not> child_alive e" using e(1) by (simp add: ended_as_def child_alive_def)
      then have "live_names_unique (v_children (fst s'))"
        unfolding put using D(7) by (auto simp: live_names_unique_def)
      moreover have "map fst (v_children (fst s')) = spawned_ids rs"
        unfolding put using D(1) D(8)[OF c(1)] by (simp add: update_keys)
      ultimately show ?thesis
        using D(2-5) D(8)[OF c(1)] open_child
        by (intro children_matchI) (auto simp: child_scans_snoc SubagentFinished map_of_eq_None_iff)
    qed (use True in \<open>auto simp: is_child_body_def\<close>)
  qed
qed

interpretation children: fold_history fold_step children_match
  by unfold_locales (rule children_match_snoc)

lemma children_match_fresh: "children_match [] (fresh_state rid r)"
  by (simp add: children_match_def spawned_ids_def child_ends_def messages_to_def live_names_unique_def initial_view_def)

lemma live_names_distinct:
  "distinct (map fst d) \<Longrightarrow> live_names_unique d \<Longrightarrow> distinct (map cr_name (filter child_alive (map snd d)))"
proof (induction d)
  case (Cons p d)
  obtain i c where p: "p = (i, c)" by fastforce
  have later: "dict_get d j = Some e \<Longrightarrow> j \<noteq> i" for j e
    using Cons.prems(1) p dict_get_keyD[of d j e] by auto
  have "live_names_unique d"
    unfolding live_names_unique_def
  proof (intro allI impI)
    fix a b x y
    assume "dict_get d a = Some x" "dict_get d b = Some y" "child_alive x" "child_alive y" "cr_name x = cr_name y"
    with Cons.prems(2) later[of a x] later[of b y] show "a = b"
      unfolding live_names_unique_def p by (metis map_of_Cons_code(2))
  qed
  with Cons have "distinct (map cr_name (filter child_alive (map snd d)))" by simp
  moreover have "cr_name c \<noteq> cr_name e" if "child_alive c" "(j, e) \<in> set d" "child_alive e" for j e
  proof
    assume n: "cr_name c = cr_name e"
    from that(2) Cons.prems(1) have g: "dict_get d j = Some e" by (simp add: map_of_is_SomeI)
    then have "dict_get (p # d) j = Some e" "dict_get (p # d) i = Some c" using later[OF g] p by simp_all
    with Cons.prems(2) that n have "i = j" unfolding live_names_unique_def by blast
    with later[OF g] show False by simp
  qed
  ultimately show ?case by (auto simp: p) metis
qed simp

section \<open>Properties\<close>

text \<open>The children of a Run are its spawn records: the derived children are the spawned ids in order and
  without repetition, each child finished at most once and only if it was spawned, and a child is live
  until its finish record and afterwards holds the state, output, failure, usage and cost of it.\<close>

theorem children_are_spawned_and_finish_once:
  assumes "reduce rid None rs = Inr v"
  shows "map fst (v_children v) = spawned_ids rs \<and> distinct (spawned_ids rs) \<and> distinct (map fst (child_ends rs)) \<and>
         set (map fst (child_ends rs)) \<subseteq> set (spawned_ids rs) \<and>
         list_all (\<lambda>(i, c). child_matches rs i c) (v_children v)"
proof -
  obtain cx where J: "children_match rs (v, cx)"
    using reduce_history[OF children.fold_history_axioms children_match_fresh assms] by auto
  note D = children_matchD[OF J]
  have "child_matches rs i c" if "(i, c) \<in> set (v_children v)" for i c
    using D(6)[of i c] D(1,2) that by (simp add: map_of_is_SomeI)
  with D(1-4) show ?thesis by (auto simp: list_all_iff)
qed

lemma children_are_spawned_and_finish_once_witness:
  "\<exists>v c. reduce None None whole_log = Inr v \<and> v_children v = [(''kid'', c)] \<and> cr_terminal_state c = Some Completed"
proof -
  obtain v where v: "reduce None None whole_log = Inr v" using acceptedD[OF whole_log_accepted] by blast
  have "spawned_ids whole_log = [''kid'']"
    and e: "map_option sf_state (dict_get (child_ends whole_log) ''kid'') = Some Completed" by code_simp+
  with children_are_spawned_and_finish_once[OF v] obtain c where c: "v_children v = [(''kid'', c)]" by auto
  with children_are_spawned_and_finish_once[OF v] e have "cr_terminal_state c = Some Completed"
    by (auto simp: child_matches_def ended_as_def split: option.splits)
  with v c show ?thesis by blast
qed

text \<open>No two live subagents of a Run share a name.\<close>

theorem live_children_have_distinct_names:
  assumes "reduce rid None rs = Inr v"
  shows "distinct (map cr_name (live_children v))"
proof -
  obtain cx where J: "children_match rs (v, cx)"
    using reduce_history[OF children.fold_history_axioms children_match_fresh assms] by auto
  from live_names_distinct[of "v_children v"] children_matchD(1,2,7)[OF J] show ?thesis
    by (simp add: live_children_def)
qed

lemma live_children_have_distinct_names_witness:
  "\<exists>v. reduce None None (log_of [b_admitted, b_spawn ''k1'' ''a'', b_child_done ''k1'' ''a'', b_spawn ''k2'' ''a'', b_spawn ''k3'' ''b'']) = Inr v
     \<and> distinct (map cr_name (live_children v))"
proof -
  have "accepted (log_of [b_admitted, b_spawn ''k1'' ''a'', b_child_done ''k1'' ''a'', b_spawn ''k2'' ''a'', b_spawn ''k3'' ''b''])"
    by code_simp
  from acceptedD[OF this] live_children_have_distinct_names show ?thesis by blast
qed

end
