(* ===== verification/Turns.thy ===== *)
theory Turns
  imports LogShape
begin

text \<open>
  The brackets of a Run: turns and the model call inside each, suspensions and their
  resumptions, and the boundary compaction leaves. Each is specified by a scan of the log that
  knows nothing of the derived state; the fold accepts a record of a bracket only where the scan
  allows it, and its flags are the scan.
\<close>

section \<open>Turns and model calls\<close>

text \<open>The turn that is open after a log, and the turn of the model call that is open after it.\<close>

definition bracket :: "body \<Rightarrow> int option \<times> int option \<Rightarrow> int option \<times> int option" where
  "bracket b p = (case p of (turn, call) \<Rightarrow>
     (case b of
        TurnStarted t \<Rightarrow> (Some (tu_turn t), call)
      | ModelCallStarted m \<Rightarrow> (turn, Some (ms_turn m))
      | ModelCallFinished _ \<Rightarrow> (None, None)
      | ModelCallFailed _ \<Rightarrow> (None, None)
      | AttemptStarted _ \<Rightarrow> (None, None)
      | Suspended _ \<Rightarrow> (None, None)
      | RunSettled _ \<Rightarrow> (None, None)
      | _ \<Rightarrow> p))"

definition brackets :: "log_record list \<Rightarrow> int option \<times> int option" where
  "brackets rs = fold (\<lambda>r. bracket (r_body r)) rs (None, None)"

definition bracket_allows :: "body \<Rightarrow> int option \<times> int option \<Rightarrow> bool" where
  "bracket_allows b p = (case p of (turn, call) \<Rightarrow>
     (case b of
        TurnStarted _ \<Rightarrow> turn = None
      | ModelCallStarted m \<Rightarrow> turn = Some (ms_turn m) \<and> call = None
      | ModelCallFinished m \<Rightarrow> call = Some (mf_turn m)
      | ModelCallFailed m \<Rightarrow> call = Some (mx_turn m)
      | _ \<Rightarrow> True))"

definition brackets_match :: "log_record list \<Rightarrow> fold_state \<Rightarrow> bool" where
  "brackets_match rs s \<longleftrightarrow>
     fst (brackets rs) = (if v_turn_open (fst s) then Some (v_turn (fst s)) else None) \<and>
     snd (brackets rs) = (if v_model_call_open (fst s) then Some (v_turn (fst s)) else None) \<and>
     (v_model_call_open (fst s) \<longrightarrow> v_turn_open (fst s))"

definition turn_flags :: "run_state_view \<Rightarrow> int \<times> bool \<times> bool" where
  "turn_flags st = (v_turn st, v_turn_open st, v_model_call_open st)"

lemma apply_turns:
  "apply_body r b (st, cx) = Inr (st', cx') \<Longrightarrow>
     (case b of
        TurnStarted t \<Rightarrow> \<not> v_turn_open st \<and> turn_flags st' = (tu_turn t, True, v_model_call_open st)
      | ModelCallStarted m \<Rightarrow> v_turn_open st \<and> ms_turn m = v_turn st \<and> \<not> v_model_call_open st \<and>
                              turn_flags st' = (v_turn st, True, True)
      | ModelCallFinished m \<Rightarrow> v_model_call_open st \<and> mf_turn m = v_turn st \<and> turn_flags st' = (v_turn st, False, False)
      | ModelCallFailed m \<Rightarrow> v_model_call_open st \<and> mx_turn m = v_turn st \<and> turn_flags st' = (v_turn st, False, False)
      | AttemptStarted _ \<Rightarrow> turn_flags st' = (v_turn st, False, False)
      | Suspended _ \<Rightarrow> turn_flags st' = (v_turn st, False, False)
      | RunSettled _ \<Rightarrow> turn_flags st' = (v_turn st, False, False)
      | _ \<Rightarrow> turn_flags st' = turn_flags st)"
  by (cases b) (auto simp: op_defs Let_def remove_entry_def check_turn_def turn_flags_def
                     split: if_splits option.splits sum.splits)

lemma brackets_match_snoc:
  assumes "brackets_match rs s" and "fold_step s r = Inr s'"
  shows "brackets_match (rs @ [r]) s' \<and> bracket_allows (r_body r) (brackets rs)"
proof -
  obtain t c where p: "brackets rs = (t, c)" by fastforce
  have "turn_flags ((fst s)\<lparr>v_head_seq := n\<rparr>) = turn_flags (fst s)" for n by (simp add: turn_flags_def)
  with apply_turns[OF fold_step_applies[OF assms(2)]] assms(1) p show ?thesis
    by (cases "r_body r")
       (auto simp: brackets_match_def brackets_def bracket_def bracket_allows_def turn_flags_def split: if_splits)
qed

interpretation turn_brackets: fold_history fold_step brackets_match
  by unfold_locales (blast dest: brackets_match_snoc)

lemma brackets_match_fresh: "brackets_match [] (fresh_state rid r)"
  by (simp add: brackets_match_def brackets_def initial_view_def)

section \<open>Suspensions\<close>

definition suspension_marks :: "log_record list \<Rightarrow> bool list" where
  "suspension_marks rs = List.map_filter (\<lambda>r. case r_body r of Suspended _ \<Rightarrow> Some True | Resumed _ \<Rightarrow> Some False | _ \<Rightarrow> None) rs"

text \<open>The time of the suspension that is open after a log, and the microseconds suspended before it.\<close>

definition wait :: "log_record \<Rightarrow> timestamp option \<times> int \<Rightarrow> timestamp option \<times> int" where
  "wait r p = (case p of (since, waited) \<Rightarrow>
     (case r_body r of
        Suspended _ \<Rightarrow> (Some (r_at r), waited)
      | Resumed _ \<Rightarrow> (None, case since of None \<Rightarrow> waited | Some t \<Rightarrow> waited + max (r_at r - t) 0)
      | _ \<Rightarrow> p))"

definition waits :: "log_record list \<Rightarrow> timestamp option \<times> int" where
  "waits rs = fold wait rs (None, 0)"

definition suspensions_match :: "log_record list \<Rightarrow> fold_state \<Rightarrow> bool" where
  "suspensions_match rs s \<longleftrightarrow>
     suspension_marks rs = map even [0..<length (suspension_marks rs)] \<and>
     v_suspended (fst s) = odd (length (suspension_marks rs)) \<and>
     waits rs = (v_suspended_at (fst s), v_suspended_us (fst s)) \<and>
     (v_suspended (fst s) \<longleftrightarrow> v_suspended_at (fst s) \<noteq> None)"

lemma apply_suspension:
  "apply_body r b (st, cx) = Inr (st', cx') \<Longrightarrow>
     (case b of
        Suspended _ \<Rightarrow> \<not> v_suspended st \<and> v_suspended st' \<and> v_suspended_at st' = Some (r_at r) \<and> v_suspended_us st' = v_suspended_us st
      | Resumed _ \<Rightarrow> v_suspended st \<and> \<not> v_suspended st' \<and> v_suspended_at st' = None \<and>
                     v_suspended_us st' = (case v_suspended_at st of None \<Rightarrow> v_suspended_us st
                                           | Some t \<Rightarrow> v_suspended_us st + max (r_at r - t) 0)
      | _ \<Rightarrow> v_suspended st' = v_suspended st \<and> v_suspended_at st' = v_suspended_at st \<and> v_suspended_us st' = v_suspended_us st)"
  by (cases b) (auto simp: op_defs Let_def remove_entry_def split: if_splits option.splits sum.splits)

lemma suspensions_match_snoc:
  assumes "suspensions_match rs s" and "fold_step s r = Inr s'"
  shows "suspensions_match (rs @ [r]) s'"
proof -
  have m: "suspension_marks (rs @ [r]) = suspension_marks rs @ (case r_body r of Suspended _ \<Rightarrow> [True] | Resumed _ \<Rightarrow> [False] | _ \<Rightarrow> [])"
    by (cases "r_body r") (simp_all add: suspension_marks_def map_filter_snoc)
  have w: "waits (rs @ [r]) = wait r (waits rs)" by (simp add: waits_def)
  note a = apply_suspension[OF fold_step_applies[OF assms(2)]]
  from assms(1) have e: "suspension_marks rs = map even [0..<length (suspension_marks rs)]"
    by (simp add: suspensions_match_def)
  have e': "map even [0..<Suc (length (suspension_marks rs))] = suspension_marks rs @ [even (length (suspension_marks rs))]"
    using e by simp
  show ?thesis
    using assms(1) a
    by (cases "r_body r")
       (auto simp: suspensions_match_def m w wait_def e' simp del: upt_Suc split: option.splits)
qed

interpretation suspensions: fold_history fold_step suspensions_match
  by unfold_locales (rule suspensions_match_snoc)

lemma suspensions_match_fresh: "suspensions_match [] (fresh_state rid r)"
  by (simp add: suspensions_match_def suspension_marks_def waits_def initial_view_def)

section \<open>Compaction\<close>

definition compacted_to :: "log_record list \<Rightarrow> int list" where
  "compacted_to rs = List.map_filter (\<lambda>r. case r_body r of CompactionApplied c \<Rightarrow> Some (ca_replaced_to_seq c) | _ \<Rightarrow> None) rs"

definition boundary_match :: "log_record list \<Rightarrow> fold_state \<Rightarrow> bool" where
  "boundary_match rs s \<longleftrightarrow>
     v_compaction_boundary_seq (fst s) = fold max (compacted_to rs) 0 \<and>
     v_compaction_boundary_seq (fst s) < (if rs = [] then fc_expected_seq (snd s) else fc_expected_seq (snd s) - 1)"

lemma apply_boundary:
  "apply_body r b (st, cx) = Inr (st', cx') \<Longrightarrow>
     (case b of
        CompactionApplied c \<Rightarrow> ca_replaced_from_seq c \<le> ca_replaced_to_seq c \<and> ca_replaced_to_seq c < r_seq r \<and>
          v_compaction_boundary_seq st' = max (v_compaction_boundary_seq st) (ca_replaced_to_seq c)
      | _ \<Rightarrow> v_compaction_boundary_seq st' = v_compaction_boundary_seq st)"
  by (cases b) (auto simp: op_defs Let_def remove_entry_def split: if_splits option.splits sum.splits)

lemma boundary_match_snoc:
  assumes "boundary_match rs s" and "fold_step s r = Inr s'"
  shows "boundary_match (rs @ [r]) s'"
proof -
  have "compacted_to (rs @ [r]) = compacted_to rs @ (case r_body r of CompactionApplied c \<Rightarrow> [ca_replaced_to_seq c] | _ \<Rightarrow> [])"
    by (cases "r_body r") (simp_all add: compacted_to_def map_filter_snoc)
  with apply_boundary[OF fold_step_applies[OF assms(2)]] step_address[OF assms(2)] assms(1) show ?thesis
    by (cases "r_body r") (auto simp: boundary_match_def max.commute split: if_splits)
qed

interpretation boundary: fold_history fold_step boundary_match
  by unfold_locales (rule boundary_match_snoc)

lemma boundary_match_fresh: "boundary_match [] (fresh_state rid r)"
  by (simp add: boundary_match_def compacted_to_def initial_view_def)

section \<open>Properties\<close>

text \<open>Turns and model calls nest: in an accepted log a turn starts only when none is open, a model call
  only inside the open turn it names and when no call is open, and it finishes or fails only as the
  open call of that same turn, where an attempt, a suspension or the settlement closes both.\<close>

theorem model_calls_nest_in_turns:
  assumes "reduce rid None (xs @ r # ys) = Inr v"
  shows "bracket_allows (r_body r) (brackets xs)"
proof -
  obtain u w cx where "fold_log fold_step (fresh_state rid (hd (xs @ r # ys))) xs = Inr u" and step: "fold_step u r = Inr w"
    using assms by (rule reduce_at)
  then have "brackets_match xs u"
    using turn_brackets.fold_history[OF brackets_match_fresh] by blast
  from brackets_match_snoc[OF this step] show ?thesis ..
qed

lemma model_calls_nest_in_turns_witness:
  "\<exists>v. reduce None None (log_of [b_admitted, b_attempt 1, b_turn 1] @ rec_at 4 (b_call 1) # []) = Inr v \<and>
       bracket_allows (b_call 1) (brackets (log_of [b_admitted, b_attempt 1, b_turn 1]))"
proof -
  have "accepted (log_of [b_admitted, b_attempt 1, b_turn 1] @ rec_at 4 (b_call 1) # [])" by code_simp
  then obtain v where v: "reduce None None (log_of [b_admitted, b_attempt 1, b_turn 1] @ rec_at 4 (b_call 1) # []) = Inr v"
    using acceptedD by blast
  from v model_calls_nest_in_turns[OF v] show ?thesis by (simp add: rec_at_def)
qed

text \<open>Suspensions and resumptions alternate, starting with a suspension; a Run is suspended exactly after an
  odd number of them, and the suspended time, which the effective deadline adds to the admitted
  deadline, is the sum of the waits between each suspension and its resumption, none negative.\<close>

theorem suspensions_alternate_and_extend_the_deadline:
  assumes "reduce rid None rs = Inr v"
  shows "suspension_marks rs = map even [0..<length (suspension_marks rs)] \<and>
         (v_suspended v \<longleftrightarrow> odd (length (suspension_marks rs))) \<and>
         v_suspended_us v = snd (waits rs) \<and>
         effective_deadline_at v = map_option (\<lambda>d. d + snd (waits rs)) (v_deadline_at v)"
proof -
  obtain cx where "suspensions_match rs (v, cx)"
    using reduce_history[OF suspensions.fold_history_axioms suspensions_match_fresh assms] by auto
  then show ?thesis
    by (auto simp: suspensions_match_def effective_deadline_at_def split: option.splits)
qed

lemma suspensions_alternate_and_extend_the_deadline_witness:
  "\<exists>v. reduce None None whole_log = Inr v \<and> \<not> v_suspended v \<and> v_suspended_us v = 2"
proof -
  obtain v where v: "reduce None None whole_log = Inr v" using acceptedD[OF whole_log_accepted] by blast
  have "length (suspension_marks whole_log) = 2" "snd (waits whole_log) = 2" by code_simp+
  with v suspensions_alternate_and_extend_the_deadline[OF v] show ?thesis by auto
qed

text \<open>The compaction boundary of an accepted log is the greatest sequence any of its compactions
  replaced, never negative, and lies strictly below the head, so a compaction only ever
  hides records that were already written.\<close>

theorem compaction_boundary_is_below_the_head:
  assumes "reduce rid None rs = Inr v"
  shows "v_compaction_boundary_seq v = Max (insert 0 (set (compacted_to rs))) \<and>
         0 \<le> v_compaction_boundary_seq v \<and> v_compaction_boundary_seq v < v_head_seq v"
proof -
  from assms obtain cx where "rs \<noteq> []" and f: "fold_log fold_step (fresh_state rid (hd rs)) rs = Inr (v, cx)"
    by (auto simp: reduce_whole_Inr_iff)
  then have "boundary_match rs (v, cx)"
    using boundary.fold_history[OF boundary_match_fresh] by blast
  moreover have "v_head_seq v = fc_expected_seq cx - 1"
    using fold_log_shape[OF f] \<open>rs \<noteq> []\<close> by simp
  moreover have m: "fold max xs (0::int) = Max (insert 0 (set xs))" for xs
    by (metis Max.set_eq_fold fold_simps(2) list.simps(15))
  moreover have "0 \<le> Max (insert 0 (set (compacted_to rs)))" by (rule Max_ge) simp_all
  ultimately show ?thesis using \<open>rs \<noteq> []\<close> by (simp add: boundary_match_def del: Max_less_iff)
qed

lemma compaction_boundary_is_below_the_head_witness:
  "\<exists>v. reduce None None whole_log = Inr v \<and> v_compaction_boundary_seq v = 4"
proof -
  obtain v where v: "reduce None None whole_log = Inr v" using acceptedD[OF whole_log_accepted] by blast
  have "compacted_to whole_log = [4]" by code_simp
  with v compaction_boundary_is_below_the_head[OF v] show ?thesis by auto
qed

end
