(* ===== verification/Incremental.thy ===== *)
theory Incremental
  imports ToolCalls Queues
begin

text \<open>
  Continuing a fold. A Worker folds a log once and then folds one record at a time onto the
  state it holds (\<open>reduce(records, prior=state)\<close>); the local sets of \<open>reduce\<close> are then rebuilt
  from the state instead of from the log. The relation \<open>fold_agrees\<close> says what the rebuilt sets
  must share with the ones the whole fold carries: everything except the queue entries already
  spent, which the state no longer names. Two folds so related give the same result, errors
  included, on every record that does not enqueue one of those entries again.
\<close>

section \<open>The relation\<close>

definition fold_agrees :: "string set \<Rightarrow> fold_state \<Rightarrow> fold_state \<Rightarrow> bool" where
  "fold_agrees spent s t \<longleftrightarrow>
     fst s = fst t \<and>
     fc_expected_seq (snd s) = fc_expected_seq (snd t) \<and>
     fc_started (snd s) = fc_started (snd t) \<and>
     (\<forall>i. i \<notin> spent \<longrightarrow>
        dict_get (fc_enqueued (snd s)) i = dict_get (fc_enqueued (snd t)) i \<and>
        (i \<in> fc_cancelled (snd s) \<longleftrightarrow> i \<in> fc_cancelled (snd t)) \<and>
        (i \<in> fc_consumed (snd s) \<longleftrightarrow> i \<in> fc_consumed (snd t))) \<and>
     (\<forall>i \<in> spent. dict_get (fc_enqueued (snd t)) i = None \<and> i \<in> fc_cancelled (snd s) \<union> fc_consumed (snd s))"

definition reuses :: "string set \<Rightarrow> log_record \<Rightarrow> bool" where
  "reuses ids r \<longleftrightarrow> (case r_body r of QueueEnqueued b \<Rightarrow> qe_entry_id b \<in> ids | _ \<Rightarrow> False)"

lemma agrees_on_view:
  assumes "fold_agrees d s t"
  shows "rel_sum (=) (fold_agrees d) (on_view f s) (on_view f t)"
  using assms by (cases "f (fst t)") (auto simp: on_view_def fold_agrees_def)

lemma agrees_started:
  assumes "fold_agrees d s t"
  shows "rel_sum (=) (fold_agrees d) (on_tool_call_started r b s) (on_tool_call_started r b t)"
  using assms
  by (cases s; cases t) (auto simp: on_tool_call_started_def fold_agrees_def Let_def corrupt_def simp del: count_program_call_eq)

lemma agrees_finished:
  assumes "fold_agrees d s t"
  shows "rel_sum (=) (fold_agrees d) (on_tool_call_finished r b s) (on_tool_call_finished r b t)"
  using assms
  by (cases s; cases t)
     (auto simp: on_tool_call_finished_def fold_agrees_def Let_def corrupt_def split: option.splits
           simp del: update_repeat_count_eq update_failure_streak_eq)

lemma agrees_enqueued:
  assumes "fold_agrees d s t" and "qe_entry_id b \<notin> d"
  shows "rel_sum (=) (fold_agrees d) (on_queue_enqueued r b s) (on_queue_enqueued r b t)"
proof -
  obtain st cx where s: "s = (st, cx)" by (cases s)
  with assms(1) obtain cx' where t: "t = (st, cx')" by (cases t) (auto simp: fold_agrees_def)
  from assms s t have k: "qe_entry_id b \<in> dict_keys (fc_enqueued cx) \<longleftrightarrow> qe_entry_id b \<in> dict_keys (fc_enqueued cx')"
    unfolding fold_agrees_def by (metis dict_get_None_iff fst_conv snd_conv)
  show ?thesis
    using assms unfolding s t on_queue_enqueued_def prod.case k Let_def
    by (cases "qe_queue b \<noteq> NextRun \<and> (case v_abort_seq st of None \<Rightarrow> False | Some a \<Rightarrow> r_seq r > a)";
        cases "qe_entry_id b \<in> dict_keys (fc_enqueued cx')")
       (simp_all only: if_True if_False corrupt_def rel_sum_simps, auto simp: fold_agrees_def)
qed

lemma agrees_cancelled:
  assumes "fold_agrees d s t"
  shows "rel_sum (=) (fold_agrees d) (on_queue_cancelled r b s) (on_queue_cancelled r b t)"
proof (cases "qx_entry_id b \<in> d")
  case True
  with assms show ?thesis
    by (cases s; cases t) (auto simp: on_queue_cancelled_def fold_agrees_def corrupt_def split: option.splits)
next
  case False
  with assms show ?thesis
    by (cases s; cases t)
       (auto simp: on_queue_cancelled_def fold_agrees_def corrupt_def remove_entry_def split: option.splits)
qed

lemma agrees_consumed:
  assumes "fold_agrees d s t"
  shows "rel_sum (=) (fold_agrees d) (on_queue_consumed r b s) (on_queue_consumed r b t)"
proof (cases "qc_entry_id b \<in> d")
  case True
  with assms show ?thesis
    by (cases s; cases t) (auto simp: on_queue_consumed_def fold_agrees_def corrupt_def split: option.splits)
next
  case False
  with assms show ?thesis
    by (cases s; cases t)
       (auto simp: on_queue_consumed_def fold_agrees_def corrupt_def remove_entry_def split: option.splits)
qed

lemma agrees_body:
  assumes "fold_agrees d s t" and "\<not> reuses d r"
  shows "rel_sum (=) (fold_agrees d) (apply_body r (r_body r) s) (apply_body r (r_body r) t)"
proof (cases "r_body r")
  case (QueueEnqueued b)
  with assms show ?thesis by (simp add: agrees_enqueued reuses_def)
qed (simp_all add: assms(1) agrees_on_view agrees_started agrees_finished agrees_cancelled agrees_consumed)

lemma agrees_step:
  assumes "fold_agrees d s t" and "\<not> reuses d r"
  shows "rel_sum (=) (fold_agrees d) (fold_step s r) (fold_step t r)"
proof -
  obtain st cx where s: "s = (st, cx)" by (cases s)
  with assms(1) obtain cx' where t: "t = (st, cx')" by (cases t) (auto simp: fold_agrees_def)
  have e: "fc_expected_seq cx = fc_expected_seq cx'" using assms(1) by (simp add: s t fold_agrees_def)
  have "fold_agrees d (bump r s) (bump r t)" using assms(1) by (simp add: s t fold_agrees_def)
  from agrees_body[OF this assms(2)] show ?thesis
    by (simp add: s t fold_step_def e corrupt_def)
qed

interpretation continued: fold_relation fold_step fold_step "fold_agrees d" "\<lambda>r. \<not> reuses d r" for d
  by unfold_locales (rule agrees_step)

section \<open>The sets rebuilt from a state\<close>

definition spent_in :: "log_record list \<Rightarrow> string set" where
  "spent_in rs = set (cancelled_ids rs) \<union> set (consumed_ids rs)"

lemma dict_get_dict_of_iff:
  assumes "inj_on key (set xs)"
  shows "dict_get (dict_of key xs) i = Some e \<longleftrightarrow> e \<in> set xs \<and> key e = i"
proof -
  have "find (\<lambda>x. key x = i) (rev xs) = Some e \<longleftrightarrow> e \<in> set xs \<and> key e = i"
  proof (cases "find (\<lambda>x. key x = i) (rev xs)")
    case None
    then have "x \<in> set xs \<Longrightarrow> key x \<noteq> i" for x by (auto simp: find_None_iff)
    with None show ?thesis by (simp only:) blast
  next
    case (Some x)
    then have "x \<in> set xs" "key x = i" by (auto dest: find_SomeD)
    with Some assms show ?thesis by (auto dest: inj_onD)
  qed
  then show ?thesis by (simp add: dict_get_dict_of)
qed

lemma option_eqI: "(\<And>e. x = Some e \<longleftrightarrow> y = Some e) \<Longrightarrow> x = y"
  by (cases x; cases y) auto

lemma dict_get_keyed_iff:
  assumes "distinct (map key xs)"
  shows "dict_get (map (\<lambda>e. (key e, e)) xs) i = Some e \<longleftrightarrow> e \<in> set xs \<and> key e = i"
proof -
  have "distinct (map fst (map (\<lambda>e. (key e, e)) xs))" using assms by (simp add: comp_def)
  from map_of_eq_Some_iff[OF this, of i e] show ?thesis by auto
qed

lemma rebuilt_context_agrees:
  assumes Q: "queues_match rs (p, cx)" and L: "ledger_matches rs (ledger_of (p, cx))"
    and head: "fc_expected_seq cx = v_head_seq p + 1"
  shows "fold_agrees (spent_in rs) (p, cx) (continued_state p)"
proof -
  note D = queues_matchD[OF Q, simplified]
  let ?pending = "v_pending_steer p @ v_pending_follow_up p @ v_pending_next_run p"
  have pending: "v_pending_steer p = pending_in Steer rs" "v_pending_follow_up p = pending_in FollowUp rs"
    "v_pending_next_run p = pending_in NextRun rs"
    using D(7) by (metis queue_for.simps)+
  have "k = Steer \<or> k = FollowUp \<or> k = NextRun" for k by (cases k) auto
  then have in_pending: "e \<in> set ?pending \<longleftrightarrow> e \<in> set (entries rs) \<and> pe_entry_id e \<notin> spent_in rs" for e
    unfolding pending by (auto simp: pending_in_def spent_in_def)
  have inj: "inj_on pe_entry_id (set ?pending)"
    using D(1) in_pending by (auto simp: distinct_map intro: inj_on_subset)
  have enq: "dict_get (dict_of pe_entry_id ?pending) i = Some e \<longleftrightarrow>
      e \<in> set (entries rs) \<and> pe_entry_id e = i \<and> i \<notin> spent_in rs" for i e
    unfolding dict_get_dict_of_iff[OF inj] in_pending by auto
  have old: "dict_get (fc_enqueued cx) i = Some e \<longleftrightarrow> e \<in> set (entries rs) \<and> pe_entry_id e = i" for i e
    unfolding D(4) by (rule dict_get_keyed_iff[OF D(1)])
  have "dict_get (fc_enqueued cx) i = dict_get (dict_of pe_entry_id ?pending) i" if "i \<notin> spent_in rs" for i
  proof -
    have "dict_get (fc_enqueued cx) i = Some e \<longleftrightarrow> dict_get (dict_of pe_entry_id ?pending) i = Some e" for e
      using enq[of i e] old[of i e] that by blast
    then show ?thesis by (rule option_eqI)
  qed
  moreover have "dict_get (dict_of pe_entry_id ?pending) i = None" if "i \<in> spent_in rs" for i
    using enq[of i] that by (metis option.exhaust)
  moreover have "fc_started cx = dict_keys (v_open_tool_calls p) \<union> set (map tr_call_id (v_tool_results p))"
  proof -
    from L have "fc_started cx = set (started_ids rs)" "map tr_call_id (v_tool_results p) = finished_ids rs"
      "set (finished_ids rs) \<subseteq> set (started_ids rs)"
      and o: "map fst (v_open_tool_calls p) = filter (\<lambda>c. c \<notin> set (finished_ids rs)) (started_ids rs)"
      by (auto simp: ledger_matches_def ledger_of_def)
    moreover from o have "dict_keys (v_open_tool_calls p) = {c \<in> set (started_ids rs). c \<notin> set (finished_ids rs)}"
      by (metis list.set_map set_filter)
    ultimately show ?thesis by auto
  qed
  ultimately show ?thesis
    using D(5,6) head
    by (auto simp: fold_agrees_def continued_state_def ctx_of_def spent_in_def)
qed

lemma reduce_state:
  assumes "reduce rid None rs = Inr p"
  obtains cx where "fold_log fold_step (fresh_state rid (hd rs)) rs = Inr (p, cx)" and "rs \<noteq> []"
    and "fold_agrees (spent_in rs) (p, cx) (continued_state p)"
proof -
  from assms obtain cx where f: "rs \<noteq> []" "fold_log fold_step (fresh_state rid (hd rs)) rs = Inr (p, cx)"
    by (auto simp: reduce_whole_Inr_iff)
  have "queues_match rs (p, cx)" "ledger_matches rs (ledger_of (p, cx))"
    using queues.fold_history[OF queues_match_fresh f(2)] tool_ledger.fold_history[OF ledger_matches_fresh f(2)]
    by simp_all
  moreover have "fc_expected_seq cx = v_head_seq p + 1"
    using fold_log_shape[OF f(2)] f(1) by simp
  ultimately show thesis
    using that[OF f(2,1)] rebuilt_context_agrees by blast
qed

lemma reduce_continues:
  assumes "reduce rid None xs = Inr p" and "list_all (\<lambda>r. \<not> reuses (spent_in xs) r) ys"
  shows "reduce None (Some p) ys = reduce rid None (xs @ ys)"
proof -
  obtain cx where f: "fold_log fold_step (fresh_state rid (hd xs)) xs = Inr (p, cx)" "xs \<noteq> []"
    and a: "fold_agrees (spent_in xs) (p, cx) (continued_state p)"
    using assms(1) by (rule reduce_state)
  have r: "rel_sum (=) (fold_agrees (spent_in xs)) (fold_log fold_step (p, cx) ys) (fold_log fold_step (continued_state p) ys)"
    by (rule continued.fold_related[OF a assms(2)])
  have w: "reduce rid None (xs @ ys) = map_sum id fst (fold_log fold_step (p, cx) ys)"
  proof -
    have "reduce rid None (xs @ ys) = map_sum id fst (fold_log fold_step (fresh_state rid (hd xs)) (xs @ ys))"
      using f(2) by (cases xs) (simp_all add: reduce_def fresh_state_def Let_def del: fold_log.simps)
    then show ?thesis by (simp add: fold_log_append f(1))
  qed
  have c: "reduce None (Some p) ys = map_sum id fst (fold_log fold_step (continued_state p) ys)"
    by (simp add: reduce_def continued_state_def)
  from r show ?thesis
    unfolding w c
    by (cases "fold_log fold_step (p, cx) ys"; cases "fold_log fold_step (continued_state p) ys")
       (auto simp: fold_agrees_def)
qed

section \<open>Properties\<close>

text \<open>C3. Continuing a fold is folding the whole log: from the state of an accepted log, folding further
  records gives exactly what folding the longer log gives, the same state or the same error, when
  none of them enqueues an entry that the log already cancelled or consumed.\<close>

theorem continued_fold_is_the_whole_fold:
  assumes "reduce rid None xs = Inr p" and "list_all (\<lambda>r. \<not> reuses (spent_in xs) r) ys"
  shows "reduce None (Some p) ys = reduce rid None (xs @ ys)"
  using assms by (rule reduce_continues)

lemma continued_fold_is_the_whole_fold_witness:
  "\<exists>p v. reduce None None (take 8 whole_log) = Inr p \<and> reduce None (Some p) (drop 8 whole_log) = Inr v \<and>
         reduce None None whole_log = Inr v"
proof -
  have "accepted (take 8 whole_log)" and n: "list_all (\<lambda>r. \<not> reuses (spent_in (take 8 whole_log)) r) (drop 8 whole_log)"
    by code_simp+
  then obtain p where p: "reduce None None (take 8 whole_log) = Inr p" using acceptedD by blast
  obtain v where "reduce None None whole_log = Inr v" using acceptedD[OF whole_log_accepted] by blast
  with p continued_fold_is_the_whole_fold[OF p n] show ?thesis by auto
qed

text \<open>The condition is needed: after an entry was consumed, a continued fold accepts a record that
  enqueues the same id again, and the whole-log fold of the very same records refuses it as a
  mismatched entry, so a Worker that holds its state can write a log no later fold accepts.\<close>

theorem continued_fold_forgets_spent_entries:
  "(let xs = log_of [b_admitted, b_enqueue Steer ''q'', b_consume ''q'']; y = rec_at 4 (b_enqueue Steer ''q'')
    in case reduce None None xs of
         Inl _ \<Rightarrow> False
       | Inr p \<Rightarrow> (case reduce None (Some p) [y] of Inl _ \<Rightarrow> False | Inr v \<Rightarrow> v_head_seq v = 4) \<and>
                  (case reduce None None (xs @ [y]) of
                     Inl e \<Rightarrow> e = CorruptLog ProvisionedEntryMismatch ''run'' 4 | Inr _ \<Rightarrow> False))"
  by code_simp

end
