(* ===== verification/Store.thy ===== *)
theory Store
  imports Samples
begin

text \<open>
  The Store: the port's data (\<open>psych_runtime/store/port.py\<close>) and the in-memory adapter
  (\<open>psych_runtime/store/memory.py\<close>), every operation of it as a function of the three
  dictionaries and the idempotency index it keeps. One lock serialises the operations, so each
  is one atomic step.

  The interfaces are locales: \<open>log_store\<close> is what a writer of a log needs of append and read,
  \<open>run_table\<close> what lease holders need of claim, renew and release. Both are interpreted on the
  adapter.
\<close>

section \<open>Data\<close>

datatype run_state = Runnable | Running | SuspendedRun | Nested | Settled

record run_header =
  h_run_id :: run_id
  h_scope :: scope
  h_version_hash :: version_hash
  h_state :: run_state
  h_created_at :: timestamp
  h_deadline_at :: timestamp
  h_lease_holder :: "worker_id option"
  h_lease_expires_at :: "timestamp option"
  h_idempotency_key :: "string option"
  h_attempt_count :: int
  h_runnable_at :: "timestamp option"
  h_parent_run_id :: "run_id option"
  h_delegation_depth :: int
  h_continues_run_id :: "run_id option"

text \<open>
  A Version, with the parts of its Spec that admission reads: which of the two shapes it is,
  the names of its top-level steps and its deadline in microseconds.
\<close>

record version =
  ver_hash :: version_hash
  ver_is_workflow :: bool
  ver_step_names :: "string list"
  ver_deadline_us :: int

datatype store_error = SeqConflict run_id int | RunNotFound run_id

record store =
  st_logs :: "(run_id, (int, log_record) dict) dict"
  st_versions :: "(version_hash, version) dict"
  st_runs :: "(run_id, run_header) dict"
  st_keys :: "(string \<times> string, run_id) dict"

definition empty_store :: store where
  "empty_store = \<lparr>st_logs = [], st_versions = [], st_runs = [], st_keys = []\<rparr>"

section \<open>The log\<close>

definition log_of_run :: "store \<Rightarrow> run_id \<Rightarrow> (int, log_record) dict" where
  "log_of_run s i = (case dict_get (st_logs s) i of None \<Rightarrow> [] | Some l \<Rightarrow> l)"

definition store_append :: "store \<Rightarrow> run_id \<Rightarrow> int \<Rightarrow> log_record \<Rightarrow> store_error + store" where
  "store_append s i sq r =
     (let l = log_of_run s i
      in if sq \<in> dict_keys l then Inl (SeqConflict i sq)
         else Inr (s\<lparr>st_logs := dict_put i (dict_put sq r l) (st_logs s)\<rparr>))"

definition store_read :: "store \<Rightarrow> run_id \<Rightarrow> int \<Rightarrow> nat option \<Rightarrow> log_record list" where
  "store_read s i after limit =
     (let l = log_of_run s i;
          seqs = sort (filter (\<lambda>q. q > after) (map fst l));
          page = (case limit of None \<Rightarrow> seqs | Some n \<Rightarrow> take n seqs)
      in map (\<lambda>q. the (dict_get l q)) page)"

definition store_head :: "store \<Rightarrow> run_id \<Rightarrow> int" where
  "store_head s i = (let l = log_of_run s i in if l = [] then 0 else Max (set (map fst l)))"

section \<open>Versions\<close>

definition put_version :: "store \<Rightarrow> version \<Rightarrow> store" where
  "put_version s v =
     (if ver_hash v \<in> dict_keys (st_versions s) then s
      else s\<lparr>st_versions := dict_put (ver_hash v) v (st_versions s)\<rparr>)"

definition get_version :: "store \<Rightarrow> version_hash \<Rightarrow> version option" where
  "get_version s h = dict_get (st_versions s) h"

section \<open>Runs\<close>

definition create_run :: "store \<Rightarrow> run_header \<Rightarrow> run_header \<times> store" where
  "create_run s h =
     (case Option.bind (h_idempotency_key h) (\<lambda>k. dict_get (st_keys s) (sc_tenant (h_scope h), k)) of
        Some existing \<Rightarrow> (the (dict_get (st_runs s) existing), s)
      | None \<Rightarrow>
          (case dict_get (st_runs s) (h_run_id h) of
             Some existing \<Rightarrow> (existing, s)
           | None \<Rightarrow>
               (h, s\<lparr>st_runs := dict_put (h_run_id h) h (st_runs s),
                     st_logs := (if h_run_id h \<in> dict_keys (st_logs s) then st_logs s
                                 else dict_put (h_run_id h) [] (st_logs s)),
                     st_keys := (case h_idempotency_key h of
                        None \<Rightarrow> st_keys s
                      | Some k \<Rightarrow> dict_put (sc_tenant (h_scope h), k) (h_run_id h) (st_keys s))\<rparr>)))"

definition get_run :: "store \<Rightarrow> run_id \<Rightarrow> run_header option" where
  "get_run s i = dict_get (st_runs s) i"

definition is_claimable :: "run_header \<Rightarrow> timestamp \<Rightarrow> bool" where
  "is_claimable h now =
     (if h_state h \<noteq> Runnable \<and> h_state h \<noteq> Running then False
      else if (case h_runnable_at h of None \<Rightarrow> False | Some t \<Rightarrow> t > now) then False
      else if h_state h = Runnable then True
      else (case h_lease_expires_at h of None \<Rightarrow> True | Some t \<Rightarrow> t \<le> now))"

definition claim :: "store \<Rightarrow> worker_id \<Rightarrow> timestamp \<Rightarrow> int \<Rightarrow> run_id option \<times> store" where
  "claim s w now lease_us =
     (case find (\<lambda>(i, h). is_claimable h now) (st_runs s) of
        None \<Rightarrow> (None, s)
      | Some (i, h) \<Rightarrow>
          (Some i, s\<lparr>st_runs := dict_put i (h\<lparr>h_state := Running, h_lease_holder := Some w,
                      h_lease_expires_at := Some (now + lease_us),
                      h_attempt_count := h_attempt_count h + 1\<rparr>) (st_runs s)\<rparr>))"

definition renew :: "store \<Rightarrow> run_id \<Rightarrow> worker_id \<Rightarrow> timestamp \<Rightarrow> int \<Rightarrow> bool \<times> store" where
  "renew s i w now lease_us =
     (case dict_get (st_runs s) i of
        None \<Rightarrow> (False, s)
      | Some h \<Rightarrow>
          if h_lease_holder h \<noteq> Some w then (False, s)
          else (True, s\<lparr>st_runs := dict_put i (h\<lparr>h_lease_expires_at := Some (now + lease_us)\<rparr>) (st_runs s)\<rparr>))"

definition release :: "store \<Rightarrow> run_id \<Rightarrow> worker_id \<Rightarrow> run_state \<Rightarrow> store" where
  "release s i w state =
     (case dict_get (st_runs s) i of
        None \<Rightarrow> s
      | Some h \<Rightarrow>
          if h_lease_holder h \<noteq> Some w then s
          else s\<lparr>st_runs := dict_put i (h\<lparr>h_state := state, h_lease_holder := None, h_lease_expires_at := None\<rparr>)
                             (st_runs s)\<rparr>)"

definition settle_inline :: "store \<Rightarrow> run_id \<Rightarrow> bool \<times> store" where
  "settle_inline s i =
     (case dict_get (st_runs s) i of
        None \<Rightarrow> (False, s)
      | Some h \<Rightarrow>
          if h_state h \<noteq> Nested then (False, s)
          else (True, s\<lparr>st_runs := dict_put i (h\<lparr>h_state := Settled\<rparr>) (st_runs s)\<rparr>))"

definition set_runnable_at :: "store \<Rightarrow> run_id \<Rightarrow> timestamp option \<Rightarrow> store_error + store" where
  "set_runnable_at s i wake =
     (case dict_get (st_runs s) i of
        None \<Rightarrow> Inl (RunNotFound i)
      | Some h \<Rightarrow>
          Inr (s\<lparr>st_runs := dict_put i (h\<lparr>h_runnable_at := wake,
                 h_state := (if wake = None \<and> h_state h = SuspendedRun then Runnable else h_state h)\<rparr>) (st_runs s)\<rparr>))"

section \<open>Supervision\<close>

definition expired_leases :: "store \<Rightarrow> timestamp \<Rightarrow> nat \<Rightarrow> run_header list" where
  "expired_leases s now limit =
     take limit (map snd (sort_key fst (List.map_filter
       (\<lambda>(i, h). case h_lease_expires_at h of
          Some t \<Rightarrow> if h_state h = Running \<and> t \<le> now then Some (t, h) else None
        | None \<Rightarrow> None) (st_runs s))))"

definition overdue_deadlines :: "store \<Rightarrow> timestamp \<Rightarrow> nat \<Rightarrow> run_header list" where
  "overdue_deadlines s now limit =
     take limit (sort_key h_deadline_at
       (filter (\<lambda>h. h_state h \<noteq> Settled \<and> h_deadline_at h \<le> now) (map snd (st_runs s))))"

section \<open>The interface of a log\<close>

text \<open>
  What a writer of a log relies on: a log is a finite map from sequence to record, an append
  fills one vacant sequence of one log or is refused, and a read is the records after a
  sequence in ascending order.
\<close>

locale log_store =
  fixes ok :: "'s \<Rightarrow> bool"
    and entry :: "'s \<Rightarrow> run_id \<Rightarrow> int \<Rightarrow> log_record option"
    and append_at :: "'s \<Rightarrow> run_id \<Rightarrow> int \<Rightarrow> log_record \<Rightarrow> 's option"
    and read_after :: "'s \<Rightarrow> run_id \<Rightarrow> int \<Rightarrow> log_record list"
  assumes finite_log: "finite (dom (entry s i))"
    and append_refused: "append_at s i q r = None \<longleftrightarrow> entry s i q \<noteq> None"
    and append_entry: "append_at s i q r = Some s' \<Longrightarrow> entry s' j p = (if j = i \<and> p = q then Some r else entry s j p)"
    and append_ok: "ok s \<Longrightarrow> append_at s i q r = Some s' \<Longrightarrow> ok s'"
    and read_entry: "ok s \<Longrightarrow> read_after s i a = map (\<lambda>q. the (entry s i q)) (sorted_list_of_set {q \<in> dom (entry s i). q > a})"
begin

definition gapless :: "'s \<Rightarrow> run_id \<Rightarrow> nat \<Rightarrow> bool" where
  "gapless s i n \<longleftrightarrow> dom (entry s i) = {1..int n}"

lemma gapless_read:
  assumes "ok s" and "gapless s i n" and "k \<le> n"
  shows "read_after s i (int k) = map (\<lambda>q. the (entry s i q)) [int k + 1..int n]"
proof -
  have "{q \<in> dom (entry s i). q > int k} = {int k + 1..int n}"
    using assms by (auto simp: gapless_def)
  then show ?thesis by (simp add: read_entry[OF assms(1)])
qed

lemma gapless_append:
  assumes "ok s" and "gapless s i n"
  shows "\<exists>s'. append_at s i (int n + 1) r = Some s' \<and> ok s' \<and> gapless s' i (Suc n) \<and>
              (\<forall>k \<le> n. read_after s' i (int k) = read_after s i (int k) @ [r]) \<and>
              (\<forall>j. j \<noteq> i \<longrightarrow> entry s' j = entry s j)"
proof -
  have "entry s i (int n + 1) = None"
    using assms(2) unfolding gapless_def by (metis add_le_same_cancel1 atLeastAtMost_iff domIff not_one_le_zero of_nat_0 of_nat_1 of_nat_le_iff)
  then obtain s' where s': "append_at s i (int n + 1) r = Some s'"
    by (metis append_refused not_None_eq)
  note e = append_entry[OF s'] and wf = append_ok[OF assms(1) s']
  have dom': "dom (entry s' i) = insert (int n + 1) (dom (entry s i))" by (auto simp: dom_def e)
  have g: "gapless s' i (Suc n)"
    using assms dom' by (auto simp: gapless_def)
  have "read_after s' i (int k) = read_after s i (int k) @ [r]" if "k \<le> n" for k
  proof -
    have "[int k + 1..int (Suc n)] = [int k + 1..int n] @ [int n + 1]"
      using that upto_rec2[of "int k + 1" "int n + 1"] by (simp add: add.commute)
    then show ?thesis
      using that by (simp add: gapless_read[OF wf g] gapless_read[OF assms] e)
  qed
  with s' g e wf show ?thesis by auto
qed

lemma stale_append_refused:
  assumes "gapless s i n" and "1 \<le> q" and "q \<le> int n"
  shows "append_at s i q r = None"
  using assms by (auto simp: append_refused gapless_def dom_def)

lemma append_other:
  assumes "ok s" and "append_at s i q r = Some s'" and "j \<noteq> i"
  shows "read_after s' j a = read_after s j a"
proof -
  have "entry s' j = entry s j" using append_entry[OF assms(2)] assms(3) by auto
  then show ?thesis using read_entry append_ok assms(1,2) by metis
qed

end

section \<open>The adapter provides it\<close>

definition store_entry :: "store \<Rightarrow> run_id \<Rightarrow> int \<Rightarrow> log_record option" where
  "store_entry s i q = dict_get (log_of_run s i) q"

definition store_append_opt :: "store \<Rightarrow> run_id \<Rightarrow> int \<Rightarrow> log_record \<Rightarrow> store option" where
  "store_append_opt s i q r = (case store_append s i q r of Inl _ \<Rightarrow> None | Inr s' \<Rightarrow> Some s')"

definition logs_wf :: "store \<Rightarrow> bool" where
  "logs_wf s \<longleftrightarrow> (\<forall>i. dict_wf (log_of_run s i))"

lemma log_of_run_append:
  "store_append s i q r = Inr s' \<Longrightarrow>
     log_of_run s' j = (if j = i then dict_put q r (log_of_run s i) else log_of_run s j)"
  by (auto simp: store_append_def log_of_run_def Let_def split: if_splits)

lemma store_append_conflict: "store_append s i q r = Inl e \<longleftrightarrow> e = SeqConflict i q \<and> store_entry s i q \<noteq> None"
  by (auto simp: store_append_def Let_def store_entry_def dict_get_None_iff simp del: not_None_eq)

lemma store_append_runs: "store_append s i q r = Inr s' \<Longrightarrow> st_runs s' = st_runs s \<and> st_keys s' = st_keys s \<and> st_versions s' = st_versions s"
  by (auto simp: store_append_def Let_def split: if_splits)

lemma logs_wf_append: "logs_wf s \<Longrightarrow> store_append s i q r = Inr s' \<Longrightarrow> logs_wf s'"
  by (auto simp: logs_wf_def log_of_run_append)

interpretation mem_log: log_store logs_wf store_entry store_append_opt "\<lambda>s i a. store_read s i a None"
proof
  fix s :: store and i q r s' j p a
  show "finite (dom (store_entry s i))"
    unfolding store_entry_def by (rule finite_dom_map_of)
  show "store_append_opt s i q r = None \<longleftrightarrow> store_entry s i q \<noteq> None"
  proof -
    have "store_append_opt s i q r = None \<longleftrightarrow> q \<in> dict_keys (log_of_run s i)"
      by (simp only: store_append_opt_def store_append_def Let_def) simp
    then show ?thesis
      by (simp only: store_entry_def dict_get_None_iff not_not)
  qed
  show "store_append_opt s i q r = Some s' \<Longrightarrow> store_entry s' j p = (if j = i \<and> p = q then Some r else store_entry s j p)"
    by (auto simp: store_append_opt_def store_entry_def log_of_run_append split: sum.splits)
  show "logs_wf s \<Longrightarrow> store_append_opt s i q r = Some s' \<Longrightarrow> logs_wf s'"
    by (auto simp: store_append_opt_def logs_wf_append split: sum.splits)
  assume "logs_wf s"
  then have d: "distinct (filter (\<lambda>q. q > a) (map fst (log_of_run s i)))"
    by (simp add: logs_wf_def dict_wf_def)
  have "set (filter (\<lambda>q. q > a) (map fst (log_of_run s i))) = {q \<in> dom (store_entry s i). q > a}"
    by (simp only: store_entry_def[abs_def] dom_map_of_conv_image_fst set_filter set_map)
  moreover have "sorted_list_of_set (set xs) = sort xs" if "distinct xs" for xs :: "int list"
    using that by (simp add: sorted_list_of_set_sort_remdups distinct_remdups_id)
  ultimately have "sort (filter (\<lambda>q. q > a) (map fst (log_of_run s i))) = sorted_list_of_set {q \<in> dom (store_entry s i). q > a}"
    using d by metis
  then show "store_read s i a None = map (\<lambda>q. the (store_entry s i q)) (sorted_list_of_set {q \<in> dom (store_entry s i). q > a})"
    by (simp add: store_read_def Let_def store_entry_def)
qed

section \<open>The interface of leases\<close>

text \<open>
  What a lease holder relies on: an action on the table that is not its own, taken while its lease
  is live, leaves its header unchanged.
\<close>

locale lease_table =
  fixes sane :: "'s \<Rightarrow> bool"
    and header :: "'s \<Rightarrow> run_id \<Rightarrow> run_header option"
    and act :: "'a \<Rightarrow> 's \<Rightarrow> 's"
    and foreign :: "run_header \<Rightarrow> 'a \<Rightarrow> bool"
  assumes act_sane: "sane s \<Longrightarrow> sane (act a s)"
    and act_foreign: "sane s \<Longrightarrow> header s i = Some h \<Longrightarrow> foreign h a \<Longrightarrow> header (act a s) i = Some h"
begin

lemma lease_is_exclusive:
  "sane s \<Longrightarrow> header s i = Some h \<Longrightarrow> list_all (foreign h) acts \<Longrightarrow> header (fold act acts s) i = Some h"
  by (induction acts arbitrary: s) (simp_all add: act_sane act_foreign)

end

datatype lease_action =
    ClaimAny worker_id timestamp int
  | ReleaseOf run_id worker_id run_state
  | RenewOf run_id worker_id timestamp int

fun lease_act :: "lease_action \<Rightarrow> store \<Rightarrow> store" where
  "lease_act (ClaimAny w now d) s = snd (claim s w now d)"
| "lease_act (ReleaseOf i w st) s = release s i w st"
| "lease_act (RenewOf i w now d) s = snd (renew s i w now d)"

definition live_lease :: "run_header \<Rightarrow> timestamp \<Rightarrow> bool" where
  "live_lease h now \<longleftrightarrow> h_state h = Running \<and> (case h_lease_expires_at h of None \<Rightarrow> False | Some t \<Rightarrow> t > now)"

text \<open>A claim at a time the lease is live, or a release or renewal in the name of another worker.\<close>

fun foreign_action :: "run_header \<Rightarrow> lease_action \<Rightarrow> bool" where
  "foreign_action h (ClaimAny w now d) = live_lease h now"
| "foreign_action h (ReleaseOf i w st) = (h_lease_holder h \<noteq> Some w)"
| "foreign_action h (RenewOf i w now d) = (h_lease_holder h \<noteq> Some w)"

lemma live_lease_not_claimable: "live_lease h now \<Longrightarrow> \<not> is_claimable h now"
  by (auto simp: live_lease_def is_claimable_def split: option.splits)

lemma claim_SomeD:
  assumes "claim s w now d = (Some i, s')"
  obtains h where "(i, h) \<in> set (st_runs s)" and "is_claimable h now"
    and "s' = s\<lparr>st_runs := dict_put i (h\<lparr>h_state := Running, h_lease_holder := Some w,
                      h_lease_expires_at := Some (now + d), h_attempt_count := h_attempt_count h + 1\<rparr>) (st_runs s)\<rparr>"
  using assms by (auto simp: claim_def split: option.splits dest!: find_SomeD)

lemma claim_NoneD: "claim s w now d = (None, s') \<Longrightarrow> s' = s \<and> (\<forall>(i, h) \<in> set (st_runs s). \<not> is_claimable h now)"
  by (auto simp: claim_def find_None_iff split: option.splits)

definition runs_wf :: "store \<Rightarrow> bool" where
  "runs_wf s \<longleftrightarrow> dict_wf (st_runs s)"

lemma release_eq:
  "st_runs (release s i w st) =
     (case dict_get (st_runs s) i of
        Some h \<Rightarrow> if h_lease_holder h = Some w
                  then dict_put i (h\<lparr>h_state := st, h_lease_holder := None, h_lease_expires_at := None\<rparr>) (st_runs s)
                  else st_runs s
      | None \<Rightarrow> st_runs s)"
  by (simp add: release_def split: option.splits)

lemma renew_eq:
  "st_runs (snd (renew s i w now d)) =
     (case dict_get (st_runs s) i of
        Some h \<Rightarrow> if h_lease_holder h = Some w
                  then dict_put i (h\<lparr>h_lease_expires_at := Some (now + d)\<rparr>) (st_runs s) else st_runs s
      | None \<Rightarrow> st_runs s)"
  by (simp add: renew_def split: option.splits)

lemma claim_effect:
  assumes "runs_wf s"
  shows "(\<exists>i h. claim s w now d = (Some i, s\<lparr>st_runs := dict_put i (h\<lparr>h_state := Running, h_lease_holder := Some w,
                      h_lease_expires_at := Some (now + d), h_attempt_count := h_attempt_count h + 1\<rparr>) (st_runs s)\<rparr>) \<and>
               get_run s i = Some h \<and> is_claimable h now) \<or>
         claim s w now d = (None, s)"
proof (cases "claim s w now d")
  case (Pair x s')
  show ?thesis
  proof (cases x)
    case None
    with Pair claim_NoneD[of s w now d s'] show ?thesis by simp
  next
    case (Some i)
    with Pair claim_SomeD[of s w now d i s'] obtain h where
      h: "(i, h) \<in> set (st_runs s)" "is_claimable h now"
      "s' = s\<lparr>st_runs := dict_put i (h\<lparr>h_state := Running, h_lease_holder := Some w,
                      h_lease_expires_at := Some (now + d), h_attempt_count := h_attempt_count h + 1\<rparr>) (st_runs s)\<rparr>"
      by metis
    with assms have "get_run s i = Some h"
      by (simp add: runs_wf_def dict_wf_def get_run_def map_of_is_SomeI)
    with h Pair Some show ?thesis by blast
  qed
qed

lemma claim_runs_wf: "runs_wf s \<Longrightarrow> runs_wf (snd (claim s w now d))"
  using claim_effect[of s w now d] by (auto simp: runs_wf_def)

interpretation mem_leases: lease_table runs_wf get_run lease_act foreign_action
proof
  fix s and i :: run_id and h a
  show "runs_wf s \<Longrightarrow> runs_wf (lease_act a s)"
    by (cases a) (auto simp: claim_runs_wf[unfolded runs_wf_def] runs_wf_def release_eq renew_eq split: option.splits)
  show "runs_wf s \<Longrightarrow> get_run s i = Some h \<Longrightarrow> foreign_action h a \<Longrightarrow> get_run (lease_act a s) i = Some h"
  proof (cases a)
    case (ClaimAny w now d)
    assume "runs_wf s" "get_run s i = Some h" "foreign_action h a"
    with ClaimAny claim_effect[of s w now d] live_lease_not_claimable[of h now] show ?thesis
      by (auto simp: get_run_def)
  qed (auto simp: get_run_def release_eq renew_eq split: option.splits)
qed

section \<open>Steps of the store\<close>

definition admissible :: "run_header \<Rightarrow> bool" where
  "admissible h \<longleftrightarrow> (h_state h = Runnable \<or> h_state h = Nested) \<and> h_lease_holder h = None \<and> h_lease_expires_at h = None"

text \<open>
  One operation of the adapter. Callers admit a Run runnable or nested and without a lease,
  and never release one into \<open>RUNNING\<close>.
\<close>

inductive store_step :: "store \<Rightarrow> store \<Rightarrow> bool" where
  append: "store_append s i q r = Inr s' \<Longrightarrow> store_step s s'"
| version: "store_step s (put_version s v)"
| admit: "admissible h \<Longrightarrow> store_step s (snd (create_run s h))"
| claim: "store_step s (snd (claim s w now d))"
| renew: "store_step s (snd (renew s i w now d))"
| release: "st \<noteq> Running \<Longrightarrow> store_step s (release s i w st)"
| inline: "store_step s (snd (settle_inline s i))"
| wake: "set_runnable_at s i t = Inr s' \<Longrightarrow> store_step s s'"

inductive_cases store_stepE: "store_step s s'"

inductive store_steps :: "store \<Rightarrow> store \<Rightarrow> bool" where
  refl: "store_steps s s"
| step: "store_steps s t \<Longrightarrow> store_step t u \<Longrightarrow> store_steps s u"

definition lease_fields_agree :: "run_header \<Rightarrow> bool" where
  "lease_fields_agree h \<longleftrightarrow>
     (h_state h = Running \<longleftrightarrow> h_lease_holder h \<noteq> None) \<and> (h_state h = Running \<longleftrightarrow> h_lease_expires_at h \<noteq> None)"

definition keys_agree :: "store \<Rightarrow> bool" where
  "keys_agree s \<longleftrightarrow> (\<forall>t k i. dict_get (st_keys s) (t, k) = Some i \<longrightarrow>
     (\<exists>h. dict_get (st_runs s) i = Some h \<and> sc_tenant (h_scope h) = t \<and> h_idempotency_key h = Some k))"

definition store_ok :: "store \<Rightarrow> bool" where
  "store_ok s \<longleftrightarrow> logs_wf s \<and> runs_wf s \<and> (\<forall>i h. dict_get (st_runs s) i = Some h \<longrightarrow> lease_fields_agree h \<and> h_run_id h = i) \<and> keys_agree s"

definition same_identity :: "run_header \<Rightarrow> run_header \<Rightarrow> bool" where
  "same_identity h h' \<longleftrightarrow> h_run_id h' = h_run_id h \<and> h_scope h' = h_scope h \<and> h_idempotency_key h' = h_idempotency_key h"

lemma store_okD:
  assumes "store_ok s"
  shows "logs_wf s" and "runs_wf s" and "dict_get (st_runs s) i = Some h \<Longrightarrow> lease_fields_agree h"
    and "dict_get (st_runs s) i = Some h \<Longrightarrow> h_run_id h = i"
    and "dict_get (st_keys s) (t, k) = Some i \<Longrightarrow>
           \<exists>h. dict_get (st_runs s) i = Some h \<and> sc_tenant (h_scope h) = t \<and> h_idempotency_key h = Some k"
  using assms unfolding store_ok_def keys_agree_def by blast+

lemma store_okI:
  assumes "logs_wf s" and "runs_wf s" and "\<And>i h. dict_get (st_runs s) i = Some h \<Longrightarrow> lease_fields_agree h \<and> h_run_id h = i"
    and "\<And>t k i. dict_get (st_keys s) (t, k) = Some i \<Longrightarrow>
           \<exists>h. dict_get (st_runs s) i = Some h \<and> sc_tenant (h_scope h) = t \<and> h_idempotency_key h = Some k"
  shows "store_ok s"
  using assms by (simp add: store_ok_def keys_agree_def)

lemma store_ok_put:
  assumes ok: "store_ok s" and i: "dict_get (st_runs s) i = Some h" and same: "same_identity h h'" and "lease_fields_agree h'"
  shows "store_ok (s\<lparr>st_runs := dict_put i h' (st_runs s)\<rparr>)"
proof (rule store_okI)
  show "logs_wf (s\<lparr>st_runs := dict_put i h' (st_runs s)\<rparr>)"
    using store_okD(1)[OF ok] by (simp add: logs_wf_def log_of_run_def)
  show "runs_wf (s\<lparr>st_runs := dict_put i h' (st_runs s)\<rparr>)"
    using store_okD(2)[OF ok] by (simp add: runs_wf_def)
  show "lease_fields_agree x \<and> h_run_id x = j" if "dict_get (st_runs (s\<lparr>st_runs := dict_put i h' (st_runs s)\<rparr>)) j = Some x" for j x
    using that assms(4) same store_okD(3,4)[OF ok, of j x] store_okD(4)[OF ok i]
    by (auto simp: same_identity_def split: if_splits)
  show "\<exists>x. dict_get (st_runs (s\<lparr>st_runs := dict_put i h' (st_runs s)\<rparr>)) j = Some x \<and> sc_tenant (h_scope x) = t \<and>
            h_idempotency_key x = Some k"
    if "dict_get (st_keys (s\<lparr>st_runs := dict_put i h' (st_runs s)\<rparr>)) (t, k) = Some j" for t k j
    using store_okD(5)[OF ok, of t k j] that i same by (auto simp: same_identity_def)
qed

lemma store_ok_frame:
  "store_ok s \<Longrightarrow> st_logs s' = st_logs s \<Longrightarrow> st_runs s' = st_runs s \<Longrightarrow> st_keys s' = st_keys s \<Longrightarrow> store_ok s'"
  by (simp add: store_ok_def logs_wf_def log_of_run_def runs_wf_def keys_agree_def)

lemma store_ok_claim:
  assumes "store_ok s"
  shows "store_ok (snd (claim s w now d))"
proof (cases "fst (claim s w now d)")
  case None
  with claim_effect[OF store_okD(2)[OF assms], of w now d] assms show ?thesis by auto
next
  case (Some i)
  with claim_effect[OF store_okD(2)[OF assms], of w now d] obtain h where
    "snd (claim s w now d) = s\<lparr>st_runs := dict_put i (h\<lparr>h_state := Running, h_lease_holder := Some w,
       h_lease_expires_at := Some (now + d), h_attempt_count := h_attempt_count h + 1\<rparr>) (st_runs s)\<rparr>"
    and h: "dict_get (st_runs s) i = Some h"
    by (auto simp: get_run_def)
  then show ?thesis
    using store_ok_put[OF assms h] by (simp add: same_identity_def lease_fields_agree_def)
qed

lemma store_ok_renew:
  assumes "store_ok s"
  shows "store_ok (snd (renew s i w now d))"
proof (cases "dict_get (st_runs s) i")
  case (Some h)
  with store_okD(3)[OF assms Some] store_ok_put[OF assms Some] assms show ?thesis
    by (auto simp: renew_def same_identity_def lease_fields_agree_def)
qed (simp add: renew_def assms)

lemma store_ok_release:
  assumes "store_ok s" and "st \<noteq> Running"
  shows "store_ok (release s i w st)"
proof (cases "dict_get (st_runs s) i")
  case (Some h)
  with store_ok_put[OF assms(1) Some] assms show ?thesis
    by (auto simp: release_def same_identity_def lease_fields_agree_def)
qed (simp add: release_def assms)

lemma store_ok_inline:
  assumes "store_ok s"
  shows "store_ok (snd (settle_inline s i))"
proof (cases "dict_get (st_runs s) i")
  case (Some h)
  with store_okD(3)[OF assms Some] store_ok_put[OF assms Some] assms show ?thesis
    by (auto simp: settle_inline_def same_identity_def lease_fields_agree_def)
qed (simp add: settle_inline_def assms)

lemma store_ok_wake:
  assumes "store_ok s" and "set_runnable_at s i t = Inr s'"
  shows "store_ok s'"
proof (cases "dict_get (st_runs s) i")
  case (Some h)
  with store_okD(3)[OF assms(1) Some] store_ok_put[OF assms(1) Some] assms show ?thesis
    by (auto simp: set_runnable_at_def same_identity_def lease_fields_agree_def)
qed (use assms in \<open>simp add: set_runnable_at_def\<close>)

lemma store_ok_append: "store_ok s \<Longrightarrow> store_append s i q r = Inr s' \<Longrightarrow> store_ok s'"
  using store_append_runs[of s i q r s'] logs_wf_append[of s i q r s']
  by (simp add: store_ok_def runs_wf_def keys_agree_def)

lemma create_run_cases:
  assumes "create_run s h = (h', s')"
  obtains (key) k i where "h_idempotency_key h = Some k" and "dict_get (st_keys s) (sc_tenant (h_scope h), k) = Some i"
      and "h' = the (dict_get (st_runs s) i)" and "s' = s"
  | (duplicate) "dict_get (st_runs s) (h_run_id h) = Some h'" and "s' = s"
  | (new) "dict_get (st_runs s) (h_run_id h) = None" and "h' = h"
      and "Option.bind (h_idempotency_key h) (\<lambda>k. dict_get (st_keys s) (sc_tenant (h_scope h), k)) = None"
      and "st_runs s' = dict_put (h_run_id h) h (st_runs s)"
      and "\<And>j. log_of_run s' j = log_of_run s j"
      and "st_keys s' = (case h_idempotency_key h of None \<Rightarrow> st_keys s
             | Some k \<Rightarrow> dict_put (sc_tenant (h_scope h), k) (h_run_id h) (st_keys s))"
proof (cases "Option.bind (h_idempotency_key h) (\<lambda>k. dict_get (st_keys s) (sc_tenant (h_scope h), k))")
  case (Some i)
  then obtain k where k: "h_idempotency_key h = Some k" "dict_get (st_keys s) (sc_tenant (h_scope h), k) = Some i"
    by (auto simp: bind_eq_Some_conv)
  show thesis by (rule key[OF k]) (use assms k in \<open>auto simp: create_run_def\<close>)
next
  case None
  show thesis
  proof (cases "dict_get (st_runs s) (h_run_id h)")
    case (Some x)
    show thesis by (rule duplicate) (use assms None Some in \<open>simp_all add: create_run_def\<close>)
  next
    case none: None
    have "(h', s') = (h, s\<lparr>st_runs := dict_put (h_run_id h) h (st_runs s),
             st_logs := (if h_run_id h \<in> dict_keys (st_logs s) then st_logs s else dict_put (h_run_id h) [] (st_logs s)),
             st_keys := (case h_idempotency_key h of None \<Rightarrow> st_keys s
               | Some k \<Rightarrow> dict_put (sc_tenant (h_scope h), k) (h_run_id h) (st_keys s))\<rparr>)"
      by (simp only: assms[symmetric] create_run_def None none option.case)
    then have eq: "h' = h" "s' = s\<lparr>st_runs := dict_put (h_run_id h) h (st_runs s),
             st_logs := (if h_run_id h \<in> dict_keys (st_logs s) then st_logs s else dict_put (h_run_id h) [] (st_logs s)),
             st_keys := (case h_idempotency_key h of None \<Rightarrow> st_keys s
               | Some k \<Rightarrow> dict_put (sc_tenant (h_scope h), k) (h_run_id h) (st_keys s))\<rparr>"
      by (simp_all only: prod.inject)
    have "log_of_run s' j = log_of_run s j" for j
    proof (cases "h_run_id h \<in> dict_keys (st_logs s)")
      case True
      then show ?thesis unfolding eq(2) log_of_run_def by (simp only: if_True) simp
    next
      case False
      then have "dict_get (st_logs s) (h_run_id h) = None" by (simp only: dict_get_None_iff not_False_eq_True)
      with False show ?thesis unfolding eq(2) log_of_run_def by (simp only: if_False) simp
    qed
    then show thesis by (intro new) (use none None eq in simp_all)
  qed
qed

lemma store_ok_create:
  assumes "store_ok s" and "admissible h"
  shows "store_ok (snd (create_run s h))"
proof -
  obtain h' s' where c: "create_run s h = (h', s')" by fastforce
  then show ?thesis
  proof (cases rule: create_run_cases)
    case new
    have h: "lease_fields_agree h" using assms(2) by (auto simp: admissible_def lease_fields_agree_def)
    have "store_ok s'"
    proof (rule store_okI)
      show "logs_wf s'" using store_okD(1)[OF assms(1)] new by (simp add: logs_wf_def)
      show "runs_wf s'" using store_okD(2)[OF assms(1)] new by (simp add: runs_wf_def)
      show "lease_fields_agree x \<and> h_run_id x = i" if "dict_get (st_runs s') i = Some x" for i x
        using that new h store_okD(3,4)[OF assms(1), of i x] by (auto split: if_splits)
      show "\<exists>x. dict_get (st_runs s') i = Some x \<and> sc_tenant (h_scope x) = t \<and> h_idempotency_key x = Some k"
        if k: "dict_get (st_keys s') (t, k) = Some i" for t k i
      proof (cases "h_idempotency_key h = Some k \<and> t = sc_tenant (h_scope h)")
        case True
        with k new show ?thesis by simp
      next
        case False
        with k new have "dict_get (st_keys s) (t, k) = Some i" by (auto split: option.splits if_splits)
        from store_okD(5)[OF assms(1) this] new show ?thesis by auto
      qed
    qed
    with c show ?thesis by simp
  qed (use assms c in auto)
qed

lemma store_ok_step: "store_step s s' \<Longrightarrow> store_ok s \<Longrightarrow> store_ok s'"
proof (induction rule: store_step.induct)
  case (version s v)
  then show ?case by (auto simp: put_version_def intro: store_ok_frame)
qed (auto intro: store_ok_append store_ok_create store_ok_claim store_ok_renew store_ok_release store_ok_inline store_ok_wake)

lemma store_ok_steps: "store_steps s s' \<Longrightarrow> store_ok s \<Longrightarrow> store_ok s'"
  by (induction rule: store_steps.induct) (auto intro: store_ok_step)

lemma store_ok_empty: "store_ok empty_store"
  by (simp add: store_ok_def empty_store_def logs_wf_def log_of_run_def runs_wf_def keys_agree_def)

section \<open>What never changes\<close>

lemma step_keeps_entry: "store_step s s' \<Longrightarrow> store_entry s i q = Some r \<Longrightarrow> store_entry s' i q = Some r"
proof (induction rule: store_step.induct)
  case (append s j p x s')
  then have "\<not> (j = i \<and> p = q)" by (auto simp: store_append_def Let_def store_entry_def dest: dict_get_keyD split: if_splits)
  with append show ?case by (auto simp: store_entry_def log_of_run_append)
next
  case (admit h s)
  obtain h' s' where c: "create_run s h = (h', s')" by fastforce
  then have "log_of_run s' j = log_of_run s j" for j by (cases rule: create_run_cases) auto
  with admit c show ?case by (simp add: store_entry_def)
qed (auto simp: store_entry_def log_of_run_def put_version_def claim_def renew_def release_def settle_inline_def
                set_runnable_at_def split: option.splits if_splits)

definition settled_run :: "store \<Rightarrow> run_id \<Rightarrow> bool" where
  "settled_run s i \<longleftrightarrow> (\<exists>h. get_run s i = Some h \<and> h_state h = Settled)"

lemma put_keeps_settled:
  assumes "get_run s j = Some h" and "h_state h \<noteq> Settled \<or> h_state h' = Settled" and "settled_run s i"
  shows "settled_run (s\<lparr>st_runs := dict_put j h' (st_runs s)\<rparr>) i"
  using assms by (auto simp: settled_run_def get_run_def)

lemma step_keeps_settled: "store_step s s' \<Longrightarrow> store_ok s \<Longrightarrow> settled_run s i \<Longrightarrow> settled_run s' i"
proof (induction rule: store_step.induct)
  case (append s j q r s')
  then show ?case using store_append_runs[of s j q r s'] by (simp add: settled_run_def get_run_def)
next
  case (version s v)
  then show ?case by (auto simp: put_version_def settled_run_def get_run_def)
next
  case (admit h s)
  obtain h' s' where c: "create_run s h = (h', s')" by fastforce
  then show ?case
    by (cases rule: create_run_cases) (use admit c in \<open>auto simp: settled_run_def get_run_def\<close>)
next
  case (claim s w now d)
  from claim_effect[OF store_okD(2)[OF claim(1)], of w now d] claim(2) show ?case
    by (auto simp: settled_run_def get_run_def is_claimable_def)
next
  case (renew s j w now d)
  then show ?case
    by (auto simp: renew_def get_run_def split: option.splits intro: put_keeps_settled)
next
  case (release st s j w)
  show ?case
  proof (cases "dict_get (st_runs s) j")
    case (Some h)
    show ?thesis
    proof (cases "h_lease_holder h = Some w")
      case True
      then have "h_state h \<noteq> Settled"
        using store_okD(3)[OF release(2) Some] by (auto simp: lease_fields_agree_def)
      with Some True release(3) show ?thesis
        by (auto simp: release_def get_run_def intro: put_keeps_settled)
    qed (use Some release(3) in \<open>simp add: release_def\<close>)
  qed (use release(3) in \<open>simp add: release_def\<close>)
next
  case (inline s j)
  then show ?case
    by (auto simp: settle_inline_def get_run_def split: option.splits intro: put_keeps_settled)
next
  case (wake s j t s')
  then show ?case
    by (auto simp: set_runnable_at_def get_run_def split: option.splits intro!: put_keeps_settled)
qed

section \<open>Properties\<close>

text \<open>C19. The log is append-only: through any sequence of operations of the adapter a written record stays
  where it was written, as it was written, in a store whose logs are read in ascending sequence.\<close>

theorem log_is_append_only:
  assumes "store_steps s s'" and "store_entry s i q = Some r"
  shows "store_entry s' i q = Some r"
  using assms by (induction rule: store_steps.induct) (auto intro: step_keeps_entry)

definition s_header :: "run_id \<Rightarrow> run_state \<Rightarrow> string option \<Rightarrow> run_header" where
  "s_header i st k = \<lparr>h_run_id = i, h_scope = s_scope, h_version_hash = ''v'', h_state = st, h_created_at = 0,
     h_deadline_at = 100, h_lease_holder = None, h_lease_expires_at = None, h_idempotency_key = k, h_attempt_count = 0,
     h_runnable_at = None, h_parent_run_id = None, h_delegation_depth = 0, h_continues_run_id = None\<rparr>"

lemma log_is_append_only_witness:
  "\<exists>s s'. store_append empty_store ''run'' 1 (rec_at 1 b_admitted) = Inr s \<and>
          store_append s ''run'' 2 (rec_at 2 b_abort) = Inr s' \<and> store_entry s' ''run'' 1 = Some (rec_at 1 b_admitted)"
proof -
  obtain s where s: "store_append empty_store ''run'' 1 (rec_at 1 b_admitted) = Inr s"
    by (simp add: store_append_def empty_store_def log_of_run_def)
  then have l: "log_of_run s ''run'' = [(1, rec_at 1 b_admitted)]"
    by (simp add: log_of_run_append) (simp add: log_of_run_def empty_store_def)
  then obtain s' where s': "store_append s ''run'' 2 (rec_at 2 b_abort) = Inr s'"
    by (simp add: store_append_def)
  have "store_steps s s'" by (rule store_steps.step[OF store_steps.refl store_step.append[OF s']])
  moreover have "store_entry s ''run'' 1 = Some (rec_at 1 b_admitted)" by (simp add: store_entry_def l)
  ultimately have "store_entry s' ''run'' 1 = Some (rec_at 1 b_admitted)" by (rule log_is_append_only)
  with s s' show ?thesis by blast
qed

text \<open>C20. A settled Run stays settled: from a store the operations built, no operation takes a Run whose
  header says settled to any other state, so it is never claimed or woken again.\<close>

theorem settled_run_is_never_revived:
  assumes "store_steps empty_store s" and "store_steps s s'" and "settled_run s i"
  shows "settled_run s' i \<and> (\<forall>w now d. fst (claim s' w now d) \<noteq> Some i)"
proof -
  have ok: "store_ok s" using store_ok_steps[OF assms(1) store_ok_empty] .
  have "settled_run s' i \<and> store_ok s'"
    using assms(2) ok assms(3)
    by (induction rule: store_steps.induct) (auto intro: step_keeps_settled store_ok_step)
  moreover have "fst (claim s' w now d) \<noteq> Some i" if "store_ok s'" "settled_run s' i" for w now d
    using claim_effect[OF store_okD(2)[OF that(1)], of w now d] that(2)
    by (auto simp: settled_run_def is_claimable_def)
  ultimately show ?thesis by blast
qed

lemma settled_run_is_never_revived_witness:
  "fst (claim (snd (settle_inline (snd (create_run empty_store (s_header ''a'' Nested None))) ''a'')) ''w'' 10 30) \<noteq> Some ''a''"
proof -
  let ?s = "snd (settle_inline (snd (create_run empty_store (s_header ''a'' Nested None))) ''a'')"
  have "admissible (s_header ''a'' Nested None)" by (simp add: admissible_def s_header_def)
  then have "store_steps empty_store ?s"
    by (intro store_steps.step[OF store_steps.step[OF store_steps.refl store_step.admit] store_step.inline])
  moreover have "settled_run ?s ''a''"
    by (simp add: settled_run_def get_run_def settle_inline_def create_run_def empty_store_def s_header_def)
  ultimately show ?thesis
    using settled_run_is_never_revived[OF _ store_steps.refl] by blast
qed

text \<open>C9. A live lease is exclusive: while the lease of a running Run has not expired, whatever claims other
  workers make and whatever releases and renewals they attempt leave its header unchanged.\<close>

theorem live_lease_is_exclusive:
  assumes "store_ok s" and "get_run s i = Some h" and "list_all (foreign_action h) acts"
  shows "get_run (fold lease_act acts s) i = Some h"
  using mem_leases.lease_is_exclusive[OF store_okD(2)[OF assms(1)] assms(2,3)] .

lemma live_lease_is_exclusive_witness:
  "\<exists>h. get_run (fold lease_act [ClaimAny ''w2'' 20 30, ReleaseOf ''a'' ''w2'' Settled, RenewOf ''a'' ''w2'' 25 30]
           (snd (claim (snd (create_run empty_store (s_header ''a'' Runnable None))) ''w1'' 10 30))) ''a'' = Some h \<and>
        h_lease_holder h = Some ''w1''"
proof -
  let ?s = "snd (claim (snd (create_run empty_store (s_header ''a'' Runnable None))) ''w1'' 10 30)"
  let ?h = "(s_header ''a'' Runnable None)\<lparr>h_state := Running, h_lease_holder := Some ''w1'',
              h_lease_expires_at := Some 40, h_attempt_count := 1\<rparr>"
  have "admissible (s_header ''a'' Runnable None)" by (simp add: admissible_def s_header_def)
  then have ok: "store_ok ?s" by (intro store_ok_claim store_ok_create store_ok_empty)
  have g: "get_run ?s ''a'' = Some ?h"
    by (simp add: get_run_def claim_def create_run_def empty_store_def s_header_def is_claimable_def)
  have "list_all (foreign_action ?h) [ClaimAny ''w2'' 20 30, ReleaseOf ''a'' ''w2'' Settled, RenewOf ''a'' ''w2'' 25 30]"
    by (simp add: live_lease_def)
  from live_lease_is_exclusive[OF ok g this] show ?thesis by auto
qed

text \<open>Admission is idempotent per tenant: creating a Run under a key that admitted one returns that Run and
  changes nothing, the Run returned for a key always belongs to the tenant that asks, and creating the
  same Run again returns the same header.\<close>

theorem admission_is_idempotent_per_tenant:
  assumes "store_ok s" and "admissible h" and "create_run s h = (h1, s1)" and "h_idempotency_key h = Some k"
    and "dict_get (st_runs s) (h_run_id h) = None"
    and "h_scope h' = h_scope h" and "h_idempotency_key h' = Some k"
  shows "create_run s1 h' = (h1, s1) \<and> sc_tenant (h_scope h1) = sc_tenant (h_scope h) \<and> h_idempotency_key h1 = Some k"
proof -
  have ok: "store_ok s1" using store_ok_create[OF assms(1,2)] assms(3) by simp
  have "\<exists>i. dict_get (st_keys s1) (sc_tenant (h_scope h), k) = Some i \<and> dict_get (st_runs s1) i = Some h1"
    using assms(3)
  proof (cases rule: create_run_cases)
    case (key k' i)
    with assms(4) have i: "dict_get (st_keys s) (sc_tenant (h_scope h), k) = Some i" by simp
    from store_okD(5)[OF assms(1) i] key i show ?thesis by auto
  next
    case new
    with assms(4) show ?thesis by simp
  qed (use assms(5) in simp)
  then obtain i where i: "dict_get (st_keys s1) (sc_tenant (h_scope h), k) = Some i" "dict_get (st_runs s1) i = Some h1" by blast
  with store_okD(5)[OF ok i(1)] assms(6,7) show ?thesis by (auto simp: create_run_def)
qed

lemma admission_is_idempotent_per_tenant_witness:
  "create_run (snd (create_run empty_store (s_header ''a'' Runnable (Some ''k'')))) (s_header ''b'' Runnable (Some ''k''))
     = create_run empty_store (s_header ''a'' Runnable (Some ''k''))"
proof -
  obtain h1 s1 where c: "create_run empty_store (s_header ''a'' Runnable (Some ''k'')) = (h1, s1)" by fastforce
  have "create_run s1 (s_header ''b'' Runnable (Some ''k'')) = (h1, s1) \<and>
        sc_tenant (h_scope h1) = sc_tenant (h_scope (s_header ''a'' Runnable (Some ''k''))) \<and> h_idempotency_key h1 = Some ''k''"
    by (rule admission_is_idempotent_per_tenant[OF store_ok_empty _ c])
       (simp_all add: admissible_def s_header_def empty_store_def)
  with c show ?thesis by simp
qed

end
