(* ===== verification/Journal.thy ===== *)
theory Journal
  imports Store Incremental
begin

text \<open>
  The Journal (\<open>psych_runtime/runtime/journal.py\<close>): the one place an Attempt writes. A journal
  holds the fold of the log it has seen; appending folds the next record onto it first and writes
  it second, and a conflict is absorbed once when everything that landed was external.

  Between two awaits other writers may act. They are explicit: \<open>journal_append\<close> takes what they
  do to the store before the absorbing read and before the second write.

  Shown: a record the fold refuses is never written; the state a journal carries is the fold of
  the log in the store (\<open>synced\<close>), so a crash loses nothing; a conflict with a second Attempt
  stops this one without a write.
\<close>

record journal =
  j_run_id :: run_id
  j_scope :: scope
  j_state :: run_state_view
  j_attempt_id :: "attempt_id option"

datatype journal_error =
    Conflict run_id int
  | Refused fold_error
  | InvalidRecord

fun is_external :: "body \<Rightarrow> bool" where
  "is_external (AbortRequested _) = True"
| "is_external (QueueEnqueued _) = True"
| "is_external (QueueCancelled _) = True"
| "is_external (Resumed _) = True"
| "is_external (SubagentFinished _) = True"
| "is_external _ = False"

definition journal_open :: "store \<Rightarrow> run_id \<Rightarrow> scope \<Rightarrow> attempt_id option \<Rightarrow> journal_error + journal" where
  "journal_open s i sc att =
     (case reduce (Some i) None (store_read s i 0 None) of
        Inl e \<Rightarrow> Inl (Refused e)
      | Inr st \<Rightarrow> Inr \<lparr>j_run_id = i, j_scope = sc, j_state = st, j_attempt_id = att\<rparr>)"

definition journal_head :: "journal \<Rightarrow> int" where
  "journal_head j = v_head_seq (j_state j)"

definition next_record :: "journal \<Rightarrow> timestamp \<Rightarrow> body \<Rightarrow> log_record" where
  "next_record j now b =
     \<lparr>r_run_id = j_run_id j, r_seq = v_head_seq (j_state j) + 1, r_at = now, r_scope = j_scope j,
      r_attempt_id = j_attempt_id j, r_body = b\<rparr>"

definition append_once :: "journal \<Rightarrow> timestamp \<Rightarrow> body \<Rightarrow> store \<Rightarrow> (journal_error + log_record) \<times> journal \<times> store" where
  "append_once j now b s =
     (let r = next_record j now b in
      if \<not> valid_record r then (Inl InvalidRecord, j, s)
      else case reduce None (Some (j_state j)) [r] of
             Inl e \<Rightarrow> (Inl (Refused e), j, s)
           | Inr next_state \<Rightarrow>
               (case store_append s (j_run_id j) (r_seq r) r of
                  Inl _ \<Rightarrow> (Inl (Conflict (j_run_id j) (r_seq r)), j, s)
                | Inr s' \<Rightarrow> (Inr r, j\<lparr>j_state := next_state\<rparr>, s')))"

text \<open>The outcome is whether anything was folded.\<close>

definition absorb :: "journal \<Rightarrow> store \<Rightarrow> (journal_error + bool) \<times> journal" where
  "absorb j s =
     (let foreign = store_read s (j_run_id j) (v_head_seq (j_state j)) None in
      if foreign = [] then (Inr False, j)
      else case find (\<lambda>r. \<not> is_external (r_body r)) foreign of
             Some r \<Rightarrow> (Inl (Conflict (j_run_id j) (r_seq r)), j)
           | None \<Rightarrow>
               (case reduce None (Some (j_state j)) foreign of
                  Inl e \<Rightarrow> (Inl (Refused e), j)
                | Inr st \<Rightarrow> (Inr True, j\<lparr>j_state := st\<rparr>)))"

definition journal_append ::
    "(store \<Rightarrow> store) \<Rightarrow> (store \<Rightarrow> store) \<Rightarrow> journal \<Rightarrow> timestamp \<Rightarrow> timestamp \<Rightarrow> body \<Rightarrow> store \<Rightarrow>
       (journal_error + log_record) \<times> journal \<times> store" where
  "journal_append env1 env2 j now1 now2 b s =
     (case append_once j now1 b s of
        (Inl (Conflict i q), j1, s1) \<Rightarrow>
          (let s2 = env1 s1 in
           case absorb j1 s2 of
             (Inl e, j2) \<Rightarrow> (Inl e, j2, s2)
           | (Inr False, j2) \<Rightarrow> (Inl (Conflict i q), j2, s2)
           | (Inr True, j2) \<Rightarrow> append_once j2 now2 b (env2 s2))
      | outcome \<Rightarrow> outcome)"

definition refresh :: "journal \<Rightarrow> store \<Rightarrow> (journal_error + bool) \<times> journal" where
  "refresh j s = absorb j s"

text \<open>\<open>append_all\<close>, with no other writer in between; it stops at the first failure.\<close>

fun append_all :: "journal \<Rightarrow> timestamp \<Rightarrow> body list \<Rightarrow> store \<Rightarrow> (journal_error + log_record list) \<times> journal \<times> store" where
  "append_all j now [] s = (Inr [], j, s)"
| "append_all j now (b # bs) s =
     (case journal_append id id j now now b s of
        (Inl e, j1, s1) \<Rightarrow> (Inl e, j1, s1)
      | (Inr r, j1, s1) \<Rightarrow>
          (case append_all j1 now bs s1 of
             (Inl e, j2, s2) \<Rightarrow> (Inl e, j2, s2)
           | (Inr rs, j2, s2) \<Rightarrow> (Inr (r # rs), j2, s2)))"

section \<open>The state a journal carries\<close>

definition seen :: "journal \<Rightarrow> store \<Rightarrow> log_record list" where
  "seen j s = take (nat (journal_head j)) (store_read s (j_run_id j) 0 None)"

definition synced :: "journal \<Rightarrow> store \<Rightarrow> bool" where
  "synced j s \<longleftrightarrow> logs_wf s \<and> 0 \<le> journal_head j \<and>
     (\<exists>n. dom (store_entry s (j_run_id j)) = {1..int n} \<and> nat (journal_head j) \<le> n) \<and>
     reduce (Some (j_run_id j)) None (seen j s) = Inr (j_state j)"

lemma reduce_head:
  assumes "reduce rid None rs = Inr v"
  shows "v_head_seq v = int (length rs) \<and> rs \<noteq> []"
proof -
  from assms obtain cx where "rs \<noteq> []" and f: "fold_log fold_step (fresh_state rid (hd rs)) rs = Inr (v, cx)"
    by (auto simp: reduce_whole_Inr_iff)
  with fold_log_shape[OF f] show ?thesis by simp
qed

lemma read_all_split:
  assumes "logs_wf s" and "dom (store_entry s i) = {1..int n}" and "h \<le> n"
  shows "store_read s i 0 None = take h (store_read s i 0 None) @ store_read s i (int h) None"
    and "length (store_read s i 0 None) = n"
proof -
  have g: "mem_log.gapless s i n" by (simp add: mem_log.gapless_def assms(2))
  have all: "store_read s i 0 None = map (\<lambda>q. the (store_entry s i q)) [1..int n]"
    using mem_log.gapless_read[OF assms(1) g, of 0] by simp
  have rest: "store_read s i (int h) None = map (\<lambda>q. the (store_entry s i q)) [int h + 1..int n]"
    using mem_log.gapless_read[OF assms(1) g assms(3)] .
  have "[1..int n] = [1..int h] @ [int h + 1..int n]"
    using assms(3) upto_split2[of 1 "int h" "int n"] by (cases h) simp_all
  then show "store_read s i 0 None = take h (store_read s i 0 None) @ store_read s i (int h) None"
    unfolding all rest by simp
  show "length (store_read s i 0 None) = n" by (simp add: all)
qed

lemma syncedE:
  assumes "synced j s"
  obtains n h where "logs_wf s" and "dom (store_entry s (j_run_id j)) = {1..int n}" and "h \<le> n"
    and "journal_head j = int h" and "length (store_read s (j_run_id j) 0 None) = n" and "1 \<le> h"
    and "seen j s = take h (store_read s (j_run_id j) 0 None)"
    and "store_read s (j_run_id j) 0 None = seen j s @ store_read s (j_run_id j) (journal_head j) None"
    and "reduce (Some (j_run_id j)) None (seen j s) = Inr (j_state j)"
proof -
  from assms obtain n where n: "logs_wf s" "dom (store_entry s (j_run_id j)) = {1..int n}" "nat (journal_head j) \<le> n"
    "0 \<le> journal_head j" "reduce (Some (j_run_id j)) None (seen j s) = Inr (j_state j)"
    by (auto simp: synced_def)
  note r = read_all_split[OF n(1-3)]
  have pos: "1 \<le> nat (journal_head j)"
    using reduce_head[OF n(5)] by (auto simp: journal_head_def Suc_le_eq)
  have head: "journal_head j = int (nat (journal_head j))" using n(4) by simp
  have seen: "seen j s = take (nat (journal_head j)) (store_read s (j_run_id j) 0 None)" by (simp add: seen_def)
  have split: "store_read s (j_run_id j) 0 None = seen j s @ store_read s (j_run_id j) (journal_head j) None"
    unfolding seen using r(1) n(4) by simp
  show thesis by (rule that[OF n(1,2,3) head r(2) pos seen split n(5)])
qed

lemma append_once_Inl: "append_once j now b s = (Inl e, j', s') \<Longrightarrow> j' = j \<and> s' = s"
  by (auto simp: append_once_def Let_def split: if_splits sum.splits)

lemma append_once_Inr:
  assumes "append_once j now b s = (Inr r, j', s')"
  shows "r = next_record j now b" and "valid_record r" and "store_append s (j_run_id j) (r_seq r) r = Inr s'"
    and "reduce None (Some (j_state j)) [r] = Inr (j_state j')" and "j_run_id j' = j_run_id j"
  using assms by (auto simp: append_once_def Let_def split: if_splits sum.splits)

lemma append_once_synced:
  assumes "synced j s" and a: "append_once j now b s = (Inr r, j', s')" and reuse: "\<not> reuses (spent_in (seen j s)) r"
  shows "synced j' s' \<and> store_read s' (j_run_id j) 0 None = store_read s (j_run_id j) 0 None @ [r] \<and>
         seen j s = store_read s (j_run_id j) 0 None \<and> seen j' s' = store_read s' (j_run_id j) 0 None"
proof -
  let ?i = "j_run_id j"
  from assms(1) obtain n h where wf: "logs_wf s" and d: "dom (store_entry s ?i) = {1..int n}" and h: "h \<le> n" "journal_head j = int h"
    and len: "length (store_read s ?i 0 None) = n"
    and seen: "seen j s = take h (store_read s ?i 0 None)" and red: "reduce (Some ?i) None (seen j s) = Inr (j_state j)"
    by (elim syncedE)
  note r = append_once_Inr[OF a]
  have seq: "r_seq r = int h + 1" using r(1) h(2) by (simp add: next_record_def journal_head_def)
  have "store_append_opt s ?i (int h + 1) r = Some s'" using r(3) seq by (simp add: store_append_opt_def)
  moreover from this have "store_entry s ?i (int h + 1) = None"
    using mem_log.append_refused[of s ?i "int h + 1" r] by simp
  then have "int h + 1 \<notin> {1..int n}" unfolding d[symmetric] by (simp add: domIff)
  then have hn: "h = n" using h(1) by auto
  ultimately have s': "store_append_opt s ?i (int n + 1) r = Some s'" by simp
  have g: "mem_log.gapless s ?i n" by (simp add: mem_log.gapless_def d)
  from mem_log.gapless_append[OF wf g, of r] s' have
    wf': "logs_wf s'" and g': "mem_log.gapless s' ?i (Suc n)" and
    read: "store_read s' ?i 0 None = store_read s ?i 0 None @ [r]"
    by (auto dest: spec[of _ 0])
  have all: "seen j s = store_read s ?i 0 None" using seen len hn by simp
  have next_all: "reduce (Some ?i) None (store_read s' ?i 0 None) = Inr (j_state j')"
    using reduce_continues[OF red, of "[r]"] reuse r(4) all read by simp
  have head: "journal_head j' = int (Suc n)"
    using reduce_head[OF next_all] read len by (simp add: journal_head_def)
  have seen': "seen j' s' = store_read s' ?i 0 None"
    using head read len r(5) by (simp add: seen_def)
  have "synced j' s'"
    unfolding synced_def using wf' g' head next_all seen' r(5) by (auto simp: mem_log.gapless_def intro!: exI[of _ "Suc n"])
  with read all seen' show ?thesis by simp
qed

lemma absorb_synced:
  assumes "synced j s" and a: "absorb j s = (Inr x, j')" and reuse: "list_all (\<lambda>r. \<not> reuses (spent_in (seen j s)) r) (store_read s (j_run_id j) (journal_head j) None)"
  shows "synced j' s \<and> j_run_id j' = j_run_id j \<and> seen j' s = store_read s (j_run_id j) 0 None"
proof -
  let ?i = "j_run_id j" and ?new = "store_read s (j_run_id j) (journal_head j) None"
  from assms(1) obtain n h where wf: "logs_wf s" and d: "dom (store_entry s ?i) = {1..int n}" and h: "h \<le> n" "journal_head j = int h"
    and len: "length (store_read s ?i 0 None) = n" and split: "store_read s ?i 0 None = seen j s @ ?new"
    and seen: "seen j s = take h (store_read s ?i 0 None)" and red: "reduce (Some ?i) None (seen j s) = Inr (j_state j)"
    by (elim syncedE)
  show ?thesis
  proof (cases "?new = []")
    case True
    with a have "j' = j" by (simp add: absorb_def journal_head_def)
    with True assms(1) split show ?thesis by simp
  next
    case False
    with a have st: "reduce None (Some (j_state j)) ?new = Inr (j_state j')" and i: "j_run_id j' = ?i"
      by (auto simp: absorb_def Let_def journal_head_def split: option.splits sum.splits)
    have all: "reduce (Some ?i) None (store_read s ?i 0 None) = Inr (j_state j')"
      using reduce_continues[OF red reuse] st split by simp
    have head: "journal_head j' = int n" using reduce_head[OF all] len by (simp add: journal_head_def)
    then have seen': "seen j' s = store_read s ?i 0 None" using len i by (simp add: seen_def)
    have "synced j' s" unfolding synced_def using wf d head all seen' i by auto
    with i seen' show ?thesis by simp
  qed
qed

section \<open>Other writers\<close>

text \<open>What other writers can do to a log: keep what is written and leave no gap.\<close>

definition extends :: "run_id \<Rightarrow> store \<Rightarrow> store \<Rightarrow> bool" where
  "extends i s s' \<longleftrightarrow> logs_wf s' \<and> (\<exists>n. dom (store_entry s' i) = {1..int n}) \<and>
     (\<forall>q r. store_entry s i q = Some r \<longrightarrow> store_entry s' i q = Some r)"

lemma extends_refl: "synced j s \<Longrightarrow> extends (j_run_id j) s s"
  by (auto simp: extends_def synced_def)

lemma extends_read:
  assumes wf: "logs_wf s" and d: "dom (store_entry s i) = {1..int n}" and x: "extends i s s'"
  shows "\<exists>ys. store_read s' i 0 None = store_read s i 0 None @ ys"
proof -
  from x obtain m where wf': "logs_wf s'" and d': "dom (store_entry s' i) = {1..int m}"
    and keep: "\<forall>q r. store_entry s i q = Some r \<longrightarrow> store_entry s' i q = Some r"
    by (auto simp: extends_def)
  from keep have sub: "dom (store_entry s i) \<subseteq> dom (store_entry s' i)" by auto
  have nm: "n \<le> m"
  proof (cases n)
    case (Suc k)
    have "int n \<in> dom (store_entry s i)" unfolding d by (simp add: Suc)
    with sub have "int n \<in> dom (store_entry s' i)" by blast
    then show ?thesis unfolding d' by simp
  qed simp
  have same: "the (store_entry s' i q) = the (store_entry s i q)" if "q \<in> {1..int n}" for q
  proof -
    from that have "q \<in> dom (store_entry s i)" unfolding d .
    then obtain r where "store_entry s i q = Some r" by blast
    with keep show ?thesis by simp
  qed
  have g: "mem_log.gapless s i n" and g': "mem_log.gapless s' i m" by (simp_all add: mem_log.gapless_def d d')
  have "store_read s i 0 None = map (\<lambda>q. the (store_entry s i q)) [1..int n]"
    using mem_log.gapless_read[OF wf g, of 0] by simp
  also have "\<dots> = map (\<lambda>q. the (store_entry s' i q)) [1..int n]" using same by simp
  also have "\<dots> = take n (store_read s' i 0 None)"
  proof -
    have "[1..int m] = [1..int n] @ [int n + 1..int m]"
      using nm upto_split2[of 1 "int n" "int m"] by (cases n) simp_all
    then show ?thesis using mem_log.gapless_read[OF wf' g', of 0] by simp
  qed
  finally show ?thesis by (metis append_take_drop_id)
qed

lemma extends_synced:
  assumes "synced j s" and x: "extends (j_run_id j) s s'"
  shows "synced j s' \<and> seen j s' = seen j s \<and> (\<exists>ys. store_read s' (j_run_id j) 0 None = store_read s (j_run_id j) 0 None @ ys)"
proof -
  from assms(1) obtain n h where n: "logs_wf s" "dom (store_entry s (j_run_id j)) = {1..int n}" "h \<le> n" "journal_head j = int h"
    "length (store_read s (j_run_id j) 0 None) = n" "reduce (Some (j_run_id j)) None (seen j s) = Inr (j_state j)"
    by (elim syncedE)
  obtain ys where ys: "store_read s' (j_run_id j) 0 None = store_read s (j_run_id j) 0 None @ ys"
    using extends_read[OF n(1,2) x] by blast
  from x obtain m where m: "logs_wf s'" "dom (store_entry s' (j_run_id j)) = {1..int m}" by (auto simp: extends_def)
  have "length (store_read s' (j_run_id j) 0 None) = m" using read_all_split(2)[OF m, of 0] by simp
  then have "n \<le> m" using ys n(5) by simp
  moreover have "seen j s' = seen j s" using ys n(3-5) by (simp add: seen_def)
  ultimately show ?thesis
    using m n ys by (auto simp: synced_def intro!: exI[of _ m])
qed

text \<open>Queue entry ids are freshly drawn: none is used twice, and a record about to be written uses a new one.\<close>

definition fresh_entry_ids :: "log_record list \<Rightarrow> body \<Rightarrow> bool" where
  "fresh_entry_ids rs b \<longleftrightarrow> distinct (map pe_entry_id (entries rs)) \<and>
     (case b of QueueEnqueued q \<Rightarrow> qe_entry_id q \<notin> pe_entry_id ` set (entries rs) | _ \<Rightarrow> True)"

lemma entries_append [simp]: "entries (xs @ ys) = entries xs @ entries ys"
  by (simp add: entries_def map_filter_def)

lemma fresh_entry_ids_prefix: "fresh_entry_ids (xs @ ys) b \<Longrightarrow> fresh_entry_ids xs b"
  by (auto simp: fresh_entry_ids_def split: body.splits)

lemma spent_ids_were_entered:
  assumes "reduce rid None xs = Inr v"
  shows "spent_in xs \<subseteq> pe_entry_id ` set (entries xs)"
proof -
  obtain cx where "queues_match xs (v, cx)"
    using reduce_history[OF queues.fold_history_axioms queues_match_fresh assms] by auto
  from queues_matchD(3)[OF this] show ?thesis by (simp add: spent_in_def)
qed

lemma fresh_ids_not_reused:
  assumes "reduce rid None xs = Inr v" and "distinct (map pe_entry_id (entries (xs @ ys)))"
  shows "list_all (\<lambda>r. \<not> reuses (spent_in xs) r) ys"
proof -
  have "qe_entry_id b \<notin> spent_in xs" if "r \<in> set ys" "r_body r = QueueEnqueued b" for r b
  proof -
    have "qe_entry_id b \<in> pe_entry_id ` set (entries ys)"
      using that by (force simp: entries_def set_map_filter_iff)
    with assms(2) spent_ids_were_entered[OF assms(1)] show ?thesis by auto
  qed
  then show ?thesis by (auto simp: list_all_iff reuses_def split: body.splits)
qed

lemma fresh_record_not_reused:
  assumes "reduce rid None xs = Inr v" and "fresh_entry_ids xs (r_body r)"
  shows "\<not> reuses (spent_in xs) r"
  using assms(2) spent_ids_were_entered[OF assms(1)]
  by (auto simp: fresh_entry_ids_def reuses_def split: body.splits)

lemma append_once_fresh:
  assumes "synced j s" and a: "append_once j now b s = (Inr r, j', s')"
    and fresh: "fresh_entry_ids (store_read s (j_run_id j) 0 None) b"
  shows "synced j' s' \<and> store_read s' (j_run_id j) 0 None = store_read s (j_run_id j) 0 None @ [r] \<and>
         seen j s = store_read s (j_run_id j) 0 None \<and> seen j' s' = store_read s' (j_run_id j) 0 None"
proof (rule append_once_synced[OF assms(1) a])
  from assms(1) obtain n h where red: "reduce (Some (j_run_id j)) None (seen j s) = Inr (j_state j)"
    and split: "store_read s (j_run_id j) 0 None = seen j s @ store_read s (j_run_id j) (journal_head j) None"
    by (elim syncedE)
  have "r_body r = b" using append_once_Inr(1)[OF a] by (simp add: next_record_def)
  moreover have "fresh_entry_ids (seen j s) b" using fresh split fresh_entry_ids_prefix by metis
  ultimately show "\<not> reuses (spent_in (seen j s)) r" using fresh_record_not_reused[OF red] by simp
qed

lemma absorb_fresh:
  assumes "synced j s" and a: "absorb j s = (Inr x, j')"
    and fresh: "distinct (map pe_entry_id (entries (store_read s (j_run_id j) 0 None)))"
  shows "synced j' s \<and> j_run_id j' = j_run_id j \<and> seen j' s = store_read s (j_run_id j) 0 None"
proof (rule absorb_synced[OF assms(1) a])
  from assms(1) obtain n h where red: "reduce (Some (j_run_id j)) None (seen j s) = Inr (j_state j)"
    and split: "store_read s (j_run_id j) 0 None = seen j s @ store_read s (j_run_id j) (journal_head j) None"
    by (elim syncedE)
  show "list_all (\<lambda>r. \<not> reuses (spent_in (seen j s)) r) (store_read s (j_run_id j) (journal_head j) None)"
    by (rule fresh_ids_not_reused[OF red]) (use fresh split in simp)
qed

lemma absorb_external:
  "absorb j s = (Inr x, j') \<Longrightarrow> list_all (\<lambda>r. is_external (r_body r)) (store_read s (j_run_id j) (journal_head j) None)"
  by (auto simp: absorb_def Let_def journal_head_def list_all_iff find_None_iff split: if_splits option.splits sum.splits)

lemma journal_append_cases:
  assumes "journal_append env1 env2 j now1 now2 b s = (res, j', s')"
  obtains (first) "append_once j now1 b s = (res, j', s')"
  | (foreign_writer) i q e where "append_once j now1 b s = (Inl (Conflict i q), j, s)" and "res = Inl e"
      and "s' = env1 s"
  | (absorbed) i q j2 where "append_once j now1 b s = (Inl (Conflict i q), j, s)"
      and "absorb j (env1 s) = (Inr True, j2)" and "append_once j2 now2 b (env2 (env1 s)) = (res, j', s')"
proof -
  obtain r1 j1 s1 where o: "append_once j now1 b s = (r1, j1, s1)" by (metis prod_cases3)
  obtain ab j2 where ab: "absorb j (env1 s) = (ab, j2)" by (metis surj_pair)
  show thesis
  proof (cases "\<exists>i q. r1 = Inl (Conflict i q)")
    case True
    then obtain i q where r1: "r1 = Inl (Conflict i q)" by blast
    with o append_once_Inl[of j now1 b s] have same: "j1 = j" "s1 = s" by auto
    note o = o[unfolded r1 same]
    show thesis
    proof (cases ab)
      case (Inl e)
      with assms o ab have "res = Inl e" "s' = env1 s" by (auto simp: journal_append_def Let_def)
      with o foreign_writer show thesis by blast
    next
      case (Inr x)
      show thesis
      proof (cases x)
        case True
        with Inr assms o ab have "append_once j2 now2 b (env2 (env1 s)) = (res, j', s')"
          by (simp add: journal_append_def Let_def)
        with True Inr o ab absorbed[of i q j2] show thesis by simp
      next
        case False
        with Inr assms o ab have "res = Inl (Conflict i q)" "s' = env1 s" by (auto simp: journal_append_def Let_def)
        with o foreign_writer show thesis by blast
      qed
    qed
  next
    case False
    with assms o have "r1 = res \<and> j1 = j' \<and> s1 = s'"
      by (auto simp: journal_append_def split: sum.splits journal_error.splits)
    with o first show thesis by simp
  qed
qed

lemma journal_head_seen:
  assumes "synced j s"
  shows "store_read s (j_run_id j) 0 None = seen j s @ store_read s (j_run_id j) (journal_head j) None"
    and "length (seen j s) = nat (journal_head j)"
proof -
  from assms obtain n h where h: "h \<le> n" "journal_head j = int h" "length (store_read s (j_run_id j) 0 None) = n"
    and sn: "seen j s = take h (store_read s (j_run_id j) 0 None)"
    and split: "store_read s (j_run_id j) 0 None = seen j s @ store_read s (j_run_id j) (journal_head j) None"
    by (elim syncedE)
  show "store_read s (j_run_id j) 0 None = seen j s @ store_read s (j_run_id j) (journal_head j) None" by (rule split)
  show "length (seen j s) = nat (journal_head j)" using h sn by simp
qed

lemma append_once_at_head:
  assumes "synced j s" and a: "append_once j now b s = (Inr r, j', s')"
  shows "store_read s (j_run_id j) (journal_head j) None = []"
proof -
  let ?i = "j_run_id j"
  from assms(1) obtain n h where d: "dom (store_entry s ?i) = {1..int n}" and h: "h \<le> n" "journal_head j = int h"
    and len: "length (store_read s ?i 0 None) = n"
    by (elim syncedE)
  note r = append_once_Inr[OF a]
  have "store_append_opt s ?i (int h + 1) r = Some s'"
    using r(1,3) h(2) by (simp add: store_append_opt_def next_record_def journal_head_def)
  then have "store_entry s ?i (int h + 1) = None"
    using mem_log.append_refused[of s ?i "int h + 1" r] by simp
  then have "int h + 1 \<notin> {1..int n}" unfolding d[symmetric] by (simp add: domIff)
  then have "h = n" using h(1) by auto
  with arg_cong[OF journal_head_seen(1)[OF assms(1)], of length] journal_head_seen(2)[OF assms(1)] len h(2)
  show ?thesis by simp
qed

lemma journal_open_synced:
  assumes "journal_open s i sc att = Inr j" and "logs_wf s" and "dom (store_entry s i) = {1..int n}"
  shows "synced j s \<and> j_run_id j = i \<and> seen j s = store_read s i 0 None"
proof -
  from assms(1) have red: "reduce (Some i) None (store_read s i 0 None) = Inr (j_state j)" and i: "j_run_id j = i"
    by (auto simp: journal_open_def split: sum.splits)
  have len: "length (store_read s i 0 None) = n" using read_all_split(2)[OF assms(2,3), of 0] by simp
  then have "journal_head j = int n" using reduce_head[OF red] by (simp add: journal_head_def)
  with len i have "seen j s = store_read s i 0 None" and "nat (journal_head j) \<le> n" and "0 \<le> journal_head j"
    by (simp_all add: seen_def)
  with assms(2,3) red i show ?thesis by (auto simp: synced_def)
qed

section \<open>Stores holding one log\<close>

definition s_store :: "body list \<Rightarrow> store" where
  "s_store bs = empty_store\<lparr>st_logs := [(''run'', map (\<lambda>r. (r_seq r, r)) (log_of bs))]\<rparr>"

lemma number_entry:
  "map_of (map (\<lambda>r. (r_seq r, r)) (number n bs)) q =
     (if n \<le> q \<and> q < n + int (length bs) then Some (rec_at q (bs ! nat (q - n))) else None)"
proof (induction bs arbitrary: n)
  case (Cons b bs)
  have "nat (q - n) = Suc (nat (q - (n + 1)))" if "n < q" using that by simp
  with Cons[of "n + 1"] show ?case by (auto simp: rec_at_def)
qed simp

lemma number_distinct: "distinct (map r_seq (number n bs)) \<and> (\<forall>x\<in>set (map r_seq (number n bs)). n \<le> x)"
  by (induction bs arbitrary: n) (fastforce simp: rec_at_def)+

lemma s_store_entry:
  "store_entry (s_store bs) ''run'' q = (if 1 \<le> q \<and> q \<le> int (length bs) then Some (rec_at q (bs ! nat (q - 1))) else None)"
  by (simp add: store_entry_def s_store_def log_of_run_def log_of_def number_entry)

lemma s_store_wf: "logs_wf (s_store bs)"
  using number_distinct[of 1 bs]
  by (simp add: logs_wf_def s_store_def log_of_run_def log_of_def dict_wf_def empty_store_def comp_def)

lemma s_store_dom: "dom (store_entry (s_store bs) ''run'') = {1..int (length bs)}"
  by (auto simp: dom_def s_store_entry split: if_splits)

lemma s_store_extends: "extends ''run'' (s_store bs) (s_store (bs @ cs))"
proof -
  have "store_entry (s_store (bs @ cs)) ''run'' q = Some r" if "store_entry (s_store bs) ''run'' q = Some r" for q r
    using that by (auto simp: s_store_entry nth_append split: if_splits)
  with s_store_wf s_store_dom show ?thesis unfolding extends_def by blast
qed

section \<open>Properties\<close>



text \<open>An append that fails writes nothing: the log the fold refused, and the log another writer holds, are left
  as the others left them; so no contradiction is ever persisted.\<close>

theorem failed_append_writes_nothing:
  assumes "journal_append env1 env2 j now1 now2 b s = (Inl e, j', s')"
  shows "s' = s \<or> s' = env1 s \<or> s' = env2 (env1 s)"
  using assms by (cases rule: journal_append_cases) (auto dest: append_once_Inl)

lemma failed_append_writes_nothing_witness:
  "\<exists>j e j' s'. journal_open (s_store [b_admitted]) ''run'' s_scope None = Inr j \<and>
     journal_append id id j 5 6 (b_result ''c'' OutcomeError) (s_store [b_admitted]) = (Inl e, j', s') \<and> s' = s_store [b_admitted]"
proof -
  have "case journal_open (s_store [b_admitted]) ''run'' s_scope None of Inl _ \<Rightarrow> False
        | Inr j \<Rightarrow> (case fst (journal_append id id j 5 6 (b_result ''c'' OutcomeError) (s_store [b_admitted])) of Inl _ \<Rightarrow> True | Inr _ \<Rightarrow> False)"
    by code_simp
  then obtain j e j' s' where j: "journal_open (s_store [b_admitted]) ''run'' s_scope None = Inr j"
    and a: "journal_append id id j 5 6 (b_result ''c'' OutcomeError) (s_store [b_admitted]) = (Inl e, j', s')"
    by (auto split: sum.splits) (metis prod.collapse)
  from failed_append_writes_nothing[OF a] j a show ?thesis by auto
qed

text \<open>C10. A second Attempt stops this one: once a record that only an Attempt writes stands past the Journal's head,
  every append fails and writes nothing.\<close>

theorem second_attempt_stops_the_first:
  assumes "synced j s" and "extends (j_run_id j) s (env1 s)"
    and "x \<in> set (store_read s (j_run_id j) (journal_head j) None)" and "\<not> is_external (r_body x)"
  shows "\<exists>e j' s'. journal_append env1 env2 j now1 now2 b s = (Inl e, j', s') \<and> (s' = s \<or> s' = env1 s)"
proof -
  let ?i = "j_run_id j"
  obtain res j' s' where o: "journal_append env1 env2 j now1 now2 b s = (res, j', s')" by (metis prod_cases3)
  obtain ys where ys: "store_read (env1 s) ?i 0 None = store_read s ?i 0 None @ ys" and sn: "seen j (env1 s) = seen j s"
    and sy: "synced j (env1 s)"
    using extends_synced[OF assms(1,2)] by blast
  have x: "x \<in> set (store_read (env1 s) ?i (journal_head j) None)"
    using ys assms(3) sn journal_head_seen(1)[OF assms(1)] journal_head_seen(1)[OF sy] by simp
  from o show ?thesis
  proof (cases rule: journal_append_cases)
    case first
    show ?thesis
    proof (cases res)
      case (Inl e)
      with first o append_once_Inl show ?thesis by blast
    next
      case (Inr r)
      with append_once_at_head[OF assms(1)] first assms(3) show ?thesis by (metis empty_iff empty_set)
    qed
  next
    case foreign_writer
    with o show ?thesis by blast
  next
    case (absorbed i q j2)
    from absorb_external[OF absorbed(2)] x assms(4) show ?thesis by (auto simp: list_all_iff)
  qed
qed

lemma second_attempt_stops_the_first_witness:
  "\<exists>j e j' s'. journal_open (s_store [b_admitted, b_attempt 1]) ''run'' s_scope None = Inr j \<and>
     journal_append id id j 5 6 b_abort (s_store [b_admitted, b_attempt 1, b_turn 1]) = (Inl e, j', s') \<and>
     s' = s_store [b_admitted, b_attempt 1, b_turn 1]"
proof -
  let ?bs = "[b_admitted, b_attempt 1]" and ?s = "s_store [b_admitted, b_attempt 1, b_turn 1]"
  have "case journal_open (s_store ?bs) ''run'' s_scope None of Inl _ \<Rightarrow> False | Inr j \<Rightarrow> journal_head j = 2"
    by code_simp
  then obtain j where j: "journal_open (s_store ?bs) ''run'' s_scope None = Inr j" and h: "journal_head j = 2"
    by (auto split: sum.splits)
  note o = journal_open_synced[OF j s_store_wf s_store_dom]
  have sy: "synced j ?s" using extends_synced[of j "s_store ?bs" ?s] s_store_extends[of ?bs "[b_turn 1]"] o by simp
  have "store_read ?s ''run'' 2 None = [rec_at 3 (b_turn 1)]" by code_simp
  then have "rec_at 3 (b_turn 1) \<in> set (store_read ?s (j_run_id j) (journal_head j) None)" using o h by simp
  moreover have "\<not> is_external (r_body (rec_at 3 (b_turn 1)))" by (simp add: rec_at_def b_turn_def)
  ultimately have "\<exists>e j' s'. journal_append id id j 5 6 b_abort ?s = (Inl e, j', s') \<and> (s' = ?s \<or> s' = id ?s)"
    by (intro second_attempt_stops_the_first sy) (use extends_refl[OF sy] in simp_all)
  with j show ?thesis by auto
qed

end
