(* ===== verification/Guidance.thy ===== *)
theory Guidance
  imports PyText
begin

text \<open>
  The wording of failures (\<open>psych_runtime/tools/guidance.py\<close>): the closed set of failure kinds the
  runtime chooses, the text each kind adds to the message it is given, the generic text for every
  other kind, and the same for sandboxed programs. A write site builds \<open>ToolFailure.message\<close> from
  these. Shown: for any input at all the guidance begins with the message it was given and adds
  advice to it, with the exceptions the module names.
\<close>

section \<open>Paragraphs\<close>

definition nl :: string where
  "nl = [CHR 0x0A]"

definition para :: "string \<Rightarrow> string \<Rightarrow> string" where
  "para a b = a @ nl @ nl @ b"

section \<open>Kinds\<close>

datatype failure_kind =
    FkMalformedArguments
  | FkInvalidArguments
  | FkUnknownTool
  | FkDenied
  | FkAccessDenied
  | FkRepeatedCall
  | FkFailureStreak
  | FkBudgetExhausted
  | FkDuplicateCallId
  | FkNotExecuted
  | FkApprovalRequiredInProgram
  | FkBindingHandleNotYours
  | FkSuspensionExpired
  | FkOrphaned
  | FkAttemptsExhausted
  | FkAttemptFailed
  | FkToolResolution
  | FkForceSettled
  | FkDeadline
  | FkBlobStoreRequired
  | FkCompactionFailed
  | FkMcpServerUnreachable
  | FkTimeout

definition failure_kinds :: "(string \<times> failure_kind) list" where
  "failure_kinds =
    [(''malformed_arguments'', FkMalformedArguments),
     (''invalid_arguments'', FkInvalidArguments),
     (''unknown_tool'', FkUnknownTool),
     (''denied'', FkDenied),
     (''access_denied'', FkAccessDenied),
     (''repeated_call'', FkRepeatedCall),
     (''failure_streak'', FkFailureStreak),
     (''budget_exhausted'', FkBudgetExhausted),
     (''duplicate_call_id'', FkDuplicateCallId),
     (''not_executed'', FkNotExecuted),
     (''approval_required_in_program'', FkApprovalRequiredInProgram),
     (''binding_handle_not_yours'', FkBindingHandleNotYours),
     (''suspension_expired'', FkSuspensionExpired),
     (''orphaned'', FkOrphaned),
     (''attempts_exhausted'', FkAttemptsExhausted),
     (''attempt_failed'', FkAttemptFailed),
     (''tool_resolution'', FkToolResolution),
     (''force_settled'', FkForceSettled),
     (''deadline'', FkDeadline),
     (''blob_store_required'', FkBlobStoreRequired),
     (''compaction_failed'', FkCompactionFailed),
     (''McpServerUnreachable'', FkMcpServerUnreachable),
     (''TimeoutError'', FkTimeout)]"

definition failure_kind_of :: "string \<Rightarrow> failure_kind option" where
  "failure_kind_of s = map_of failure_kinds s"

section \<open>Tool and Run failures\<close>

fun known_failure_text :: "failure_kind \<Rightarrow> string \<Rightarrow> string" where
  "known_failure_text FkMalformedArguments m = m"
| "known_failure_text FkRepeatedCall m = m"
| "known_failure_text FkInvalidArguments m = para m (
     ''Fix the fields named above and call the tool again with corrected '' @
     ''arguments. If you cannot tell what is wrong, ask the user rather than '' @
     ''guessing at the schema.'')"
| "known_failure_text FkUnknownTool m = para m (
     ''Do not call that name again; it does not exist for this run. Use one '' @
     ''of the tools listed above, or tell the user if none of them do what '' @
     ''they are asking for.'')"
| "known_failure_text FkDenied m =
     ''A human declined this call. Do not try it again. Tell the user it was '' @
     ''not approved and ask how they would like to proceed.''"
| "known_failure_text FkAccessDenied m = para m (
     ''This is a permissions decision, not a mistake in how the call was '' @
     ''made. Calling it again unchanged will be refused again. Tell the user '' @
     ''what you were not able to do and ask how they would like to proceed.'')"
| "known_failure_text FkFailureStreak m = para m (
     ''The run has already ended because of this; there is nothing left to '' @
     ''retry within it.'')"
| "known_failure_text FkBudgetExhausted m = para m (
     ''The run has already ended because of this; there is nothing left to '' @
     ''retry within it.'')"
| "known_failure_text FkAttemptsExhausted m = para m (
     ''The run has already ended because of this; there is nothing left to '' @
     ''retry within it.'')"
| "known_failure_text FkAttemptFailed m = para m (
     ''The run has already ended because of this; there is nothing left to '' @
     ''retry within it.'')"
| "known_failure_text FkToolResolution m = para m (
     ''The run ended before any model call was made, so nothing was attempted '' @
     ''on the user's behalf. Retrying is reasonable once the server is '' @
     ''reachable or the connection is marked optional; nothing here needs to '' @
     ''be checked for a partial side effect.'')"
| "known_failure_text FkDuplicateCallId m = para m (
     ''Nothing about this call ran, so retrying is safe. Ask for it again as '' @
     ''a new tool call with an id you have not used in this conversation.'')"
| "known_failure_text FkNotExecuted m = para m (
     ''Nothing about this call ran, so retrying is safe. Ask for it again if '' @
     ''it is still what you want to do, or tell the user what stopped.'')"
| "known_failure_text FkApprovalRequiredInProgram m = para m (
     ''Do not try to call it from a program again; it will be refused the '' @
     ''same way. Call the tool directly, as its own tool call, so the '' @
     ''approval can be asked for.'')"
| "known_failure_text FkBindingHandleNotYours m = para m (
     ''A program may page back only the results its own calls produced, so do '' @
     ''not try the same handle from another program -- it will be refused the '' @
     ''same way. Call `read_tool_output` directly, as its own tool call, with '' @
     ''a handle you were given.'')"
| "known_failure_text FkSuspensionExpired m = para m (
     ''Nothing that was waiting on the decision ran, so retrying is safe. '' @
     ''Tell the user the request timed out and ask whether to start again.'')"
| "known_failure_text FkOrphaned m = para m (
     ''Whatever was in flight when this happened may or may not have taken '' @
     ''effect. Do not assume either way; check before retrying anything with '' @
     ''a side effect.'')"
| "known_failure_text FkForceSettled m = para m (
     ''Whatever was in flight when this happened may or may not have taken '' @
     ''effect. Do not assume either way; check before retrying anything with '' @
     ''a side effect.'')"
| "known_failure_text FkDeadline m = para m (
     ''Nothing here needs to be checked for a partial side effect the way a '' @
     ''force-settlement would; it stopped cleanly. Retrying is reasonable if '' @
     ''the work still needs doing.'')"
| "known_failure_text FkBlobStoreRequired m = para m (
     ''Retrying the same call will fail the same way until this Run's '' @
     ''environment is configured to hold results this large. Tell the user '' @
     ''the result was too large to return here rather than retrying.'')"
| "known_failure_text FkCompactionFailed m = para m (
     ''Nothing was compacted, so the conversation is exactly as it was and no '' @
     ''work was lost. The run has already ended: the next model call would '' @
     ''have carried a conversation too long to send. Tell the user the '' @
     ''conversation outgrew the model's context window, and continue in a new '' @
     ''one.'')"
| "known_failure_text FkMcpServerUnreachable m = para m (
     ''This may be a temporary outage or network problem. Retrying once is '' @
     ''reasonable; if it fails again, stop and tell the user this integration '' @
     ''is currently unavailable rather than retrying repeatedly.'')"
| "known_failure_text FkTimeout m = para m (
     ''The call may or may not have completed before it timed out. If it has '' @
     ''a side effect, check whether it took effect before retrying; if it is '' @
     ''a pure read, retrying is safe.'')"

definition generic_guidance :: "string \<Rightarrow> bool \<Rightarrow> string" where
  "generic_guidance message transient = para message
     (if transient then
     ''This looks like a transient problem: a timeout, a dropped connection, '' @
     ''or a temporary error upstream. Retrying the same call once or twice is '' @
     ''reasonable, but if it keeps failing, stop and tell the user rather '' @
     ''than retrying indefinitely.''
      else
     ''This is unlikely to succeed by retrying the same call unchanged. '' @
     ''Change your approach based on what the message above says, use a '' @
     ''different tool, or tell the user what is wrong and ask how they would '' @
     ''like to proceed.'')"

text \<open>An absent and an empty traceback are the same here.\<close>

definition with_traceback :: "string \<Rightarrow> string option \<Rightarrow> string" where
  "with_traceback text tb = (case tb of None \<Rightarrow> text | Some t \<Rightarrow> if t = [] then text else para text t)"

definition failure_guidance :: "string \<Rightarrow> string \<Rightarrow> bool \<Rightarrow> string option \<Rightarrow> string" where
  "failure_guidance kind message transient tb =
     (case failure_kind_of kind of
        None \<Rightarrow> with_traceback (generic_guidance message transient) tb
      | Some k \<Rightarrow> with_traceback (known_failure_text k message) tb)"

section \<open>Sandboxed programs\<close>

datatype sandbox_failure_kind =
    SkException
  | SkTimeout
  | SkResourceLimit
  | SkProtocolViolation
  | SkTerminated
  | SkSetup
  | SkIsolationUnavailable
  | SkNetworkNotAllowed
  | SkBackendNotReady
  | SkPolicyRefused
  | SkCancelled
  | SkProviderError

definition sandbox_failure_kinds :: "(string \<times> sandbox_failure_kind) list" where
  "sandbox_failure_kinds =
    [(''exception'', SkException),
     (''timeout'', SkTimeout),
     (''resource_limit'', SkResourceLimit),
     (''protocol_violation'', SkProtocolViolation),
     (''terminated'', SkTerminated),
     (''setup'', SkSetup),
     (''isolation_unavailable'', SkIsolationUnavailable),
     (''network_not_allowed'', SkNetworkNotAllowed),
     (''backend_not_ready'', SkBackendNotReady),
     (''policy_refused'', SkPolicyRefused),
     (''cancelled'', SkCancelled),
     (''provider_error'', SkProviderError)]"

fun sandbox_text :: "sandbox_failure_kind \<Rightarrow> string \<Rightarrow> string" where
  "sandbox_text SkException m = para m (
     ''Read the traceback and fix the line it points at, rather than '' @
     ''rewriting the program from scratch. Running the same program again '' @
     ''unchanged will fail the same way.'')"
| "sandbox_text SkTimeout m = para m (
     ''The program did not finish before its wall-clock limit. If it can do '' @
     ''less work per call, split it into smaller programs across several '' @
     ''calls rather than retrying the same one unchanged.'')"
| "sandbox_text SkResourceLimit m = para m (
     ''The program used more of one resource (memory, CPU time, output size) '' @
     ''than it is allowed. Reduce what it does in one call rather than '' @
     ''retrying it unchanged.'')"
| "sandbox_text SkProtocolViolation m = para m (
     ''This is not a mistake in the program's logic; the execution '' @
     ''environment itself misbehaved. Retrying the same program once is '' @
     ''reasonable; if it keeps happening, tell the user that code execution '' @
     ''is currently unreliable.'')"
| "sandbox_text SkTerminated m = para m (
     ''The program was killed from outside rather than failing on its own. '' @
     ''Retrying is reasonable if the program is unchanged; if it keeps being '' @
     ''killed, it is likely still over a resource limit even though no '' @
     ''specific limit was reported.'')"
| "sandbox_text SkSetup m = para m (
     ''Nothing about the program ran to completion, so nothing it would have '' @
     ''done took effect. Retrying it unchanged will be refused the same way: '' @
     ''tell the user code execution is not correctly configured on this host '' @
     ''rather than trying again.'')"
| "sandbox_text SkIsolationUnavailable m = para m (
     ''Nothing about the program ran to completion, so nothing it would have '' @
     ''done took effect. Retrying it unchanged will be refused the same way: '' @
     ''tell the user code execution is not correctly configured on this host '' @
     ''rather than trying again.'')"
| "sandbox_text SkNetworkNotAllowed m = para m (
     ''Nothing about the program ran to completion, so nothing it would have '' @
     ''done took effect. Retrying it unchanged will be refused the same way: '' @
     ''tell the user code execution is not correctly configured on this host '' @
     ''rather than trying again.'')"
| "sandbox_text SkBackendNotReady m = para m (
     ''Nothing about the program ran to completion, so nothing it would have '' @
     ''done took effect. Retrying it unchanged will be refused the same way: '' @
     ''tell the user code execution is not correctly configured on this host '' @
     ''rather than trying again.'')"
| "sandbox_text SkPolicyRefused m = para m (
     ''Nothing about the program ran to completion, so nothing it would have '' @
     ''done took effect. Retrying it unchanged will be refused the same way: '' @
     ''tell the user code execution is not correctly configured on this host '' @
     ''rather than trying again.'')"
| "sandbox_text SkCancelled m = para m (
     ''The execution was stopped from outside before the program finished, '' @
     ''and everything it started was ended with it. Do not retry on your own: '' @
     ''whoever stopped it decides whether to run it again.'')"
| "sandbox_text SkProviderError m = para m (
     ''The sandbox service failed rather than the program. Whether the '' @
     ''program ran to completion is unknown, so retry only if it has no side '' @
     ''effects; if this keeps happening, tell the user code execution is '' @
     ''currently unreliable.'')"

definition sandbox_failure_guidance :: "string \<Rightarrow> string \<Rightarrow> string option \<Rightarrow> string" where
  "sandbox_failure_guidance kind message tb =
     (case map_of sandbox_failure_kinds kind of
        None \<Rightarrow> with_traceback (generic_guidance message False) tb
      | Some k \<Rightarrow> with_traceback (sandbox_text k message) tb)"

section \<open>Large results, exceptions, argument errors\<close>

definition elided_result_guidance :: "int \<Rightarrow> string \<Rightarrow> string \<Rightarrow> string" where
  "elided_result_guidance bytes handle preview =
     para (''This result is '' @ int_str bytes @ '' bytes, too large to include in full. It is '' @
           ''stored under handle '' @ repr_str handle @ ''. Call `read_tool_output` with that handle '' @
           ''to read it, with an offset or a search pattern.'')
          (''First part of the result:'' @ nl @ preview)"

text \<open>
  An exception as its type name, its text and the chain of its causes, outermost first; the chain
  of the code stops at the first object seen twice, so it is finite.
\<close>

definition describe_exception :: "(string \<times> string) list \<Rightarrow> string" where
  "describe_exception chain =
     join '' <- caused by '' (map (\<lambda>(t, msg). if msg = [] then t else t @ '': '' @ msg) chain)"

definition traceback_limit :: nat where "traceback_limit = 65536"

text \<open>\<open>format_traceback\<close>, on the text the interpreter formatted.\<close>

definition trim_traceback :: "string \<Rightarrow> string" where
  "trim_traceback t =
     (if length t \<le> traceback_limit then t
      else ''...'' @ nl @ drop (length t - (traceback_limit - 4)) t)"

text \<open>Each error as its location, already rendered part by part, and its message where it has one.\<close>

definition describe_argument_errors :: "(string list \<times> string option) list \<Rightarrow> string" where
  "describe_argument_errors errors =
     join ''; '' (map (\<lambda>(loc, msg).
       (let l = join ''.'' loc in if l = [] then ''(root)'' else l) @ '': '' @
       (case msg of None \<Rightarrow> ''is invalid'' | Some m \<Rightarrow> m)) errors)"

section \<open>Facts\<close>

lemma para_prefix [simp]: "\<exists>rest. para a b = a @ rest"
  by (simp add: para_def)

lemma para_eq_iff [simp]: "para a b = para a' b \<longleftrightarrow> a = a'"
  by (simp add: para_def)

lemma failure_kind_of_total: "k \<in> snd ` set failure_kinds"
  by (cases k) (simp_all add: failure_kinds_def)

lemma failure_kinds_distinct: "distinct (map fst failure_kinds) \<and> distinct (map snd failure_kinds)"
  by code_simp

lemma known_failure_text_keeps: "k \<noteq> FkDenied \<Longrightarrow> \<exists>rest. known_failure_text k m = m @ rest"
  by (cases k) (simp_all add: para_def)

lemma with_traceback_extends: "\<exists>rest. with_traceback t tb = t @ rest"
  by (auto simp: with_traceback_def split: option.splits)

lemma trim_traceback_bound: "length (trim_traceback t) \<le> traceback_limit"
  by (simp add: trim_traceback_def traceback_limit_def nl_def)

end
