(* ===== verification/Dispatch.thy ===== *)
theory Dispatch
  imports Journal Guidance
begin

text \<open>
  Admission and the calls a consumer makes on a Run (\<open>psych_runtime/runtime/dispatch.py\<close>): \<open>dispatch\<close>,
  \<open>replay\<close>, \<open>resume\<close>, \<open>send\<close> and \<open>interrupt\<close>, over the store and the Journal. The clock and the fresh
  ids are arguments; an option of a call is a field of \<open>dispatch_options\<close>. What a resume of an
  expired suspension tells the Run's parent is part of \<open>Notify\<close>, which this theory hands the settled
  Run to.

  Shown: a repeated dispatch is one Run; a Run continues only a Run of its own tenant; a stale
  approval never executes; a settled Run takes no messages and a second abort changes nothing.
\<close>

section \<open>Options and errors\<close>

record dispatch_options =
  do_input :: obj
  do_key :: "string option"
  do_deadline_us :: "int option"
  do_parent :: "run_id option"
  do_depth :: int
  do_continues :: "run_id option"
  do_nested :: bool
  do_breakpoints :: "string list"
  do_step_mode :: bool
  do_replays :: "run_id option"
  do_from_step :: "string option"

record dispatched =
  d_run_id :: run_id
  d_created :: bool

datatype version_ref = Published version | ByHash version_hash

datatype admission_error =
    VersionNotFound version_hash
  | NoSuchRun run_id
  | AccessDenied
  | InvalidInput
  | AdmissionConflict run_id int
  | WorkflowRequired run_id
  | RunNotSuspended run_id
  | SuspensionExpired run_id
  | RunAlreadySettled run_id
  | LogRefused fold_error
  | AppendFailed journal_error

section \<open>Versions\<close>

definition resolve_version :: "store \<Rightarrow> version_ref \<Rightarrow> (admission_error + version) \<times> store" where
  "resolve_version s v =
     (case v of
        Published ver \<Rightarrow> (Inr ver, if get_version s (ver_hash ver) = None then put_version s ver else s)
      | ByHash h \<Rightarrow> (case get_version s h of None \<Rightarrow> Inl (VersionNotFound h) | Some ver \<Rightarrow> Inr ver, s))"

section \<open>Admission\<close>

definition header_of :: "version \<Rightarrow> scope \<Rightarrow> dispatch_options \<Rightarrow> timestamp \<Rightarrow> run_id \<Rightarrow> run_header" where
  "header_of ver sc opts now i =
     \<lparr>h_run_id = i, h_scope = sc, h_version_hash = ver_hash ver,
      h_state = (if do_nested opts then Nested else Runnable),
      h_created_at = now,
      h_deadline_at = now + (case do_deadline_us opts of None \<Rightarrow> ver_deadline_us ver | Some d \<Rightarrow> d),
      h_lease_holder = None, h_lease_expires_at = None,
      h_idempotency_key = do_key opts, h_attempt_count = 0, h_runnable_at = None,
      h_parent_run_id = do_parent opts, h_delegation_depth = do_depth opts,
      h_continues_run_id = do_continues opts\<rparr>"

text \<open>The field constraints of \<open>RunHeader\<close>.\<close>

definition valid_header :: "run_header \<Rightarrow> bool" where
  "valid_header h \<longleftrightarrow> valid_scope (h_scope h) \<and> opt_len_le 256 (h_idempotency_key h) \<and>
     0 \<le> h_attempt_count h \<and> 0 \<le> h_delegation_depth h"

definition admission_of :: "version \<Rightarrow> scope \<Rightarrow> dispatch_options \<Rightarrow> timestamp \<Rightarrow> run_id \<Rightarrow> log_record" where
  "admission_of ver sc opts now i =
     \<lparr>r_run_id = i, r_seq = 1, r_at = now, r_scope = sc, r_attempt_id = None,
      r_body = RunAdmitted
        \<lparr>ra_version_hash = ver_hash ver, ra_input = do_input opts, ra_idempotency_key = do_key opts,
         ra_deadline_at = h_deadline_at (header_of ver sc opts now i), ra_parent_run_id = do_parent opts,
         ra_delegation_depth = do_depth opts, ra_replays_run_id = do_replays opts,
         ra_replay_from_step = do_from_step opts, ra_breakpoints = do_breakpoints opts,
         ra_step_mode = do_step_mode opts, ra_continues_run_id = do_continues opts\<rparr>\<rparr>"

definition may_continue :: "store \<Rightarrow> scope \<Rightarrow> dispatch_options \<Rightarrow> admission_error option" where
  "may_continue s sc opts =
     (case do_continues opts of
        None \<Rightarrow> None
      | Some p \<Rightarrow>
          (case get_run s p of
             None \<Rightarrow> Some (NoSuchRun p)
           | Some h \<Rightarrow> if sc_tenant (h_scope h) \<noteq> sc_tenant sc then Some AccessDenied else None))"

definition dispatch :: "store \<Rightarrow> version_ref \<Rightarrow> scope \<Rightarrow> dispatch_options \<Rightarrow> timestamp \<Rightarrow> run_id \<Rightarrow>
    (admission_error + dispatched) \<times> store" where
  "dispatch s v sc opts now i =
     (case resolve_version s v of
        (Inl e, s1) \<Rightarrow> (Inl e, s1)
      | (Inr ver, s1) \<Rightarrow>
          (case may_continue s1 sc opts of
             Some e \<Rightarrow> (Inl e, s1)
           | None \<Rightarrow>
               let h = header_of ver sc opts now i in
               if \<not> valid_header h then (Inl InvalidInput, s1)
               else (case create_run s1 h of (stored, s2) \<Rightarrow>
                 if h_run_id stored \<noteq> i
                 then (if sc_tenant (h_scope stored) \<noteq> sc_tenant sc then (Inl AccessDenied, s2)
                       else (Inr \<lparr>d_run_id = h_run_id stored, d_created = False\<rparr>, s2))
                 else let r = admission_of ver sc opts now i in
                      if \<not> valid_record r then (Inl InvalidInput, s2)
                      else (case store_append s2 i 1 r of
                              Inl _ \<Rightarrow> (Inl (AdmissionConflict i 1), s2)
                            | Inr s3 \<Rightarrow> (Inr \<lparr>d_run_id = i, d_created = True\<rparr>, s3)))))"

definition replay :: "store \<Rightarrow> run_id \<Rightarrow> string \<Rightarrow> obj option \<Rightarrow> version_ref option \<Rightarrow> dispatch_options \<Rightarrow>
    timestamp \<Rightarrow> run_id \<Rightarrow> (admission_error + dispatched) \<times> store" where
  "replay s source from_step input version opts now i =
     (let records = store_read s source 0 None in
      if records = [] then (Inl (NoSuchRun source), s)
      else case reduce (Some source) None records of
             Inl e \<Rightarrow> (Inl (LogRefused e), s)
           | Inr st \<Rightarrow>
               (case resolve_version s (case version of None \<Rightarrow> ByHash (v_version_hash st) | Some v \<Rightarrow> v) of
                  (Inl e, s1) \<Rightarrow> (Inl e, s1)
                | (Inr ver, s1) \<Rightarrow>
                    if \<not> ver_is_workflow ver \<or> from_step \<notin> set (ver_step_names ver)
                    then (Inl (WorkflowRequired source), s1)
                    else dispatch s1 (Published ver) (v_scope st)
                           (opts\<lparr>do_input := (case input of None \<Rightarrow> v_run_input st | Some x \<Rightarrow> x),
                                 do_parent := None, do_depth := 0, do_continues := None, do_nested := False,
                                 do_replays := Some source, do_from_step := Some from_step\<rparr>) now i))"

section \<open>Resuming\<close>

definition resume_actor :: worker_id where
  "resume_actor = ''psych.resume''"

fun suspend_reason_str :: "suspend_reason \<Rightarrow> string" where
  "suspend_reason_str Approval = ''approval''"
| "suspend_reason_str Question = ''question''"
| "suspend_reason_str External = ''external''"
| "suspend_reason_str Timer = ''timer''"
| "suspend_reason_str Breakpoint = ''breakpoint''"
| "suspend_reason_str Children = ''children''"

text \<open>\<open>ToolFailure(kind=k, message=failure_guidance(k, m))\<close>.\<close>

definition guided_failure :: "string \<Rightarrow> string \<Rightarrow> tool_failure" where
  "guided_failure kind msg =
     \<lparr>tf_kind = kind, tf_message = clamped (failure_guidance kind msg False None) 8192, tf_traceback = None,
      tf_transient = False, tf_traceback_is_for_the_model = False\<rparr>"

definition abandonment :: "suspend_reason option \<Rightarrow> timestamp \<Rightarrow> body" where
  "abandonment reason expires = RunSettled
     \<lparr>rs_state = Abandoned, rs_output = None,
      rs_failure = Some (guided_failure ''suspension_expired''
        (''This run waited for '' @ (case reason of None \<Rightarrow> ''None'' | Some x \<Rightarrow> suspend_reason_str x) @
         '' past its expiry of '' @ iso_utc expires @ '' and was abandoned.'')),
      rs_orphaned_attempt_id = None\<rparr>"

text \<open>
  \<open>resume\<close> up to the notification: the third component is the Run it settled, whose parent is to be
  told. Other writers act before a conflict is absorbed (\<open>e1\<close>) and before the second write (\<open>e2\<close>).
\<close>

definition resume_core :: "(store \<Rightarrow> store) \<Rightarrow> (store \<Rightarrow> store) \<Rightarrow> store \<Rightarrow> run_id \<Rightarrow> obj \<Rightarrow> bool option \<Rightarrow>
    string option \<Rightarrow> timestamp \<Rightarrow> (admission_error + unit) \<times> store \<times> run_state_view option" where
  "resume_core e1 e2 s i payload approved by_whom now =
     (case store_read s i 0 None of
        [] \<Rightarrow> (Inl (NoSuchRun i), s, None)
      | r # _ \<Rightarrow>
          (case journal_open s i (r_scope r) None of
             Inl (Refused e) \<Rightarrow> (Inl (LogRefused e), s, None)
           | Inl e \<Rightarrow> (Inl (AppendFailed e), s, None)
           | Inr j \<Rightarrow>
               if \<not> v_suspended (j_state j) then (Inl (RunNotSuspended i), s, None)
               else if (case v_suspend_expires_at (j_state j) of None \<Rightarrow> False | Some t \<Rightarrow> now > t)
               then (case journal_append e1 e2 j now now
                            (abandonment (v_suspend_reason (j_state j)) (the (v_suspend_expires_at (j_state j)))) s of
                       (Inl e, _, s1) \<Rightarrow> (Inl (AppendFailed e), s1, None)
                     | (Inr _, j1, s1) \<Rightarrow>
                         (Inl (SuspensionExpired i), release s1 i resume_actor Settled, Some (j_state j1)))
               else (case journal_append e1 e2 j now now
                            (Resumed \<lparr>re_payload = payload, re_approved = approved, re_resumed_by = by_whom\<rparr>) s of
                       (Inl e, _, s1) \<Rightarrow> (Inl (AppendFailed e), s1, None)
                     | (Inr _, _, s1) \<Rightarrow>
                         (case set_runnable_at s1 i None of
                            Inl _ \<Rightarrow> (Inl (NoSuchRun i), s1, None)
                          | Inr s2 \<Rightarrow> (Inr (), release s2 i resume_actor Runnable, None)))))"

section \<open>Sending and interrupting\<close>

definition send :: "(store \<Rightarrow> store) \<Rightarrow> (store \<Rightarrow> store) \<Rightarrow> store \<Rightarrow> run_id \<Rightarrow> string + obj \<Rightarrow> queue_kind \<Rightarrow>
    string \<Rightarrow> timestamp \<Rightarrow> (admission_error + string) \<times> store" where
  "send e1 e2 s i message queue entry_id now =
     (case store_read s i 0 None of
        [] \<Rightarrow> (Inl (NoSuchRun i), s)
      | r # _ \<Rightarrow>
          (case journal_open s i (r_scope r) None of
             Inl (Refused e) \<Rightarrow> (Inl (LogRefused e), s)
           | Inl e \<Rightarrow> (Inl (AppendFailed e), s)
           | Inr j \<Rightarrow>
               if v_settled (j_state j) then (Inl (RunAlreadySettled i), s)
               else (case journal_append e1 e2 j now now
                            (QueueEnqueued \<lparr>qe_queue = queue, qe_entry_id = entry_id,
                               qe_payload = (case message of Inl t \<Rightarrow> [(''message'', JStr t)] | Inr m \<Rightarrow> m)\<rparr>) s of
                       (Inl e, _, s1) \<Rightarrow> (Inl (AppendFailed e), s1)
                     | (Inr _, _, s1) \<Rightarrow> (Inr entry_id, s1))))"

definition interrupt :: "(store \<Rightarrow> store) \<Rightarrow> (store \<Rightarrow> store) \<Rightarrow> store \<Rightarrow> run_id \<Rightarrow> string \<Rightarrow> string option \<Rightarrow>
    timestamp \<Rightarrow> (admission_error + unit) \<times> store" where
  "interrupt e1 e2 s i reason by_whom now =
     (case store_read s i 0 None of
        [] \<Rightarrow> (Inl (NoSuchRun i), s)
      | r # _ \<Rightarrow>
          (case journal_open s i (r_scope r) None of
             Inl (Refused e) \<Rightarrow> (Inl (LogRefused e), s)
           | Inl e \<Rightarrow> (Inl (AppendFailed e), s)
           | Inr j \<Rightarrow>
               if v_settled (j_state j) \<or> view_aborted (j_state j) then (Inr (), s)
               else (case journal_append e1 e2 j now now
                            (AbortRequested \<lparr>ab_reason = reason, ab_requested_by = by_whom\<rparr>) s of
                       (Inl e, _, s1) \<Rightarrow> (Inl (AppendFailed e), s1)
                     | (Inr _, _, s1) \<Rightarrow> (Inr (), s1))))"

section \<open>Writing with nobody in the way\<close>

text \<open>A log as the store keeps it: numbered from one without a gap, and of valid records.\<close>

definition log_ok :: "store \<Rightarrow> run_id \<Rightarrow> bool" where
  "log_ok s i \<longleftrightarrow> logs_wf s \<and> (\<exists>n. dom (store_entry s i) = {1..int n}) \<and> list_all valid_record (store_read s i 0 None)"

lemma log_okE:
  assumes "log_ok s i"
  obtains n where "logs_wf s" and "dom (store_entry s i) = {1..int n}" and "list_all valid_record (store_read s i 0 None)"
    and "length (store_read s i 0 None) = n"
  using assms read_all_split(2)[of s i _ 0] by (auto simp: log_ok_def)

lemma number_nth: "length (number n bs) = length bs \<and> (k < length bs \<longrightarrow> number n bs ! k = rec_at (n + int k) (bs ! k))"
proof (induction bs arbitrary: n k)
  case (Cons b bs)
  from Cons[of "n + 1"] show ?case by (cases k) (auto simp: algebra_simps)
qed simp

lemma s_store_read: "store_read (s_store bs) ''run'' 0 None = log_of bs"
proof -
  have "mem_log.gapless (s_store bs) ''run'' (length bs)" using s_store_dom by (simp add: mem_log.gapless_def)
  from mem_log.gapless_read[OF s_store_wf this, of 0]
  have "store_read (s_store bs) ''run'' 0 None = map (\<lambda>q. the (store_entry (s_store bs) ''run'' q)) [1..int (length bs)]" by simp
  also have "\<dots> = log_of bs"
    by (rule nth_equalityI) (simp_all add: log_of_def number_nth s_store_entry)
  finally show ?thesis .
qed

lemma s_store_ok: "list_all valid_record (log_of bs) \<Longrightarrow> log_ok (s_store bs) ''run''"
  using s_store_wf s_store_dom unfolding log_ok_def s_store_read by blast

lemma opened_journal:
  assumes "journal_open s i sc att = Inr j"
  shows "j_run_id j = i" and "j_scope j = sc" and "reduce (Some i) None (store_read s i 0 None) = Inr (j_state j)"
    and "v_run_id (j_state j) = i" and "v_scope (j_state j) = r_scope (hd (store_read s i 0 None))"
    and "journal_head j = int (length (store_read s i 0 None))" and "store_read s i 0 None \<noteq> []"
proof -
  show j: "j_run_id j = i" "j_scope j = sc" "reduce (Some i) None (store_read s i 0 None) = Inr (j_state j)"
    using assms by (auto simp: journal_open_def split: sum.splits)
  show "v_run_id (j_state j) = i" "v_scope (j_state j) = r_scope (hd (store_read s i 0 None))"
    using reduce_address[OF j(3)] by simp_all
  show "journal_head j = int (length (store_read s i 0 None))" "store_read s i 0 None \<noteq> []"
    using reduce_head[OF j(3)] by (simp_all add: journal_head_def)
qed

lemma journal_append_once:
  "append_once j now1 b s = (Inr r, j', s') \<Longrightarrow> journal_append e1 e2 j now1 now2 b s = (Inr r, j', s')"
  by (simp add: journal_append_def)

text \<open>The fold of one record that its own case accepts.\<close>

lemma reduce_one:
  assumes "apply_body r (r_body r) (p\<lparr>v_head_seq := r_seq r\<rparr>, (ctx_of p (v_head_seq p + 1))\<lparr>fc_expected_seq := r_seq r + 1\<rparr>) = Inr (p', cx')"
    and "r_run_id r = v_run_id p" and "sc_tenant (r_scope r) = sc_tenant (v_scope p)" and "r_seq r = v_head_seq p + 1"
    and "v_settled p \<longrightarrow> is_run_settled (r_body r)"
  shows "reduce None (Some p) [r] = Inr p'"
proof -
  have "fc_expected_seq (ctx_of p e) = e" for e by (simp add: ctx_of_def)
  then have "fold_step (p, ctx_of p (v_head_seq p + 1)) r = Inr (p', cx')"
    using assms by (auto simp: fold_step_def check_belongs_def check_sequence_def)
  then show ?thesis by (simp add: reduce_def)
qed

lemma append_vacant:
  assumes "dom (store_entry s i) = {1..int n}"
  shows "\<exists>s'. store_append s i (int n + 1) r = Inr s'"
proof -
  have "int n + 1 \<notin> dom (store_entry s i)" unfolding assms by simp
  then show ?thesis using store_append_conflict[of s i "int n + 1" r] by (cases "store_append s i (int n + 1) r") (auto simp: domIff)
qed

lemma opened_append_as:
  assumes "log_ok s i" and j: "journal_open s i sc att = Inr j" and "valid_body b"
    and "valid_scope sc" and "sc_tenant sc = sc_tenant (v_scope (j_state j))"
    and accepts: "\<And>r. r = next_record j now b \<Longrightarrow>
      apply_body r b ((j_state j)\<lparr>v_head_seq := r_seq r\<rparr>, (ctx_of (j_state j) (journal_head j + 1))\<lparr>fc_expected_seq := r_seq r + 1\<rparr>) = Inr (p', cx')"
    and "v_settled (j_state j) \<longrightarrow> is_run_settled b"
  shows "\<exists>s'. journal_append ea eb j now nowb b s = (Inr (next_record j now b), j\<lparr>j_state := p'\<rparr>, s') \<and> log_ok s' i \<and>
           store_append s i (journal_head j + 1) (next_record j now b) = Inr s' \<and>
           store_read s' i 0 None = store_read s i 0 None @ [next_record j now b] \<and>
           ((\<forall>q. b \<noteq> QueueEnqueued q) \<longrightarrow> journal_open s' i sc att = Inr (j\<lparr>j_state := p'\<rparr>))"
proof -
  let ?r = "next_record j now b"
  note o = opened_journal[OF j]
  obtain n where wf: "logs_wf s" and d: "dom (store_entry s i) = {1..int n}" and v: "list_all valid_record (store_read s i 0 None)"
    and len: "length (store_read s i 0 None) = n" using assms(1) by (elim log_okE)
  have r: "r_run_id ?r = i" "r_seq ?r = int n + 1" "r_scope ?r = sc" "r_body ?r = b"
    using o len by (simp_all add: next_record_def journal_head_def)
  have vr: "valid_record ?r" using r assms(3,4) by (simp add: valid_record_def)
  have red: "reduce None (Some (j_state j)) [?r] = Inr p'"
    using accepts[OF HOL.refl] r o len assms(5,7) by (intro reduce_one) (simp_all add: journal_head_def)
  obtain s' where s': "store_append s i (int n + 1) ?r = Inr s'" using append_vacant[OF d] by blast
  have "append_once j now b s = (Inr ?r, j\<lparr>j_state := p'\<rparr>, s')"
    using vr red s' r o(1) by (simp add: append_once_def)
  moreover have g: "mem_log.gapless s i n" by (simp add: mem_log.gapless_def d)
  from mem_log.gapless_append[OF wf g, of ?r] s'
  have "logs_wf s'" "mem_log.gapless s' i (Suc n)" "store_read s' i 0 None = store_read s i 0 None @ [?r]"
    by (auto simp: store_append_opt_def dest: spec[of _ 0])
  moreover from this have "log_ok s' i" using v vr unfolding log_ok_def mem_log.gapless_def
    by (intro conjI exI[of _ "Suc n"]) simp_all
  moreover have "journal_open s' i sc att = Inr (j\<lparr>j_state := p'\<rparr>)" if "\<forall>q. b \<noteq> QueueEnqueued q"
  proof -
    have "\<not> reuses (spent_in (store_read s i 0 None)) ?r" using that r(4) by (auto simp: reuses_def split: body.splits)
    then have "reduce (Some i) None (store_read s' i 0 None) = Inr p'"
      using reduce_continues[OF o(3), of "[?r]"] red calculation by simp
    then show ?thesis using j by (auto simp: journal_open_def split: sum.splits)
  qed
  ultimately show ?thesis using s' o(6) len journal_append_once by metis
qed

lemma opened_append:
  assumes "log_ok s i" and j: "journal_open s i (r_scope (hd (store_read s i 0 None))) att = Inr j" and "valid_body b"
    and accepts: "\<And>r. r = next_record j now b \<Longrightarrow>
      apply_body r b ((j_state j)\<lparr>v_head_seq := r_seq r\<rparr>, (ctx_of (j_state j) (journal_head j + 1))\<lparr>fc_expected_seq := r_seq r + 1\<rparr>) = Inr (p', cx')"
    and "v_settled (j_state j) \<longrightarrow> is_run_settled b"
  shows "\<exists>s'. journal_append ea eb j now nowb b s = (Inr (next_record j now b), j\<lparr>j_state := p'\<rparr>, s') \<and> log_ok s' i \<and>
           store_append s i (journal_head j + 1) (next_record j now b) = Inr s' \<and>
           store_read s' i 0 None = store_read s i 0 None @ [next_record j now b]"
proof -
  have "list_all valid_record (store_read s i 0 None)" using assms(1) by (simp add: log_ok_def)
  with opened_journal(7)[OF j] have "valid_scope (r_scope (hd (store_read s i 0 None)))"
    by (cases "store_read s i 0 None") (auto simp: valid_record_def)
  moreover have "sc_tenant (r_scope (hd (store_read s i 0 None))) = sc_tenant (v_scope (j_state j))"
    using opened_journal(5)[OF j] by simp
  ultimately show ?thesis
    using opened_append_as[OF assms(1) j assms(3) _ _ accepts assms(5), where ea = ea and eb = eb and nowb = nowb] by blast
qed

section \<open>Admission, case by case\<close>

lemma resolve_version_again:
  assumes "resolve_version s v = (Inr ver, s1)"
  shows "resolve_version s1 v = (Inr ver, s1)" and "st_logs s1 = st_logs s" and "st_runs s1 = st_runs s" and "st_keys s1 = st_keys s"
proof -
  show "resolve_version s1 v = (Inr ver, s1)"
    using assms by (auto simp: resolve_version_def get_version_def put_version_def split: version_ref.splits option.splits if_splits)
  show "st_logs s1 = st_logs s" "st_runs s1 = st_runs s" "st_keys s1 = st_keys s"
    using assms by (auto simp: resolve_version_def put_version_def split: version_ref.splits option.splits if_splits)
qed

lemma create_run_versions: "create_run s h = (stored, s') \<Longrightarrow> st_versions s' = st_versions s"
  by (auto simp: create_run_def split: option.splits)

lemma create_run_keyed:
  assumes "store_ok s" and "create_run s h = (stored, s')" and "h_idempotency_key h = Some k"
    and "dict_get (st_runs s) (h_run_id h) = None"
  shows "dict_get (st_keys s') (sc_tenant (h_scope h), k) = Some (h_run_id stored)"
    and "dict_get (st_runs s') (h_run_id stored) = Some stored" and "sc_tenant (h_scope stored) = sc_tenant (h_scope h)"
    and "dict_get (st_runs s) p = Some h' \<Longrightarrow> dict_get (st_runs s') p = Some h'"
proof -
  have "dict_get (st_keys s') (sc_tenant (h_scope h), k) = Some (h_run_id stored) \<and>
        dict_get (st_runs s') (h_run_id stored) = Some stored \<and> sc_tenant (h_scope stored) = sc_tenant (h_scope h) \<and>
        (dict_get (st_runs s) p = Some h' \<longrightarrow> dict_get (st_runs s') p = Some h')"
    using assms(2)
  proof (cases rule: create_run_cases)
    case (key k' i)
    with assms(3) have i: "dict_get (st_keys s) (sc_tenant (h_scope h), k) = Some i" by simp
    from store_okD(5)[OF assms(1) i] store_okD(4)[OF assms(1)] key i show ?thesis by auto
  next
    case new
    with assms(3,4) show ?thesis by auto
  qed (use assms(4) in simp)
  then show "dict_get (st_keys s') (sc_tenant (h_scope h), k) = Some (h_run_id stored)"
    and "dict_get (st_runs s') (h_run_id stored) = Some stored" and "sc_tenant (h_scope stored) = sc_tenant (h_scope h)"
    and "dict_get (st_runs s) p = Some h' \<Longrightarrow> dict_get (st_runs s') p = Some h'"
    by blast+
qed

lemma dispatch_cases:
  assumes "dispatch s v sc opts now i = (Inr d, s')"
  obtains ver s1 where "resolve_version s v = (Inr ver, s1)" and "may_continue s1 sc opts = None"
    and "valid_header (header_of ver sc opts now i)"
    and "(\<exists>stored. create_run s1 (header_of ver sc opts now i) = (stored, s') \<and> h_run_id stored \<noteq> i \<and>
             sc_tenant (h_scope stored) = sc_tenant sc \<and> d = \<lparr>d_run_id = h_run_id stored, d_created = False\<rparr>) \<or>
         (\<exists>stored s2. create_run s1 (header_of ver sc opts now i) = (stored, s2) \<and> h_run_id stored = i \<and>
             valid_record (admission_of ver sc opts now i) \<and>
             store_append s2 i 1 (admission_of ver sc opts now i) = Inr s' \<and> d = \<lparr>d_run_id = i, d_created = True\<rparr>)"
  using assms
  by (auto simp: dispatch_def Let_def split: prod.splits sum.splits option.splits if_splits)

lemma header_of_simps [simp]:
  "h_run_id (header_of ver sc opts now i) = i" "h_scope (header_of ver sc opts now i) = sc"
  "h_idempotency_key (header_of ver sc opts now i) = do_key opts"
  by (simp_all add: header_of_def)

lemma header_of_admissible [simp]: "admissible (header_of ver sc opts now i)"
  by (auto simp: admissible_def header_of_def)

lemma may_continue_frame:
  "st_runs s' = st_runs s \<Longrightarrow> may_continue s' sc opts = may_continue s sc opts"
  by (simp add: may_continue_def get_run_def cong: option.case_cong)

lemma resolve_version_frame:
  "resolve_version s0 v = (Inr ver, s) \<Longrightarrow> st_versions s' = st_versions s \<Longrightarrow> resolve_version s' v = (Inr ver, s')"
  by (cases v) (auto simp: resolve_version_def get_version_def put_version_def split: if_splits option.splits)

lemma may_continue_None_iff:
  "may_continue s sc opts = None \<longleftrightarrow>
     (case do_continues opts of None \<Rightarrow> True | Some p \<Rightarrow> \<exists>h. get_run s p = Some h \<and> sc_tenant (h_scope h) = sc_tenant sc)"
  by (auto simp: may_continue_def split: option.splits)

lemma resolve_version_ok: "store_ok s \<Longrightarrow> resolve_version s v = (x, s1) \<Longrightarrow> store_ok s1"
  using store_ok_step[OF store_step.version]
  by (auto simp: resolve_version_def split: version_ref.splits option.splits if_splits)

lemma dispatch_repeats:
  assumes "store_ok s" and "do_key opts = Some k" and "dispatch s v sc opts now i = (Inr d, s')"
    and "dict_get (st_runs s) i = None" and "dict_get (st_runs s') i' = None"
  shows "dispatch s' v sc opts now' i' = (Inr \<lparr>d_run_id = d_run_id d, d_created = False\<rparr>, s')"
  using assms(3)
proof (cases rule: dispatch_cases)
  case (1 ver s1)
  note again = resolve_version_again[OF 1(1)]
  have ok: "store_ok s1" using assms(1) 1(1) by (rule resolve_version_ok)
  obtain stored s2 where c: "create_run s1 (header_of ver sc opts now i) = (stored, s2)" and d: "d_run_id d = h_run_id stored"
    and same: "st_runs s' = st_runs s2" "st_keys s' = st_keys s2" "st_versions s' = st_versions s2"
    using 1(4) by (auto dest: store_append_runs)
  note K = create_run_keyed[OF ok c, unfolded header_of_simps, OF assms(2)]
  have fresh: "dict_get (st_runs s1) i = None" using assms(4) again(3) by simp
  note K = K[OF fresh]
  have v: "resolve_version s' v = (Inr ver, s')"
    using resolve_version_frame[OF 1(1)] create_run_versions[OF c] same(3) by simp
  have m: "may_continue s' sc opts = None"
    using 1(2) K(4) same(1) by (auto simp: may_continue_None_iff get_run_def split: option.splits)
  have h: "valid_header (header_of ver sc opts now' i')" using 1(3) by (simp add: valid_header_def header_of_def)
  have "create_run s' (header_of ver sc opts now' i') = (stored, s')"
    using K(1,2) assms(2) same by (simp add: create_run_def)
  moreover have "h_run_id stored \<noteq> i'" using K(2) same(1) assms(5) by auto
  ultimately show ?thesis using v m h K(3) d by (simp add: dispatch_def)
qed

lemma create_run_new:
  assumes "store_ok s" and "create_run s h = (stored, s')" and "dict_get (st_runs s) (h_run_id h) = None"
    and "h_run_id stored = h_run_id h"
  shows "stored = h \<and> (\<forall>j. get_run s' j = (if j = h_run_id h then Some h else get_run s j)) \<and>
         (\<forall>j. log_of_run s' j = log_of_run s j)"
  using assms(2)
proof (cases rule: create_run_cases)
  case (key k i)
  from store_okD(5)[OF assms(1) key(2)] store_okD(4)[OF assms(1)] key assms(3,4) show ?thesis by auto
qed (use assms(3) in \<open>auto simp: get_run_def\<close>)

lemma log_of_run_eqD: "log_of_run s' j = log_of_run s j \<Longrightarrow> store_entry s' j = store_entry s j \<and> store_read s' j a l = store_read s j a l"
  by (auto simp: store_entry_def store_read_def Let_def)

lemma read_first_record:
  assumes "logs_wf s" and "dom (store_entry s i) = {}" and "store_append s i 1 r = Inr s'"
  shows "store_read s' i 0 None = [r]" and "j \<noteq> i \<Longrightarrow> store_read s' j a None = store_read s j a None"
proof -
  have g: "mem_log.gapless s i 0" using assms(2) by (simp add: mem_log.gapless_def)
  have a: "store_append_opt s i (int 0 + 1) r = Some s'" using assms(3) by (simp add: store_append_opt_def)
  have "store_read s i 0 None = []" using mem_log.gapless_read[OF assms(1) g, of 0] by simp
  with mem_log.gapless_append[OF assms(1) g, of r] a show "store_read s' i 0 None = [r]" by auto
  show "store_read s' j a None = store_read s j a None" if "j \<noteq> i"
    using mem_log.append_other[OF assms(1) a that] .
qed

section \<open>Properties of admission\<close>

text \<open>C23. Dispatching again under an idempotency key is the same Run: after a dispatch that returned a Run, the
  same call at a later time returns that Run as not created and leaves the store as it is, whatever fresh id
  the second call drew.\<close>

theorem dispatch_is_once_per_key:
  assumes "store_ok s" and "do_key opts = Some k" and "dispatch s v sc opts now i = (Inr d, s')"
    and "get_run s i = None" and "get_run s' i' = None"
  shows "dispatch s' v sc opts now' i' = (Inr \<lparr>d_run_id = d_run_id d, d_created = False\<rparr>, s')"
  using dispatch_repeats[OF assms(1-3)] assms(4,5) by (simp add: get_run_def)

text \<open>Options of a plain dispatch, and a Version.\<close>

definition s_version :: version where
  "s_version = \<lparr>ver_hash = ''v'', ver_is_workflow = False, ver_step_names = [], ver_deadline_us = 100\<rparr>"

definition s_options :: dispatch_options where
  "s_options = \<lparr>do_input = [], do_key = Some ''order-1'', do_deadline_us = None, do_parent = None, do_depth = 0,
     do_continues = None, do_nested = False, do_breakpoints = [], do_step_mode = False, do_replays = None, do_from_step = None\<rparr>"

lemma dispatch_is_once_per_key_witness:
  "\<exists>d s'. dispatch empty_store (Published s_version) s_scope s_options 7 ''a'' = (Inr d, s') \<and> d_created d \<and>
          dispatch s' (Published s_version) s_scope s_options 8 ''b'' = (Inr \<lparr>d_run_id = ''a'', d_created = False\<rparr>, s')"
proof -
  have "case dispatch empty_store (Published s_version) s_scope s_options 7 ''a'' of
          (x, s') \<Rightarrow> x = Inr \<lparr>d_run_id = ''a'', d_created = True\<rparr> \<and> get_run s' ''b'' = None" by code_simp
  then obtain s' where d: "dispatch empty_store (Published s_version) s_scope s_options 7 ''a'' = (Inr \<lparr>d_run_id = ''a'', d_created = True\<rparr>, s')"
    and f: "get_run s' ''b'' = None" by (auto split: prod.splits)
  have "dispatch s' (Published s_version) s_scope s_options 8 ''b'' = (Inr \<lparr>d_run_id = ''a'', d_created = False\<rparr>, s')"
    using dispatch_is_once_per_key[OF store_ok_empty _ d _ f, of "''order-1''" 8] by (simp add: s_options_def get_run_def empty_store_def)
  with d show ?thesis by auto
qed

text \<open>A dispatch that creates a Run writes exactly its admission record into an empty log and its header,
  touches no other Run and no other log, and continues only a Run of the caller's own tenant.\<close>

theorem dispatch_admits_one_run:
  assumes "store_ok s" and "dispatch s v sc opts now i = (Inr d, s')" and "d_created d"
    and "get_run s i = None" and "dom (store_entry s i) = {}"
  shows "(\<exists>ver. store_read s' i 0 None = [admission_of ver sc opts now i] \<and> get_run s' i = Some (header_of ver sc opts now i)) \<and>
    (j \<noteq> i \<longrightarrow> get_run s' j = get_run s j \<and> store_read s' j 0 None = store_read s j 0 None) \<and>
    (case do_continues opts of None \<Rightarrow> True | Some p \<Rightarrow> \<exists>h. get_run s p = Some h \<and> sc_tenant (h_scope h) = sc_tenant sc)"
  using assms(2)
proof (cases rule: dispatch_cases)
    case (1 ver s1)
    note again = resolve_version_again[OF 1(1)]
    have ok: "store_ok s1" using assms(1) 1(1) by (rule resolve_version_ok)
    obtain stored s2 where c: "create_run s1 (header_of ver sc opts now i) = (stored, s2)" and id: "h_run_id stored = i"
      and a: "store_append s2 i 1 (admission_of ver sc opts now i) = Inr s'"
      using 1(4) assms(3) by auto
    have new: "stored = header_of ver sc opts now i" "get_run s2 i = Some (header_of ver sc opts now i)"
      "get_run s2 j = (if j = i then Some (header_of ver sc opts now i) else get_run s1 j)" "log_of_run s2 j = log_of_run s1 j"
      "log_of_run s2 i = log_of_run s1 i" for j
      using create_run_new[OF ok c] assms(4) again(3) id by (simp_all add: get_run_def)
    have l: "log_of_run s1 j = log_of_run s j" for j using again(2) by (simp add: log_of_run_def)
    have wf: "logs_wf s2" using store_okD(1)[OF assms(1)] by (simp add: logs_wf_def new(4) l)
    have e: "store_entry s2 i = store_entry s i" "store_read s2 j 0 None = store_read s j 0 None" for j
      using log_of_run_eqD[of s2 _ s] new(4) l by simp_all
    have d: "dom (store_entry s2 i) = {}" using assms(5) e(1) by simp
    have runs: "get_run s' j = get_run s2 j" for j using store_append_runs[OF a] by (simp add: get_run_def)
    show ?thesis
      using read_first_record(1)[OF wf d a] read_first_record(2)[OF wf d a, of j 0] new(2,3) runs 1(2) again(3) e(2)
      by (auto simp: may_continue_None_iff get_run_def split: option.splits)
  qed

lemma dispatch_admits_one_run_witness:
  "\<exists>d s' ver. dispatch empty_store (Published s_version) s_scope s_options 7 ''a'' = (Inr d, s') \<and>
          store_read s' ''a'' 0 None = [admission_of ver s_scope s_options 7 ''a'']"
proof -
  have "fst (dispatch empty_store (Published s_version) s_scope s_options 7 ''a'') = Inr \<lparr>d_run_id = ''a'', d_created = True\<rparr>" by code_simp
  then obtain s' where d: "dispatch empty_store (Published s_version) s_scope s_options 7 ''a'' = (Inr \<lparr>d_run_id = ''a'', d_created = True\<rparr>, s')"
    by (metis prod.collapse)
  have "dom (store_entry empty_store ''a'') = {}" by (auto simp: store_entry_def log_of_run_def empty_store_def)
  with dispatch_admits_one_run[OF store_ok_empty d, of "''b''"] d show ?thesis
    by (auto simp: get_run_def empty_store_def)
qed

section \<open>Late resumes\<close>

text \<open>A Run whose log says it waits until \<open>t\<close>.\<close>

definition waits_until :: "store \<Rightarrow> run_id \<Rightarrow> timestamp \<Rightarrow> bool" where
  "waits_until s i t \<longleftrightarrow> (case reduce (Some i) None (store_read s i 0 None) of
     Inl _ \<Rightarrow> False | Inr st \<Rightarrow> v_suspended st \<and> v_suspend_expires_at st = Some t)"

lemma valid_abandonment: "valid_body (abandonment reason t)"
  by (simp add: abandonment_def guided_failure_def valid_tool_failure_def opt_ok_def)

lemma journal_opens:
  assumes "reduce (Some i) None (store_read s i 0 None) = Inr st"
  obtains j where "journal_open s i sc att = Inr j" and "j_state j = st"
  using assms by (simp add: journal_open_def)

lemma read_hd_cases:
  assumes "store_read s i 0 None \<noteq> []"
  shows "(case store_read s i 0 None of [] \<Rightarrow> x | r # _ \<Rightarrow> f r) = f (hd (store_read s i 0 None))"
  using assms by (cases "store_read s i 0 None") simp_all

lemma late_resume:
  assumes "log_ok s i" and "waits_until s i t" and "t < now"
  shows "\<exists>r s' st'. resume_core e1 e2 s i payload approved who now = (Inl (SuspensionExpired i), release s' i resume_actor Settled, Some st') \<and>
    log_ok s' i \<and> store_read s' i 0 None = store_read s i 0 None @ [r] \<and> (\<exists>x. r_body r = abandonment x t) \<and>
    v_settled st' \<and> v_terminal_state st' = Some Abandoned \<and> waits_until s' i t \<and> st_runs s' = st_runs s"
proof -
  from assms(2) obtain st where st: "reduce (Some i) None (store_read s i 0 None) = Inr st" "v_suspended st" "v_suspend_expires_at st = Some t"
    by (auto simp: waits_until_def split: sum.splits)
  obtain j where j: "journal_open s i (r_scope (hd (store_read s i 0 None))) None = Inr j" "j_state j = st"
    using journal_opens[OF st(1)] .
  note o = opened_journal[OF j(1)]
  let ?b = "abandonment (v_suspend_reason st) t"
  let ?p = "\<lambda>h. (st\<lparr>v_head_seq := h, v_settled := True, v_terminal_state := Some Abandoned,
       v_output := None, v_failure := (case ?b of RunSettled x \<Rightarrow> rs_failure x | _ \<Rightarrow> None), v_turn_open := False, v_model_call_open := False\<rparr>)"
  have rs: "is_run_settled ?b" by (simp add: abandonment_def is_run_settled_def)
  obtain s' where s': "journal_append e1 e2 j now now ?b s = (Inr (next_record j now ?b), j\<lparr>j_state := ?p (journal_head j + 1)\<rparr>, s')"
    and ok: "log_ok s' i" and app: "store_append s i (journal_head j + 1) (next_record j now ?b) = Inr s'"
    and read: "store_read s' i 0 None = store_read s i 0 None @ [next_record j now ?b]"
    using opened_append[OF assms(1) j(1) valid_abandonment, where now = now and nowb = now and ea = e1 and eb = e2
        and p' = "?p (journal_head j + 1)"] rs j(2)
    by (auto simp: abandonment_def on_view_def on_run_settled_def next_record_def journal_head_def)
  have res: "resume_core e1 e2 s i payload approved who now = (Inl (SuspensionExpired i), release s' i resume_actor Settled, Some (?p (journal_head j + 1)))"
    using s' st j o(7) assms(3) by (simp add: resume_core_def read_hd_cases)
  have "reduce None (Some st) [next_record j now ?b] = Inr (?p (journal_head j + 1))"
    by (rule reduce_one) (use o j(2) rs in \<open>simp_all add: next_record_def journal_head_def abandonment_def on_view_def on_run_settled_def\<close>)
  moreover have "\<not> reuses ids (next_record j now ?b)" for ids
    by (simp add: reuses_def next_record_def abandonment_def)
  ultimately have "reduce (Some i) None (store_read s' i 0 None) = Inr (?p (journal_head j + 1))"
    using reduce_continues[OF st(1), of "[next_record j now ?b]"] read by simp
  then have "waits_until s' i t" using st by (simp add: waits_until_def)
  moreover have "r_body (next_record j now ?b) = ?b" by (simp add: next_record_def)
  ultimately show ?thesis using res ok read store_append_runs[OF app] by (intro exI[of _ "next_record j now ?b"] exI[of _ s']) auto
qed

lemma release_logs [simp]:
  "store_read (release s i w st) j a l = store_read s j a l" "log_ok (release s i w st) j = log_ok s j"
  "waits_until (release s i w st) j t = waits_until s j t"
proof -
  have l: "log_of_run (release s i w st) = log_of_run s"
    by (auto simp: release_def log_of_run_def fun_eq_iff split: option.splits)
  then show read: "store_read (release s i w st) j a l = store_read s j a l" for j a l by (simp add: store_read_def)
  from l show "log_ok (release s i w st) j = log_ok s j"
    by (simp add: log_ok_def logs_wf_def store_entry_def[abs_def] read)
  show "waits_until (release s i w st) j t = waits_until s j t" by (simp add: waits_until_def read)
qed

lemma log_ok_logs: "st_logs s' = st_logs s \<Longrightarrow> log_ok s' i = log_ok s i \<and> waits_until s' i t = waits_until s i t"
proof -
  assume "st_logs s' = st_logs s"
  then have l: "log_of_run s' = log_of_run s" by (simp add: log_of_run_def fun_eq_iff)
  then have "store_read s' j a n = store_read s j a n" for j a n by (simp add: store_read_def)
  with l show ?thesis by (simp add: log_ok_def logs_wf_def store_entry_def[abs_def] waits_until_def)
qed

text \<open>A Run suspended until 50, in its log and in its header.\<close>

definition s_waiting :: store where
  "s_waiting = (s_store [b_admitted, b_attempt 1, b_suspend External None])
     \<lparr>st_runs := [(''run'', s_header ''run'' SuspendedRun None)]\<rparr>"

lemma s_waiting_facts: "log_ok s_waiting ''run''" "waits_until s_waiting ''run'' 50"
  "get_run s_waiting ''run'' = Some (s_header ''run'' SuspendedRun None)"
proof -
  let ?bs = "[b_admitted, b_attempt 1, b_suspend External None]"
  have "list_all valid_record (log_of ?bs)" by code_simp
  then have "log_ok (s_store ?bs) ''run''" by (rule s_store_ok)
  moreover have "waits_until (s_store ?bs) ''run'' 50" by code_simp
  ultimately show "log_ok s_waiting ''run''" "waits_until s_waiting ''run'' 50"
    using log_ok_logs[of s_waiting "s_store ?bs"] by (simp_all add: s_waiting_def)
  show "get_run s_waiting ''run'' = Some (s_header ''run'' SuspendedRun None)"
    by (simp add: s_waiting_def get_run_def)
qed

text \<open>C24. A stale approval never executes: resuming a Run past the expiry of its suspension always fails, appends
  one abandonment and nothing else, so no \<open>resumed\<close> record is written; and the header of the Run stays
  exactly as it was, suspended, because nobody holds the lease the release names.\<close>

theorem stale_approval_never_executes:
  assumes "log_ok s i" and "waits_until s i t" and "t < now"
    and "get_run s i = Some h" and "h_lease_holder h \<noteq> Some resume_actor"
  shows "\<exists>s' st' r x. resume_core e1 e2 s i payload approved who now = (Inl (SuspensionExpired i), s', Some st') \<and>
    store_read s' i 0 None = store_read s i 0 None @ [r] \<and> r_body r = abandonment x t \<and>
    v_settled st' \<and> v_terminal_state st' = Some Abandoned \<and> get_run s' i = Some h"
proof -
  obtain r s' st' x where R: "resume_core e1 e2 s i payload approved who now = (Inl (SuspensionExpired i), release s' i resume_actor Settled, Some st')"
    "store_read s' i 0 None = store_read s i 0 None @ [r]" "r_body r = abandonment x t"
    "v_settled st'" "v_terminal_state st' = Some Abandoned" "st_runs s' = st_runs s"
    using late_resume[OF assms(1-3), of e1 e2 payload approved who] by blast
  have "get_run (release s' i resume_actor Settled) i = Some h"
    using R(6) assms(4,5) by (simp add: release_def get_run_def)
  with R show ?thesis by (auto intro!: exI[of _ "release s' i resume_actor Settled"])
qed

lemma stale_approval_never_executes_witness:
  "\<exists>s' st' r. resume_core id id s_waiting ''run'' [] (Some True) None 51 = (Inl (SuspensionExpired ''run''), s', Some st') \<and>
     store_read s' ''run'' 0 None = store_read s_waiting ''run'' 0 None @ [r] \<and>
     get_run s' ''run'' = Some (s_header ''run'' SuspendedRun None)"
  using stale_approval_never_executes[OF s_waiting_facts(1,2) _ s_waiting_facts(3), of 51 id id "[]" "Some True" None]
  by (auto simp: s_header_def)

text \<open>A Run abandoned by a late resume is settled again by the next one: the settlement leaves the Run
  suspended in its derived state and in its header, so a second resume finds it waiting and appends a second
  settlement to the same log.\<close>

theorem late_resume_settles_twice:
  assumes "log_ok s i" and "waits_until s i t" and "t < now" and "t < now'"
    and "resume_core e1 e2 s i payload approved who now = (res, s', n)"
  shows "\<exists>r x. fst (resume_core e1 e2 s' i payload approved who now') = Inl (SuspensionExpired i) \<and>
    store_read (fst (snd (resume_core e1 e2 s' i payload approved who now'))) i 0 None = store_read s' i 0 None @ [r] \<and>
    r_body r = abandonment x t \<and> is_run_settled (r_body (last (store_read s' i 0 None)))"
proof -
  obtain r u st' x where R: "s' = release u i resume_actor Settled" "log_ok u i" "store_read u i 0 None = store_read s i 0 None @ [r]"
    "r_body r = abandonment x t" "waits_until u i t"
    using late_resume[OF assms(1-3), of e1 e2 payload approved who] assms(5) by auto
  have "log_ok s' i" "waits_until s' i t" using R by simp_all
  from late_resume[OF this assms(4), of e1 e2 payload approved who] R(3,4)
  show ?thesis by (auto simp: R(1) is_run_settled_def abandonment_def)
qed

lemma late_resume_settles_twice_witness:
  "\<exists>s' n r x. resume_core id id s_waiting ''run'' [] None None 51 = (Inl (SuspensionExpired ''run''), s', n) \<and>
     store_read (fst (snd (resume_core id id s' ''run'' [] None None 52))) ''run'' 0 None = store_read s' ''run'' 0 None @ [r] \<and>
     r_body r = abandonment x 50"
proof -
  obtain s' n where R: "resume_core id id s_waiting ''run'' [] None None 51 = (Inl (SuspensionExpired ''run''), s', n)"
    using late_resume[OF s_waiting_facts(1,2), of 51 id id "[]" None None] by auto
  from late_resume_settles_twice[OF s_waiting_facts(1,2) _ _ R, of 52] R show ?thesis by auto
qed

section \<open>Timely resumes\<close>

lemma timely_resume:
  assumes "log_ok s i" and "reduce (Some i) None (store_read s i 0 None) = Inr st" and "v_suspended st" and "\<not> v_settled st"
    and "case v_suspend_expires_at st of None \<Rightarrow> True | Some t \<Rightarrow> now \<le> t" and "opt_len_le 256 who"
    and "get_run s i = Some h" and "h_lease_holder h \<noteq> Some resume_actor"
  shows "\<exists>r s'. resume_core e1 e2 s i payload approved who now = (Inr (), s', None) \<and>
    store_read s' i 0 None = store_read s i 0 None @ [r] \<and>
    r_body r = Resumed \<lparr>re_payload = payload, re_approved = approved, re_resumed_by = who\<rparr> \<and>
    get_run s' i = Some (h\<lparr>h_runnable_at := None, h_state := (if h_state h = SuspendedRun then Runnable else h_state h)\<rparr>)"
proof -
  let ?b = "Resumed \<lparr>re_payload = payload, re_approved = approved, re_resumed_by = who\<rparr>"
  obtain j where j: "journal_open s i (r_scope (hd (store_read s i 0 None))) None = Inr j" "j_state j = st"
    using journal_opens[OF assms(2)] .
  note o = opened_journal[OF j(1)]
  let ?r = "next_record j now ?b"
  obtain p' where p': "on_resumed ?r \<lparr>re_payload = payload, re_approved = approved, re_resumed_by = who\<rparr>
      (st\<lparr>v_head_seq := r_seq ?r\<rparr>) = Inr p'"
    using assms(3) by (simp add: on_resumed_def Let_def)
  obtain s' where s': "journal_append e1 e2 j now now ?b s = (Inr ?r, j\<lparr>j_state := p'\<rparr>, s')"
    and app: "store_append s i (journal_head j + 1) ?r = Inr s'"
    and read: "store_read s' i 0 None = store_read s i 0 None @ [?r]"
    using opened_append[OF assms(1) j(1), of ?b now p' _ e1 e2 now] assms(4,6) p' j(2)
    by (auto simp: on_view_def)
  let ?h = "h\<lparr>h_runnable_at := None, h_state := (if h_state h = SuspendedRun then Runnable else h_state h)\<rparr>"
  let ?u = "s'\<lparr>st_runs := dict_put i ?h (st_runs s')\<rparr>"
  have g: "dict_get (st_runs s') i = Some h" using assms(7) store_append_runs[OF app] by (simp add: get_run_def)
  then have w: "set_runnable_at s' i None = Inr ?u" by (simp add: set_runnable_at_def)
  have rel: "release ?u i resume_actor Runnable = ?u" using assms(8) by (simp add: release_def)
  have "\<not> (case v_suspend_expires_at st of None \<Rightarrow> False | Some t \<Rightarrow> now > t)" using assms(5) by (simp split: option.splits)
  then have "resume_core e1 e2 s i payload approved who now = (Inr (), ?u, None)"
    using s' j o(7) assms(3) w rel by (simp add: resume_core_def read_hd_cases)
  moreover have "store_read ?u i 0 None = store_read s' i 0 None" by (simp add: store_read_def log_of_run_def)
  ultimately show ?thesis using read by (intro exI[of _ ?r] exI[of _ ?u]) (simp add: get_run_def next_record_def)
qed

section \<open>Admission cut short\<close>

lemma journal_open_empty:
  assumes "dom (store_entry s i) = {}" and "logs_wf s"
  shows "store_read s i 0 None = []" and "journal_open s i sc att = Inl (Refused ValueError)"
proof -
  have g: "mem_log.gapless s i 0" using assms(1) by (simp add: mem_log.gapless_def)
  show "store_read s i 0 None = []" using mem_log.gapless_read[OF assms(2) g, of 0] by simp
  then show "journal_open s i sc att = Inl (Refused ValueError)" by (simp add: journal_open_def reduce_def)
qed

text \<open>Admission is two writes, and a crash between them is never repaired: from the store in which only the
  header of a keyed Run was written, dispatching again under the key reports that Run and writes nothing, its
  log stays empty, no Journal can be opened on it, and yet a Worker may claim it.\<close>

theorem interrupted_admission_is_never_completed:
  assumes "store_ok s" and "resolve_version s v = (Inr ver, s)" and "may_continue s sc opts = None"
    and "valid_header (header_of ver sc opts now i)" and "do_key opts = Some k" and "\<not> do_nested opts"
    and "get_run s i = None" and "dict_get (st_keys s) (sc_tenant sc, k) = None" and "dom (store_entry s i) = {}"
    and "s1 = snd (create_run s (header_of ver sc opts now i))" and "i' \<noteq> i"
  shows "dispatch s1 v sc opts now' i' = (Inr \<lparr>d_run_id = i, d_created = False\<rparr>, s1) \<and> store_read s1 i 0 None = [] \<and>
    journal_open s1 i sc att = Inl (Refused ValueError) \<and>
    (case get_run s1 i of None \<Rightarrow> False | Some h \<Rightarrow> is_claimable h now')"
proof -
  let ?h = "header_of ver sc opts now i"
  have fresh: "dict_get (st_runs s) i = None" using assms(7) by (simp add: get_run_def)
  obtain stored where c: "create_run s ?h = (stored, s1)" using assms(10) by (metis surj_pair snd_conv)
  have st: "stored = ?h" using c fresh assms(5,8) by (simp add: create_run_def)
  have new: "get_run s1 j = (if j = i then Some ?h else get_run s j)" "log_of_run s1 j = log_of_run s j" for j
    using create_run_new[OF assms(1) c] fresh st by simp_all
  note K = create_run_keyed[OF assms(1) c, unfolded header_of_simps, OF assms(5) fresh]
  have "create_run s1 (header_of ver sc opts now' i') = (?h, s1)"
    using K(1,2) assms(5) st by (simp add: create_run_def)
  moreover have "resolve_version s1 v = (Inr ver, s1)"
    using resolve_version_frame[OF assms(2) create_run_versions[OF c]] .
  moreover have "may_continue s1 sc opts = None"
    using assms(3) K(4) by (auto simp: may_continue_None_iff get_run_def split: option.splits)
  moreover have "valid_header (header_of ver sc opts now' i')" using assms(4) by (simp add: valid_header_def header_of_def)
  ultimately have "dispatch s1 v sc opts now' i' = (Inr \<lparr>d_run_id = i, d_created = False\<rparr>, s1)"
    using assms(11) by (simp add: dispatch_def)
  moreover have "dom (store_entry s1 i) = {}" using log_of_run_eqD[OF new(2)[of i]] assms(9) by simp
  moreover have "logs_wf s1" using store_okD(1)[OF assms(1)] by (simp add: logs_wf_def new(2))
  moreover have "is_claimable ?h now'" using assms(6) by (simp add: is_claimable_def header_of_def)
  ultimately show ?thesis using journal_open_empty new(1)[of i] by simp
qed

lemma interrupted_admission_is_never_completed_witness:
  "\<exists>s0 s1. resolve_version empty_store (Published s_version) = (Inr s_version, s0) \<and>
     s1 = snd (create_run s0 (header_of s_version s_scope s_options 7 ''a'')) \<and>
     dispatch s1 (ByHash ''v'') s_scope s_options 8 ''b'' = (Inr \<lparr>d_run_id = ''a'', d_created = False\<rparr>, s1) \<and>
     store_read s1 ''a'' 0 None = []"
proof -
  let ?s0 = "put_version empty_store s_version"
  have r: "resolve_version empty_store (Published s_version) = (Inr s_version, ?s0)"
    by (simp add: resolve_version_def get_version_def empty_store_def)
  have r0: "resolve_version ?s0 (ByHash ''v'') = (Inr s_version, ?s0)" by code_simp
  have m: "may_continue ?s0 s_scope s_options = None" and v: "valid_header (header_of s_version s_scope s_options 7 ''a'')"
    and g: "get_run ?s0 ''a'' = None" and k: "dict_get (st_keys ?s0) (sc_tenant s_scope, ''order-1'') = None" by code_simp+
  have ok: "store_ok ?s0" using resolve_version_ok[OF store_ok_empty r] .
  have "dom (store_entry ?s0 ''a'') = {}" by (auto simp: store_entry_def log_of_run_def empty_store_def put_version_def)
  from interrupted_admission_is_never_completed[OF ok r0 m v _ _ g k this HOL.refl, of "''b''" 8] r
  show ?thesis by (auto simp: s_options_def)
qed

section \<open>Stopping\<close>

lemma abort_appends:
  assumes "log_ok s i" and "reduce (Some i) None (store_read s i 0 None) = Inr st" and "\<not> v_settled st" and "\<not> view_aborted st"
    and "length reason \<le> 1024" and "opt_len_le 256 who"
  shows "\<exists>s' r st'. interrupt e1 e2 s i reason who now = (Inr (), s') \<and> log_ok s' i \<and> store_read s' i 0 None = store_read s i 0 None @ [r] \<and>
    r_body r = AbortRequested \<lparr>ab_reason = reason, ab_requested_by = who\<rparr> \<and>
    reduce (Some i) None (store_read s' i 0 None) = Inr st' \<and> v_abort_seq st' = Some (v_head_seq st') \<and> \<not> v_settled st'"
proof -
  let ?b = "AbortRequested \<lparr>ab_reason = reason, ab_requested_by = who\<rparr>"
  obtain j where j: "journal_open s i (r_scope (hd (store_read s i 0 None))) None = Inr j" "j_state j = st"
    using journal_opens[OF assms(2)] .
  note o = opened_journal[OF j(1)]
  let ?p = "st\<lparr>v_head_seq := journal_head j + 1, v_abort_seq := Some (journal_head j + 1)\<rparr>" and ?r = "next_record j now ?b"
  have a: "v_abort_seq st = None" using assms(4) by (simp add: view_aborted_def)
  obtain s' where s': "journal_append e1 e2 j now now ?b s = (Inr ?r, j\<lparr>j_state := ?p\<rparr>, s')"
    and ok: "log_ok s' i" and read: "store_read s' i 0 None = store_read s i 0 None @ [?r]"
    using opened_append[OF assms(1) j(1), of ?b now ?p _ e1 e2 now] assms(3,5,6) a j(2)
    by (auto simp: on_view_def on_abort_requested_def next_record_def journal_head_def)
  have "interrupt e1 e2 s i reason who now = (Inr (), s')"
    using s' j(1,2) assms(3,4) o(7) by (simp add: interrupt_def read_hd_cases)
  moreover have "reduce None (Some st) [?r] = Inr ?p"
    by (rule reduce_one) (use o j(2) assms(3) a in \<open>simp_all add: next_record_def journal_head_def on_view_def on_abort_requested_def\<close>)
  then have "reduce (Some i) None (store_read s' i 0 None) = Inr ?p"
    using reduce_continues[OF assms(2), of "[?r]"] read by (simp add: reuses_def next_record_def)
  ultimately show ?thesis using ok read assms(3) by (intro exI[of _ s'] exI[of _ ?r] exI[of _ ?p]) (simp add: next_record_def)
qed

lemma steer_after_abort_refused:
  assumes "reduce (Some i) None (store_read s i 0 None) = Inr st" and "\<not> v_settled st" and "v_abort_seq st = Some (v_head_seq st)"
    and "queue \<noteq> NextRun"
  shows "\<exists>e. send e1 e2 s i message queue entry_id now = (Inl (AppendFailed e), s)"
proof -
  obtain j where j: "journal_open s i (r_scope (hd (store_read s i 0 None))) None = Inr j" "j_state j = st"
    using journal_opens[OF assms(1)] .
  note o = opened_journal[OF j(1)]
  let ?b = "QueueEnqueued \<lparr>qe_queue = queue, qe_entry_id = entry_id,
     qe_payload = (case message of Inl t \<Rightarrow> [(''message'', JStr t)] | Inr m \<Rightarrow> m)\<rparr>"
  let ?r = "next_record j now ?b"
  have c: "fc_expected_seq (ctx_of st e) = e" for e by (simp add: ctx_of_def)
  have "fold_step (st, ctx_of st (v_head_seq st + 1)) ?r = corrupt QueueAfterAbort (st\<lparr>v_head_seq := v_head_seq st + 1\<rparr>) ?r"
    using assms(2-4) o j(2) c by (simp add: fold_step_def check_belongs_def check_sequence_def next_record_def on_queue_enqueued_def)
  then have "\<exists>e. reduce None (Some st) [?r] = Inl e" by (simp add: reduce_def corrupt_def)
  then obtain e where "reduce None (Some (j_state j)) [?r] = Inl e" using j(2) by blast
  then have "\<exists>e. append_once j now ?b s = (Inl e, j, s) \<and> (\<forall>x q. e \<noteq> Conflict x q)"
    by (cases "valid_record ?r") (auto simp: append_once_def Let_def)
  then have "\<exists>e. journal_append e1 e2 j now now ?b s = (Inl e, j, s)"
    by (auto simp: journal_append_def split: journal_error.splits)
  then show ?thesis using j assms(2) o(7) by (auto simp: send_def read_hd_cases)
qed

text \<open>An abort is recorded once and closes the Run to steering: interrupting a Run that is neither settled nor
  aborted appends one abort record; interrupting again changes nothing; and from then on a steer or follow-up
  is refused without a write.\<close>

theorem abort_is_recorded_once:
  assumes "log_ok s i" and "reduce (Some i) None (store_read s i 0 None) = Inr st" and "\<not> v_settled st" and "\<not> view_aborted st"
    and "length reason \<le> 1024" and "opt_len_le 256 who" and "queue \<noteq> NextRun"
  shows "\<exists>s' r e. interrupt e1 e2 s i reason who now = (Inr (), s') \<and> store_read s' i 0 None = store_read s i 0 None @ [r] \<and>
    r_body r = AbortRequested \<lparr>ab_reason = reason, ab_requested_by = who\<rparr> \<and>
    interrupt e1 e2 s' i reason' who' now' = (Inr (), s') \<and>
    send e1 e2 s' i message queue entry_id now' = (Inl (AppendFailed e), s')"
proof -
  obtain s' r st' where R: "interrupt e1 e2 s i reason who now = (Inr (), s')" "store_read s' i 0 None = store_read s i 0 None @ [r]"
    "r_body r = AbortRequested \<lparr>ab_reason = reason, ab_requested_by = who\<rparr>"
    "reduce (Some i) None (store_read s' i 0 None) = Inr st'" "v_abort_seq st' = Some (v_head_seq st')" "\<not> v_settled st'"
    using abort_appends[OF assms(1-6), of e1 e2 now] by blast
  obtain j where j: "journal_open s' i (r_scope (hd (store_read s' i 0 None))) None = Inr j" "j_state j = st'"
    using journal_opens[OF R(4)] .
  have "interrupt e1 e2 s' i reason' who' now' = (Inr (), s')"
    using j R(5) opened_journal(7)[OF j(1)] by (simp add: interrupt_def read_hd_cases view_aborted_def)
  with R steer_after_abort_refused[OF R(4,6,5) assms(7), of e1 e2 message entry_id now'] show ?thesis by blast
qed

lemma abort_is_recorded_once_witness:
  "\<exists>s'. interrupt id id (s_store [b_admitted, b_attempt 1]) ''run'' [] None 5 = (Inr (), s') \<and>
        interrupt id id s' ''run'' ''again'' None 6 = (Inr (), s') \<and>
        (\<exists>e. send id id s' ''run'' (Inl ''hi'') Steer ''q'' 6 = (Inl (AppendFailed e), s'))"
proof -
  let ?s = "s_store [b_admitted, b_attempt 1]"
  have "list_all valid_record (log_of [b_admitted, b_attempt 1])" by code_simp
  then have ok: "log_ok ?s ''run''" by (rule s_store_ok)
  have "case reduce (Some ''run'') None (store_read ?s ''run'' 0 None) of Inl _ \<Rightarrow> False
        | Inr st \<Rightarrow> \<not> v_settled st \<and> \<not> view_aborted st" by code_simp
  then obtain st where st: "reduce (Some ''run'') None (store_read ?s ''run'' 0 None) = Inr st" "\<not> v_settled st" "\<not> view_aborted st"
    by (auto split: sum.splits)
  show ?thesis
    using abort_is_recorded_once[OF ok st, of "[]" None Steer id id 5 "''again''" None 6 "Inl ''hi''" "''q''"]
    by (auto simp: opt_len_le_def)
qed

end
