(* ===== verification/Notify.thy ===== *)
theory Notify
  imports Dispatch Children
begin

text \<open>
  Telling a parent that a background child finished (\<open>psych_runtime/runtime/notify.py\<close>), and
  \<open>resume\<close> with the notification it owes when it abandons a Run.

  What other writers do while a call sleeps is a function of the number of rounds left (\<open>env\<close>).
  Telling a parent can abandon it, which tells its own parent: the recursion goes up the chain of
  parents and is bounded by fuel; a chain whose delegation depth falls at every step needs no more
  fuel than the depth it starts from.
\<close>

definition append_attempts :: nat where "append_attempts = 8"

text \<open>Polls of 0.05 s while at most 2 s have been waited.\<close>

definition wake_polls :: nat where "wake_polls = 41"

definition ending_of :: "child_run \<Rightarrow> run_id \<Rightarrow> run_state_view \<Rightarrow> terminal_state \<Rightarrow> subagent_finished" where
  "ending_of c i st ts =
     \<lparr>sf_child_run_id = i, sf_name = cr_name c, sf_state = ts, sf_output = v_output st, sf_failure = v_failure st,
      sf_usage = v_usage st, sf_unreported_usage_calls = v_unreported_usage_calls st, sf_cost = v_cost st,
      sf_unpriced_model_calls = v_unpriced_model_calls st\<rparr>"

text \<open>\<open>_append_finished\<close>: an error is any exception other than a conflict.\<close>

fun append_finished :: "(nat \<Rightarrow> store \<Rightarrow> store) \<Rightarrow> nat \<Rightarrow> store \<Rightarrow> run_id \<Rightarrow> run_id \<Rightarrow> run_state_view \<Rightarrow> terminal_state \<Rightarrow>
    timestamp \<Rightarrow> (journal_error + journal option) \<times> store" where
  "append_finished env 0 s parent child st ts now = (Inr None, s)"
| "append_finished env (Suc n) s parent child st ts now =
     (case journal_open s parent (v_scope st) None of
        Inl e \<Rightarrow> (Inl e, s)
      | Inr j \<Rightarrow>
          (case dict_get (v_children (j_state j)) child of
             None \<Rightarrow> (Inr None, s)
           | Some c \<Rightarrow>
               if \<not> child_alive c \<or> v_settled (j_state j) then (Inr None, s)
               else (case journal_append id id j now now (SubagentFinished (ending_of c child st ts)) (env n s) of
                       (Inl (Conflict _ _), _, s1) \<Rightarrow> append_finished env n s1 parent child st ts now
                     | (Inl e, _, s1) \<Rightarrow> (Inl e, s1)
                     | (Inr _, j1, s1) \<Rightarrow> (Inr (Some j1), s1))))"

definition waiting_on_children :: "run_state_view \<Rightarrow> bool" where
  "waiting_on_children st \<longleftrightarrow> v_suspended st \<and> v_suspend_reason st = Some Children"

text \<open>
  \<open>_wake\<close>: an error is an exception that escapes it; the last component is the parent, when waking it
  found it past its expiry and settled it.
\<close>

fun wake :: "(nat \<Rightarrow> store \<Rightarrow> store) \<Rightarrow> nat \<Rightarrow> store \<Rightarrow> run_id \<Rightarrow> timestamp \<Rightarrow>
    admission_error option \<times> store \<times> run_state_view option" where
  "wake env 0 s p now = (None, s, None)"
| "wake env (Suc n) s p now =
     (case get_run s p of
        None \<Rightarrow> (None, s, None)
      | Some h \<Rightarrow>
          if h_state h = Settled then (None, s, None)
          else if h_state h = SuspendedRun
          then (case resume_core id id s p [(''woken_by'', JStr ''subagent'')] None None now of
                  (Inl e, s1, notice) \<Rightarrow>
                    ((if e = RunNotSuspended p \<or> e = SuspensionExpired p then None else Some e), s1, notice)
                | (Inr _, s1, notice) \<Rightarrow> (None, s1, notice))
          else (case store_read s p 0 None of
                  [] \<Rightarrow> (None, s, None)
                | r # rs \<Rightarrow>
                    (case reduce None None (r # rs) of
                       Inl e \<Rightarrow> (Some (LogRefused e), s, None)
                     | Inr st \<Rightarrow> if \<not> waiting_on_children st then (None, s, None) else wake env n (env n s) p now)))"

fun notify_parent :: "nat \<Rightarrow> (nat \<Rightarrow> store \<Rightarrow> store) \<Rightarrow> store \<Rightarrow> run_id \<Rightarrow> run_state_view \<Rightarrow> timestamp \<Rightarrow>
    admission_error option \<times> store" where
  "notify_parent 0 env s i st now = (None, s)"
| "notify_parent (Suc n) env s i st now =
     (if \<not> v_settled st then (None, s)
      else case (v_terminal_state st, Option.bind (get_run s i) h_parent_run_id) of
             (Some ts, Some p) \<Rightarrow>
               (case append_finished env append_attempts s p i st ts now of
                  (Inr (Some _), s1) \<Rightarrow>
                    (case wake env wake_polls s1 p now of
                       (e, s2, None) \<Rightarrow> (e, s2)
                     | (e, s2, Some pst) \<Rightarrow> notify_parent n env s2 p pst now)
                | (_, s1) \<Rightarrow> (None, s1))
           | _ \<Rightarrow> (None, s))"

definition resume :: "nat \<Rightarrow> (nat \<Rightarrow> store \<Rightarrow> store) \<Rightarrow> store \<Rightarrow> run_id \<Rightarrow> obj \<Rightarrow> bool option \<Rightarrow> string option \<Rightarrow>
    timestamp \<Rightarrow> (admission_error + unit) \<times> store" where
  "resume fuel env s i payload approved by_whom now =
     (case resume_core id id s i payload approved by_whom now of
        (res, s1, None) \<Rightarrow> (res, s1)
      | (res, s1, Some st) \<Rightarrow>
          (case notify_parent fuel env s1 i st now of (None, s2) \<Rightarrow> (res, s2) | (Some e, s2) \<Rightarrow> (Inl e, s2)))"

section \<open>What one report writes\<close>

lemma report_appends:
  assumes "log_ok s p" and "reduce (Some p) None (store_read s p 0 None) = Inr pst" and "\<not> v_settled pst"
    and "dict_get (v_children pst) i = Some c" and "child_alive c" and "valid_body (SubagentFinished (ending_of c i st ts))"
    and "sc_tenant (v_scope st) = sc_tenant (v_scope pst)" and "valid_scope (v_scope st)"
  shows "\<exists>s' r j pst'. append_finished (\<lambda>_. id) (Suc n) s p i st ts now = (Inr (Some j), s') \<and> log_ok s' p \<and>
    store_read s' p 0 None = store_read s p 0 None @ [r] \<and> r_body r = SubagentFinished (ending_of c i st ts) \<and>
    reduce (Some p) None (store_read s' p 0 None) = Inr pst' \<and> st_runs s' = st_runs s \<and>
    v_suspended pst' = v_suspended pst \<and> v_suspend_reason pst' = v_suspend_reason pst \<and>
    v_suspend_expires_at pst' = v_suspend_expires_at pst \<and> v_settled pst' = v_settled pst"
proof -
  let ?b = "SubagentFinished (ending_of c i st ts)"
  obtain j where j: "journal_open s p (v_scope st) None = Inr j" "j_state j = pst"
    using journal_opens[OF assms(2)] .
  note o = opened_journal[OF j(1)]
  let ?r = "next_record j now ?b"
  obtain q where q: "on_subagent_finished ?r (ending_of c i st ts) (pst\<lparr>v_head_seq := r_seq ?r\<rparr>) = Inr q"
    and frame: "v_suspended q = v_suspended pst" "v_suspend_reason q = v_suspend_reason pst"
      "v_suspend_expires_at q = v_suspend_expires_at pst" "v_settled q = v_settled pst"
    using assms(4,5) by (simp add: on_subagent_finished_def ending_of_def)
  obtain s' where s': "journal_append id id j now now ?b s = (Inr ?r, j\<lparr>j_state := q\<rparr>, s')" and ok: "log_ok s' p"
    and app: "store_append s p (journal_head j + 1) ?r = Inr s'"
    and read: "store_read s' p 0 None = store_read s p 0 None @ [?r]"
    using opened_append_as[OF assms(1) j(1) assms(6,8), of now q _ id id now] assms(3,7) q j(2)
    by (auto simp: on_view_def)
  have "append_finished (\<lambda>_. id) (Suc n) s p i st ts now = (Inr (Some (j\<lparr>j_state := q\<rparr>)), s')"
    using j assms(3-5) s' by simp
  moreover have "reduce None (Some pst) [?r] = Inr q"
    by (rule reduce_one) (use o j(2) assms(3,7) q in \<open>simp_all add: next_record_def journal_head_def on_view_def\<close>)
  then have "reduce (Some p) None (store_read s' p 0 None) = Inr q"
    using reduce_continues[OF assms(2), of "[?r]"] read by (simp add: reuses_def next_record_def)
  moreover have "r_body ?r = ?b" by (simp add: next_record_def)
  ultimately show ?thesis using ok read store_append_runs[OF app] frame by blast
qed

text \<open>C13. A parent that waits on its children is woken when one of them ends: reporting an ended child appends its
  ending, with its output, usage and cost, to the parent's log, then a resume, and makes the parent's header
  runnable at once.\<close>

theorem waiting_parent_is_woken:
  assumes "log_ok s p" and "reduce (Some p) None (store_read s p 0 None) = Inr pst" and "\<not> v_settled pst"
    and "v_suspended pst" and "case v_suspend_expires_at pst of None \<Rightarrow> True | Some t \<Rightarrow> now \<le> t"
    and "dict_get (v_children pst) i = Some c" and "child_alive c"
    and "v_settled st" and "v_terminal_state st = Some ts" and "valid_body (SubagentFinished (ending_of c i st ts))"
    and "sc_tenant (v_scope st) = sc_tenant (v_scope pst)" and "valid_scope (v_scope st)"
    and "get_run s i = Some hi" and "h_parent_run_id hi = Some p"
    and "get_run s p = Some h" and "h_state h = SuspendedRun" and "h_lease_holder h \<noteq> Some resume_actor"
  shows "\<exists>s' r1 r2. notify_parent (Suc n) (\<lambda>_. id) s i st now = (None, s') \<and>
    store_read s' p 0 None = store_read s p 0 None @ [r1, r2] \<and>
    r_body r1 = SubagentFinished (ending_of c i st ts) \<and>
    r_body r2 = Resumed \<lparr>re_payload = [(''woken_by'', JStr ''subagent'')], re_approved = None, re_resumed_by = None\<rparr> \<and>
    get_run s' p = Some (h\<lparr>h_runnable_at := None, h_state := Runnable\<rparr>)"
proof -
  obtain s1 r1 j q where R: "append_finished (\<lambda>_. id) append_attempts s p i st ts now = (Inr (Some j), s1)" "log_ok s1 p"
    "store_read s1 p 0 None = store_read s p 0 None @ [r1]" "r_body r1 = SubagentFinished (ending_of c i st ts)"
    "reduce (Some p) None (store_read s1 p 0 None) = Inr q" "st_runs s1 = st_runs s"
    "v_suspended q" "v_suspend_expires_at q = v_suspend_expires_at pst" "\<not> v_settled q"
    using report_appends[OF assms(1-3,6,7,10-12), of 7 now] assms(3,4) by (auto simp: append_attempts_def eval_nat_numeral)
  have "get_run s1 p = Some h" using assms(15) R(6) by (simp add: get_run_def)
  then obtain r2 s2 where S: "resume_core id id s1 p [(''woken_by'', JStr ''subagent'')] None None now = (Inr (), s2, None)"
    "store_read s2 p 0 None = store_read s1 p 0 None @ [r2]"
    "r_body r2 = Resumed \<lparr>re_payload = [(''woken_by'', JStr ''subagent'')], re_approved = None, re_resumed_by = None\<rparr>"
    "get_run s2 p = Some (h\<lparr>h_runnable_at := None, h_state := Runnable\<rparr>)"
    using timely_resume[OF R(2,5,7,9), of now None h id id "[(''woken_by'', JStr ''subagent'')]" None] assms(5,16,17) R(8)
    by (auto simp: opt_len_le_def)
  have "wake (\<lambda>_. id) wake_polls s1 p now = (None, s2, None)"
    using \<open>get_run s1 p = Some h\<close> assms(16) S(1) by (simp add: wake_polls_def eval_nat_numeral)
  then have "notify_parent (Suc n) (\<lambda>_. id) s i st now = (None, s2)"
    using assms(8,9,13,14) R(1) by simp
  with S R(3,4) show ?thesis by auto
qed

text \<open>A Run that waits on the subagent it spawned, and the subagent's last state.\<close>

definition s_family_log :: "body list" where
  "s_family_log = [b_admitted, b_attempt 1, b_spawn ''kid'' ''helper'', b_suspend Children None]"

definition s_family :: store where
  "s_family = (s_store s_family_log)\<lparr>st_runs := [(''run'', s_header ''run'' SuspendedRun None),
     (''kid'', (s_header ''kid'' Running None)\<lparr>h_parent_run_id := Some ''run'', h_delegation_depth := 1\<rparr>)]\<rparr>"

definition s_child :: run_state_view where
  "s_child = (initial_view ''kid'' s_scope)\<lparr>v_settled := True, v_terminal_state := Some Completed\<rparr>"

lemma s_family_facts:
  "log_ok s_family ''run''"
  "\<exists>pst c. reduce (Some ''run'') None (store_read s_family ''run'' 0 None) = Inr pst \<and> \<not> v_settled pst \<and> v_suspended pst \<and>
     v_suspend_expires_at pst = Some 50 \<and> dict_get (v_children pst) ''kid'' = Some c \<and> child_alive c \<and>
     valid_body (SubagentFinished (ending_of c ''kid'' s_child Completed)) \<and>
     sc_tenant (v_scope s_child) = sc_tenant (v_scope pst)"
proof -
  have "list_all valid_record (log_of s_family_log)"
    by (simp add: log_of_def s_family_log_def rec_at_def valid_record_def s_scope_def valid_scope_def labels_are_bounded_def
          b_admitted_def b_attempt_def b_spawn_def b_suspend_def opt_len_le_def len_between_def)
  then have "log_ok (s_store s_family_log) ''run''" by (rule s_store_ok)
  then show "log_ok s_family ''run''" using log_ok_logs[of s_family "s_store s_family_log"] by (simp add: s_family_def)
  have "case reduce (Some ''run'') None (store_read s_family ''run'' 0 None) of Inl _ \<Rightarrow> False
     | Inr pst \<Rightarrow> \<not> v_settled pst \<and> v_suspended pst \<and> v_suspend_expires_at pst = Some 50 \<and>
         sc_tenant (v_scope s_child) = sc_tenant (v_scope pst) \<and>
         (case dict_get (v_children pst) ''kid'' of None \<Rightarrow> False
          | Some c \<Rightarrow> child_alive c \<and> cr_name c = ''helper'')"
    by code_simp
  moreover have "cr_name c = ''helper'' \<Longrightarrow> valid_body (SubagentFinished (ending_of c ''kid'' s_child Completed))" for c
    by (simp add: ending_of_def s_child_def initial_view_def len_between_def opt_ok_def valid_usage_zero)
  ultimately show "\<exists>pst c. reduce (Some ''run'') None (store_read s_family ''run'' 0 None) = Inr pst \<and> \<not> v_settled pst \<and> v_suspended pst \<and>
     v_suspend_expires_at pst = Some 50 \<and> dict_get (v_children pst) ''kid'' = Some c \<and> child_alive c \<and>
     valid_body (SubagentFinished (ending_of c ''kid'' s_child Completed)) \<and>
     sc_tenant (v_scope s_child) = sc_tenant (v_scope pst)"
    by (auto split: sum.splits option.splits)
qed

lemma waiting_parent_is_woken_witness:
  "\<exists>s' r1 r2. notify_parent 1 (\<lambda>_. id) s_family ''kid'' s_child 40 = (None, s') \<and>
     store_read s' ''run'' 0 None = store_read s_family ''run'' 0 None @ [r1, r2] \<and>
     map_option h_state (get_run s' ''run'') = Some Runnable"
proof -
  obtain pst c where F: "reduce (Some ''run'') None (store_read s_family ''run'' 0 None) = Inr pst" "\<not> v_settled pst" "v_suspended pst"
     "v_suspend_expires_at pst = Some 50" "dict_get (v_children pst) ''kid'' = Some c" "child_alive c"
     "valid_body (SubagentFinished (ending_of c ''kid'' s_child Completed))" "sc_tenant (v_scope s_child) = sc_tenant (v_scope pst)"
    using s_family_facts(2) by blast
  let ?hr = "s_header ''run'' SuspendedRun None"
    and ?hk = "(s_header ''kid'' Running None)\<lparr>h_parent_run_id := Some ''run'', h_delegation_depth := 1\<rparr>"
  have g: "get_run s_family ''run'' = Some ?hr" "get_run s_family ''kid'' = Some ?hk"
    by (simp_all add: s_family_def get_run_def)
  have v: "valid_scope (v_scope s_child)" by code_simp
  have h: "v_settled s_child" "v_terminal_state s_child = Some Completed" by (simp_all add: s_child_def)
  have x: "h_parent_run_id ?hk = Some ''run''" "h_state ?hr = SuspendedRun" "h_lease_holder ?hr \<noteq> Some resume_actor"
    by (simp_all add: s_header_def)
  have t: "case v_suspend_expires_at pst of None \<Rightarrow> True | Some t \<Rightarrow> (40 :: int) \<le> t" using F(4) by simp
  obtain s' r1 r2 where "notify_parent (Suc 0) (\<lambda>_. id) s_family ''kid'' s_child 40 = (None, s')"
     "store_read s' ''run'' 0 None = store_read s_family ''run'' 0 None @ [r1, r2]"
     "get_run s' ''run'' = Some (?hr\<lparr>h_runnable_at := None, h_state := Runnable\<rparr>)"
    using waiting_parent_is_woken[OF s_family_facts(1) F(1-3) t F(5,6) h F(7,8) v g(2) x(1) g(1) x(2,3), of 0] by blast
  then show ?thesis by (auto simp del: notify_parent.simps)
qed

section \<open>Once\<close>

lemma ended_child_is_not_alive:
  assumes "reduce rid None rs = Inr v" and "r \<in> set rs" and "r_body r = SubagentFinished b"
  shows "case dict_get (v_children v) (sf_child_run_id b) of None \<Rightarrow> True | Some c \<Rightarrow> \<not> child_alive c"
proof -
  obtain cx where J: "children_match rs (v, cx)"
    using reduce_history[OF children.fold_history_axioms children_match_fresh assms(1)] by auto
  note D = children_matchD[OF J]
  have "(sf_child_run_id b, b) \<in> set (child_ends rs)"
    using assms(2,3) by (force simp: child_ends_def set_map_filter_iff)
  then obtain b' where b': "dict_get (child_ends rs) (sf_child_run_id b) = Some b'"
    using D(3) by (simp add: map_of_is_SomeI)
  show ?thesis
  proof (cases "dict_get (v_children v) (sf_child_run_id b)")
    case (Some c)
    with D(6)[of "sf_child_run_id b" c] b' show ?thesis
      by (auto simp: child_matches_def ended_as_def child_alive_def)
  qed simp
qed

text \<open>A child's ending is reported once: after a report has written it, whatever other writers append, every
  further report of that child to that parent writes nothing.\<close>

theorem child_ending_is_reported_once:
  assumes "store_read s p 0 None = xs @ r # ys" and "r_body r = SubagentFinished (ending_of c i st ts)"
  shows "snd (append_finished env (Suc n) s p i st' ts' now) = s \<and>
         (\<forall>j. fst (append_finished env (Suc n) s p i st' ts' now) \<noteq> Inr (Some j))"
proof (cases "journal_open s p (v_scope st') None")
  case (Inr j)
  note o = opened_journal[OF Inr]
  have "r \<in> set (store_read s p 0 None)" using assms(1) by simp
  from ended_child_is_not_alive[OF o(3) this assms(2)] Inr show ?thesis
    by (auto simp: ending_of_def split: option.splits)
qed simp

lemma child_ending_is_reported_once_witness:
  "\<exists>s1 r. append_finished (\<lambda>_. id) 1 s_family ''run'' ''kid'' s_child Completed 40 = (Inr r, s1) \<and> r \<noteq> None \<and>
          snd (append_finished (\<lambda>_. id) 1 s1 ''run'' ''kid'' s_child Completed 41) = s1"
proof -
  obtain pst c where F: "reduce (Some ''run'') None (store_read s_family ''run'' 0 None) = Inr pst" "\<not> v_settled pst" "v_suspended pst"
     "v_suspend_expires_at pst = Some 50" "dict_get (v_children pst) ''kid'' = Some c" "child_alive c"
     "valid_body (SubagentFinished (ending_of c ''kid'' s_child Completed))" "sc_tenant (v_scope s_child) = sc_tenant (v_scope pst)"
    using s_family_facts(2) by blast
  have "valid_scope (v_scope s_child)" by code_simp
  then obtain s1 r j where R: "append_finished (\<lambda>_. id) (Suc 0) s_family ''run'' ''kid'' s_child Completed 40 = (Inr (Some j), s1)"
    "store_read s1 ''run'' 0 None = store_read s_family ''run'' 0 None @ [r]" "r_body r = SubagentFinished (ending_of c ''kid'' s_child Completed)"
    using report_appends[OF s_family_facts(1) F(1,2,5,6,7,8), of 0 40] by blast
  have "store_read s1 ''run'' 0 None = store_read s_family ''run'' 0 None @ r # []" using R(2) by simp
  from child_ending_is_reported_once[OF this R(3), of "\<lambda>_. id" 0 s_child Completed 41] R(1) show ?thesis by auto
qed

section \<open>The chain of parents\<close>

definition lineage :: "store \<Rightarrow> run_id \<Rightarrow> (run_id option \<times> int) option" where
  "lineage s i = map_option (\<lambda>h. (h_parent_run_id h, h_delegation_depth h)) (get_run s i)"

text \<open>Delegation only deepens: a parent sits above its child.\<close>

definition descending :: "(run_id \<Rightarrow> (run_id option \<times> int) option) \<Rightarrow> bool" where
  "descending l \<longleftrightarrow> (\<forall>i p d q e. l i = Some (Some p, d) \<longrightarrow> l p = Some (q, e) \<longrightarrow> 0 \<le> e \<and> e < d)"

lemma append_once_lineage: "append_once j now b s = (x, j', s') \<Longrightarrow> lineage s' = lineage s"
  by (auto simp: append_once_def Let_def lineage_def[abs_def] get_run_def dest!: store_append_runs split: if_splits sum.splits)

lemma journal_append_lineage:
  assumes "journal_append id id j now now' b s = (x, j', s')"
  shows "lineage s' = lineage s"
  using assms by (cases rule: journal_append_cases) (auto dest: append_once_lineage)

lemma release_lineage [simp]: "lineage (release s i w st) = lineage s"
  by (auto simp: lineage_def[abs_def] release_def get_run_def fun_eq_iff split: option.splits)

lemma set_runnable_at_lineage: "set_runnable_at s i t = Inr s' \<Longrightarrow> lineage s' = lineage s"
  by (auto simp: lineage_def[abs_def] set_runnable_at_def get_run_def fun_eq_iff split: option.splits if_splits)

lemma resume_core_lineage:
  assumes "resume_core id id s i payload approved who now = (x, s', n)"
  shows "lineage s' = lineage s"
  using assms
  by (auto simp: resume_core_def split: list.splits sum.splits journal_error.splits if_splits prod.splits option.splits
           dest!: journal_append_lineage set_runnable_at_lineage)

lemma append_finished_lineage:
  assumes "\<And>n s. lineage (env n s) = lineage s" and "append_finished env n s p i st ts now = (x, s')"
  shows "lineage s' = lineage s"
  using assms(2)
  by (induction n arbitrary: s)
     (auto split: sum.splits option.splits if_splits prod.splits journal_error.splits dest!: journal_append_lineage simp: assms(1))

lemma wake_lineage:
  assumes "\<And>n s. lineage (env n s) = lineage s" and "wake env n s p now = (e, s', x)"
  shows "lineage s' = lineage s \<and> (x \<noteq> None \<longrightarrow> lineage s p \<noteq> None)"
  using assms(2)
proof (induction n arbitrary: s)
  case (Suc n)
  then show ?case
    using assms(1)
    by (auto split: sum.splits option.splits if_splits prod.splits list.splits dest!: resume_core_lineage)
       (auto simp: lineage_def)
qed simp

text \<open>Telling the chain of parents ends: when delegation depths fall towards the root, a depth's worth of fuel
  gives the result that any more fuel gives.\<close>

theorem notification_ends_at_the_root:
  assumes "\<And>n s. lineage (env n s) = lineage s" and "descending (lineage s)"
    and "lineage s i = Some (q, d)" and "nat d < n"
  shows "notify_parent (n + m) env s i st now = notify_parent n env s i st now"
  using assms(2-4)
proof (induction n arbitrary: s i q d st)
  case (Suc n)
  show ?case
  proof (cases "\<exists>ts p j s1 e s2 pst. v_settled st \<and> v_terminal_state st = Some ts \<and> q = Some p \<and>
      append_finished env append_attempts s p i st ts now = (Inr (Some j), s1) \<and> wake env wake_polls s1 p now = (e, s2, Some pst)")
    case True
    then obtain ts p j s1 e s2 pst where a: "v_settled st" "v_terminal_state st = Some ts" "q = Some p"
      "append_finished env append_attempts s p i st ts now = (Inr (Some j), s1)" "wake env wake_polls s1 p now = (e, s2, Some pst)"
      by blast
    have l: "lineage s2 = lineage s" "lineage s p \<noteq> None"
      using append_finished_lineage[OF assms(1) a(4)] wake_lineage[OF assms(1) a(5)] by simp_all
    then obtain q' d' where p: "lineage s p = Some (q', d')" by (metis option.exhaust surj_pair)
    then have "0 \<le> d'" "d' < d" using Suc.prems(1,2) a(3) by (auto simp: descending_def)
    then have "nat d' < n" using Suc.prems(3) by simp
    have "Option.bind (get_run s i) h_parent_run_id = Some p"
      using Suc.prems(2) a(3) by (auto simp: lineage_def)
    then show ?thesis
      using a Suc.IH[of s2 p q' d' pst] Suc.prems(1) l p \<open>nat d' < n\<close> by simp
  next
    case False
    have "Option.bind (get_run s i) h_parent_run_id = q"
      using Suc.prems(2) by (auto simp: lineage_def)
    with False show ?thesis by (auto split: option.splits sum.splits prod.splits)
  qed
qed simp

lemma notification_ends_at_the_root_witness:
  "notify_parent (2 + 5) (\<lambda>_. id) s_family ''kid'' s_child 40 = notify_parent 2 (\<lambda>_. id) s_family ''kid'' s_child 40"
proof (rule notification_ends_at_the_root)
  show "lineage (id s) = lineage s" for s by simp
  show "descending (lineage s_family)"
    by (auto simp: descending_def lineage_def get_run_def s_family_def s_header_def split: if_splits)
  show "lineage s_family ''kid'' = Some (Some ''run'', 1)"
    by (simp add: lineage_def get_run_def s_family_def)
qed simp

end
