(* ===== verification/Worker.thy ===== *)
theory Worker
  imports Notify ToolCalls
begin

text \<open>
  The Worker (\<open>psych_runtime/runtime/worker.py\<close>) and its abort signal (\<open>psych_runtime/runtime/abort.py\<close>):
  claiming, the life of an Attempt, heartbeats, the supervisor's pass and force-settlement. What
  executes a Run is an argument (the code injects it); the wall clock, the monotonic clock, the fresh
  ids and the notifier's environment are arguments too.

  Shown: force-settlement closes every open tool call as unknown, then settles the log and the header;
  the supervisor force-settles only a grace period after it signalled; which reason an abort signal
  keeps; a released Run's header says what its log says.
\<close>

section \<open>The abort signal\<close>

datatype abort_reason = DeadlinePassed | Shutdown | LeaseLost

record abort_signal =
  sg_set :: bool
  sg_reason :: "abort_reason option"

definition new_signal :: abort_signal where
  "new_signal = \<lparr>sg_set = False, sg_reason = None\<rparr>"

definition fire :: "abort_reason \<Rightarrow> abort_signal \<Rightarrow> abort_signal" where
  "fire reason sg = sg\<lparr>sg_reason := (case sg_reason sg of None \<Rightarrow> Some reason | Some x \<Rightarrow> Some x), sg_set := True\<rparr>"

definition writes_allowed :: "abort_signal \<Rightarrow> bool" where
  "writes_allowed sg \<longleftrightarrow> sg_reason sg \<noteq> Some LeaseLost"

section \<open>State\<close>

record active_attempt =
  aa_run_id :: run_id
  aa_attempt_id :: attempt_id
  aa_scope :: scope
  aa_deadline_at :: timestamp
  aa_abort :: abort_signal
  aa_aborted_at :: "int option"

text \<open>Durations are microseconds; an active attempt's fiber is its entry here.\<close>

record worker =
  w_id :: worker_id
  w_lease_us :: int
  w_grace_us :: int
  w_max_attempts :: int
  w_active :: "(run_id, active_attempt) dict"
  w_stopping :: bool

definition fire_active :: "abort_reason \<Rightarrow> run_id \<Rightarrow> worker \<Rightarrow> worker" where
  "fire_active reason i w =
     (case dict_get (w_active w) i of
        None \<Rightarrow> w
      | Some a \<Rightarrow> w\<lparr>w_active := dict_put i (a\<lparr>aa_abort := fire reason (aa_abort a)\<rparr>) (w_active w)\<rparr>)"

definition stop :: "worker \<Rightarrow> worker" where
  "stop w = w\<lparr>w_stopping := True,
     w_active := map (\<lambda>(i, a). (i, a\<lparr>aa_abort := fire Shutdown (aa_abort a)\<rparr>)) (w_active w)\<rparr>"

text \<open>Where the parent of a settled Run is told, and by what environment.\<close>

type_synonym notifier = "store \<Rightarrow> run_id \<Rightarrow> run_state_view \<Rightarrow> admission_error option \<times> store"

text \<open>What can escape a call of the Worker.\<close>

datatype worker_error = JournalError journal_error | NotifyError admission_error

section \<open>Failing and force-settling\<close>

definition settlement :: "terminal_state \<Rightarrow> attempt_id option \<Rightarrow> tool_failure \<Rightarrow> body" where
  "settlement ts orphan f = RunSettled \<lparr>rs_state = ts, rs_output = None, rs_failure = Some f, rs_orphaned_attempt_id = orphan\<rparr>"

definition fail_exhausted :: "notifier \<Rightarrow> worker \<Rightarrow> run_header \<Rightarrow> timestamp \<Rightarrow> store \<Rightarrow> (worker_error option) \<times> store" where
  "fail_exhausted tell w h now s =
     (case journal_open s (h_run_id h) (h_scope h) None of
        Inl e \<Rightarrow> (Some (JournalError e), s)
      | Inr j \<Rightarrow>
          let msg = ''This run was claimed '' @ int_str (h_attempt_count h) @ '' times without '' @
                    ''completing, which is past the limit of '' @ int_str (w_max_attempts w) @ ''. '' @
                    ''It is being failed rather than reclaimed again, because a run '' @
                    ''that keeps killing its worker will keep killing workers.'';
              (res, j1, s1) =
                (if v_settled (j_state j) then (None, j, s)
                 else case journal_append id id j now now (settlement Failed None (guided_failure ''attempts_exhausted'' msg)) s of
                        (Inl e, j1, s1) \<Rightarrow> (Some (JournalError e), j1, s1) | (Inr _, j1, s1) \<Rightarrow> (None, j1, s1))
          in case res of
               Some e \<Rightarrow> (Some e, s1)
             | None \<Rightarrow>
                 (case tell s1 (h_run_id h) (j_state j1) of
                    (Some e, s2) \<Rightarrow> (Some (NotifyError e), s2)
                  | (None, s2) \<Rightarrow> (None, release s2 (h_run_id h) (w_id w) Settled)))"

definition orphaned_result :: "call_id \<Rightarrow> body" where
  "orphaned_result c = ToolCallFinished
     \<lparr>tcf_call_id = c, tcf_outcome = OutcomeUnknown, tcf_result = JNull,
      tcf_failure = Some (guided_failure ''orphaned''
        (''The run was force-settled while this call was in flight. '' @ ''Whether it took effect is unknown.'')),
      tcf_duration_seconds = 0, tcf_result_handle = None, tcf_preview = None, tcf_result_bytes = 0,
      tcf_result_blob_key = None, tcf_result_content_type = None, tcf_attachments = []\<rparr>"

text \<open>\<open>f"{seconds:.0f}"\<close>: half a second rounds to the even neighbour.\<close>

definition whole_seconds :: "int \<Rightarrow> int" where
  "whole_seconds us =
     (let q = us div 1000000; r = us mod 1000000
      in if r > 500000 \<or> (r = 500000 \<and> odd q) then q + 1 else q)"

definition force_settlement :: "worker \<Rightarrow> active_attempt \<Rightarrow> body" where
  "force_settlement w a = settlement ForceSettled (Some (aa_attempt_id a))
     (guided_failure ''force_settled''
       (''This run passed its deadline and did not unwind within the '' @ int_str (whole_seconds (w_grace_us w)) @
        '' second grace period, so a terminal '' @ ''record was written over it and the work was orphaned.''))"

definition force_settle :: "notifier \<Rightarrow> worker \<Rightarrow> active_attempt \<Rightarrow> timestamp \<Rightarrow> store \<Rightarrow>
    (worker_error option) \<times> worker \<times> store" where
  "force_settle tell w a now s =
     (case journal_open s (aa_run_id a) (aa_scope a) (Some (aa_attempt_id a)) of
        Inl e \<Rightarrow> (Some (JournalError e), w, s)
      | Inr j \<Rightarrow>
          let (res, j1, s1) =
            (if v_settled (j_state j) then (Inr [], j, s)
             else append_all j now (map (\<lambda>kv. orphaned_result (oc_call_id (snd kv))) (v_open_tool_calls (j_state j)) @ [force_settlement w a]) s)
          in case res of
               Inl e \<Rightarrow> (Some (JournalError e), w, s1)
             | Inr _ \<Rightarrow>
                 (case tell s1 (aa_run_id a) (j_state j1) of
                    (Some e, s2) \<Rightarrow> (Some (NotifyError e), w, s2)
                  | (None, s2) \<Rightarrow>
                      (None, w\<lparr>w_active := dict_del (aa_run_id a) (w_active w)\<rparr>, release s2 (aa_run_id a) (w_id w) Settled)))"

section \<open>Claiming\<close>

definition claim_one :: "notifier \<Rightarrow> worker \<Rightarrow> timestamp \<Rightarrow> attempt_id \<Rightarrow> store \<Rightarrow>
    (worker_error + bool) \<times> worker \<times> store" where
  "claim_one tell w now att s =
     (case claim s (w_id w) now (w_lease_us w) of
        (None, s1) \<Rightarrow> (Inr False, w, s1)
      | (Some i, s1) \<Rightarrow>
          (case get_run s1 i of
             None \<Rightarrow> (Inr False, w, release s1 i (w_id w) Settled)
           | Some h \<Rightarrow>
               if h_attempt_count h > w_max_attempts w
               then (case fail_exhausted tell w h now s1 of
                       (Some e, s2) \<Rightarrow> (Inl e, w, s2) | (None, s2) \<Rightarrow> (Inr False, w, s2))
               else (Inr True, w\<lparr>w_active := dict_put i
                       \<lparr>aa_run_id = i, aa_attempt_id = att, aa_scope = h_scope h, aa_deadline_at = h_deadline_at h,
                        aa_abort = new_signal, aa_aborted_at = None\<rparr> (w_active w)\<rparr>, s1)))"

section \<open>The Attempt\<close>

text \<open>The texts of the Journal's own exceptions are not kept.\<close>

datatype attempt_error =
    LostLease
  | OtherWriter
  | CorruptedLog
  | Cancelled
  | Raised string string

fun attempt_error_of :: "journal_error \<Rightarrow> attempt_error" where
  "attempt_error_of (Conflict _ _) = OtherWriter"
| "attempt_error_of (Refused (CorruptLog _ _ _)) = CorruptedLog"
| "attempt_error_of (Refused ValueError) = Raised ''ValueError'' []"
| "attempt_error_of InvalidRecord = Raised ''ValidationError'' []"

text \<open>\<open>_settle_failure\<close>: best effort, so whatever it raises is dropped.\<close>

definition settle_failure :: "notifier \<Rightarrow> active_attempt \<Rightarrow> string \<Rightarrow> string \<Rightarrow> timestamp \<Rightarrow> store \<Rightarrow> store" where
  "settle_failure tell a described tb now s =
     (case journal_open s (aa_run_id a) (aa_scope a) (Some (aa_attempt_id a)) of
        Inl _ \<Rightarrow> s
      | Inr j \<Rightarrow>
          if v_settled (j_state j) then s
          else (case journal_append id id j now now
                   (settlement Failed None
                     ((guided_failure ''attempt_failed''
                        (''The attempt raised before it could settle the run: '' @ described))
                      \<lparr>tf_traceback := Some (clamped (trim_traceback tb) 65536)\<rparr>)) s of
                  (Inl _, _, s1) \<Rightarrow> s1
                | (Inr _, j1, s1) \<Rightarrow> snd (tell s1 (aa_run_id a) (j_state j1))))"

fun release_state :: "run_state_view \<Rightarrow> run_state" where
  "release_state st =
     (if v_settled st then Settled
      else if v_suspended st \<and> v_suspend_reason st = Some Timer then Runnable
      else if v_suspended st then SuspendedRun
      else Runnable)"

definition release_attempt :: "worker \<Rightarrow> active_attempt \<Rightarrow> abort_signal \<Rightarrow> store \<Rightarrow> store" where
  "release_attempt w a sg s =
     (if sg_reason sg = Some LeaseLost then s
      else case reduce None None (store_read s (aa_run_id a) 0 None) of
             Inl _ \<Rightarrow> s
           | Inr st \<Rightarrow> release s (aa_run_id a) (w_id w) (release_state st))"

text \<open>
  \<open>_attempt\<close>. The runner returns what it raised, if anything, and the store it leaves; \<open>sg\<close> is the
  abort signal as the fiber finds it in its \<open>finally\<close> block.
\<close>

definition attempt_body :: "(journal \<Rightarrow> run_header \<Rightarrow> store \<Rightarrow> attempt_error option \<times> store) \<Rightarrow> worker \<Rightarrow> active_attempt \<Rightarrow>
    run_header \<Rightarrow> timestamp \<Rightarrow> store \<Rightarrow> attempt_error option \<times> store" where
  "attempt_body runner w a h now s =
     (case journal_open s (aa_run_id a) (aa_scope a) (Some (aa_attempt_id a)) of
        Inl e \<Rightarrow> (Some (attempt_error_of e), s)
      | Inr j \<Rightarrow>
          if v_settled (j_state j) then (None, s)
          else (case journal_append id id j now now (AttemptStarted
                   \<lparr>as_worker_id = w_id w, as_attempt_number = v_attempt_count (j_state j) + 1,
                    as_reclaimed_expired_lease = (h_attempt_count h > 1 \<and> \<not> v_resumed_since_attempt (j_state j))\<rparr>) s of
                  (Inl e, _, s1) \<Rightarrow> (Some (attempt_error_of e), s1)
                | (Inr _, j1, s1) \<Rightarrow> runner j1 h s1))"

definition attempt :: "notifier \<Rightarrow> (journal \<Rightarrow> run_header \<Rightarrow> store \<Rightarrow> attempt_error option \<times> store) \<Rightarrow> worker \<Rightarrow>
    active_attempt \<Rightarrow> abort_signal \<Rightarrow> run_header \<Rightarrow> timestamp \<Rightarrow> store \<Rightarrow> worker \<times> store" where
  "attempt tell runner w a sg h now s =
     (case attempt_body runner w a h now s of (err, s1) \<Rightarrow>
        let s2 = (case err of
                    Some CorruptedLog \<Rightarrow> release s1 (aa_run_id a) (w_id w) Settled
                  | Some (Raised described tb) \<Rightarrow> settle_failure tell a described tb now s1
                  | _ \<Rightarrow> s1)
        in (w\<lparr>w_active := dict_del (aa_run_id a) (w_active w)\<rparr>, release_attempt w a sg s2))"

text \<open>One beat of the heartbeat; a store that fails to answer is a beat that does not happen.\<close>

definition heartbeat :: "worker \<Rightarrow> active_attempt \<Rightarrow> timestamp \<Rightarrow> store \<Rightarrow> worker \<times> store" where
  "heartbeat w a now s =
     (case renew s (aa_run_id a) (w_id w) now (w_lease_us w) of
        (True, s1) \<Rightarrow> (w, s1)
      | (False, s1) \<Rightarrow> (fire_active LeaseLost (aa_run_id a) w, s1))"

section \<open>Supervision\<close>

text \<open>What a pass does about one attempt: signal it, force-settle it, or leave it.\<close>

datatype verdict = Leave | Signal | ForceSettle

definition judge :: "worker \<Rightarrow> timestamp \<Rightarrow> int \<Rightarrow> active_attempt \<Rightarrow> verdict" where
  "judge w now clock a =
     (case aa_aborted_at a of
        None \<Rightarrow> if now \<ge> aa_deadline_at a then Signal else Leave
      | Some t \<Rightarrow> if clock - t \<ge> w_grace_us w then ForceSettle else Leave)"

definition supervise_one :: "notifier \<Rightarrow> timestamp \<Rightarrow> int \<Rightarrow> active_attempt \<Rightarrow> worker \<Rightarrow> store \<Rightarrow>
    (worker_error option) \<times> worker \<times> store" where
  "supervise_one tell now clock a w s =
     (case judge w now clock a of
        Leave \<Rightarrow> (None, w, s)
      | Signal \<Rightarrow> (None, w\<lparr>w_active := dict_put (aa_run_id a)
                     (a\<lparr>aa_aborted_at := Some clock, aa_abort := fire DeadlinePassed (aa_abort a)\<rparr>) (w_active w)\<rparr>, s)
      | ForceSettle \<Rightarrow> force_settle tell w a now s)"

text \<open>A pass that raises stops there; supervision goes on with the next pass.\<close>

fun supervise :: "notifier \<Rightarrow> timestamp \<Rightarrow> int \<Rightarrow> active_attempt list \<Rightarrow> worker \<Rightarrow> store \<Rightarrow> (worker_error option) \<times> worker \<times> store" where
  "supervise tell now clock [] w s = (None, w, s)"
| "supervise tell now clock (a # as) w s =
     (case supervise_one tell now clock a w s of
        (Some e, w1, s1) \<Rightarrow> (Some e, w1, s1)
      | (None, w1, s1) \<Rightarrow> supervise tell now clock as w1 s1)"

definition supervisor_pass :: "notifier \<Rightarrow> timestamp \<Rightarrow> int \<Rightarrow> worker \<Rightarrow> store \<Rightarrow> (worker_error option) \<times> worker \<times> store" where
  "supervisor_pass tell now clock w s = supervise tell now clock (map snd (w_active w)) w s"

section \<open>Sweeps\<close>

definition sweep_expired :: "store \<Rightarrow> timestamp \<Rightarrow> nat \<Rightarrow> nat" where
  "sweep_expired s now limit = length (expired_leases s now limit)"

definition fire_overdue_one :: "timestamp \<Rightarrow> run_header \<Rightarrow> nat \<times> store \<Rightarrow> nat \<times> store" where
  "fire_overdue_one now h acc =
     (case acc of (fired, s) \<Rightarrow>
        (case journal_open s (h_run_id h) (h_scope h) None of
           Inl _ \<Rightarrow> (fired, s)
         | Inr j \<Rightarrow>
             if v_settled (j_state j) \<or> view_aborted (j_state j) then (fired, s)
             else (case journal_append id id j now now
                      (AbortRequested \<lparr>ab_reason = ''the run passed its deadline of '' @ iso_utc (h_deadline_at h) @
                         '' while no worker held it'', ab_requested_by = None\<rparr>) s of
                     (Inl _, _, s1) \<Rightarrow> (fired, s1)
                   | (Inr _, _, s1) \<Rightarrow> (fired + 1, s1))))"

definition fire_overdue_deadlines :: "store \<Rightarrow> timestamp \<Rightarrow> nat \<Rightarrow> nat \<times> store" where
  "fire_overdue_deadlines s now limit = fold (fire_overdue_one now) (overdue_deadlines s now limit) (0, s)"

definition lease_deadline :: "timestamp \<Rightarrow> int \<Rightarrow> timestamp" where
  "lease_deadline now lease_us = now + lease_us"

section \<open>Open calls\<close>

definition open_keyed :: "(call_id, open_tool_call) dict \<Rightarrow> bool" where
  "open_keyed d \<longleftrightarrow> (\<forall>kv \<in> set d. oc_call_id (snd kv) = fst kv)"

lemma open_keyed_dict: "open_keyed [] \<and> (open_keyed d \<longrightarrow> oc_call_id oc = k \<longrightarrow> open_keyed (dict_put k oc d)) \<and>
    (open_keyed d \<longrightarrow> open_keyed (dict_del k d))"
proof -
  have "set (dict_put k oc d) \<subseteq> insert (k, oc) (set d)" for k :: call_id and oc d
    by (induction d) auto
  moreover have "set (dict_del k d) \<subseteq> set d" by (auto simp: AList.delete_eq)
  ultimately show ?thesis unfolding open_keyed_def by fastforce
qed

lemma apply_open_keyed:
  "apply_body r b (st, cx) = Inr (st', cx') \<Longrightarrow> open_keyed (v_open_tool_calls st) \<Longrightarrow> open_keyed (v_open_tool_calls st')"
  by (cases b)
     (auto simp: op_defs Let_def remove_entry_def open_keyed_dict split: if_splits option.splits sum.splits)

interpretation open_calls: fold_invariant fold_step "\<lambda>s. open_keyed (v_open_tool_calls (fst s))"
proof
  fix s r s'
  assume "open_keyed (v_open_tool_calls (fst s))" and "fold_step s r = Inr s'"
  then show "open_keyed (v_open_tool_calls (fst s'))"
    by (cases s; cases s') (auto simp: fold_step_Inr_iff bump_def dest: apply_open_keyed)
qed

lemma reduce_open_calls:
  assumes "reduce rid None rs = Inr v"
  shows "map (\<lambda>kv. oc_call_id (snd kv)) (v_open_tool_calls v) = map fst (v_open_tool_calls v)"
    and "distinct (map fst (v_open_tool_calls v))"
proof -
  from assms obtain cx where f: "fold_log fold_step (fresh_state rid (hd rs)) rs = Inr (v, cx)"
    by (auto simp: reduce_whole_Inr_iff)
  have "open_keyed (v_open_tool_calls (fst (fresh_state rid (hd rs))))"
    by (simp add: initial_view_def open_keyed_def)
  from open_calls.fold_keeps[OF this f] show "map (\<lambda>kv. oc_call_id (snd kv)) (v_open_tool_calls v) = map fst (v_open_tool_calls v)"
    by (simp add: open_keyed_def)
  obtain cx' where "ledger_matches rs (ledger_of (v, cx'))" using reduce_ledger[OF assms] .
  then show "distinct (map fst (v_open_tool_calls v))" by (simp add: ledger_matches_def ledger_of_def)
qed

section \<open>Force-settlement\<close>

lemma valid_guided_failure: "1 \<le> length kind \<Longrightarrow> length kind \<le> 128 \<Longrightarrow> valid_tool_failure (guided_failure kind msg)"
  by (simp add: guided_failure_def valid_tool_failure_def)

lemma valid_orphaned_result: "valid_body (orphaned_result c)"
  by (simp add: orphaned_result_def opt_ok_def valid_guided_failure offload_fields_are_consistent_def)

lemma valid_settlement: "valid_tool_failure f \<Longrightarrow> valid_body (settlement ts orphan f)"
  by (simp add: settlement_def opt_ok_def)

lemma orphan_accepted:
  assumes "map fst (v_open_tool_calls st) = c # cs" and "distinct (c # cs)"
  shows "\<exists>p cx'. apply_body r (orphaned_result c) (st, cx) = Inr (p, cx') \<and> map fst (v_open_tool_calls p) = cs \<and>
           v_scope p = v_scope st \<and> v_settled p = v_settled st"
proof -
  have "c \<in> dict_keys (v_open_tool_calls st)" unfolding set_map[symmetric] assms(1) by simp
  then obtain oc where oc: "dict_get (v_open_tool_calls st) c = Some oc"
    using dict_get_None_iff[of "v_open_tool_calls st" c] by (cases "dict_get (v_open_tool_calls st) c") auto
  then obtain p cx' where a: "apply_body r (orphaned_result c) (st, cx) = Inr (p, cx')"
    by (simp add: orphaned_result_def on_tool_call_finished_def Let_def)
  have "map fst (v_open_tool_calls p) = removeAll c (map fst (v_open_tool_calls st))"
    using apply_ledger[OF a] by (simp add: ledger_of_def ledger_step_def orphaned_result_def)
  with assms have "map fst (v_open_tool_calls p) = cs" by simp
  moreover have "v_settled p = v_settled st" using apply_settled[OF a] by (simp add: orphaned_result_def is_run_settled_def)
  ultimately show ?thesis using a apply_address[OF a] by blast
qed

lemma append_all_step:
  assumes "journal_append id id j now now b s = (Inr r, j1, s1)" and "append_all j1 now bs s1 = (Inr rs, j2, s2)"
  shows "append_all j now (b # bs) s = (Inr (r # rs), j2, s2)"
  using assms by simp

lemma settle_appends:
  assumes "log_ok s i" and j: "journal_open s i sc att = Inr j" and "valid_scope sc"
    and "sc_tenant sc = sc_tenant (v_scope (j_state j))" and "valid_body (settlement ts orphan f)"
  shows "\<exists>r j' s'. journal_append id id j now now (settlement ts orphan f) s = (Inr r, j', s') \<and> r_body r = settlement ts orphan f \<and>
    store_read s' i 0 None = store_read s i 0 None @ [r] \<and> log_ok s' i \<and> journal_open s' i sc att = Inr j' \<and>
    v_open_tool_calls (j_state j') = v_open_tool_calls (j_state j) \<and> v_settled (j_state j') \<and>
    v_terminal_state (j_state j') = Some ts \<and> st_runs s' = st_runs s"
proof -
  let ?b = "settlement ts orphan f" and ?st = "j_state j"
  let ?p = "?st\<lparr>v_head_seq := journal_head j + 1, v_settled := True, v_terminal_state := Some ts, v_output := None,
       v_failure := Some f, v_turn_open := False, v_model_call_open := False\<rparr>"
  obtain s' where "journal_append id id j now now ?b s = (Inr (next_record j now ?b), j\<lparr>j_state := ?p\<rparr>, s')"
    "log_ok s' i" and a: "store_append s i (journal_head j + 1) (next_record j now ?b) = Inr s'"
    "store_read s' i 0 None = store_read s i 0 None @ [next_record j now ?b]" "journal_open s' i sc att = Inr (j\<lparr>j_state := ?p\<rparr>)"
    using opened_append_as[OF assms(1) j assms(5,3,4), of now ?p _ id id now]
    by (auto simp: settlement_def on_view_def on_run_settled_def next_record_def journal_head_def is_run_settled_def)
  moreover have "r_body (next_record j now ?b) = ?b" by (simp add: next_record_def)
  ultimately show ?thesis using store_append_runs[OF a(1)]
    by (intro exI[of _ "next_record j now ?b"] exI[of _ "j\<lparr>j_state := ?p\<rparr>"] exI[of _ s']) auto
qed

lemma close_calls:
  assumes "valid_scope sc" and b: "b = settlement ts orphan f" "valid_body b"
    and "log_ok s i" and "journal_open s i sc att = Inr j" and "sc_tenant sc = sc_tenant (v_scope (j_state j))"
    and "\<not> v_settled (j_state j)" and "distinct cs" and "map fst (v_open_tool_calls (j_state j)) = cs"
  shows "\<exists>rs j' s'. append_all j now (map orphaned_result cs @ [b]) s = (Inr rs, j', s') \<and>
    map r_body rs = map orphaned_result cs @ [b] \<and> store_read s' i 0 None = store_read s i 0 None @ rs \<and> log_ok s' i \<and>
    journal_open s' i sc att = Inr j' \<and> v_open_tool_calls (j_state j') = [] \<and> v_settled (j_state j') \<and>
    v_terminal_state (j_state j') = Some ts \<and> st_runs s' = st_runs s"
  using assms(4-9)
proof (induction cs arbitrary: s j)
  case Nil
  obtain r j' s' where "journal_append id id j now now b s = (Inr r, j', s')" "r_body r = b"
    "store_read s' i 0 None = store_read s i 0 None @ [r]" "log_ok s' i" "journal_open s' i sc att = Inr j'"
    "v_open_tool_calls (j_state j') = v_open_tool_calls (j_state j)" "v_settled (j_state j')"
    "v_terminal_state (j_state j') = Some ts" "st_runs s' = st_runs s"
    using settle_appends[OF Nil.prems(1,2) assms(1) Nil.prems(3), of ts orphan f now] b by blast
  then show ?case using Nil.prems(6) by (intro exI[of _ "[r]"] exI[of _ j'] exI[of _ s']) simp
next
  case (Cons c cs)
  let ?b = "orphaned_result c" and ?st = "j_state j"
  let ?r = "next_record j now ?b"
  obtain p cx' where p: "apply_body ?r ?b (?st\<lparr>v_head_seq := r_seq ?r\<rparr>, (ctx_of ?st (journal_head j + 1))\<lparr>fc_expected_seq := r_seq ?r + 1\<rparr>) = Inr (p, cx')"
    "map fst (v_open_tool_calls p) = cs" "v_scope p = v_scope ?st" "v_settled p = v_settled ?st"
    using orphan_accepted[of "?st\<lparr>v_head_seq := r_seq ?r\<rparr>" c cs ?r "(ctx_of ?st (journal_head j + 1))\<lparr>fc_expected_seq := r_seq ?r + 1\<rparr>"]
      Cons.prems(5,6) by auto
  have "\<exists>s1. journal_append id id j now now ?b s = (Inr ?r, j\<lparr>j_state := p\<rparr>, s1) \<and> log_ok s1 i \<and>
     store_append s i (journal_head j + 1) ?r = Inr s1 \<and> store_read s1 i 0 None = store_read s i 0 None @ [?r] \<and>
     ((\<forall>q. ?b \<noteq> QueueEnqueued q) \<longrightarrow> journal_open s1 i sc att = Inr (j\<lparr>j_state := p\<rparr>))"
    by (rule opened_append_as[OF Cons.prems(1,2) valid_orphaned_result assms(1) Cons.prems(3)])
       (use p(1) Cons.prems(4) in auto)
  then obtain s1 where s1: "journal_append id id j now now ?b s = (Inr ?r, j\<lparr>j_state := p\<rparr>, s1)" "log_ok s1 i"
     "store_append s i (journal_head j + 1) ?r = Inr s1" "store_read s1 i 0 None = store_read s i 0 None @ [?r]"
     "journal_open s1 i sc att = Inr (j\<lparr>j_state := p\<rparr>)"
    by (auto simp: orphaned_result_def)
  obtain rs j' s' where R: "append_all (j\<lparr>j_state := p\<rparr>) now (map orphaned_result cs @ [b]) s1 = (Inr rs, j', s')"
    "map r_body rs = map orphaned_result cs @ [b]" "store_read s' i 0 None = store_read s1 i 0 None @ rs" "log_ok s' i"
    "journal_open s' i sc att = Inr j'" "v_open_tool_calls (j_state j') = []" "v_settled (j_state j')"
    "v_terminal_state (j_state j') = Some ts" "st_runs s' = st_runs s1"
    using Cons.IH[OF s1(2,5)] p Cons.prems(3-5) by auto
  have "r_body ?r = ?b" by (simp add: next_record_def)
  then show ?case
    using append_all_step[OF s1(1) R(1)] R(2-9) s1(4) store_append_runs[OF s1(3)]
    by (intro exI[of _ "?r # rs"] exI[of _ j'] exI[of _ s']) simp
qed


lemma release_held:
  assumes "get_run s i = Some h" and "h_lease_holder h = Some w"
  shows "get_run (release s i w st) i = Some (h\<lparr>h_state := st, h_lease_holder := None, h_lease_expires_at := None\<rparr>)"
  using assms by (simp add: get_run_def release_eq)



definition s_worker :: worker where
  "s_worker = \<lparr>w_id = ''w'', w_lease_us = 60000000, w_grace_us = 5500000, w_max_attempts = 3,
     w_active = [(''run'', \<lparr>aa_run_id = ''run'', aa_attempt_id = ''att'', aa_scope = s_scope, aa_deadline_at = 50,
                    aa_abort = fire DeadlinePassed new_signal, aa_aborted_at = Some 0\<rparr>)], w_stopping = False\<rparr>"

definition s_attempt :: active_attempt where
  "s_attempt = snd (hd (w_active s_worker))"

definition s_held_header :: run_header where
  "s_held_header = (s_header ''run'' Running None)\<lparr>h_lease_holder := Some ''w'', h_lease_expires_at := Some 90\<rparr>"

definition s_held :: store where
  "s_held = (s_store [b_admitted, b_attempt 1, b_turn 1, b_tool ''c1'' ''t1'' 1, b_tool ''c2'' ''t2'' 1])
     \<lparr>st_runs := [(''run'', s_held_header)]\<rparr>"

lemma s_held_facts: "log_ok s_held ''run''" "get_run s_held ''run'' = Some s_held_header"
  "\<exists>j. journal_open s_held ''run'' s_scope (Some ''att'') = Inr j \<and> \<not> v_settled (j_state j) \<and>
     v_scope (j_state j) = s_scope \<and> map fst (v_open_tool_calls (j_state j)) = [''c1'', ''c2'']"
proof -
  let ?bs = "[b_admitted, b_attempt 1, b_turn 1, b_tool ''c1'' ''t1'' 1, b_tool ''c2'' ''t2'' 1]"
  have "list_all valid_record (log_of ?bs)" by code_simp
  then have "log_ok (s_store ?bs) ''run''" by (rule s_store_ok)
  then show "log_ok s_held ''run''" using log_ok_logs[of s_held "s_store ?bs"] by (simp add: s_held_def)
  show "get_run s_held ''run'' = Some s_held_header" by (simp add: s_held_def get_run_def)
  have "case journal_open s_held ''run'' s_scope (Some ''att'') of Inl _ \<Rightarrow> False
    | Inr j \<Rightarrow> \<not> v_settled (j_state j) \<and> v_scope (j_state j) = s_scope \<and> map fst (v_open_tool_calls (j_state j)) = [''c1'', ''c2'']"
    by code_simp
  then show "\<exists>j. journal_open s_held ''run'' s_scope (Some ''att'') = Inr j \<and> \<not> v_settled (j_state j) \<and>
     v_scope (j_state j) = s_scope \<and> map fst (v_open_tool_calls (j_state j)) = [''c1'', ''c2'']"
    by (auto split: sum.splits)
qed


section \<open>The supervisor\<close>

text \<open>Force-settlement waits for the grace period. An attempt is force-settled only by a pass whose
  clock is at least the grace period past the pass that signalled it, and the pass that signals an
  attempt (which needs its deadline to have passed) writes nothing and fires the abort signal with the
  deadline as its reason, unless another reason came first. So with a positive grace period no attempt
  is signalled and force-settled at the same clock reading.
\<close>

theorem grace_separates_signal_from_force_settlement:
  assumes "dict_get (w_active w) (aa_run_id a) = Some a" and "aa_aborted_at a = None"
    and "supervise_one tell now clock a w s = (e, w1, s1)" and "dict_get (w_active w1) (aa_run_id a) = Some b"
    and "judge w1 now' clock' b = ForceSettle" and "sg_reason (aa_abort a) = None"
  shows "aa_deadline_at a \<le> now \<and> w_grace_us w \<le> clock' - clock \<and> e = None \<and> s1 = s \<and> aa_aborted_at b = Some clock \<and>
         sg_reason (aa_abort b) = Some DeadlinePassed"
  using assms by (auto simp: supervise_one_def judge_def fire_def split: if_splits option.splits)

lemma grace_separates_signal_from_force_settlement_witness:
  "judge s_worker 61 5500001 ((s_attempt\<lparr>aa_aborted_at := Some 1\<rparr>)) = ForceSettle \<and> w_grace_us s_worker \<le> 5500001 - 1"
proof -
  let ?a = "s_attempt\<lparr>aa_aborted_at := None, aa_abort := new_signal\<rparr>"
  let ?w = "s_worker\<lparr>w_active := [(''run'', ?a)]\<rparr>"
  let ?b = "?a\<lparr>aa_aborted_at := Some 1, aa_abort := fire DeadlinePassed new_signal\<rparr>"
  have "dict_get (w_active ?w) (aa_run_id ?a) = Some ?a" "aa_aborted_at ?a = None" "sg_reason (aa_abort ?a) = None"
    "supervise_one (\<lambda>s i v. (None, s)) 60 1 ?a ?w s_held = (None, ?w\<lparr>w_active := [(''run'', ?b)]\<rparr>, s_held)"
    "dict_get (w_active (?w\<lparr>w_active := [(''run'', ?b)]\<rparr>)) (aa_run_id ?a) = Some ?b"
    and f: "judge (?w\<lparr>w_active := [(''run'', ?b)]\<rparr>) 61 5500001 ?b = ForceSettle"
    by (simp_all add: s_attempt_def s_worker_def supervise_one_def judge_def new_signal_def)
  from grace_separates_signal_from_force_settlement[OF this(1,2,4,5) f this(3)]
  show ?thesis by (simp add: s_worker_def judge_def s_attempt_def)
qed

section \<open>Abort reasons\<close>

lemma fold_fire: "sg_reason (fold fire rs sg) = (case sg_reason sg of Some x \<Rightarrow> Some x | None \<Rightarrow> (case rs of [] \<Rightarrow> None | r # _ \<Rightarrow> Some r))"
  by (induction rs arbitrary: sg) (auto simp: fire_def split: option.splits list.splits)

text \<open>Only the first reason decides whether an attempt may still write. After any sequence of firings
  the signal forbids the executor's writes exactly when the FIRST firing was the loss of the lease: a
  lease lost after a deadline or a shutdown was signalled does not stop the writes, although another
  worker may then hold the Run.
\<close>

theorem first_abort_reason_decides_writes:
  "writes_allowed (fold fire reasons new_signal) \<longleftrightarrow> take 1 reasons \<noteq> [LeaseLost]"
  by (cases reasons) (simp_all add: writes_allowed_def fold_fire new_signal_def fire_def)

end
