(* ===== verification/Conversation.thy ===== *)
theory Conversation
  imports ToolCalls Queues Guidance
begin

text \<open>
  The conversation a model is sent, as a projection of the log (\<open>psych_runtime/core/messages.py\<close>,
  \<open>psych_runtime/core/conversation.py\<close>), and where a compaction cuts it
  (\<open>psych_runtime/runtime/compaction.py\<close>).

  Shown: no tool call is answered twice; when the compaction boundary splits no call, the tool
  results of a conversation answer exactly the model's own calls that finished after it, by their own
  names; appending to a log without compacting only appends to the conversation, so what a provider
  has cached stays valid; a planned cut stands right before a turn, keeps the turns it promises,
  advances the boundary, and is not planned a second time.
\<close>

section \<open>Messages\<close>

record tool_call =
  tq_id :: call_id
  tq_name :: string
  tq_arguments :: obj

datatype message =
    SystemMessage string
  | UserMessage string "string option"
  | AssistantMessage string "tool_call list" "string option"
  | ToolResultMessage call_id string string bool

section \<open>Text\<close>

text \<open>\<open>_input_text\<close>: the first of the four keys that holds text, else the payload as JSON.\<close>

fun first_text :: "obj \<Rightarrow> string list \<Rightarrow> string option" where
  "first_text kvs [] = None"
| "first_text kvs (k # ks) =
     (case dict_get kvs k of
        Some (JStr s) \<Rightarrow> if py_strip s \<noteq> [] then Some s else first_text kvs ks
      | _ \<Rightarrow> first_text kvs ks)"

fun input_text :: "json \<Rightarrow> string" where
  "input_text (JObj kvs) =
     (case first_text kvs [''message'', ''input'', ''text'', ''prompt''] of
        Some s \<Rightarrow> s
      | None \<Rightarrow> if kvs = [] then [] else json_text '', '' '': '' (JObj kvs))"
| "input_text payload = (if truthy payload then json_text '', '' '': '' payload else [])"

fun stringify :: "json \<Rightarrow> string" where
  "stringify JNull = []"
| "stringify (JStr s) = s"
| "stringify result = json_text '','' '':'' result"

definition aborted_guidance :: string where
  "aborted_guidance = ''This call was cancelled because the run was interrupted.''"

definition unknown_outcome_guidance :: string where
  "unknown_outcome_guidance =
     ''The outcome of this call is unknown: the worker running it stopped before '' @
     ''recording a result. It may or may not have taken effect. Do not assume '' @
     ''either way; check before retrying anything with a side effect.''"

definition failure_text :: "tool_failure option \<Rightarrow> string" where
  "failure_text f = (case f of
     None \<Rightarrow> ''This call ended in an error, but no failure detail was recorded.''
   | Some f \<Rightarrow>
       (case tf_traceback f of
          Some (c # t) \<Rightarrow> if tf_traceback_is_for_the_model f then tf_message f @ [CHR 0x0A, CHR 0x0A] @ c # t else tf_message f
        | _ \<Rightarrow> tf_message f))"

fun result_text :: "tool_call_finished \<Rightarrow> string" where
  "result_text b = (case tcf_outcome b of
     OutcomeAborted \<Rightarrow> aborted_guidance
   | OutcomeUnknown \<Rightarrow> unknown_outcome_guidance
   | OutcomeError \<Rightarrow> failure_text (tcf_failure b)
   | OutcomeOk \<Rightarrow>
       (case tcf_result_handle b of
          None \<Rightarrow> stringify (tcf_result b)
        | Some h \<Rightarrow>
            ''This result is '' @ int_str (tcf_result_bytes b) @ '' bytes, too large to '' @
            ''include in full. It is stored under handle '' @ repr_str h @ ''. Call `read_tool_output` with that '' @
            ''handle to read it, with an offset or a search pattern.'' @ [CHR 0x0A, CHR 0x0A] @
            ''First part of the result:'' @ [CHR 0x0A] @ (case tcf_preview b of None \<Rightarrow> [] | Some p \<Rightarrow> p)))"

fun terminal_state_str :: "terminal_state \<Rightarrow> string" where
  "terminal_state_str Completed = ''completed''"
| "terminal_state_str Failed = ''failed''"
| "terminal_state_str Aborted = ''aborted''"
| "terminal_state_str Abandoned = ''abandoned''"
| "terminal_state_str ForceSettled = ''force_settled''"

definition child_finished_text :: "subagent_finished \<Rightarrow> string" where
  "child_finished_text b =
     (let head = ''Subagent '' @ repr_str (sf_name b) @ '' (run '' @ sf_child_run_id b @ '') finished: '' @
                 terminal_state_str (sf_state b) @ ''.'' in
      case sf_failure b of
        Some f \<Rightarrow> head @ [CHR 0x0A, CHR 0x0A] @ tf_message f
      | None \<Rightarrow>
          let body = (case sf_output b of Some (kv # kvs) \<Rightarrow> stringify (JObj (kv # kvs)) | _ \<Rightarrow> [])
          in if body \<noteq> [] then head @ [CHR 0x0A, CHR 0x0A] @ body else head)"

section \<open>The projection\<close>

fun compaction :: "int \<Rightarrow> string list \<Rightarrow> log_record list \<Rightarrow> int \<times> string list" where
  "compaction boundary summaries [] = (boundary, summaries)"
| "compaction boundary summaries (r # rs) =
     (case r_body r of
        CompactionApplied b \<Rightarrow> compaction (max boundary (ca_replaced_to_seq b)) (summaries @ [ca_summary b]) rs
      | _ \<Rightarrow> compaction boundary summaries rs)"

fun enqueued_with :: "string \<Rightarrow> log_record \<Rightarrow> queue_enqueued option" where
  "enqueued_with i r = (case r_body r of QueueEnqueued q \<Rightarrow> if qe_entry_id q = i then Some q else None | _ \<Rightarrow> None)"

fun started_with :: "call_id \<Rightarrow> log_record \<Rightarrow> tool_call_started option" where
  "started_with c r = (case r_body r of ToolCallStarted s \<Rightarrow> if tcs_call_id s = c then Some s else None | _ \<Rightarrow> None)"

text \<open>The first record of a log that answers a search.\<close>

fun search :: "('r \<Rightarrow> 'a option) \<Rightarrow> 'r list \<Rightarrow> 'a option" where
  "search f [] = None"
| "search f (r # rs) = (case f r of Some x \<Rightarrow> Some x | None \<Rightarrow> search f rs)"

declare started_with.simps [simp del] and enqueued_with.simps [simp del]

definition queue_payload :: "log_record list \<Rightarrow> string \<Rightarrow> string" where
  "queue_payload ordered i =
     (case search (enqueued_with i) ordered of None \<Rightarrow> [] | Some q \<Rightarrow> input_text (JObj (qe_payload q)))"

definition tool_name :: "log_record list \<Rightarrow> call_id \<Rightarrow> string" where
  "tool_name ordered c = (case search (started_with c) ordered of None \<Rightarrow> ''unknown'' | Some s \<Rightarrow> tcs_tool s)"

definition tool_arguments :: "log_record list \<Rightarrow> call_id \<Rightarrow> obj" where
  "tool_arguments ordered c = (case search (started_with c) ordered of None \<Rightarrow> [] | Some s \<Rightarrow> tcs_arguments s)"

definition tool_result_message :: "tool_call_finished \<Rightarrow> tool_call_started option \<Rightarrow> message list" where
  "tool_result_message b started =
     (if (case started of Some s \<Rightarrow> tcs_parent_call_id s \<noteq> None | None \<Rightarrow> False) then []
      else [ToolResultMessage (tcf_call_id b) (case started of Some s \<Rightarrow> tcs_tool s | None \<Rightarrow> ''unknown'')
              (result_text b) (tcf_outcome b \<noteq> OutcomeOk)])"

definition user_text :: "string \<Rightarrow> message list" where
  "user_text text = (if text \<noteq> [] then [UserMessage text None] else [])"

definition record_messages :: "log_record list \<Rightarrow> (call_id, tool_call_started) dict \<Rightarrow> body \<Rightarrow> message list" where
  "record_messages ordered calls b = (case b of
     RunAdmitted a \<Rightarrow> user_text (input_text (JObj (ra_input a)))
   | StepStarted s \<Rightarrow>
       (if ss_kind s = ''agent''
        then (case dict_get (ss_input s) ''input'' of Some x \<Rightarrow> user_text (input_text x) | None \<Rightarrow> [])
        else [])
   | QueueConsumed q \<Rightarrow> user_text (queue_payload ordered (qc_entry_id q))
   | ModelCallFinished m \<Rightarrow>
       (if mf_text m \<noteq> [] \<or> mf_tool_calls m \<noteq> []
        then [AssistantMessage (mf_text m)
                (map (\<lambda>c. \<lparr>tq_id = c, tq_name = tool_name ordered c, tq_arguments = tool_arguments ordered c\<rparr>) (mf_tool_calls m))
                None]
        else [])
   | SubagentFinished f \<Rightarrow> [UserMessage (child_finished_text f) None]
   | ToolCallFinished f \<Rightarrow> tool_result_message f (dict_get calls (tcf_call_id f))
   | _ \<Rightarrow> [])"

definition note_call :: "body \<Rightarrow> (call_id, tool_call_started) dict \<Rightarrow> (call_id, tool_call_started) dict" where
  "note_call b calls = (case b of ToolCallStarted s \<Rightarrow> dict_put (tcs_call_id s) s calls | _ \<Rightarrow> calls)"

fun messages_of :: "log_record list \<Rightarrow> int \<Rightarrow> (call_id, tool_call_started) dict \<Rightarrow> log_record list \<Rightarrow> message list" where
  "messages_of ordered boundary calls [] = []"
| "messages_of ordered boundary calls (r # rs) =
     (if r_seq r \<le> boundary then messages_of ordered boundary calls rs
      else record_messages ordered calls (r_body r) @ messages_of ordered boundary (note_call (r_body r) calls) rs)"

definition build_conversation :: "log_record list \<Rightarrow> message list" where
  "build_conversation ordered =
     (let (boundary, summaries) = compaction 0 [] ordered in
      (if summaries \<noteq> []
       then [UserMessage (''Summary of the earlier conversation, which has been compacted '' @
                          ''to fit the context window:'' @ [CHR 0x0A, CHR 0x0A] @ join [CHR 0x0A, CHR 0x0A] summaries) None]
       else []) @
      messages_of ordered boundary [] ordered)"

section \<open>Compaction\<close>

definition turn_seqs :: "log_record list \<Rightarrow> int \<Rightarrow> int list" where
  "turn_seqs rs boundary =
     List.map_filter (\<lambda>r. case r_body r of TurnStarted _ \<Rightarrow> if r_seq r > boundary then Some (r_seq r) else None | _ \<Rightarrow> None) rs"

text \<open>\<open>xs[-k]\<close> with \<open>k = 0\<close> is \<open>xs[0]\<close>.\<close>

definition plan_cut :: "log_record list \<Rightarrow> int \<Rightarrow> nat \<Rightarrow> int option" where
  "plan_cut rs boundary keep =
     (let turns = turn_seqs rs boundary in
      if length turns \<le> keep then None
      else let cut = turns ! (if keep = 0 then 0 else length turns - keep) - 1
           in if cut > boundary then Some cut else None)"

section \<open>Facts\<close>

lemma aborted_copies_agree: "result_text b = (case tcf_outcome b of
     OutcomeOk \<Rightarrow> (case tcf_result_handle b of
        Some h \<Rightarrow> elided_result_guidance (tcf_result_bytes b) h (case tcf_preview b of None \<Rightarrow> [] | Some p \<Rightarrow> p)
      | None \<Rightarrow> stringify (tcf_result b))
   | OutcomeError \<Rightarrow> failure_text (tcf_failure b)
   | OutcomeAborted \<Rightarrow> aborted_guidance | OutcomeUnknown \<Rightarrow> unknown_outcome_guidance)"
  by (simp add: elided_result_guidance_def para_def nl_def split: tool_outcome.splits option.splits)

lemma search_append: "search f (xs @ ys) = (case search f xs of Some x \<Rightarrow> Some x | None \<Rightarrow> search f ys)"
  by (induction xs) (auto split: option.splits)

lemma search_filter: "(\<And>r. r \<in> set rs \<Longrightarrow> f r \<noteq> None \<Longrightarrow> P r) \<Longrightarrow> search f (filter P rs) = search f rs"
  by (induction rs) (auto split: option.splits)

lemma search_None_iff: "search f rs = None \<longleftrightarrow> (\<forall>r \<in> set rs. f r = None)"
  by (induction rs) (auto split: option.splits)

lemma ids_append:
  "started_ids (xs @ ys) = started_ids xs @ started_ids ys" "finished_ids (xs @ ys) = finished_ids xs @ finished_ids ys"
  "consumed_ids (xs @ ys) = consumed_ids xs @ consumed_ids ys"
  by (induction xs) (auto simp: started_ids_def finished_ids_def consumed_ids_def map_filter_simps split: option.splits body.splits)

lemma ids_Cons:
  "started_ids (r # rs) = (case r_body r of ToolCallStarted s \<Rightarrow> tcs_call_id s # started_ids rs | _ \<Rightarrow> started_ids rs)"
  "finished_ids (r # rs) = (case r_body r of ToolCallFinished f \<Rightarrow> tcf_call_id f # finished_ids rs | _ \<Rightarrow> finished_ids rs)"
  by (simp_all add: started_ids_def finished_ids_def map_filter_simps split: body.splits)

lemma ids_Nil [simp]: "started_ids [] = []" "finished_ids [] = []" "consumed_ids [] = []"
  by (simp_all add: started_ids_def finished_ids_def consumed_ids_def)

lemma search_started: "search (started_with c) rs = None \<longleftrightarrow> c \<notin> set (started_ids rs)"
proof (induction rs)
  case (Cons r rs)
  then show ?case by (cases "r_body r") (auto simp: ids_Cons started_with.simps)
qed simp

lemma entries_Cons:
  "pe_entry_id ` set (entries (r # rs)) =
     (case r_body r of QueueEnqueued q \<Rightarrow> insert (qe_entry_id q) (pe_entry_id ` set (entries rs)) | _ \<Rightarrow> pe_entry_id ` set (entries rs))"
  by (cases "r_body r") (simp_all add: entries_def map_filter_simps)

lemma search_enqueued: "search (enqueued_with i) rs = None \<longleftrightarrow> i \<notin> pe_entry_id ` set (entries rs)"
proof (induction rs)
  case (Cons r rs)
  then show ?case unfolding entries_Cons by (cases "r_body r") (auto simp: enqueued_with.simps)
qed (simp add: entries_def)

lemma ids_filter:
  "set (started_ids (filter P rs)) \<subseteq> set (started_ids rs)" "set (finished_ids (filter P rs)) \<subseteq> set (finished_ids rs)"
  by (auto simp: started_ids_def finished_ids_def set_map_filter_iff)

lemma finished_filter_disjoint:
  "distinct (finished_ids rs) \<Longrightarrow> set (finished_ids (filter P rs)) \<inter> set (finished_ids (filter (\<lambda>r. \<not> P r) rs)) = {}"
proof (induction rs)
  case (Cons r rs)
  then show ?case using ids_filter(2)[of P rs] ids_filter(2)[of "\<lambda>r. \<not> P r" rs]
    by (auto simp: ids_Cons split: body.splits)
qed simp

lemma started_filter_split:
  "set (started_ids rs) = set (started_ids (filter P rs)) \<union> set (started_ids (filter (\<lambda>r. \<not> P r) rs))"
proof (induction rs)
  case (Cons r rs)
  then show ?case by (cases "r_body r") (simp_all add: ids_Cons)
qed simp

lemma distinct_started_filter: "distinct (started_ids rs) \<Longrightarrow> distinct (started_ids (filter P rs))"
proof (induction rs)
  case (Cons r rs)
  then show ?case using ids_filter(1)[of P rs] by (cases "r_body r") (auto simp: ids_Cons)
qed simp

lemma reduce_prefix: "reduce rid None (xs @ ys) = Inr v \<Longrightarrow> xs \<noteq> [] \<Longrightarrow> \<exists>u. reduce rid None xs = Inr u"
  by (fastforce simp: reduce_whole_Inr_iff hd_append dest: fold_log_prefix)

text \<open>The calls noted after the boundary.\<close>

definition calls_after :: "int \<Rightarrow> (call_id, tool_call_started) dict \<Rightarrow> log_record list \<Rightarrow> (call_id, tool_call_started) dict" where
  "calls_after n calls rs = fold (\<lambda>r. note_call (r_body r)) (filter (\<lambda>r. n < r_seq r) rs) calls"

lemma messages_of_append:
  "messages_of ordered n calls (xs @ ys) = messages_of ordered n calls xs @ messages_of ordered n (calls_after n calls xs) ys"
  by (induction xs arbitrary: calls) (auto simp: calls_after_def)

lemma fold_note_call:
  "distinct (started_ids rs) \<Longrightarrow> dict_get (fold (\<lambda>r. note_call (r_body r)) rs calls) c =
     (case search (started_with c) rs of Some s \<Rightarrow> Some s | None \<Rightarrow> dict_get calls c)"
proof (induction rs arbitrary: calls)
  case (Cons r rs)
  from Cons.prems have "distinct (started_ids rs)" by (cases "r_body r") (simp_all add: ids_Cons)
  note IH = Cons.IH[OF this]
  show ?case
  proof (cases "\<exists>s. r_body r = ToolCallStarted s")
    case True
    then obtain s where s: "r_body r = ToolCallStarted s" ..
    with Cons.prems have n: "search (started_with (tcs_call_id s)) rs = None" by (simp add: search_started ids_Cons)
    have "note_call (r_body r) calls = dict_put (tcs_call_id s) s calls"
      and "started_with c r = (if tcs_call_id s = c then Some s else None)" by (simp_all add: s note_call_def started_with.simps)
    then show ?thesis using n by (auto simp only: fold_Cons comp_apply IH search.simps dict_get_put split: option.splits if_splits)
  next
    case False
    then have "note_call (r_body r) calls = calls" and "started_with c r = None"
      by (auto simp: note_call_def started_with.simps split: body.splits)
    then show ?thesis by (simp only: fold_Cons comp_apply IH search.simps option.case)
  qed
qed simp

definition answered :: "message list \<Rightarrow> call_id list" where
  "answered ms = List.map_filter (\<lambda>m. case m of ToolResultMessage c _ _ _ \<Rightarrow> Some c | _ \<Rightarrow> None) ms"

lemma answered_append [simp]: "answered (xs @ ys) = answered xs @ answered ys"
  by (induction xs) (auto simp: answered_def split: option.splits)

lemma answered_simps [simp]:
  "answered [] = []" "answered (user_text t) = []" "answered (UserMessage t n # ms) = answered ms"
  "answered (AssistantMessage t qs re # ms) = answered ms" "answered (ToolResultMessage c k t e # ms) = c # answered ms"
  by (simp_all add: answered_def user_text_def)

lemma answered_record:
  "answered (record_messages ordered calls b) =
     (case b of ToolCallFinished f \<Rightarrow>
        if (case dict_get calls (tcf_call_id f) of Some s \<Rightarrow> tcs_parent_call_id s \<noteq> None | None \<Rightarrow> False) then [] else [tcf_call_id f]
      | _ \<Rightarrow> [])"
  by (cases b) (auto simp: record_messages_def tool_result_message_def split: option.splits)

lemma answered_messages:
  "distinct (finished_ids rs) \<Longrightarrow> distinct (answered (messages_of ordered n calls rs)) \<and>
     set (answered (messages_of ordered n calls rs)) \<subseteq> set (finished_ids rs)"
proof (induction rs arbitrary: calls)
  case (Cons r rs)
  then have IH: "distinct (answered (messages_of ordered n d rs)) \<and> set (answered (messages_of ordered n d rs)) \<subseteq> set (finished_ids rs)" for d
    by (auto simp: ids_Cons split: body.splits)
  show ?case
  proof (cases "r_body r")
    case (ToolCallFinished f)
    with Cons.prems have "tcf_call_id f \<notin> set (finished_ids rs)" by (simp add: ids_Cons)
    then show ?thesis using IH[of calls] IH[of "note_call (r_body r) calls"]
      by (auto simp: ids_Cons answered_record ToolCallFinished)
  qed (use IH[of calls] IH[of "note_call (r_body r) calls"] in \<open>auto simp: ids_Cons answered_record\<close>)
qed simp

lemma answered_build: "answered (build_conversation rs) = answered (messages_of rs (fst (compaction 0 [] rs)) [] rs)"
  by (simp add: build_conversation_def split: prod.splits)

text \<open>The calls the model made itself.\<close>

definition own_call :: "log_record list \<Rightarrow> call_id \<Rightarrow> bool" where
  "own_call rs c = (case search (started_with c) rs of Some s \<Rightarrow> tcs_parent_call_id s = None | None \<Rightarrow> False)"

definition splits_no_call :: "int \<Rightarrow> log_record list \<Rightarrow> bool" where
  "splits_no_call n rs \<longleftrightarrow>
     set (started_ids (filter (\<lambda>r. r_seq r \<le> n) rs)) \<subseteq> set (finished_ids (filter (\<lambda>r. r_seq r \<le> n) rs))"

lemma noted_call:
  assumes "reduce rid None (xs @ r # ys) = Inr v" and "r_body r = ToolCallFinished f" and "n < r_seq r"
    and "splits_no_call n (xs @ r # ys)"
  shows "dict_get (calls_after n [] xs) (tcf_call_id f) = search (started_with (tcf_call_id f)) (xs @ r # ys) \<and>
         search (started_with (tcf_call_id f)) (xs @ r # ys) \<noteq> None"
proof -
  let ?c = "tcf_call_id f" and ?rs = "xs @ r # ys" and ?early = "\<lambda>r. r_seq r \<le> n"
  obtain cx where "ledger_matches ?rs (ledger_of (v, cx))" using reduce_ledger[OF assms(1)] .
  then have d: "distinct (started_ids ?rs)" "distinct (finished_ids ?rs)" by (simp_all add: ledger_matches_def ledger_of_def)
  obtain u where "reduce rid None (xs @ [r]) = Inr u" using reduce_prefix[of rid "xs @ [r]" ys v] assms(1) by auto
  then obtain cu where "ledger_matches (xs @ [r]) (ledger_of (u, cu))" by (rule reduce_ledger)
  then have "set (finished_ids (xs @ [r])) \<subseteq> set (started_ids (xs @ [r]))" by (simp add: ledger_matches_def ledger_of_def)
  then have x: "?c \<in> set (started_ids xs)" using assms(2) by (simp add: ids_append ids_Cons)
  have "?c \<in> set (finished_ids (filter (\<lambda>r. \<not> ?early r) ?rs))" using assms(2,3) by (simp add: ids_append ids_Cons)
  then have "?c \<notin> set (finished_ids (filter ?early ?rs))" using finished_filter_disjoint[OF d(2), of ?early] by auto
  then have "?c \<notin> set (started_ids (filter ?early ?rs))" using assms(4) by (auto simp: splits_no_call_def)
  then have e: "?c \<notin> set (started_ids (filter ?early xs))" by (simp add: ids_append)
  with x have l: "?c \<in> set (started_ids (filter (\<lambda>r. \<not> ?early r) xs))" using started_filter_split[of xs ?early] by auto
  have "search (started_with ?c) (filter (\<lambda>r. \<not> ?early r) xs) = search (started_with ?c) xs"
    using e by (intro search_filter) (auto simp: search_started[symmetric] search_None_iff)
  moreover have "distinct (started_ids (filter (\<lambda>r. \<not> ?early r) xs))"
    using d(1) by (intro distinct_started_filter) (simp add: ids_append)
  ultimately have "dict_get (calls_after n [] xs) ?c = search (started_with ?c) xs"
    using l by (simp add: calls_after_def fold_note_call not_le search_started[symmetric] split: option.splits)
  moreover have "search (started_with ?c) xs \<noteq> None" using x by (simp add: search_started)
  ultimately show ?thesis by (auto simp: search_append)
qed


lemma answered_prefix:
  assumes "reduce rid None (xs @ ys) = Inr v" and "splits_no_call n (xs @ ys)"
  shows "answered (messages_of ordered n [] xs) = filter (own_call (xs @ ys)) (finished_ids (filter (\<lambda>r. n < r_seq r) xs))"
  using assms
proof (induction xs arbitrary: ys rule: rev_induct)
  case (snoc r xs)
  then have IH: "answered (messages_of ordered n [] xs) = filter (own_call (xs @ r # ys)) (finished_ids (filter (\<lambda>r. n < r_seq r) xs))"
    by simp
  show ?case
  proof (cases "n < r_seq r \<and> (\<exists>f. r_body r = ToolCallFinished f)")
    case True
    then obtain f where f: "n < r_seq r" "r_body r = ToolCallFinished f" by blast
    from noted_call[of rid xs r ys v f n] snoc.prems f
    obtain s where "dict_get (calls_after n [] xs) (tcf_call_id f) = Some s" "search (started_with (tcf_call_id f)) (xs @ r # ys) = Some s"
      by fastforce
    moreover from this have "own_call (xs @ r # ys) (tcf_call_id f) \<longleftrightarrow> tcs_parent_call_id s = None" by (simp add: own_call_def)
    ultimately show ?thesis using f IH by (simp add: messages_of_append answered_record ids_append ids_Cons)
  next
    case False
    then show ?thesis using IH by (auto simp: messages_of_append answered_record ids_append ids_Cons split: body.splits)
  qed
qed simp

definition result_of :: "(call_id, tool_call_started) dict \<Rightarrow> body \<Rightarrow> message \<Rightarrow> bool" where
  "result_of calls b m = (case m of
     ToolResultMessage c k _ _ \<Rightarrow>
       (\<exists>f. b = ToolCallFinished f \<and> c = tcf_call_id f \<and> k = (case dict_get calls c of Some s \<Rightarrow> tcs_tool s | None \<Rightarrow> ''unknown''))
   | _ \<Rightarrow> True)"

lemma result_of_user_text: "list_all (result_of calls b) (user_text t)"
  by (simp add: user_text_def result_of_def)

lemma result_of_record: "list_all (result_of calls b) (record_messages ordered calls b)"
proof (cases b)
  case (StepStarted s)
  then show ?thesis by (cases "dict_get (ss_input s) ''input''") (simp_all add: record_messages_def result_of_user_text)
qed (simp_all add: record_messages_def result_of_user_text tool_result_message_def result_of_def)

lemma result_message_from:
  "ToolResultMessage c k t e \<in> set (record_messages ordered calls b) \<Longrightarrow>
     \<exists>f. b = ToolCallFinished f \<and> c = tcf_call_id f \<and> k = (case dict_get calls c of Some s \<Rightarrow> tcs_tool s | None \<Rightarrow> ''unknown'')"
  using result_of_record[of calls b ordered] unfolding list_all_iff by (force simp: result_of_def)

lemma result_message_named:
  assumes "reduce rid None (xs @ ys) = Inr v" and "splits_no_call n (xs @ ys)"
    and "ToolResultMessage c k t e \<in> set (messages_of ordered n [] xs)"
  shows "\<exists>s. search (started_with c) (xs @ ys) = Some s \<and> k = tcs_tool s"
  using assms
proof (induction xs arbitrary: ys rule: rev_induct)
  case (snoc r xs)
  show ?case
  proof (cases "ToolResultMessage c k t e \<in> set (messages_of ordered n [] xs)")
    case True
    with snoc.IH[of "r # ys"] snoc.prems show ?thesis by simp
  next
    case False
    with snoc.prems(3) have l: "n < r_seq r" and m: "ToolResultMessage c k t e \<in> set (record_messages ordered (calls_after n [] xs) (r_body r))"
      by (auto simp: messages_of_append split: if_splits)
    obtain f where f: "r_body r = ToolCallFinished f" "c = tcf_call_id f"
        "k = (case dict_get (calls_after n [] xs) c of Some s \<Rightarrow> tcs_tool s | None \<Rightarrow> ''unknown'')"
      using result_message_from[OF m] by blast
    have "dict_get (calls_after n [] xs) c = search (started_with c) (xs @ r # ys) \<and> search (started_with c) (xs @ r # ys) \<noteq> None"
      unfolding f(2) by (rule noted_call[of rid xs r ys v f n]) (use snoc.prems f(1) l in simp_all)
    with f(2,3) show ?thesis by (cases "search (started_with c) (xs @ r # ys)") simp_all
  qed
qed simp

section \<open>Properties\<close>

text \<open>No tool call is answered twice: the tool results of the conversation of an accepted log have
  distinct call ids, each of a call that finished.\<close>

theorem conversation_answers_each_call_once:
  assumes "reduce rid None rs = Inr v"
  shows "distinct (answered (build_conversation rs)) \<and> set (answered (build_conversation rs)) \<subseteq> set (finished_ids rs)"
proof -
  obtain cx where "ledger_matches rs (ledger_of (v, cx))" using reduce_ledger[OF assms] .
  then have "distinct (finished_ids rs)" by (simp add: ledger_matches_def ledger_of_def)
  then show ?thesis unfolding answered_build by (rule answered_messages)
qed

lemma conversation_answers_each_call_once_witness:
  "answered (build_conversation whole_log) = [''c1''] \<and> distinct (answered (build_conversation whole_log))"
proof -
  have "answered (build_conversation whole_log) = [''c1'']" by code_simp
  then show ?thesis using acceptedD[OF whole_log_accepted] conversation_answers_each_call_once by blast
qed


definition b_asks :: "int \<Rightarrow> call_id list \<Rightarrow> body" where
  "b_asks n cs = ModelCallFinished \<lparr>mf_turn = n, mf_model = ''m'', mf_usage = 0, mf_usage_reported = True,
     mf_cost = None, mf_timings = s_timings, mf_finish_reason = ''tools'', mf_text = [], mf_tool_calls = cs\<rparr>"

definition b_nested :: "call_id \<Rightarrow> string \<Rightarrow> int \<Rightarrow> call_id \<Rightarrow> body" where
  "b_nested c t n p = ToolCallStarted \<lparr>tcs_call_id = c, tcs_tool = t, tcs_arguments = [], tcs_turn = n, tcs_step_id = None,
     tcs_interruptible = False, tcs_safe_to_retry = False, tcs_parent_call_id = Some p\<rparr>"

definition program_log :: "log_record list" where
  "program_log = log_of [b_admitted, b_attempt 1, b_turn 1, b_call 1, b_asks 1 [''c0''], b_tool ''c0'' ''look'' 1,
     b_result ''c0'' OutcomeError, b_compact 2 7, b_turn 2, b_call 2, b_asks 2 [''c1''], b_tool ''c1'' ''run_code'' 2,
     b_nested ''n1'' ''search'' 2 ''c1'', b_result ''n1'' OutcomeError, b_result ''c1'' OutcomeError]"


section \<open>Growth\<close>

lemma compaction_append: "compaction n ss (xs @ ys) = (case compaction n ss xs of (m, ts) \<Rightarrow> compaction m ts ys)"
  by (induction xs arbitrary: n ss) (simp_all split: body.splits)

definition compacts :: "log_record \<Rightarrow> bool" where
  "compacts r \<longleftrightarrow> (case r_body r of CompactionApplied _ \<Rightarrow> True | _ \<Rightarrow> False)"

lemma compaction_none: "list_all (\<lambda>r. \<not> compacts r) rs \<Longrightarrow> compaction n ss rs = (n, ss)"
  by (induction rs) (simp_all add: compacts_def split: body.splits)

definition looks_up :: "log_record list \<Rightarrow> log_record \<Rightarrow> bool" where
  "looks_up xs r \<longleftrightarrow> (case r_body r of
     ModelCallFinished m \<Rightarrow> set (mf_tool_calls m) \<subseteq> set (started_ids xs)
   | QueueConsumed q \<Rightarrow> qc_entry_id q \<in> pe_entry_id ` set (entries xs)
   | _ \<Rightarrow> True)"

lemma record_messages_extended:
  assumes "looks_up xs r"
  shows "record_messages (xs @ ys) calls (r_body r) = record_messages xs calls (r_body r)"
proof -
  have "search (started_with c) (xs @ ys) = search (started_with c) xs" if "c \<in> set (started_ids xs)" for c
    using that search_started[of c xs] by (auto simp: search_append)
  moreover have "search (enqueued_with i) (xs @ ys) = search (enqueued_with i) xs" if "i \<in> pe_entry_id ` set (entries xs)" for i
    using that search_enqueued[of i xs] by (auto simp: search_append)
  ultimately show ?thesis using assms
    by (cases "r_body r") (auto simp: looks_up_def record_messages_def queue_payload_def tool_name_def tool_arguments_def)
qed

lemma messages_of_extended:
  "list_all (looks_up xs) zs \<Longrightarrow> messages_of (xs @ ys) n calls zs = messages_of xs n calls zs"
  by (induction zs arbitrary: calls) (simp_all add: record_messages_extended)

text \<open>Between compactions the conversation only grows: when a log every asked call of which has started
  is extended without a compaction, the conversation of the longer log begins with that of the
  shorter, so the prefix a provider cached, and what a crashed Worker was about to send, stay valid.\<close>

theorem conversation_only_grows_between_compactions:
  assumes "reduce rid None (xs @ ys) = Inr v" and "xs \<noteq> []" and "list_all (\<lambda>r. \<not> compacts r) ys"
    and "\<And>r m. r \<in> set xs \<Longrightarrow> r_body r = ModelCallFinished m \<Longrightarrow> set (mf_tool_calls m) \<subseteq> set (started_ids xs)"
  shows "\<exists>ms. build_conversation (xs @ ys) = build_conversation xs @ ms"
proof -
  obtain u where "reduce rid None xs = Inr u" using reduce_prefix[OF assms(1,2)] ..
  from reduce_history[OF queues.fold_history_axioms queues_match_fresh this] obtain cx where "queues_match xs (u, cx)" ..
  then have q: "set (consumed_ids xs) \<subseteq> pe_entry_id ` set (entries xs)" by (auto dest: queues_matchD(3))
  have "looks_up xs r" if "r \<in> set xs" for r
  proof (cases "r_body r")
    case (QueueConsumed b)
    with that have "qc_entry_id b \<in> set (consumed_ids xs)" by (force simp: consumed_ids_def set_map_filter_iff)
    with q QueueConsumed show ?thesis by (auto simp: looks_up_def)
  qed (use that assms(4) in \<open>auto simp: looks_up_def\<close>)
  then have "messages_of (xs @ ys) n [] xs = messages_of xs n [] xs" for n
    by (intro messages_of_extended) (simp add: list_all_iff)
  moreover have "compaction 0 [] (xs @ ys) = compaction 0 [] xs"
    by (cases "compaction 0 [] xs") (simp add: compaction_append compaction_none[OF assms(3)])
  ultimately show ?thesis by (simp add: build_conversation_def messages_of_append split: prod.splits)
qed

lemma conversation_only_grows_between_compactions_witness:
  "\<exists>ms. build_conversation program_log = build_conversation (take 13 program_log) @ ms"
proof -
  have a: "accepted (take 13 program_log @ drop 13 program_log)" by code_simp
  from acceptedD[OF a] obtain v where v: "reduce None None (take 13 program_log @ drop 13 program_log) = Inr v" ..
  have n: "take 13 program_log \<noteq> []" by code_simp
  have c: "list_all (\<lambda>r. \<not> compacts r) (drop 13 program_log)" by code_simp
  have "list_all (\<lambda>r. case r_body r of ModelCallFinished m \<Rightarrow> set (mf_tool_calls m) \<subseteq> set (started_ids (take 13 program_log)) | _ \<Rightarrow> True)
          (take 13 program_log)" by code_simp
  note asked = bspec[OF this[unfolded list_all_iff]]
  have "set (mf_tool_calls m) \<subseteq> set (started_ids (take 13 program_log))"
    if "r \<in> set (take 13 program_log)" "r_body r = ModelCallFinished m" for r m
    using asked[OF that(1)] that(2) by simp
  from conversation_only_grows_between_compactions[OF v n c this] show ?thesis by simp
qed

section \<open>Cuts\<close>

lemma sorted_from_nth:
  fixes L :: "int list"
  assumes "sorted_wrt (<) L" and "i < length L"
  shows "filter (\<lambda>q. L ! i - 1 < q) L = drop i L"
proof -
  have "L ! j < L ! i" if "j < i" for j using assms that by (simp add: sorted_wrt_nth_less)
  then have a: "filter (\<lambda>q. L ! i - 1 < q) (take i L) = []"
    using assms(2) by (fastforce simp: filter_empty_conv in_set_conv_nth)
  have "L ! i \<le> L ! j" if "i \<le> j" "j < length L" for j
    using sorted_wrt_nth_less[OF assms(1), of i j] that by (cases "i = j") auto
  then have "L ! i \<le> q" if "q \<in> set (drop i L)" for q
    using that assms(2) by (auto simp: in_set_conv_nth less_diff_conv)
  then have b: "filter (\<lambda>q. L ! i - 1 < q) (drop i L) = drop i L"
    by (fastforce simp: filter_id_conv)
  have "filter (\<lambda>q. L ! i - 1 < q) (take i L @ drop i L) = drop i L" unfolding filter_append a b by simp
  then show ?thesis by simp
qed

lemma turn_seqs_beyond: "m \<le> n \<Longrightarrow> turn_seqs rs n = filter (\<lambda>q. n < q) (turn_seqs rs m)"
proof (induction rs)
  case (Cons r rs)
  then show ?case by (cases "r_body r") (simp_all add: turn_seqs_def map_filter_simps)
qed (simp add: turn_seqs_def)

lemma turn_seqs_sorted:
  "sorted_wrt (<) (map r_seq rs) \<Longrightarrow> sorted_wrt (<) (turn_seqs rs n) \<and> set (turn_seqs rs n) \<subseteq> r_seq ` set rs"
proof (induction rs)
  case (Cons r rs)
  then show ?case by (cases "r_body r") (auto simp: turn_seqs_def map_filter_simps)
qed (simp add: turn_seqs_def)

lemma turn_seqs_append: "turn_seqs (xs @ ys) n = turn_seqs xs n @ turn_seqs ys n"
proof (induction xs)
  case (Cons r rs)
  then show ?case by (cases "r_body r") (simp_all add: turn_seqs_def map_filter_simps)
qed (simp add: turn_seqs_def)

lemma turn_seqs_mem: "q \<in> set (turn_seqs rs n) \<Longrightarrow> \<exists>r \<in> set rs. \<exists>t. r_body r = TurnStarted t \<and> r_seq r = q"
proof (induction rs)
  case (Cons r rs)
  then show ?case by (cases "r_body r") (auto simp: turn_seqs_def map_filter_simps split: if_splits)
qed (simp add: turn_seqs_def)

lemma accepted_sorted:
  assumes "reduce rid None rs = Inr v"
  shows "sorted_wrt (<) (map r_seq rs)"
proof -
  from assms obtain cx where f: "fold_log fold_step (fresh_state rid (hd rs)) rs = Inr (v, cx)"
    by (auto simp: reduce_whole_Inr_iff)
  have "map r_seq rs = map (\<lambda>i. 1 + int i) [0..<length rs]" using fold_log_shape[OF f] by simp
  then show ?thesis by (simp add: sorted_wrt_iff_nth_less)
qed

text \<open>A planned cut is safe and is planned once: when an accepted log with a positive number of turns to
  keep has a cut, the cut is past the boundary, the record right after it starts a turn, exactly the
  turns to keep lie after it, if no call is open there it splits no call, and once it is the boundary
  no cut is planned until another turn starts.\<close>

theorem planned_cut_keeps_recent_turns:
  assumes "reduce rid None rs = Inr v" and "plan_cut rs n k = Some c" and "0 < k"
  shows "n < c \<and> (\<exists>r \<in> set rs. \<exists>t. r_body r = TurnStarted t \<and> r_seq r = c + 1) \<and> length (turn_seqs rs c) = k \<and>
     (\<forall>u. reduce rid None (filter (\<lambda>r. r_seq r \<le> c) rs) = Inr u \<longrightarrow> v_open_tool_calls u = [] \<longrightarrow> splits_no_call c rs) \<and>
     (\<forall>qs. turn_seqs qs c = [] \<longrightarrow> plan_cut (rs @ qs) c k = None)"
proof -
  let ?L = "turn_seqs rs n"
  let ?i = "length ?L - k"
  from assms(2,3) have len: "k < length ?L" and c: "c = ?L ! ?i - 1" "n < c"
    by (auto simp: plan_cut_def Let_def split: if_splits)
  have i: "?i < length ?L" using len assms(3) by simp
  have "turn_seqs rs c = drop ?i ?L"
    using sorted_from_nth[OF conjunct1[OF turn_seqs_sorted[OF accepted_sorted[OF assms(1)]]] i] turn_seqs_beyond[of n c rs] c by simp
  then have k: "length (turn_seqs rs c) = k" using len by simp
  have q: "\<exists>r \<in> set rs. \<exists>t. r_body r = TurnStarted t \<and> r_seq r = c + 1"
    using turn_seqs_mem[OF nth_mem[OF i]] c(1) by simp
  have "splits_no_call c rs"
    if u: "reduce rid None (filter (\<lambda>r. r_seq r \<le> c) rs) = Inr u" "v_open_tool_calls u = []" for u
  proof -
    obtain cx where "ledger_matches (filter (\<lambda>r. r_seq r \<le> c) rs) (ledger_of (u, cx))" using reduce_ledger[OF u(1)] .
    then show ?thesis using u(2) by (auto simp: ledger_matches_def ledger_of_def splits_no_call_def filter_empty_conv eq_commute[of "[]"])
  qed
  moreover have "plan_cut (rs @ qs) c k = None" if "turn_seqs qs c = []" for qs
    using that k by (simp add: plan_cut_def turn_seqs_append)
  ultimately show ?thesis using c(2) k q by blast
qed

lemma planned_cut_keeps_recent_turns_witness:
  "plan_cut program_log 0 1 = Some 8 \<and> length (turn_seqs program_log 8) = 1 \<and> plan_cut (program_log @ []) 8 1 = None"
proof -
  have "accepted program_log" by code_simp
  from acceptedD[OF this] obtain v where v: "reduce None None program_log = Inr v" ..
  have c: "plan_cut program_log 0 1 = Some 8" by code_simp
  have "turn_seqs [] 8 = []" by code_simp
  with planned_cut_keeps_recent_turns[OF v c zero_less_one] c show ?thesis by blast
qed

end
