(* ===== verification/PyNum.thy ===== *)
theory PyNum
  imports PyText
begin

text \<open>
  Python's numbers and comparisons on JSON values: a \<open>float\<close> is read from the text \<open>json\<close> prints for it and
  rounded to the nearest double, an \<open>int\<close> is exact, a \<open>bool\<close> is 0 or 1. Also \<open>==\<close>, \<open>in\<close>, \<open>repr\<close> and
  \<open>type(x).__name__\<close> on JSON values, as the workflow's conditions and schemas use them.
\<close>

section \<open>Doubles\<close>

function bit_count :: "int \<Rightarrow> int" where
  "bit_count a = (if a \<le> 0 then 0 else 1 + bit_count (a div 2))"
  by auto
termination by (relation "measure nat") auto

declare bit_count.simps [simp del]

text \<open>The largest \<open>k\<close> with \<open>2 ^ k \<le> a / b\<close>, for positive \<open>a\<close> and \<open>b\<close>.\<close>

definition log2_floor :: "int \<Rightarrow> int \<Rightarrow> int" where
  "log2_floor a b =
     (let k = bit_count a - bit_count b
      in if (if k \<ge> 0 then b * 2 ^ nat k \<le> a else b \<le> a * 2 ^ nat (- k)) then k else k - 1)"

definition round_half_even :: "rat \<Rightarrow> int" where
  "round_half_even q =
     (let f = \<lfloor>q\<rfloor>; r = q - of_int f
      in if r > 1/2 \<or> (r = 1/2 \<and> odd f) then f + 1 else f)"

definition pow2 :: "int \<Rightarrow> rat" where
  "pow2 e = (if e \<ge> 0 then 2 ^ nat e else 1 / 2 ^ nat (- e))"

text \<open>The nearest double of a number, None when it is beyond the largest one.\<close>

definition to_double :: "rat \<Rightarrow> rat option" where
  "to_double q =
     (if q = 0 then Some 0
      else let (a, b) = quotient_of \<bar>q\<bar>;
               e = max (log2_floor a b - 52) (-1074);
               d = of_int (round_half_even (\<bar>q\<bar> / pow2 e)) * pow2 e
           in if d \<ge> pow2 1024 then None else Some (if q < 0 then - d else d))"

section \<open>Numbers\<close>

datatype py_num = Fin rat | PosInf | NegInf | NotANumber

text \<open>A decimal: an optional sign, digits with an optional point, an optional exponent.\<close>

definition split_on :: "char \<Rightarrow> string \<Rightarrow> string \<times> string" where
  "split_on c s = (takeWhile (\<lambda>x. x \<noteq> c) s, tl (dropWhile (\<lambda>x. x \<noteq> c) s))"

definition exponent_val :: "string \<Rightarrow> int" where
  "exponent_val s = (case s of [] \<Rightarrow> 0
     | c # cs \<Rightarrow> if c = CHR ''-'' then - int (digits_val 0 cs)
                 else if c = CHR ''+'' then int (digits_val 0 cs) else int (digits_val 0 s))"

definition pow10 :: "int \<Rightarrow> rat" where
  "pow10 e = (if e \<ge> 0 then 10 ^ nat e else 1 / 10 ^ nat (- e))"

definition decimal_val :: "string \<Rightarrow> rat" where
  "decimal_val s =
     (let (mant, ex) = split_on (CHR ''e'') s; (whole, frac) = split_on (CHR ''.'') mant
      in of_nat (digits_val 0 (whole @ frac)) * pow10 (exponent_val ex - int (length frac)))"

definition float_num :: "string \<Rightarrow> py_num" where
  "float_num s =
     (if s = ''NaN'' then NotANumber
      else if s = ''Infinity'' then PosInf
      else if s = ''-Infinity'' then NegInf
      else let q = (case s of [] \<Rightarrow> 0 | c # cs \<Rightarrow> if c = CHR ''-'' then - decimal_val cs else decimal_val s)
           in (case to_double q of Some d \<Rightarrow> Fin d | None \<Rightarrow> if q < 0 then NegInf else PosInf))"

text \<open>What a comparison reads: \<open>bool\<close> counts as an int.\<close>

fun num_of :: "json \<Rightarrow> py_num option" where
  "num_of (JInt i) = Some (Fin (of_int i))"
| "num_of (JFloat s) = Some (float_num s)"
| "num_of (JBool b) = Some (Fin (if b then 1 else 0))"
| "num_of _ = None"

fun num_less :: "py_num \<Rightarrow> py_num \<Rightarrow> bool" where
  "num_less (Fin a) (Fin b) = (a < b)"
| "num_less (Fin _) PosInf = True"
| "num_less NegInf (Fin _) = True"
| "num_less NegInf PosInf = True"
| "num_less _ _ = False"

definition num_eq :: "py_num \<Rightarrow> py_num \<Rightarrow> bool" where
  "num_eq a b \<longleftrightarrow> a = b \<and> a \<noteq> NotANumber"

definition num_leq :: "py_num \<Rightarrow> py_num \<Rightarrow> bool" where
  "num_leq a b \<longleftrightarrow> num_less a b \<or> num_eq a b"

text \<open>\<open>float(x)\<close>: an int that has no double overflows.\<close>

fun as_float :: "json \<Rightarrow> py_num option" where
  "as_float (JInt i) = map_option Fin (to_double (of_int i))"
| "as_float j = num_of j"

section \<open>Equality and membership\<close>

fun py_eq :: "json \<Rightarrow> json \<Rightarrow> bool" where
  "py_eq (JStr s) j = (case j of JStr t \<Rightarrow> s = t | _ \<Rightarrow> False)"
| "py_eq JNull j = (j = JNull)"
| "py_eq (JArr xs) j = (case j of JArr ys \<Rightarrow> list_all2 py_eq xs ys | _ \<Rightarrow> False)"
| "py_eq (JObj kvs) j = (case j of
     JObj lws \<Rightarrow> length kvs = length lws \<and>
       list_all (\<lambda>kv. case dict_get lws (fst kv) of None \<Rightarrow> False | Some w \<Rightarrow> py_eq (snd kv) w) kvs
   | _ \<Rightarrow> False)"
| "py_eq n j = (case (num_of n, num_of j) of (Some a, Some b) \<Rightarrow> num_eq a b | _ \<Rightarrow> False)"

text \<open>\<open>repr\<close> and \<open>type(x).__name__\<close>.\<close>

fun py_repr :: "json \<Rightarrow> string" where
  "py_repr JNull = ''None''"
| "py_repr (JBool b) = (if b then ''True'' else ''False'')"
| "py_repr (JInt i) = int_str i"
| "py_repr (JFloat s) =
     (if s = ''NaN'' then ''nan'' else if s = ''Infinity'' then ''inf'' else if s = ''-Infinity'' then ''-inf'' else s)"
| "py_repr (JStr s) = repr_str s"
| "py_repr (JArr xs) = ''['' @ join '', '' (map py_repr xs) @ '']''"
| "py_repr (JObj kvs) = ''{'' @ join '', '' (map (\<lambda>kv. repr_str (fst kv) @ '': '' @ py_repr (snd kv)) kvs) @ ''}''"

fun type_name :: "json \<Rightarrow> string" where
  "type_name JNull = ''NoneType''"
| "type_name (JBool _) = ''bool''"
| "type_name (JInt _) = ''int''"
| "type_name (JFloat _) = ''float''"
| "type_name (JStr _) = ''str''"
| "type_name (JArr _) = ''list''"
| "type_name (JObj _) = ''dict''"

fun py_str :: "json \<Rightarrow> string" where
  "py_str (JStr s) = s"
| "py_str j = py_repr j"

fun hashable :: "json \<Rightarrow> bool" where
  "hashable (JArr _) = False"
| "hashable (JObj _) = False"
| "hashable _ = True"

definition is_substring :: "string \<Rightarrow> string \<Rightarrow> bool" where
  "is_substring s t \<longleftrightarrow> list_ex (\<lambda>i. take (length s) (drop i t) = s) [0..<Suc (length t)]"

text \<open>\<open>x in container\<close>: None where it raises \<open>TypeError\<close>.\<close>

fun py_in :: "json \<Rightarrow> json \<Rightarrow> bool option" where
  "py_in x (JArr ys) = Some (list_ex (py_eq x) ys)"
| "py_in x (JStr t) = (case x of JStr s \<Rightarrow> Some (is_substring s t) | _ \<Rightarrow> None)"
| "py_in x (JObj kvs) = (if hashable x then Some (case x of JStr s \<Rightarrow> s \<in> dict_keys kvs | _ \<Rightarrow> False) else None)"
| "py_in x _ = None"

end
