(* ===== verification/Values.thy ===== *)
theory Values
  imports PyNum
begin

text \<open>
  What a workflow step reads (\<open>psych_runtime/core/workflow_values.py\<close> and \<open>ValuePath\<close>, \<open>LiteralValue\<close> and
  \<open>Condition\<close> of \<open>psych_runtime/core/spec.py\<close>): paths, mappings, conditions, and the subset of JSON Schema
  their values are checked against. Regular expression search is an argument (None where it raises).

  Shown: rendering and splitting a path are inverse; no path reaches a field whose name has a dot; an
  ordering of large integers is decided on their nearest doubles.
\<close>

section \<open>Errors\<close>

text \<open>
  The two exceptions of the module with their texts, and what Python itself raises where a value has
  the wrong type: \<open>TypeError\<close> or \<open>AttributeError\<close>, \<open>OverflowError\<close>, \<open>re.error\<close>, \<open>AssertionError\<close>.
\<close>

datatype value_error =
    UnresolvedPath string string
  | SchemaViolation string string
  | PyTypeError
  | PyOverflow
  | PyRegexError
  | PyAssertion

fun value_error_text :: "value_error \<Rightarrow> string" where
  "value_error_text (UnresolvedPath path reason) = path @ '': '' @ reason"
| "value_error_text (SchemaViolation location message) = (if location = [] then ''$'' else location) @ '': '' @ message"
| "value_error_text _ = []"

type_synonym re_search = "string \<Rightarrow> string \<Rightarrow> bool option"

section \<open>Scope\<close>

record workflow_scope =
  ws_input :: obj
  ws_steps :: "(string, obj) dict"
  ws_state :: obj
  ws_item :: "json option"
  ws_index :: "int option"
  ws_iteration :: "int option"

definition inside :: "json option \<Rightarrow> int option \<Rightarrow> int option \<Rightarrow> workflow_scope \<Rightarrow> workflow_scope" where
  "inside item index iteration sc = sc
     \<lparr>ws_item := (case item of None \<Rightarrow> ws_item sc | Some x \<Rightarrow> Some x),
      ws_index := (case index of None \<Rightarrow> ws_index sc | Some x \<Rightarrow> Some x),
      ws_iteration := (case iteration of None \<Rightarrow> ws_iteration sc | Some x \<Rightarrow> Some x)\<rparr>"

definition with_step :: "string \<Rightarrow> obj \<Rightarrow> workflow_scope \<Rightarrow> workflow_scope" where
  "with_step name entry sc = sc\<lparr>ws_steps := dict_put name entry (ws_steps sc)\<rparr>"

definition with_state :: "obj \<Rightarrow> workflow_scope \<Rightarrow> workflow_scope" where
  "with_state state sc = sc\<lparr>ws_state := state\<rparr>"

section \<open>Paths\<close>

datatype segment = SName string | SIndex nat

definition name_start :: "char \<Rightarrow> bool" where
  "name_start c \<longleftrightarrow> (let n = of_char c :: nat in 97 \<le> n \<and> n \<le> 122 \<or> 65 \<le> n \<and> n \<le> 90 \<or> n = 95)"

definition is_digit :: "char \<Rightarrow> bool" where
  "is_digit c \<longleftrightarrow> (let n = of_char c :: nat in 48 \<le> n \<and> n \<le> 57)"

definition name_char :: "char \<Rightarrow> bool" where
  "name_char c \<longleftrightarrow> name_start c \<or> is_digit c \<or> c = CHR ''-''"

text \<open>\<open>_SEGMENT.match\<close>: the longest name, or an index in brackets, with what is left.\<close>

definition match_segment :: "string \<Rightarrow> (segment \<times> string) option" where
  "match_segment s = (case s of
     [] \<Rightarrow> None
   | c # cs \<Rightarrow>
       if name_start c then Some (SName (c # takeWhile name_char cs), dropWhile name_char cs)
       else if c = CHR ''['' \<and> takeWhile is_digit cs \<noteq> [] then
         (case dropWhile is_digit cs of
            d # ds \<Rightarrow> if d = CHR '']'' then Some (SIndex (digits_val 0 (takeWhile is_digit cs)), ds) else None
          | [] \<Rightarrow> None)
       else None)"

lemma match_segment_length: "match_segment s = Some (g, t) \<Longrightarrow> length t < length s"
proof (cases s)
  case (Cons c cs)
  note bounds = length_dropWhile_le[of name_char cs] length_dropWhile_le[of is_digit cs]
  assume "match_segment s = Some (g, t)"
  with Cons consider "t = dropWhile name_char cs" | d where "dropWhile is_digit cs = d # t"
    by (auto simp: match_segment_def split: if_splits list.splits)
  then show ?thesis using bounds Cons by cases auto
qed (simp add: match_segment_def)

function split_from :: "string \<Rightarrow> nat \<Rightarrow> string \<Rightarrow> value_error + segment list" where
  "split_from path position s =
     (case s of
        [] \<Rightarrow> Inr []
      | c # cs \<Rightarrow>
          if c = CHR ''.'' then split_from path (position + 1) cs
          else (case match_segment s of
                  None \<Rightarrow> Inl (UnresolvedPath path (''unexpected character at offset '' @ nat_str position))
                | Some (g, t) \<Rightarrow>
                    (case split_from path (position + (length s - length t)) t of
                       Inl e \<Rightarrow> Inl e | Inr gs \<Rightarrow> Inr (g # gs))))"
  by pat_completeness auto
termination by (relation "measure (\<lambda>(_, _, s). length s)") (auto dest: match_segment_length)

declare split_from.simps [simp del]

definition segments :: "string \<Rightarrow> value_error + segment list" where
  "segments path = (case split_from path 0 path of
     Inr [] \<Rightarrow> Inl (UnresolvedPath path ''an empty path names nothing'')
   | r \<Rightarrow> r)"

fun render_from :: "string \<Rightarrow> segment list \<Rightarrow> string" where
  "render_from text [] = text"
| "render_from text (SIndex n # gs) = render_from (text @ ''['' @ nat_str n @ '']'') gs"
| "render_from text (SName s # gs) = render_from (text @ (if text \<noteq> [] then ''.'' @ s else s)) gs"

definition render :: "segment list \<Rightarrow> string" where
  "render gs = (let text = render_from [] gs in if text = [] then ''$'' else text)"

definition roots :: "string list" where
  "roots = [''input'', ''steps'', ''state'', ''item'', ''index'', ''iteration'']"

definition descend :: "json \<Rightarrow> segment \<Rightarrow> string \<Rightarrow> segment list \<Rightarrow> value_error + json" where
  "descend value g path so_far =
     (let place = render so_far in
      case g of
        SIndex n \<Rightarrow>
          (case value of
             JArr xs \<Rightarrow>
               if n \<ge> length xs
               then Inl (UnresolvedPath path (place @ '' has '' @ nat_str (length xs) @ '' element(s); index '' @
                           nat_str n @ '' is past the end''))
               else Inr (xs ! n)
           | _ \<Rightarrow> Inl (UnresolvedPath path (place @ '' is not a list, so it cannot be indexed'')))
      | SName s \<Rightarrow>
          (case value of
             JObj kvs \<Rightarrow>
               (case dict_get kvs s of
                  Some v \<Rightarrow> Inr v
                | None \<Rightarrow>
                    let known = join '', '' (sort (map fst kvs))
                    in Inl (UnresolvedPath path (place @ '' has no field '' @ repr_str s @ '' (it has: '' @
                              (if known = [] then ''nothing'' else known) @ '')'')))
           | _ \<Rightarrow> Inl (UnresolvedPath path (place @ '' is a '' @ type_name value @ '', not an object with fields''))))"

fun descend_all :: "json \<Rightarrow> segment list \<Rightarrow> string \<Rightarrow> segment list \<Rightarrow> value_error + json" where
  "descend_all value so_far path [] = Inr value"
| "descend_all value so_far path (g # gs) =
     (case descend value g path so_far of
        Inl e \<Rightarrow> Inl e
      | Inr v \<Rightarrow> descend_all v (so_far @ [g]) path gs)"

definition root_value :: "workflow_scope \<Rightarrow> string \<Rightarrow> string \<Rightarrow> value_error + json" where
  "root_value sc path base =
     (if base = ''input'' then Inr (JObj (ws_input sc))
      else if base = ''steps'' then Inr (JObj (map (\<lambda>(n, e). (n, JObj e)) (ws_steps sc)))
      else if base = ''state'' then Inr (JObj (ws_state sc))
      else if base = ''item'' then
        (case ws_item sc of None \<Rightarrow> Inl (UnresolvedPath path ''`item` is only readable inside a foreach body'')
         | Some x \<Rightarrow> Inr x)
      else if base = ''index'' then
        (case ws_index sc of None \<Rightarrow> Inl (UnresolvedPath path ''`index` is only readable inside a foreach body'')
         | Some n \<Rightarrow> Inr (JInt n))
      else
        (case ws_iteration sc of None \<Rightarrow> Inl (UnresolvedPath path ''`iteration` is only readable inside a loop body'')
         | Some n \<Rightarrow> Inr (JInt n)))"

definition resolve_path :: "workflow_scope \<Rightarrow> string \<Rightarrow> value_error + json" where
  "resolve_path sc path =
     (case segments path of
        Inl e \<Rightarrow> Inl e
      | Inr gs \<Rightarrow>
          (case gs of
             SName base # rest \<Rightarrow>
               if base \<notin> set roots
               then Inl (UnresolvedPath path (''a path starts with one of '' @ join '', '' roots))
               else (case root_value sc path base of
                       Inl e \<Rightarrow> Inl e
                     | Inr v \<Rightarrow> descend_all v [SName base] path rest)
           | _ \<Rightarrow> Inl (UnresolvedPath path (''a path starts with one of '' @ join '', '' roots))))"

section \<open>References and mappings\<close>

datatype value_ref = PathRef string | LiteralValue json

type_synonym mapping = "(string, value_ref) dict"

fun resolve_ref :: "workflow_scope \<Rightarrow> value_ref \<Rightarrow> value_error + json" where
  "resolve_ref sc (LiteralValue v) = Inr v"
| "resolve_ref sc (PathRef p) = resolve_path sc p"

fun resolve_mapping :: "workflow_scope \<Rightarrow> mapping \<Rightarrow> value_error + obj" where
  "resolve_mapping sc [] = Inr []"
| "resolve_mapping sc ((name, ref) # m) =
     (case resolve_ref sc ref of
        Inl e \<Rightarrow> Inl e
      | Inr v \<Rightarrow> (case resolve_mapping sc m of Inl e \<Rightarrow> Inl e | Inr kvs \<Rightarrow> Inr ((name, v) # kvs)))"

section \<open>Conditions\<close>

datatype condition_op =
    OpEq | OpNe | OpGt | OpGte | OpLt | OpLte | OpIn | OpContains | OpExists | OpTruthy | OpMatches

datatype condition = Condition
  (cd_path: "string option") (cd_op: condition_op) (cd_value: json)
  (cd_all_of: "condition list") (cd_any_of: "condition list") (cd_negate: bool)

fun op_str :: "condition_op \<Rightarrow> string" where
  "op_str OpGt = ''gt''" | "op_str OpGte = ''gte''" | "op_str OpLt = ''lt''" | "op_str OpLte = ''lte''"
| "op_str _ = []"

fun compare_nums :: "condition_op \<Rightarrow> py_num \<Rightarrow> py_num \<Rightarrow> bool" where
  "compare_nums OpGt a b = num_less b a"
| "compare_nums OpGte a b = num_leq b a"
| "compare_nums OpLt a b = num_less a b"
| "compare_nums _ a b = num_leq a b"

fun compare_strs :: "condition_op \<Rightarrow> string \<Rightarrow> string \<Rightarrow> bool" where
  "compare_strs OpGt a b = (b < a)"
| "compare_strs OpGte a b = (b \<le> a)"
| "compare_strs OpLt a b = (a < b)"
| "compare_strs _ a b = (a \<le> b)"

fun is_bool :: "json \<Rightarrow> bool" where
  "is_bool (JBool _) = True" | "is_bool _ = False"

definition ordered :: "json \<Rightarrow> json \<Rightarrow> condition_op \<Rightarrow> string \<Rightarrow> value_error + bool" where
  "ordered actual expected op path =
     (if is_bool actual \<or> is_bool expected
      then Inl (UnresolvedPath path (''`'' @ op_str op @ ''` does not order booleans''))
      else if num_of actual \<noteq> None \<and> num_of expected \<noteq> None
      then (case (as_float actual, as_float expected) of
              (Some a, Some b) \<Rightarrow> Inr (compare_nums op a b) | _ \<Rightarrow> Inl PyOverflow)
      else (case (actual, expected) of
              (JStr s, JStr t) \<Rightarrow> Inr (compare_strs op s t)
            | _ \<Rightarrow> Inl (UnresolvedPath path (''`'' @ op_str op @ ''` compares numbers with numbers or strings with strings''))))"

fun is_container :: "json \<Rightarrow> bool" where
  "is_container (JArr _) = True" | "is_container (JStr _) = True" | "is_container (JObj _) = True"
| "is_container _ = False"

definition leaf :: "re_search \<Rightarrow> workflow_scope \<Rightarrow> condition \<Rightarrow> value_error + bool" where
  "leaf re sc c =
     (let path = (case cd_path c of None \<Rightarrow> [] | Some p \<Rightarrow> p); expected = cd_value c in
      if cd_op c = OpExists
      then (case resolve_path sc path of
              Inr _ \<Rightarrow> Inr True | Inl (UnresolvedPath _ _) \<Rightarrow> Inr False | Inl e \<Rightarrow> Inl e)
      else case resolve_path sc path of
             Inl e \<Rightarrow> Inl e
           | Inr actual \<Rightarrow>
               (case cd_op c of
                  OpTruthy \<Rightarrow> Inr (truthy actual)
                | OpEq \<Rightarrow> Inr (py_eq actual expected)
                | OpNe \<Rightarrow> Inr (\<not> py_eq actual expected)
                | OpIn \<Rightarrow>
                    if \<not> is_container expected
                    then Inl (UnresolvedPath path ''`in` needs a list, string or object in `value`'')
                    else (case py_in actual expected of Some b \<Rightarrow> Inr b | None \<Rightarrow> Inl PyTypeError)
                | OpContains \<Rightarrow>
                    if \<not> is_container actual
                    then Inl (UnresolvedPath path ''`contains` needs the value to be a list, string or object'')
                    else (case py_in expected actual of Some b \<Rightarrow> Inr b | None \<Rightarrow> Inl PyTypeError)
                | OpMatches \<Rightarrow>
                    (case actual of
                       JStr s \<Rightarrow> (case re (py_str expected) s of Some b \<Rightarrow> Inr b | None \<Rightarrow> Inl PyRegexError)
                     | _ \<Rightarrow> Inl (UnresolvedPath path ''`matches` needs the value to be a string''))
                | op \<Rightarrow> ordered actual expected op path))"

fun evaluate_condition :: "re_search \<Rightarrow> workflow_scope \<Rightarrow> condition \<Rightarrow> value_error + bool"
  and evaluate_all :: "re_search \<Rightarrow> workflow_scope \<Rightarrow> condition list \<Rightarrow> value_error + bool"
  and evaluate_any :: "re_search \<Rightarrow> workflow_scope \<Rightarrow> condition list \<Rightarrow> value_error + bool" where
  "evaluate_condition re sc (Condition path op value all_of any_of negate) =
     (case (if all_of \<noteq> [] then evaluate_all re sc all_of
            else if any_of \<noteq> [] then evaluate_any re sc any_of
            else if path = None then Inl PyAssertion
            else leaf re sc (Condition path op value all_of any_of negate)) of
        Inl e \<Rightarrow> Inl e
      | Inr b \<Rightarrow> Inr (if negate then \<not> b else b))"
| "evaluate_all re sc [] = Inr True"
| "evaluate_all re sc (c # cs) =
     (case evaluate_condition re sc c of Inl e \<Rightarrow> Inl e | Inr b \<Rightarrow> if b then evaluate_all re sc cs else Inr False)"
| "evaluate_any re sc [] = Inr False"
| "evaluate_any re sc (c # cs) =
     (case evaluate_condition re sc c of Inl e \<Rightarrow> Inl e | Inr b \<Rightarrow> if b then Inr True else evaluate_any re sc cs)"

text \<open>\<open>_exactly_one_shape\<close>; whether a pattern compiles is the regular expressions' answer.\<close>

definition condition_shape :: "re_search \<Rightarrow> condition \<Rightarrow> bool" where
  "condition_shape re c \<longleftrightarrow>
     length (filter id [cd_path c \<noteq> None, cd_all_of c \<noteq> [], cd_any_of c \<noteq> []]) = 1 \<and>
     (cd_op c = OpMatches \<longrightarrow> (case cd_value c of JStr p \<Rightarrow> re p [] \<noteq> None | _ \<Rightarrow> False))"

section \<open>JSON Schema\<close>

text \<open>
  Each check is the value's own or a Python error; \<open>check_all\<close> stops at the first. A keyword whose value
  has the wrong type raises, and so does a schema that is neither an object nor false in a test.
\<close>

fun check_all :: "('a \<Rightarrow> value_error + unit) \<Rightarrow> 'a list \<Rightarrow> value_error + unit" where
  "check_all f [] = Inr ()"
| "check_all f (x # xs) = (case f x of Inl e \<Rightarrow> Inl e | Inr _ \<Rightarrow> check_all f xs)"

lemma check_all_cong [fundef_cong]:
  "xs = ys \<Longrightarrow> (\<And>x. x \<in> set ys \<Longrightarrow> f x = g x) \<Longrightarrow> check_all f xs = check_all g ys"
proof (induction ys arbitrary: xs)
  case (Cons y ys)
  then have "f y = g y" and "check_all f ys = check_all g ys" by simp_all
  then show ?case using Cons.prems(1) by (simp split: sum.splits)
qed simp

definition violates :: "bool \<Rightarrow> string \<Rightarrow> string \<Rightarrow> value_error + unit" where
  "violates bad location message = (if bad then Inl (SchemaViolation location message) else Inr ())"

text \<open>A keyword that is present; \<open>if "k" in schema and test(schema["k"])\<close>.\<close>

definition when_key :: "obj \<Rightarrow> string \<Rightarrow> (json \<Rightarrow> value_error + unit) \<Rightarrow> value_error + unit" where
  "when_key schema k f = (case dict_get schema k of None \<Rightarrow> Inr () | Some v \<Rightarrow> f v)"

fun passes_of :: "value_error + unit \<Rightarrow> value_error + bool" where
  "passes_of (Inr _) = Inr True"
| "passes_of (Inl (SchemaViolation _ _)) = Inr False"
| "passes_of (Inl e) = Inl e"

fun any_passes :: "('a \<Rightarrow> value_error + bool) \<Rightarrow> 'a list \<Rightarrow> value_error + bool" where
  "any_passes f [] = Inr False"
| "any_passes f (x # xs) = (case f x of Inl e \<Rightarrow> Inl e | Inr b \<Rightarrow> if b then Inr True else any_passes f xs)"

fun count_passes :: "('a \<Rightarrow> value_error + bool) \<Rightarrow> 'a list \<Rightarrow> value_error + nat" where
  "count_passes f [] = Inr 0"
| "count_passes f (x # xs) =
     (case f x of Inl e \<Rightarrow> Inl e
      | Inr b \<Rightarrow> (case count_passes f xs of Inl e \<Rightarrow> Inl e | Inr n \<Rightarrow> Inr (if b then n + 1 else n)))"

lemma any_passes_cong [fundef_cong]:
  "xs = ys \<Longrightarrow> (\<And>x. x \<in> set ys \<Longrightarrow> f x = g x) \<Longrightarrow> any_passes f xs = any_passes g ys"
proof (induction ys arbitrary: xs)
  case (Cons y ys)
  then have "f y = g y" and "any_passes f ys = any_passes g ys" by simp_all
  then show ?case using Cons.prems(1) by (simp split: sum.splits)
qed simp

lemma count_passes_cong [fundef_cong]:
  "xs = ys \<Longrightarrow> (\<And>x. x \<in> set ys \<Longrightarrow> f x = g x) \<Longrightarrow> count_passes f xs = count_passes g ys"
proof (induction ys arbitrary: xs)
  case (Cons y ys)
  then have "f y = g y" and "count_passes f ys = count_passes g ys" by simp_all
  then show ?case using Cons.prems(1) by (simp split: sum.splits)
qed simp

text \<open>\<open>math.isfinite\<close> of an int beyond the largest double overflows.\<close>

fun is_type :: "json \<Rightarrow> string \<Rightarrow> value_error + bool" where
  "is_type (JBool _) name = Inr (name = ''boolean'')"
| "is_type (JInt i) name =
     (if name = ''number'' then (if to_double (of_int i) = None then Inl PyOverflow else Inr True)
      else Inr (name = ''integer''))"
| "is_type (JFloat s) name =
     Inr (case float_num s of Fin q \<Rightarrow> name = ''number'' \<or> name = ''integer'' \<and> of_int \<lfloor>q\<rfloor> = q | _ \<Rightarrow> False)"
| "is_type (JStr _) name = Inr (name = ''string'')"
| "is_type (JArr _) name = Inr (name = ''array'')"
| "is_type (JObj _) name = Inr (name = ''object'')"
| "is_type JNull name = Inr (name = ''null'')"

definition check_type :: "json \<Rightarrow> json \<Rightarrow> string \<Rightarrow> value_error + unit" where
  "check_type value declared location =
     (let names = (case declared of JArr ds \<Rightarrow> ds | d \<Rightarrow> [d])
      in case any_passes (\<lambda>d. is_type value (py_str d)) names of
           Inl e \<Rightarrow> Inl e
         | Inr b \<Rightarrow> violates (\<not> b) location
             (''expected type '' @ py_repr declared @ '', got '' @ type_name value))"

definition check_enum :: "json \<Rightarrow> json \<Rightarrow> string \<Rightarrow> value_error + unit" where
  "check_enum value allowed location =
     (case py_in value allowed of
        None \<Rightarrow> Inl PyTypeError
      | Some b \<Rightarrow> violates (\<not> b) location (''must be one of '' @ py_repr allowed))"

definition check_const :: "json \<Rightarrow> json \<Rightarrow> string \<Rightarrow> value_error + unit" where
  "check_const value c location = violates (\<not> py_eq value c) location (''must equal '' @ py_repr c)"

text \<open>\<open>left < schema[key]\<close> and its kin, where the bound may be no number.\<close>

definition check_bound :: "(py_num \<Rightarrow> py_num \<Rightarrow> bool) \<Rightarrow> py_num \<Rightarrow> string \<Rightarrow> (string \<Rightarrow> string) \<Rightarrow> json \<Rightarrow> value_error + unit" where
  "check_bound bad n location message limit =
     (case num_of limit of
        None \<Rightarrow> Inl PyTypeError
      | Some m \<Rightarrow> violates (bad n m) location (message (py_str limit)))"

definition count_num :: "nat \<Rightarrow> py_num" where
  "count_num n = Fin (of_nat n)"

definition check_string :: "re_search \<Rightarrow> string \<Rightarrow> obj \<Rightarrow> string \<Rightarrow> value_error + unit" where
  "check_string re value schema location = check_all id
     [when_key schema ''minLength'' (check_bound num_less (count_num (length value)) location
        (\<lambda>m. ''shorter than '' @ m @ '' character(s)'')),
      when_key schema ''maxLength'' (check_bound (\<lambda>n m. num_less m n) (count_num (length value)) location
        (\<lambda>m. ''longer than '' @ m @ '' character(s)'')),
      when_key schema ''pattern'' (\<lambda>p. case p of
        JStr pattern \<Rightarrow> (case re pattern value of
          None \<Rightarrow> Inl PyRegexError
        | Some b \<Rightarrow> violates (\<not> b) location (''does not match pattern '' @ repr_str pattern))
      | _ \<Rightarrow> Inr ())]"

definition check_number :: "py_num \<Rightarrow> obj \<Rightarrow> string \<Rightarrow> value_error + unit" where
  "check_number n schema location = check_all id
     [when_key schema ''minimum'' (check_bound num_less n location (\<lambda>m. ''below the minimum '' @ m)),
      when_key schema ''maximum'' (check_bound (\<lambda>n m. num_less m n) n location (\<lambda>m. ''above the maximum '' @ m)),
      when_key schema ''exclusiveMinimum'' (check_bound num_leq n location (\<lambda>m. ''must exceed '' @ m)),
      when_key schema ''exclusiveMaximum'' (check_bound (\<lambda>n m. num_leq m n) n location (\<lambda>m. ''must be below '' @ m))]"

definition beneath :: "string \<Rightarrow> string \<Rightarrow> string" where
  "beneath location name = (if location \<noteq> [] then location @ ''.'' @ name else name)"

text \<open>The subschemas of a schema, which are smaller than it.\<close>

definition sub_list :: "obj \<Rightarrow> string \<Rightarrow> json list option" where
  "sub_list schema k = (case dict_get schema k of
     None \<Rightarrow> Some [] | Some (JArr subs) \<Rightarrow> Some subs | Some (JObj []) \<Rightarrow> Some [] | Some (JStr []) \<Rightarrow> Some [] | _ \<Rightarrow> None)"

definition sub_props :: "obj \<Rightarrow> (string \<times> json) list option" where
  "sub_props schema = (case dict_get schema ''properties'' of None \<Rightarrow> Some [] | Some (JObj ps) \<Rightarrow> Some ps | _ \<Rightarrow> None)"

definition sub_one :: "obj \<Rightarrow> string \<Rightarrow> json" where
  "sub_one schema k = (case dict_get schema k of None \<Rightarrow> JNull | Some s \<Rightarrow> s)"

definition check_required :: "obj \<Rightarrow> obj \<Rightarrow> string \<Rightarrow> value_error + unit" where
  "check_required kvs schema location =
     (case sub_list schema ''required'' of
        None \<Rightarrow> Inl PyTypeError
      | Some names \<Rightarrow> check_all (\<lambda>n. case py_in n (JObj kvs) of
            None \<Rightarrow> Inl PyTypeError
          | Some b \<Rightarrow> violates (\<not> b) location (''missing required field '' @ py_repr n)) names)"

lemma size_dict_get: "dict_get kvs k = Some v \<Longrightarrow> size v < size (JObj kvs)"
proof (induction kvs)
  case (Cons kv kvs)
  then show ?case by (cases kv) (auto split: if_splits)
qed simp

lemma size_sub_list: "sub_list schema k = Some subs \<Longrightarrow> s \<in> set subs \<Longrightarrow> size s < size (JObj schema)"
proof -
  assume "sub_list schema k = Some subs" "s \<in> set subs"
  then have "dict_get schema k = Some (JArr subs)"
    by (auto simp: sub_list_def split: option.splits json.splits list.splits)
  moreover have "size s < size (JArr subs)" using \<open>s \<in> set subs\<close> by (induction subs) auto
  ultimately show ?thesis using size_dict_get[of schema k "JArr subs"] by simp
qed

lemma size_sub_props: "sub_props schema = Some ps \<Longrightarrow> p \<in> set ps \<Longrightarrow> size (snd p) < size (JObj schema)"
proof -
  assume "sub_props schema = Some ps" "p \<in> set ps"
  then have "dict_get schema ''properties'' = Some (JObj ps)"
    by (auto simp: sub_props_def split: option.splits json.splits)
  moreover have "size (snd p) < size (JObj ps)" using \<open>p \<in> set ps\<close> by (induction ps) auto
  ultimately show ?thesis using size_dict_get[of schema "''properties''" "JObj ps"] by simp
qed

lemma size_sub_one: "size (sub_one schema k) < size (JObj schema)"
  using size_dict_get[of schema k] by (cases "dict_get schema k") (simp_all add: sub_one_def)

function validate_schema :: "re_search \<Rightarrow> json \<Rightarrow> json \<Rightarrow> string \<Rightarrow> value_error + unit" where
  "validate_schema re value schema location =
     (if \<not> truthy schema then Inr ()
      else case schema of
        JObj sch \<Rightarrow> check_all id
          [when_key sch ''type'' (\<lambda>d. check_type value d location),
           when_key sch ''enum'' (\<lambda>e. check_enum value e location),
           when_key sch ''const'' (\<lambda>c. check_const value c location),
           (case value of
              JObj kvs \<Rightarrow>
                (case sub_props sch of
                   None \<Rightarrow> (case check_required kvs sch location of Inl e \<Rightarrow> Inl e | Inr _ \<Rightarrow> Inl PyTypeError)
                 | Some ps \<Rightarrow> check_all id
                     [check_required kvs sch location,
                      check_all (\<lambda>p. case dict_get kvs (fst p) of
                          None \<Rightarrow> Inr ()
                        | Some v \<Rightarrow> validate_schema re v (snd p) (beneath location (fst p))) ps,
                      (case dict_get sch ''additionalProperties'' of
                         None \<Rightarrow> Inr ()
                       | Some a \<Rightarrow>
                           if a = JBool True then Inr ()
                           else check_all (\<lambda>kv. if fst kv \<in> dict_keys ps then Inr ()
                                  else if a = JBool False
                                  then Inl (SchemaViolation (beneath location (fst kv)) ''additional field is not allowed'')
                                  else validate_schema re (snd kv) a (beneath location (fst kv))) kvs)])
            | _ \<Rightarrow> Inr ()),
           (case value of
              JArr xs \<Rightarrow> check_all id
                [when_key sch ''minItems'' (check_bound num_less (count_num (length xs)) location
                   (\<lambda>m. ''needs at least '' @ m @ '' item(s)'')),
                 when_key sch ''maxItems'' (check_bound (\<lambda>n m. num_less m n) (count_num (length xs)) location
                   (\<lambda>m. ''allows at most '' @ m @ '' item(s)'')),
                 (case dict_get sch ''items'' of
                    Some (JObj items) \<Rightarrow>
                      check_all (\<lambda>(i, x). validate_schema re x (JObj items) (location @ ''['' @ nat_str i @ '']''))
                        (enumerate 0 xs)
                  | _ \<Rightarrow> Inr ())]
            | _ \<Rightarrow> Inr ()),
           (case value of JStr s \<Rightarrow> check_string re s sch location | _ \<Rightarrow> Inr ()),
           (case value of
              JInt i \<Rightarrow> check_number (Fin (of_int i)) sch location
            | JFloat f \<Rightarrow> check_number (float_num f) sch location
            | _ \<Rightarrow> Inr ()),
           (case sub_list sch ''allOf'' of
              None \<Rightarrow> Inl PyTypeError
            | Some subs \<Rightarrow> check_all (\<lambda>s. validate_schema re value s location) subs),
           (if dict_get sch ''anyOf'' = None then Inr ()
            else case sub_list sch ''anyOf'' of
              None \<Rightarrow> Inl PyTypeError
            | Some subs \<Rightarrow>
                (case any_passes (\<lambda>s. passes_of (validate_schema re value s [])) subs of
                   Inl e \<Rightarrow> Inl e | Inr b \<Rightarrow> violates (\<not> b) location ''matches none of anyOf'')),
           (if dict_get sch ''oneOf'' = None then Inr ()
            else case sub_list sch ''oneOf'' of
              None \<Rightarrow> Inl PyTypeError
            | Some subs \<Rightarrow>
                (case count_passes (\<lambda>s. passes_of (validate_schema re value s [])) subs of
                   Inl e \<Rightarrow> Inl e | Inr n \<Rightarrow> violates (n \<noteq> 1) location ''must match exactly one of oneOf'')),
           (if dict_get sch ''not'' = None then Inr ()
            else case passes_of (validate_schema re value (sub_one sch ''not'') []) of
                   Inl e \<Rightarrow> Inl e | Inr b \<Rightarrow> violates b location ''must not match the `not` schema'')]
      | _ \<Rightarrow> Inl PyTypeError)"
  by pat_completeness auto
termination
proof (relation "measure (\<lambda>(_, _, schema, _). size schema)")
qed (auto dest: size_sub_list size_sub_props size_dict_get intro: size_sub_one simp del: json.size)

declare validate_schema.simps [simp del]

section \<open>Paths and their text\<close>

fun plain_segment :: "segment \<Rightarrow> bool" where
  "plain_segment (SIndex n) = True"
| "plain_segment (SName s) = (case s of [] \<Rightarrow> False | c # cs \<Rightarrow> name_start c \<and> list_all name_char cs)"

fun segment_text :: "segment \<Rightarrow> string" where
  "segment_text (SIndex n) = ''['' @ nat_str n @ '']''"
| "segment_text (SName s) = CHR ''.'' # s"

lemma render_from_text: "t \<noteq> [] \<Longrightarrow> render_from t gs = t @ concat (map segment_text gs)"
proof (induction gs arbitrary: t)
  case (Cons g gs)
  then show ?case by (cases g) simp_all
qed simp

lemma special_chars: "\<not> name_char CHR ''.''" "\<not> name_char CHR ''[''" "\<not> is_digit CHR '']''" "\<not> name_start CHR ''[''"
  "\<not> name_start CHR ''.''"
  by code_simp+

lemma nat_str_is_digit: "list_all is_digit (nat_str n)"
  using nat_str_code by (auto simp: list_all_iff is_digit_def Let_def)

lemma takeWhile_all: "list_all P xs \<Longrightarrow> ys = [] \<or> \<not> P (hd ys) \<Longrightarrow> takeWhile P (xs @ ys) = xs \<and> dropWhile P (xs @ ys) = ys"
  by (induction xs) (auto simp: takeWhile_eq_Nil_iff dropWhile_eq_self_iff)

lemma text_stops: "concat (map segment_text gs) = [] \<or> \<not> name_char (hd (concat (map segment_text gs)))"
proof (cases gs)
  case (Cons g gs')
  then show ?thesis using special_chars by (cases g) simp_all
qed simp

lemma match_name:
  assumes "plain_segment (SName s)"
  shows "match_segment (s @ concat (map segment_text gs)) = Some (SName s, concat (map segment_text gs))"
proof -
  from assms obtain c cs where s: "s = c # cs" "name_start c" "list_all name_char cs" by (cases s) auto
  from takeWhile_all[OF s(3) text_stops] s show ?thesis by (simp add: match_segment_def)
qed

lemma match_index: "match_segment (''['' @ nat_str n @ '']'' @ t) = Some (SIndex n, t)"
proof -
  have "takeWhile is_digit (nat_str n @ '']'' @ t) = nat_str n \<and> dropWhile is_digit (nat_str n @ '']'' @ t) = '']'' @ t"
    using special_chars(3) by (intro takeWhile_all nat_str_is_digit) simp
  then show ?thesis using special_chars(4) nat_str_nonempty by (simp add: match_segment_def digits_val_nat_str)
qed

lemma split_text: "list_all plain_segment gs \<Longrightarrow> split_from path n (concat (map segment_text gs)) = Inr gs"
proof (induction gs arbitrary: n)
  case (Cons g gs)
  then have IH: "split_from path m (concat (map segment_text gs)) = Inr gs" for m by simp
  show ?case
  proof (cases g)
    case (SIndex i)
    have "split_from path n (''['' @ nat_str i @ '']'' @ concat (map segment_text gs)) = Inr (SIndex i # gs)"
      using match_index[of i "concat (map segment_text gs)"] IH by (subst split_from.simps) simp
    then show ?thesis using SIndex by simp
  next
    case (SName s)
    with Cons.prems have m: "match_segment (s @ concat (map segment_text gs)) = Some (SName s, concat (map segment_text gs))"
      by (intro match_name) simp
    from SName Cons.prems obtain c cs where s: "s = c # cs" "c \<noteq> CHR ''.''" using special_chars(5) by (cases s) auto
    have "split_from path k (s @ concat (map segment_text gs)) = Inr (SName s # gs)" for k
      using m IH s by (subst split_from.simps) simp
    then show ?thesis using SName by (subst split_from.simps) simp
  qed
qed (simp add: split_from.simps)

text \<open>C26. A path and its text are the same thing: rendering a path of plain field names and indices that
  starts with a field, as the error messages do, and splitting the text gives back the path.\<close>

theorem path_text_round_trips:
  assumes "list_all plain_segment (SName s # gs)"
  shows "segments (render (SName s # gs)) = Inr (SName s # gs)"
proof -
  from assms obtain c cs where s: "s = c # cs" "c \<noteq> CHR ''.''" using special_chars(5) by (cases s) auto
  have r: "render (SName s # gs) = s @ concat (map segment_text gs)"
    using s by (simp add: render_def render_from_text)
  have "split_from path 0 (s @ concat (map segment_text gs)) = Inr (SName s # gs)" for path
    using match_name[of s gs] split_text[of gs path] assms s by (subst split_from.simps) simp
  then show ?thesis by (simp add: r segments_def)
qed

lemma path_text_round_trips_witness:
  "segments ''steps.fetch.output.rows[12].id'' =
     Inr [SName ''steps'', SName ''fetch'', SName ''output'', SName ''rows'', SIndex 12, SName ''id'']"
proof -
  have "list_all plain_segment [SName ''steps'', SName ''fetch'', SName ''output'', SName ''rows'', SIndex 12, SName ''id'']"
    by code_simp
  moreover have "render [SName ''steps'', SName ''fetch'', SName ''output'', SName ''rows'', SIndex 12, SName ''id''] =
      ''steps.fetch.output.rows[12].id''" by code_simp
  ultimately show ?thesis using path_text_round_trips by metis
qed

section \<open>Names with dots\<close>

lemma match_segment_plain: "match_segment s = Some (SName x, t) \<Longrightarrow> CHR ''.'' \<notin> set x"
  using special_chars by (auto simp: match_segment_def dest: set_takeWhileD split: list.splits if_splits)

lemma split_from_plain: "split_from path n s = Inr gs \<Longrightarrow> SName x \<in> set gs \<Longrightarrow> CHR ''.'' \<notin> set x"
proof (induction path n s arbitrary: gs rule: split_from.induct)
  case (1 path n s)
  show ?case
  proof (cases s)
    case Nil
    with 1 show ?thesis by (simp add: split_from.simps)
  next
    case (Cons c cs)
    show ?thesis
    proof (cases "c = CHR ''.''")
      case True
      have "split_from path (n + 1) cs = Inr gs"
        using 1(3) unfolding Cons True split_from.simps[of path n "CHR ''.'' # cs"] by simp
      from 1(1)[OF Cons True this 1(4)] show ?thesis .
    next
      case False
      obtain g t gs' where "match_segment s = Some (g, t)" "gs = g # gs'"
        "split_from path (n + (length s - length t)) t = Inr gs'"
        using 1(3) False unfolding Cons split_from.simps[of path n "c # cs"] by (auto split: option.splits sum.splits)
      with 1(2)[OF Cons False this(1) HOL.refl this(3)] 1(4) match_segment_plain show ?thesis by auto
    qed
  qed
qed

text \<open>A step whose name has a dot cannot be read: a path with \<open>steps\<close> at its head and a resolved value
  behind it goes through a step whose name has no dot, although the Spec allows dots in step names.\<close>

theorem dotted_step_is_unreachable:
  assumes "resolve_path sc path = Inr v" and "segments path = Inr (SName ''steps'' # SName name # gs)"
  shows "CHR ''.'' \<notin> set name \<and> name \<in> dict_keys (ws_steps sc)"
proof -
  from assms(2) have "split_from path 0 path = Inr (SName ''steps'' # SName name # gs)"
    by (auto simp: segments_def split: sum.splits list.splits)
  from split_from_plain[OF this] have "CHR ''.'' \<notin> set name" by simp
  moreover have "dict_get (map (\<lambda>(n, e). (n, JObj e)) (ws_steps sc)) name \<noteq> None"
    using assms by (auto simp: resolve_path_def roots_def root_value_def descend_def Let_def split: option.splits)
  ultimately show ?thesis by (simp add: dict_get_None_iff image_image case_prod_unfold)
qed

lemma dotted_step_is_unreachable_witness:
  "CHR ''.'' \<notin> set ''fetch'' \<and> ''fetch'' \<in> dict_keys [(''fetch'', [(''output'', JInt 1)])]"
proof -
  let ?sc = "\<lparr>ws_input = [], ws_steps = [(''fetch'', [(''output'', JInt 1)])], ws_state = [], ws_item = None,
     ws_index = None, ws_iteration = None\<rparr>"
  have "resolve_path ?sc ''steps.fetch.output'' = Inr (JInt 1)" by code_simp
  moreover have "segments ''steps.fetch.output'' = Inr [SName ''steps'', SName ''fetch'', SName ''output'']" by code_simp
  ultimately show ?thesis using dotted_step_is_unreachable[of ?sc "''steps.fetch.output''"] by fastforce
qed

section \<open>Large integers\<close>

lemma double_at_2_53: "to_double 9007199254740993 = Some 9007199254740992" "to_double 9007199254740992 = Some 9007199254740992"
proof -
  have l: "log2_floor 9007199254740993 1 = 53" "log2_floor 9007199254740992 1 = 53" by code_simp+
  have q: "quotient_of (9007199254740993 :: rat) = (9007199254740993, 1)" "quotient_of (9007199254740992 :: rat) = (9007199254740992, 1)"
    by simp_all
  have f: "\<lfloor>9007199254740993 / 2 :: rat\<rfloor> = 4503599627370496"
    by (simp add: floor_eq_iff)
  have r: "round_half_even (9007199254740993 / 2) = 4503599627370496" "round_half_even (9007199254740992 / 2) = 4503599627370496"
    unfolding round_half_even_def Let_def f by simp_all
  have p: "pow2 1 = 2" "9007199254740992 < pow2 1024" unfolding pow2_def by simp_all
  show "to_double 9007199254740993 = Some 9007199254740992" "to_double 9007199254740992 = Some 9007199254740992"
    unfolding to_double_def using q l r p by simp_all
qed

text \<open>Two different integers beyond \<open>2 ^ 53\<close> are neither ordered one way nor the other, but not equal.\<close>

lemma large_integers_compare_as_doubles:
  "ordered (JInt 9007199254740993) (JInt 9007199254740992) OpGt path = Inr False \<and>
   ordered (JInt 9007199254740993) (JInt 9007199254740992) OpLte path = Inr True \<and>
   \<not> py_eq (JInt 9007199254740993) (JInt 9007199254740992)"
  by (simp add: ordered_def double_at_2_53 num_leq_def num_eq_def)

end
