(* ===== verification/StepSpecs.thy ===== *)
theory StepSpecs
  imports Values Payloads "HOL-Library.Sublist"
begin

text \<open>
  Workflows as written down (\<open>psych_runtime/core/spec.py\<close>): limits, suspension and retry policies, the
  twelve step kinds, the workflow, with their field constraints and validators. What an agent step runs
  is opaque (the type variable \<open>'a\<close>). A float of the Spec is a rational; a number of seconds added to a
  \<open>datetime\<close> is rounded to a microsecond as \<open>timedelta\<close> does.

  Shown: every step is smaller than the composite that holds it, and the steps found in a workflow have
  distinct names.
\<close>

section \<open>Names\<close>

text \<open>\<open>_NAME_PATTERN\<close> and \<open>_PATH_PATTERN\<close>.\<close>

definition name_ok :: "string \<Rightarrow> bool" where
  "name_ok s = (case s of [] \<Rightarrow> False
     | c # cs \<Rightarrow> name_start c \<and> length cs \<le> 127 \<and> list_all (\<lambda>d. name_char d \<or> d = CHR ''.'') cs)"

definition path_ok :: "string \<Rightarrow> bool" where
  "path_ok s = (case s of [] \<Rightarrow> False
     | c # cs \<Rightarrow> name_start c \<and> length cs \<le> 511 \<and> list_all (\<lambda>d. name_char d \<or> d \<in> set ''.[]'') cs)"

section \<open>Policies\<close>

record limits =
  li_max_steps :: int
  li_max_turns :: int
  li_max_tool_calls_per_turn :: int
  li_deadline_seconds :: rat
  li_transient_retry_budget :: int
  li_max_delegation_depth :: int
  li_max_fanout_per_turn :: int
  li_failure_streak_threshold :: int
  li_failure_streak_hard_stop :: int
  li_repeat_call_threshold :: int
  li_repeat_call_hard_stop :: int
  li_stream_idle_seconds :: rat
  li_large_result_bytes :: int
  li_max_history_records :: int

definition default_limits :: limits where
  "default_limits = \<lparr>li_max_steps = 48, li_max_turns = 32, li_max_tool_calls_per_turn = 16, li_deadline_seconds = 900,
     li_transient_retry_budget = 8, li_max_delegation_depth = 3, li_max_fanout_per_turn = 4,
     li_failure_streak_threshold = 3, li_failure_streak_hard_stop = 6, li_repeat_call_threshold = 3,
     li_repeat_call_hard_stop = 6, li_stream_idle_seconds = 300, li_large_result_bytes = 32768,
     li_max_history_records = 300\<rparr>"

definition valid_limits :: "limits \<Rightarrow> bool" where
  "valid_limits l \<longleftrightarrow>
     0 < li_max_steps l \<and> li_max_steps l \<le> 10000 \<and>
     0 < li_max_turns l \<and> li_max_turns l \<le> 1000 \<and>
     0 < li_max_tool_calls_per_turn l \<and> li_max_tool_calls_per_turn l \<le> 256 \<and>
     0 < li_deadline_seconds l \<and> li_deadline_seconds l \<le> 86400 \<and>
     0 \<le> li_transient_retry_budget l \<and> li_transient_retry_budget l \<le> 100 \<and>
     0 \<le> li_max_delegation_depth l \<and> li_max_delegation_depth l \<le> 16 \<and>
     0 < li_max_fanout_per_turn l \<and> li_max_fanout_per_turn l \<le> 64 \<and>
     0 < li_failure_streak_threshold l \<and> li_failure_streak_threshold l \<le> 100 \<and>
     0 < li_failure_streak_hard_stop l \<and> li_failure_streak_hard_stop l \<le> 200 \<and>
     0 < li_repeat_call_threshold l \<and> li_repeat_call_threshold l \<le> 100 \<and>
     0 < li_repeat_call_hard_stop l \<and> li_repeat_call_hard_stop l \<le> 200 \<and>
     0 \<le> li_stream_idle_seconds l \<and> li_stream_idle_seconds l \<le> 3600 \<and>
     0 < li_large_result_bytes l \<and>
     0 \<le> li_max_history_records l \<and> li_max_history_records l \<le> 20000 \<and>
     li_failure_streak_threshold l \<le> li_failure_streak_hard_stop l \<and>
     li_repeat_call_threshold l \<le> li_repeat_call_hard_stop l"

record suspension_policy =
  sp_approval_expires_seconds :: rat
  sp_question_expires_seconds :: rat
  sp_external_expires_seconds :: rat
  sp_children_expires_seconds :: rat
  sp_may_ask_questions :: bool

definition default_suspension :: suspension_policy where
  "default_suspension = \<lparr>sp_approval_expires_seconds = 86400, sp_question_expires_seconds = 86400,
     sp_external_expires_seconds = 604800, sp_children_expires_seconds = 3600, sp_may_ask_questions = False\<rparr>"

definition valid_suspension_policy :: "suspension_policy \<Rightarrow> bool" where
  "valid_suspension_policy p \<longleftrightarrow> 0 < sp_approval_expires_seconds p \<and> 0 < sp_question_expires_seconds p \<and>
     0 < sp_external_expires_seconds p \<and> 0 < sp_children_expires_seconds p"

record retry_policy =
  rp_max_attempts :: int
  rp_backoff_seconds :: rat
  rp_multiplier :: rat
  rp_max_backoff_seconds :: rat
  rp_retry_on :: "string list"

definition default_retry :: retry_policy where
  "default_retry = \<lparr>rp_max_attempts = 1, rp_backoff_seconds = 0, rp_multiplier = 2, rp_max_backoff_seconds = 3600,
     rp_retry_on = []\<rparr>"

definition valid_retry :: "retry_policy \<Rightarrow> bool" where
  "valid_retry p \<longleftrightarrow> 1 \<le> rp_max_attempts p \<and> rp_max_attempts p \<le> 100 \<and>
     0 \<le> rp_backoff_seconds p \<and> rp_backoff_seconds p \<le> 86400 \<and>
     1 \<le> rp_multiplier p \<and> rp_multiplier p \<le> 10 \<and>
     0 < rp_max_backoff_seconds p \<and> rp_max_backoff_seconds p \<le> 86400"

definition delay_before :: "retry_policy \<Rightarrow> int \<Rightarrow> rat" where
  "delay_before p attempt_number =
     (if attempt_number \<le> 1 \<or> rp_backoff_seconds p = 0 then 0
      else min (rp_backoff_seconds p * rp_multiplier p ^ nat (attempt_number - 2)) (rp_max_backoff_seconds p))"

text \<open>\<open>timedelta(seconds=s)\<close> in microseconds.\<close>

definition seconds_us :: "rat \<Rightarrow> int" where
  "seconds_us s = round_half_even (s * 1000000)"

section \<open>Steps\<close>

record step_base =
  sb_name :: string
  sb_description :: string
  sb_when :: "condition option"
  sb_retry :: "retry_policy option"
  sb_timeout_seconds :: "rat option"
  sb_on_failure_continue :: bool
  sb_output_schema :: "obj option"
  sb_ends_workflow :: bool

datatype 'a workflow_step =
    AgentStep step_base 'a mapping
  | ToolStep step_base string obj mapping
  | WorkflowStepRef step_base "'a workflow_spec" mapping
  | ParallelStep step_base "'a workflow_step list" bool
  | BranchStep step_base "'a branch_case list" "'a workflow_step option" bool
  | ForEachStep step_base string "'a workflow_step" int bool
  | LoopStep step_base "'a workflow_step" "condition option" "condition option" int
  | MapStep step_base mapping
  | SetStateStep step_base mapping
  | SleepStep step_base "rat option" "string option"
  | WaitStep step_base string obj
  | HumanStep step_base string "asked_question list" "rat option"
and 'a branch_case = BranchCase (bc_name: string) (bc_when: condition) (bc_step: "'a workflow_step")
and 'a workflow_spec = WorkflowSpec (wf_name: string) (wf_description: string) (wf_steps: "'a workflow_step list")
    (wf_limits: limits) (wf_suspension: suspension_policy) (wf_input_schema: "obj option") (wf_initial_state: obj)
    (wf_output: "mapping option") (wf_retry: retry_policy)

fun step_base_of :: "'a workflow_step \<Rightarrow> step_base" where
  "step_base_of (AgentStep b _ _) = b"
| "step_base_of (ToolStep b _ _ _) = b"
| "step_base_of (WorkflowStepRef b _ _) = b"
| "step_base_of (ParallelStep b _ _) = b"
| "step_base_of (BranchStep b _ _ _) = b"
| "step_base_of (ForEachStep b _ _ _ _) = b"
| "step_base_of (LoopStep b _ _ _ _) = b"
| "step_base_of (MapStep b _) = b"
| "step_base_of (SetStateStep b _) = b"
| "step_base_of (SleepStep b _ _) = b"
| "step_base_of (WaitStep b _ _) = b"
| "step_base_of (HumanStep b _ _ _) = b"

abbreviation step_name :: "'a workflow_step \<Rightarrow> string" where
  "step_name s \<equiv> sb_name (step_base_of s)"

fun kind_of :: "'a workflow_step \<Rightarrow> string" where
  "kind_of (AgentStep _ _ _) = ''agent''"
| "kind_of (ToolStep _ _ _ _) = ''tool''"
| "kind_of (WorkflowStepRef _ _ _) = ''workflow''"
| "kind_of (ParallelStep _ _ _) = ''parallel''"
| "kind_of (BranchStep _ _ _ _) = ''branch''"
| "kind_of (ForEachStep _ _ _ _ _) = ''foreach''"
| "kind_of (LoopStep _ _ _ _ _) = ''loop''"
| "kind_of (MapStep _ _) = ''map''"
| "kind_of (SetStateStep _ _) = ''set_state''"
| "kind_of (SleepStep _ _ _) = ''sleep''"
| "kind_of (WaitStep _ _ _) = ''wait''"
| "kind_of (HumanStep _ _ _ _) = ''human''"

definition step_kinds :: "string list" where
  "step_kinds = [''agent'', ''tool'', ''workflow'', ''parallel'', ''branch'', ''foreach'', ''loop'', ''map'', ''set_state'',
     ''sleep'', ''wait'', ''human'']"

text \<open>The steps a composite runs: those of its branches, cases, body or nested workflow.\<close>

fun children_of :: "'a workflow_step \<Rightarrow> 'a workflow_step list" where
  "children_of (WorkflowStepRef _ spec _) = wf_steps spec"
| "children_of (ParallelStep _ branches _) = branches"
| "children_of (BranchStep _ cases otherwise _) =
     map bc_step cases @ (case otherwise of None \<Rightarrow> [] | Some s \<Rightarrow> [s])"
| "children_of (ForEachStep _ _ body _ _) = [body]"
| "children_of (LoopStep _ body _ _ _) = [body]"
| "children_of _ = []"

lemma size_case: "size (bc_step c) < size c"
  by (cases c) simp

lemma size_in_list: "c \<in> set cs \<Longrightarrow> size c < Suc (size_list size cs)"
  by (induction cs) auto

lemma size_child: "c \<in> set (children_of s) \<Longrightarrow> size c < size s"
proof (cases s)
  case (WorkflowStepRef b spec m)
  assume "c \<in> set (children_of s)"
  with WorkflowStepRef size_in_list[of c "wf_steps spec"] show ?thesis by (cases spec) auto
next
  case (BranchStep b cases otherwise mode)
  have "size (bc_step x) < Suc (size_list size cases)" if "x \<in> set cases" for x
    using that size_in_list[of x cases] size_case[of x] by simp
  moreover assume "c \<in> set (children_of s)"
  ultimately show ?thesis using BranchStep by (fastforce split: option.splits)
qed (auto dest: size_in_list)

lemma size_cases: "size_list size (map bc_step cs) \<le> size_list size cs"
  by (induction cs) (auto intro: add_mono less_imp_le size_case simp del: branch_case.size)

lemma size_children: "size_list size (children_of s) \<le> size s"
proof (cases s)
  case (WorkflowStepRef b spec m)
  then show ?thesis by (cases spec) simp
next
  case (BranchStep b cases otherwise mode)
  then show ?thesis using size_cases[of cases] by (cases otherwise) (simp_all add: size_list_append)
qed simp_all

definition composite :: "'a workflow_step \<Rightarrow> bool" where
  "composite s \<longleftrightarrow> kind_of s \<in> {''parallel'', ''branch'', ''foreach'', ''loop'', ''workflow''}"

text \<open>\<open>iter_steps\<close> does not enter a nested workflow.\<close>

function iter_steps :: "'a workflow_step list \<Rightarrow> 'a workflow_step list" where
  "iter_steps [] = []"
| "iter_steps (s # ss) = s # iter_steps (if kind_of s = ''workflow'' then [] else children_of s) @ iter_steps ss"
  by pat_completeness auto
termination
proof (relation "measure (\<lambda>ss. size_list size ss)")
  fix s :: "'a workflow_step" and ss
  have "size_list size (children_of s) \<le> size s" by (rule size_children)
  then show "(if kind_of s = ''workflow'' then [] else children_of s, s # ss) \<in> measure (size_list size)" by simp
qed auto

section \<open>Validation\<close>

fun valid_condition :: "re_search \<Rightarrow> condition \<Rightarrow> bool" where
  "valid_condition re (Condition path op v all_of any_of negate) \<longleftrightarrow>
     condition_shape re (Condition path op v all_of any_of negate) \<and>
     (case path of None \<Rightarrow> True | Some p \<Rightarrow> path_ok p) \<and>
     list_all (valid_condition re) all_of \<and> list_all (valid_condition re) any_of"

definition valid_mapping :: "mapping \<Rightarrow> bool" where
  "valid_mapping m = list_all (\<lambda>(_, r). case r of PathRef p \<Rightarrow> path_ok p | LiteralValue _ \<Rightarrow> True) m"

definition valid_step_base :: "re_search \<Rightarrow> step_base \<Rightarrow> bool" where
  "valid_step_base re b \<longleftrightarrow> name_ok (sb_name b) \<and> length (sb_description b) \<le> 4096 \<and>
     (case sb_when b of None \<Rightarrow> True | Some c \<Rightarrow> valid_condition re c) \<and>
     (case sb_retry b of None \<Rightarrow> True | Some p \<Rightarrow> valid_retry p)"

definition timeout_within :: "rat \<Rightarrow> rat option \<Rightarrow> bool" where
  "timeout_within bound t \<longleftrightarrow> (case t of None \<Rightarrow> True | Some q \<Rightarrow> 0 < q \<and> q \<le> bound)"

text \<open>Each kind's own fields: bounds, \<open>_one_exit\<close>, \<open>_one_wake\<close>, \<open>_case_names_are_unique\<close>.\<close>

definition valid_step_fields :: "re_search \<Rightarrow> 'a workflow_step \<Rightarrow> bool" where
  "valid_step_fields re s \<longleftrightarrow>
     valid_step_base re (step_base_of s) \<and>
     timeout_within (case s of WaitStep _ _ _ \<Rightarrow> 2592000 | _ \<Rightarrow> 86400) (sb_timeout_seconds (step_base_of s)) \<and>
     (case s of
        AgentStep _ _ input \<Rightarrow> valid_mapping input
      | WorkflowStepRef _ _ input \<Rightarrow> valid_mapping input
      | ToolStep _ tool _ arguments_from \<Rightarrow> name_ok tool \<and> valid_mapping arguments_from
      | ParallelStep _ branches _ \<Rightarrow> branches \<noteq> []
      | BranchStep _ cases _ _ \<Rightarrow>
          cases \<noteq> [] \<and> list_all (\<lambda>c. name_ok (bc_name c) \<and> valid_condition re (bc_when c)) cases \<and>
          distinct (map bc_name cases)
      | ForEachStep _ items _ concurrency _ \<Rightarrow> path_ok items \<and> 1 \<le> concurrency \<and> concurrency \<le> 64
      | LoopStep _ _ until while max_iterations \<Rightarrow>
          (until = None) \<noteq> (while = None) \<and>
          list_all (valid_condition re) (case until of None \<Rightarrow> [] | Some c \<Rightarrow> [c]) \<and>
          list_all (valid_condition re) (case while of None \<Rightarrow> [] | Some c \<Rightarrow> [c]) \<and> 1 \<le> max_iterations \<and> max_iterations \<le> 10000
      | MapStep _ output \<Rightarrow> output \<noteq> [] \<and> valid_mapping output
      | SetStateStep _ values \<Rightarrow> values \<noteq> [] \<and> valid_mapping values
      | SleepStep _ seconds until \<Rightarrow>
          (seconds = None) \<noteq> (until = None) \<and> timeout_within 2592000 seconds \<and>
          (case until of None \<Rightarrow> True | Some p \<Rightarrow> path_ok p)
      | WaitStep _ event _ \<Rightarrow> name_ok event
      | HumanStep _ prompt _ expires \<Rightarrow> 1 \<le> length prompt \<and> length prompt \<le> 8192 \<and> timeout_within 2592000 expires)"

text \<open>\<open>_normalise_text\<close>: line endings only.\<close>

fun normalise_text :: "string \<Rightarrow> string" where
  "normalise_text [] = []"
| "normalise_text (c # cs) =
     (if c = char_of (13 :: nat)
      then char_of (10 :: nat) # (case cs of d # ds \<Rightarrow> if d = char_of (10 :: nat) then normalise_text ds else normalise_text cs | [] \<Rightarrow> [])
      else c # normalise_text cs)"

text \<open>A workflow with its nested ones; the description is normalised when it is read.\<close>

lemma size_iter_steps: "s \<in> set (iter_steps ss) \<Longrightarrow> size s < Suc (size_list size ss)"
proof (induction ss rule: iter_steps.induct)
  case (2 x ss)
  let ?cs = "if kind_of x = ''workflow'' then [] else children_of x"
  have "size_list size ?cs \<le> size x" using size_children[of x] by simp
  with 2 show ?case by fastforce
qed simp

lemma size_nested: "WorkflowStepRef b spec m \<in> set (iter_steps (wf_steps w)) \<Longrightarrow> size spec < size w"
  using size_iter_steps[of "WorkflowStepRef b spec m" "wf_steps w"] by (cases w) simp

function valid_workflow :: "re_search \<Rightarrow> 'a workflow_spec \<Rightarrow> bool" where
  "valid_workflow re w =
     (name_ok (wf_name w) \<and> length (wf_description w) \<le> 4096 \<and> wf_steps w \<noteq> [] \<and>
      valid_limits (wf_limits w) \<and> valid_suspension_policy (wf_suspension w) \<and> valid_retry (wf_retry w) \<and>
      (case wf_output w of None \<Rightarrow> True | Some m \<Rightarrow> valid_mapping m) \<and>
      distinct (map step_name (iter_steps (wf_steps w))) \<and>
      list_all (\<lambda>s. valid_step_fields re s \<and>
        (case s of WorkflowStepRef _ spec _ \<Rightarrow> valid_workflow re spec | _ \<Rightarrow> True)) (iter_steps (wf_steps w)))"
  by pat_completeness auto
termination
  by (relation "measure (\<lambda>(_, w). size w)") (auto dest: size_nested)

declare valid_workflow.simps [simp del]

text \<open>The steps of a workflow, nested in composites or not, have different names.\<close>

lemma workflow_step_names_differ:
  "valid_workflow re w \<Longrightarrow> distinct (map step_name (wf_steps w))"
proof -
  assume "valid_workflow re w"
  then have d: "distinct (map step_name (iter_steps (wf_steps w)))" by (subst (asm) valid_workflow.simps) simp
  have sub: "subseq ss (iter_steps ss)" for ss :: "'a workflow_step list"
    by (induction ss rule: iter_steps.induct) (auto intro: subseq_append)
  obtain N where "map step_name (wf_steps w) = nths (map step_name (iter_steps (wf_steps w))) N"
    using subseq_map[OF sub] subseq_conv_nths by metis
  with d show ?thesis by (simp add: distinct_nthsI)
qed

end
