(* ===== verification/Walked.thy ===== *)
theory Walked
  imports StepSpecs Worker Steps
begin

text \<open>
  What a Worker's coroutines are made of: pieces of a walk, which read the derived state, append to the log
  and look at the clock, and may raise. What surrounds them (the clock, the abort signal, the other writers
  of the log) is a record that the workflow engine and the agent loop extend.

  The locales \<open>journal_relation\<close>, \<open>quiet_relation\<close> and \<open>await_relation\<close> are their common contract: a transitive
  relation between journals that holds across an append, or across an append that starts no tool call, holds
  across whatever is composed of such appends. \<open>external_state\<close>, \<open>quiet_state\<close> and \<open>state_relation\<close> give such a relation for what
  the reducer's steps keep. Growth of the derived state is one.
  \<open>yields\<close> is the partial-correctness statement about a piece of a walk.
\<close>

section \<open>What can be raised\<close>

text \<open>
  \<open>StepFailed\<close>, \<open>TimeoutError\<close>, the two exceptions of \<open>workflow_values\<close> and what Python raises there,
  \<open>CancelledError\<close>, the Journal's errors, a store error, pydantic's \<open>ValidationError\<close>, and anything else
  a runner raises.
\<close>

datatype raised =
    StepFailedErr tool_failure
  | TimeoutErr
  | ValueErr value_error
  | CancelledErr
  | JournalErr journal_error
  | StoreErr store_error
  | ValidationErr
  | OtherErr string string

record py_exception =
  px_access_denied :: bool
  px_type_name :: string
  px_text :: string
  px_traceback :: string

section \<open>Walks\<close>

record decision =
  de_allowed :: bool
  de_reason :: string
  de_requires_approval :: bool

text \<open>Where a walk is: its journal, the store, and how many awaits it has passed.\<close>

record walk =
  wk_journal :: journal
  wk_store :: store
  wk_tick :: nat

type_synonym 'x walked = "walk \<Rightarrow> (raised + 'x) \<times> walk"

text \<open>
  The clock, the abort signal and the other writers, indexed by the await at which they are seen.
\<close>

record surroundings =
  en_now :: "nat \<Rightarrow> timestamp"
  en_abort :: "nat \<Rightarrow> abort_signal option"
  en_others :: "nat \<Rightarrow> store \<Rightarrow> store"

definition then_do :: "'x walked \<Rightarrow> ('x \<Rightarrow> 'y walked) \<Rightarrow> 'y walked" where
  "then_do m f w = (case m w of (Inl e, w1) \<Rightarrow> (Inl e, w1) | (Inr x, w1) \<Rightarrow> f x w1)"

definition give :: "'x \<Rightarrow> 'x walked" where
  "give x w = (Inr x, w)"

definition raise_it :: "raised \<Rightarrow> 'x walked" where
  "raise_it e w = (Inl e, w)"

definition lift_value :: "value_error + 'x \<Rightarrow> 'x walked" where
  "lift_value r = (case r of Inl e \<Rightarrow> raise_it (ValueErr e) | Inr x \<Rightarrow> give x)"

text \<open>Reading the derived state does not await; \<open>self._now()\<close> reads the clock.\<close>

definition look :: "(run_state_view \<Rightarrow> 'x walked) \<Rightarrow> 'x walked" where
  "look f w = f (j_state (wk_journal w)) w"

definition clock :: "'e surroundings_scheme \<Rightarrow> timestamp walked" where
  "clock en w = (Inr (en_now en (wk_tick w)), w\<lparr>wk_tick := wk_tick w + 1\<rparr>)"

text \<open>\<open>await journal.append(...)\<close>: others may write before it and while a conflict is absorbed.\<close>

definition write_rec :: "'e surroundings_scheme \<Rightarrow> body \<Rightarrow> log_record walked" where
  "write_rec en b w =
     (let t = wk_tick w in
      case journal_append (en_others en (t + 1)) (en_others en (t + 2)) (wk_journal w) (en_now en t) (en_now en (t + 1)) b
             (en_others en t (wk_store w)) of
        (res, j, s) \<Rightarrow> (case res of Inl e \<Rightarrow> Inl (JournalErr e) | Inr r \<Rightarrow> Inr r, \<lparr>wk_journal = j, wk_store = s, wk_tick = t + 3\<rparr>))"

definition refresh_walk :: "'e surroundings_scheme \<Rightarrow> unit walked" where
  "refresh_walk en w =
     (let t = wk_tick w; s = en_others en t (wk_store w) in
      case refresh (wk_journal w) s of
        (res, j) \<Rightarrow> (case res of Inl e \<Rightarrow> Inl (JournalErr e) | Inr _ \<Rightarrow> Inr (), \<lparr>wk_journal = j, wk_store = s, wk_tick = t + 1\<rparr>))"

definition park :: "'e surroundings_scheme \<Rightarrow> timestamp \<Rightarrow> unit walked" where
  "park en wake_at w =
     (let t = wk_tick w; s = en_others en t (wk_store w) in
      case set_runnable_at s (j_run_id (wk_journal w)) (Some wake_at) of
        Inl e \<Rightarrow> (Inl (StoreErr e), w\<lparr>wk_store := s, wk_tick := t + 1\<rparr>)
      | Inr s' \<Rightarrow> (Inr (), w\<lparr>wk_store := s', wk_tick := t + 1\<rparr>))"

section \<open>Relations kept by a walk\<close>

definition carries :: "(walk \<Rightarrow> walk \<Rightarrow> bool) \<Rightarrow> 'x walked \<Rightarrow> bool" where
  "carries R m \<longleftrightarrow> (\<forall>w. R w (snd (m w)))"

text \<open>Every append is quiet but the start of a tool call and of an Attempt.\<close>

definition quiet :: "body \<Rightarrow> bool" where
  "quiet b \<longleftrightarrow> (case b of ToolCallStarted _ \<Rightarrow> False | AttemptStarted _ \<Rightarrow> False | _ \<Rightarrow> True)"

locale journal_relation =
  fixes R :: "walk \<Rightarrow> walk \<Rightarrow> bool"
  assumes same_journal: "wk_journal w' = wk_journal w \<Longrightarrow> R w w'"
    and compose: "R u v \<Longrightarrow> R v w \<Longrightarrow> R u w"
begin

lemma still: "R w w"
  by (simp add: same_journal)

lemma over_then: "carries R m \<Longrightarrow> (\<And>x. carries R (f x)) \<Longrightarrow> carries R (then_do m f)"
proof (unfold carries_def, intro allI)
  fix w
  assume m: "\<forall>w. R w (snd (m w))" and f: "\<And>x. \<forall>w. R w (snd (f x w))"
  show "R w (snd (then_do m f w))"
  proof (cases "m w")
    case (Pair r w1)
    with m have "R w w1" by (metis snd_conv)
    with f Pair show ?thesis by (auto simp: then_do_def intro: compose split: sum.splits)
  qed
qed

lemma over_give: "carries R (give x)"
  by (simp add: carries_def give_def still)

lemma over_raise: "carries R (raise_it e)"
  by (simp add: carries_def raise_it_def still)

lemma over_lift: "carries R (lift_value r)"
  by (simp add: lift_value_def over_give over_raise split: sum.splits)

lemma over_then_lift: "(\<And>x. r = Inr x \<Longrightarrow> carries R (f x)) \<Longrightarrow> carries R (then_do (lift_value r) f)"
  by (auto simp: carries_def then_do_def lift_value_def raise_it_def give_def still split: sum.splits)

lemma over_look: "(\<And>st. carries R (f st)) \<Longrightarrow> carries R (look f)"
  by (simp add: carries_def look_def)

lemma over_if: "(P \<Longrightarrow> carries R m) \<Longrightarrow> (\<not> P \<Longrightarrow> carries R m') \<Longrightarrow> carries R (if P then m else m')"
  by simp

lemma over_option: "carries R m \<Longrightarrow> (\<And>x. carries R (f x)) \<Longrightarrow> carries R (case v of None \<Rightarrow> m | Some x \<Rightarrow> f x)"
  by (cases v) simp_all

lemma over_sum: "(\<And>x. carries R (f x)) \<Longrightarrow> (\<And>x. carries R (g x)) \<Longrightarrow> carries R (case v of Inl x \<Rightarrow> f x | Inr x \<Rightarrow> g x)"
  by (cases v) simp_all

lemma over_clock: "carries R (clock en)"
  by (simp add: carries_def clock_def same_journal)

lemma over_park: "carries R (park en t)"
  by (auto simp: carries_def park_def Let_def same_journal split: sum.splits)

lemmas over_glue = over_then over_give over_raise over_lift over_look over_if over_option over_sum over_clock over_park

end

locale quiet_relation = journal_relation R for R +
  fixes en :: "'e surroundings_scheme"
  assumes over_refresh: "carries R (refresh_walk en)"
    and over_quiet: "quiet b \<Longrightarrow> carries R (write_rec en b)"

locale await_relation = quiet_relation R en for R and en :: "'e surroundings_scheme" +
  assumes over_write: "carries R (write_rec en b)"
begin

lemmas over_rules = over_glue over_write over_refresh

end

section \<open>Growth\<close>

text \<open>Settled steps stay, and the input of an admitted Run does.\<close>

definition state_grows :: "run_state_view \<Rightarrow> run_state_view \<Rightarrow> bool" where
  "state_grows st st' \<longleftrightarrow>
     (\<forall>sid m. dict_get (v_steps st) sid = Some m \<and> step_settled m \<longrightarrow> dict_get (v_steps st') sid = Some m) \<and>
     (v_admitted st \<longrightarrow> v_admitted st' \<and> v_run_input st' = v_run_input st)"

definition grows :: "walk \<Rightarrow> walk \<Rightarrow> bool" where
  "grows w w' \<longleftrightarrow> j_run_id (wk_journal w') = j_run_id (wk_journal w) \<and>
     state_grows (j_state (wk_journal w)) (j_state (wk_journal w'))"

lemma step_keeps_input:
  assumes "fold_step s r = Inr s'" and "v_admitted (fst s)"
  shows "v_admitted (fst s') \<and> v_run_input (fst s') = v_run_input (fst s)"
proof -
  obtain st cx st' cx' where s: "s = (st, cx)" "s' = (st', cx')" by (cases s; cases s') auto
  from fold_step_applies[OF assms(1)[unfolded s]] assms(2) show ?thesis unfolding s
    by (cases "r_body r") (auto simp: op_defs Let_def remove_entry_def bump_simps split: if_splits option.splits sum.splits)
qed

interpretation kept_input: fold_invariant fold_step "\<lambda>s. v_admitted (fst s) \<and> v_run_input (fst s) = x" for x
  by unfold_locales (auto dest: step_keeps_input)

lemma reduce_grows:
  assumes "reduce None (Some st) rs = Inr st'"
  shows "state_grows st st'"
proof -
  obtain cx where f: "fold_log fold_step (continued_state st) rs = Inr (st', cx)"
    using assms by (auto simp: reduce_continued_Inr_iff)
  have c: "fst (continued_state st) = st" by (simp add: continued_state_def)
  show ?thesis unfolding state_grows_def
    using settled_step.fold_keeps[OF _ f] kept_input.fold_keeps[OF _ f] c by auto
qed

lemma state_grows_refl: "state_grows st st"
  by (simp add: state_grows_def)

lemma state_grows_trans: "state_grows a b \<Longrightarrow> state_grows b c \<Longrightarrow> state_grows a c"
  by (simp add: state_grows_def)

text \<open>What an append leaves: the journal's state grew, and ends with the record just folded.\<close>

lemma append_once_grows:
  "append_once j now b s = (res, j', s') \<Longrightarrow> j_run_id j' = j_run_id j \<and> state_grows (j_state j) (j_state j')"
  by (cases res) (auto dest: append_once_Inl append_once_Inr reduce_grows intro: state_grows_refl)

lemma absorb_grows: "absorb j s = (res, j') \<Longrightarrow> j_run_id j' = j_run_id j \<and> state_grows (j_state j) (j_state j')"
  by (auto simp: absorb_def Let_def state_grows_refl reduce_grows split: if_splits option.splits sum.splits)

lemma journal_append_grows:
  assumes "journal_append env1 env2 j now1 now2 b s = (res, j', s')"
  shows "j_run_id j' = j_run_id j \<and> state_grows (j_state j) (j_state j')"
proof -
  obtain r1 j1 s1 where a: "append_once j now1 b s = (r1, j1, s1)" by (cases "append_once j now1 b s") auto
  obtain r2 j2 where b: "absorb j1 (env1 s1) = (r2, j2)" by (cases "absorb j1 (env1 s1)")
  obtain r3 j3 s3 where c: "append_once j2 now2 b (env2 (env1 s1)) = (r3, j3, s3)"
    by (cases "append_once j2 now2 b (env2 (env1 s1))") auto
  note g = append_once_grows[OF a] absorb_grows[OF b] append_once_grows[OF c]
  from assms a b c consider "j' = j1" | "j' = j2" | "j' = j3"
    by (auto simp: journal_append_def Let_def split: sum.splits journal_error.splits bool.splits)
  then show ?thesis using g by cases (auto intro: state_grows_trans)
qed

definition folded_last :: "body \<Rightarrow> log_record \<Rightarrow> run_state_view \<Rightarrow> bool" where
  "folded_last b r st \<longleftrightarrow> r_body r = b \<and> (\<exists>u cx. fold_step u r = Inr (st, cx))"

lemma append_once_last: "append_once j now b s = (Inr r, j', s') \<Longrightarrow> folded_last b r (j_state j')"
proof -
  assume a: "append_once j now b s = (Inr r, j', s')"
  from append_once_Inr(4)[OF a] obtain cx where "fold_step (continued_state (j_state j)) r = Inr (j_state j', cx)"
    by (auto simp: reduce_continued_Inr_iff split: sum.splits)
  moreover have "r_body r = b" using append_once_Inr(1)[OF a] by (simp add: next_record_def)
  ultimately show ?thesis unfolding folded_last_def by blast
qed

lemma journal_append_last:
  "journal_append env1 env2 j now1 now2 b s = (Inr r, j', s') \<Longrightarrow> folded_last b r (j_state j')"
  by (auto simp: journal_append_def Let_def split: sum.splits journal_error.splits bool.splits prod.splits
        dest: append_once_last)

lemma write_last: "write_rec en b w = (Inr r, w') \<Longrightarrow> folded_last b r (j_state (wk_journal w'))"
  by (auto simp: write_rec_def Let_def split: prod.splits sum.splits dest: journal_append_last)

lemma write_grows: "carries grows (write_rec en b)"
  by (auto simp: carries_def write_rec_def Let_def grows_def split: prod.splits dest: journal_append_grows)

lemma refresh_grows: "carries grows (refresh_walk en)"
  by (auto simp: carries_def refresh_walk_def refresh_def Let_def grows_def split: prod.splits dest: absorb_grows)

text \<open>The contract holds for growth: appends fold records onto the state the Journal carries.\<close>

interpretation awaits_grow: await_relation grows en for en
  by unfold_locales (auto simp: grows_def state_grows_refl write_grows refresh_grows intro: state_grows_trans)

section \<open>What a piece of a walk yields\<close>

definition yields :: "'x walked \<Rightarrow> ('x \<Rightarrow> walk \<Rightarrow> bool) \<Rightarrow> walk \<Rightarrow> bool" where
  "yields m Q w \<longleftrightarrow> (\<forall>x w'. m w = (Inr x, w') \<longrightarrow> Q x w')"

lemma yields_then: "yields m (\<lambda>x. yields (f x) Q) w \<Longrightarrow> yields (then_do m f) Q w"
  by (auto simp: yields_def then_do_def split: sum.splits prod.splits)

lemma yields_give: "Q x w \<Longrightarrow> yields (give x) Q w"
  by (simp add: yields_def give_def)

lemma yields_raise: "yields (raise_it e) Q w"
  by (simp add: yields_def raise_it_def)

lemma yields_lift: "(\<And>x. r = Inr x \<Longrightarrow> Q x w) \<Longrightarrow> yields (lift_value r) Q w"
  by (simp add: lift_value_def yields_raise yields_give split: sum.splits)

lemma yields_look: "yields (f (j_state (wk_journal w))) Q w \<Longrightarrow> yields (look f) Q w"
  by (simp add: yields_def look_def)

lemma yields_any: "(\<And>x w'. Q x w') \<Longrightarrow> yields m Q w"
  by (simp add: yields_def)

lemma yields_first: "(\<And>x w'. yields (f x) Q w') \<Longrightarrow> yields (then_do m f) Q w"
  by (auto simp: yields_def then_do_def split: sum.splits prod.splits)

lemma yields_mono: "yields m Q w \<Longrightarrow> (\<And>x w'. Q x w' \<Longrightarrow> Q' x w') \<Longrightarrow> yields m Q' w"
  by (simp add: yields_def)

lemma yields_if: "(P \<Longrightarrow> yields m Q w) \<Longrightarrow> (\<not> P \<Longrightarrow> yields m' Q w) \<Longrightarrow> yields (if P then m else m') Q w"
  by simp

lemma yields_option: "(v = None \<Longrightarrow> yields m Q w) \<Longrightarrow> (\<And>x. v = Some x \<Longrightarrow> yields (f x) Q w) \<Longrightarrow>
     yields (case v of None \<Rightarrow> m | Some x \<Rightarrow> f x) Q w"
  by (cases v) simp_all

lemmas yields_rules = yields_then yields_give yields_raise yields_lift yields_look yields_if yields_option

lemma yields_write: "(\<And>r w'. folded_last b r (j_state (wk_journal w')) \<Longrightarrow> Q r w') \<Longrightarrow> yields (write_rec en b) Q w"
  by (auto simp: yields_def dest: write_last)

lemma suspended_last:
  assumes "folded_last (Suspended b) r st"
  shows "v_suspended st"
proof -
  from assms obtain u cx where f: "fold_step u r = Inr (st, cx)" and b: "r_body r = Suspended b"
    by (auto simp: folded_last_def)
  obtain v cv where u: "u = (v, cv)" by (cases u)
  from fold_step_applies[OF f[unfolded u]] b show ?thesis
    by (auto simp: on_suspended_def split: if_splits)
qed

lemma park_state: "yields (park en t) (\<lambda>_ w'. wk_journal w' = wk_journal w) w"
  by (auto simp: yields_def park_def Let_def split: sum.splits)

section \<open>Relations kept by the reducer\<close>

text \<open>What a journal folds before its own record lands is external, and starts no call.\<close>

lemma external_quiet: "is_external b \<Longrightarrow> quiet b"
  by (cases b) (simp_all add: quiet_def)

lemma absorb_folds:
  assumes "absorb j s = (res, j')"
  shows "j' = j \<or> (\<exists>rs cx. list_all (\<lambda>r. is_external (r_body r)) rs \<and>
           fold_log fold_step (continued_state (j_state j)) rs = Inr (j_state j', cx))"
proof -
  let ?rs = "store_read s (j_run_id j) (v_head_seq (j_state j)) None"
  show ?thesis
  proof (cases "find (\<lambda>r. \<not> is_external (r_body r)) ?rs")
    case None
    then have e: "list_all (\<lambda>r. is_external (r_body r)) ?rs" by (auto simp: find_None_iff list_all_iff)
    show ?thesis
    proof (cases "reduce None (Some (j_state j)) ?rs")
      case (Inl x)
      with assms None show ?thesis by (auto simp: absorb_def Let_def split: if_splits)
    next
      case (Inr st)
      then obtain cx where "fold_log fold_step (continued_state (j_state j)) ?rs = Inr (st, cx)"
        by (auto simp: reduce_continued_Inr_iff)
      with assms None Inr e show ?thesis by (auto simp: absorb_def Let_def split: if_splits)
    qed
  next
    case (Some r)
    with assms show ?thesis by (auto simp: absorb_def Let_def split: if_splits)
  qed
qed

locale external_state =
  fixes S :: "run_state_view \<Rightarrow> run_state_view \<Rightarrow> bool"
  assumes s_refl: "S st st"
    and s_trans: "S a b \<Longrightarrow> S b c \<Longrightarrow> S a c"
    and external_step: "is_external (r_body r) \<Longrightarrow> fold_step s r = Inr s' \<Longrightarrow> S (fst s) (fst s')"
begin

lemma fold_external:
  "list_all (\<lambda>r. is_external (r_body r)) rs \<Longrightarrow> fold_log fold_step s rs = Inr s' \<Longrightarrow> S (fst s) (fst s')"
proof (induction rs arbitrary: s)
  case (Cons r rs)
  then obtain u where u: "fold_step s r = Inr u" "fold_log fold_step u rs = Inr s'" by (auto split: sum.splits)
  with Cons have "S (fst s) (fst u)" "S (fst u) (fst s')" by (auto intro: external_step)
  then show ?case by (rule s_trans)
qed (simp add: s_refl)

lemma absorb_keeps: "absorb j s = (res, j') \<Longrightarrow> S (j_state j) (j_state j')"
  by (auto simp: s_refl continued_state_def dest!: absorb_folds fold_external)

text \<open>An append: what others did, and then the record itself.\<close>

lemma append_once_folds:
  assumes "append_once j now b s = (res, j', s')"
  shows "case res of Inl _ \<Rightarrow> j' = j
         | Inr r \<Rightarrow> r_body r = b \<and> (\<exists>cx cx'. fold_step (j_state j, cx) r = Inr (j_state j', cx'))"
proof (cases res)
  case (Inl e)
  with assms append_once_Inl show ?thesis by auto
next
  case (Inr r)
  have b: "r_body r = b" using append_once_Inr(1)[OF assms[unfolded Inr]] by (simp add: next_record_def)
  from append_once_Inr(4)[OF assms[unfolded Inr]]
  obtain cx where "fold_step (continued_state (j_state j)) r = Inr (j_state j', cx)"
    by (auto simp: reduce_continued_Inr_iff split: sum.splits)
  with b Inr show ?thesis by (auto simp: continued_state_def)
qed

lemma journal_append_folds:
  assumes "journal_append env1 env2 j now1 now2 b s = (res, j', s')"
  shows "\<exists>st. S (j_state j) st \<and> (case res of Inl _ \<Rightarrow> j_state j' = st
         | Inr r \<Rightarrow> r_body r = b \<and> (\<exists>cx cx'. fold_step (st, cx) r = Inr (j_state j', cx')))"
proof -
  obtain r1 j1 s1 where a: "append_once j now1 b s = (r1, j1, s1)" by (cases "append_once j now1 b s") auto
  obtain r2 j2 where d: "absorb j1 (env1 s1) = (r2, j2)" by (cases "absorb j1 (env1 s1)")
  obtain r3 j3 s3 where c: "append_once j2 now2 b (env2 (env1 s1)) = (r3, j3, s3)"
    by (cases "append_once j2 now2 b (env2 (env1 s1))") auto
  note A = append_once_folds[OF a] and D = absorb_keeps[OF d] and C = append_once_folds[OF c]
  show ?thesis
  proof (cases "\<exists>i q. r1 = Inl (Conflict i q)")
    case False
    with assms a have "res = r1" "j' = j1" by (auto simp: journal_append_def split: sum.splits journal_error.splits)
    with A show ?thesis by (intro exI[of _ "j_state j"]) (auto simp: s_refl split: sum.splits)
  next
    case True
    then have j1: "j1 = j" using A by auto
    show ?thesis
    proof (cases "r2 = Inr True")
      case True
      with assms a d c \<open>\<exists>i q. r1 = Inl (Conflict i q)\<close> have "res = r3" "j' = j3"
        by (auto simp: journal_append_def Let_def)
      with C D j1 show ?thesis by (intro exI[of _ "j_state j2"]) (auto split: sum.splits)
    next
      case False
      with assms a d \<open>\<exists>i q. r1 = Inl (Conflict i q)\<close> have "j' = j2" "\<exists>e. res = Inl e"
        by (auto simp: journal_append_def Let_def split: sum.splits bool.splits)
      with D j1 show ?thesis by (intro exI[of _ "j_state j2"]) auto
    qed
  qed
qed

lemma write_folds:
  assumes "write_rec en b w = (res, w')"
  shows "\<exists>st. S (j_state (wk_journal w)) st \<and> (case res of Inl _ \<Rightarrow> j_state (wk_journal w') = st
         | Inr r \<Rightarrow> r_body r = b \<and> (\<exists>cx cx'. fold_step (st, cx) r = Inr (j_state (wk_journal w'), cx')))"
proof -
  let ?t = "wk_tick w"
  obtain r j s where a: "journal_append (en_others en (?t + 1)) (en_others en (?t + 2)) (wk_journal w) (en_now en ?t)
      (en_now en (?t + 1)) b (en_others en ?t (wk_store w)) = (r, j, s)"
    by (metis prod_cases3)
  with assms have "wk_journal w' = j" "res = (case r of Inl e \<Rightarrow> Inl (JournalErr e) | Inr r \<Rightarrow> Inr r)"
    by (auto simp: write_rec_def Let_def)
  with journal_append_folds[OF a] show ?thesis by (auto split: sum.splits)
qed

lemma write_to:
  obtains st where "S (j_state (wk_journal w)) st"
    and "j_state (wk_journal (snd (write_rec en b w))) = st \<or>
         (\<exists>r cx cx'. r_body r = b \<and> fold_step (st, cx) r = Inr (j_state (wk_journal (snd (write_rec en b w))), cx'))"
proof -
  obtain res w' where w: "write_rec en b w = (res, w')" by (cases "write_rec en b w")
  from write_folds[OF w] that show thesis by (cases res) (auto simp: w)
qed

end

locale quiet_state = external_state +
  assumes quiet_step: "quiet (r_body r) \<Longrightarrow> fold_step s r = Inr s' \<Longrightarrow> S (fst s) (fst s')"
begin

definition lifted :: "walk \<Rightarrow> walk \<Rightarrow> bool" where
  "lifted w w' \<longleftrightarrow> S (j_state (wk_journal w)) (j_state (wk_journal w'))"

lemma quiet_write: "quiet b \<Longrightarrow> carries lifted (write_rec en b)"
proof (unfold carries_def, intro allI)
  fix w assume "quiet b"
  then have "fold_step (st, cx) r = Inr (st', cx') \<Longrightarrow> r_body r = b \<Longrightarrow> S st st'" for st cx r st' cx'
    using quiet_step[of r "(st, cx)" "(st', cx')"] by simp
  then show "lifted w (snd (write_rec en b w))" unfolding lifted_def
    by (rule_tac write_to[of w en b]) (blast intro: s_trans)
qed

lemma lifted_refresh: "carries lifted (refresh_walk en)"
  by (auto simp: carries_def lifted_def refresh_walk_def refresh_def Let_def split: prod.splits dest: absorb_keeps)

end

text \<open>The contract of walks for what the reducer keeps.\<close>

sublocale quiet_state \<subseteq> held: quiet_relation lifted en for en :: "'e surroundings_scheme"
  by unfold_locales (auto simp: quiet_write lifted_refresh, auto simp: lifted_def s_refl intro: s_trans)

locale state_relation = quiet_state +
  assumes step: "fold_step s r = Inr s' \<Longrightarrow> S (fst s) (fst s')"
begin

lemma lifted_write: "carries lifted (write_rec en b)"
proof (unfold carries_def, intro allI)
  fix w
  have "fold_step (st, cx) r = Inr (st', cx') \<Longrightarrow> S st st'" for st cx r st' cx'
    using step[of "(st, cx)" r "(st', cx')"] by simp
  then show "lifted w (snd (write_rec en b w))" unfolding lifted_def
    by (rule_tac write_to[of w en b]) (blast intro: s_trans)
qed

end

sublocale state_relation \<subseteq> kept: await_relation lifted en for en :: "'e surroundings_scheme"
  by unfold_locales (rule lifted_write)

end
