(* ===== verification/Workflow.thy ===== *)
theory Workflow
  imports Walked
begin

text \<open>
  The workflow engine (\<open>psych_runtime/runtime/workflow.py\<close>): a walk over the step tree that remembers in
  the log what finished. What runs an agent or a tool, the tool gate, the clock, the abort signal, the
  other writers of the log and \<open>datetime.fromisoformat\<close> are arguments (\<open>engine\<close>); parking a Run is the
  store's \<open>set_runnable_at\<close>, as \<open>runtime/execute.py\<close> wires it. Spans are not modelled, nor the waiting in
  place of an engine without a store.

  The children of a parallel, branch or foreach run here one after another in their order: the schedule of
  the event loop when no child blocks, and of a semaphore of one. A child that stops or fails fast keeps
  the later ones from starting, and the first error by position is raised, as in the code.
\<close>

section \<open>Outcomes, frames, the engine\<close>

datatype step_status = SoCompleted | SoFailed | SoSkipped | SoSuspended | SoAborted

record step_outcome =
  so_name :: string
  so_status :: step_status
  so_output :: "obj option"
  so_failure :: "tool_failure option"
  so_memoised :: bool

definition stops_sequence :: "step_outcome \<Rightarrow> bool" where
  "stops_sequence o1 \<longleftrightarrow> so_status o1 = SoSuspended \<or> so_status o1 = SoAborted"

record workflow_outcome =
  wo_state :: "terminal_state option"
  wo_output :: "obj option"
  wo_failure :: "tool_failure option"

record frame =
  fr_scope :: workflow_scope
  fr_path :: "path_elem list"
  fr_parent_step_id :: "step_id option"
  fr_iteration :: "int option"

text \<open>
  What the engine is given besides its \<open>surroundings\<close>. \<open>en_overrun\<close> says that a piece of work did not end
  within a timeout, and where it was cut off.
\<close>

record 'a engine = surroundings +
  en_root :: "'a workflow_spec"
  en_agent :: "'a \<Rightarrow> obj \<Rightarrow> step_id \<Rightarrow> obj option walked"
  en_tool :: "string \<Rightarrow> obj \<Rightarrow> json walked"
  en_gate :: "(string \<Rightarrow> obj \<Rightarrow> decision walked) option"
  en_overrun :: "rat \<Rightarrow> walk \<Rightarrow> walk option"
  en_re :: re_search
  en_fromisoformat :: "string \<Rightarrow> string + timestamp"
  en_describe :: "raised \<Rightarrow> py_exception"
  en_float_str :: "rat \<Rightarrow> string"

section \<open>Helpers\<close>

abbreviation outcome :: "string \<Rightarrow> step_status \<Rightarrow> obj option \<Rightarrow> tool_failure option \<Rightarrow> step_outcome" where
  "outcome name st out f \<equiv> \<lparr>so_name = name, so_status = st, so_output = out, so_failure = f, so_memoised = False\<rparr>"

definition status_of :: "step_record \<Rightarrow> step_status" where
  "status_of memo = (if sr_skipped memo then SoSkipped else if sr_failure memo \<noteq> None then SoFailed else SoCompleted)"

fun status_str :: "step_status \<Rightarrow> string" where
  "status_str SoCompleted = ''completed''"
| "status_str SoFailed = ''failed''"
| "status_str SoSkipped = ''skipped''"
| "status_str SoSuspended = ''suspended''"
| "status_str SoAborted = ''aborted''"

definition kind_of_exception :: "py_exception \<Rightarrow> string" where
  "kind_of_exception x = (if px_access_denied x then ''denied'' else px_type_name x)"

definition is_blocking :: "'a workflow_step \<Rightarrow> step_outcome \<Rightarrow> bool" where
  "is_blocking child o1 \<longleftrightarrow> so_status o1 = SoFailed \<and> \<not> sb_on_failure_continue (step_base_of child)"

definition blocking_failure :: "'a workflow_step list \<Rightarrow> step_outcome list \<Rightarrow> step_outcome option" where
  "blocking_failure children outcomes =
     (case map snd (filter (\<lambda>(c, o1). is_blocking c o1) (zip children outcomes)) of
        [] \<Rightarrow> None
      | b # bs \<Rightarrow>
          (case find (\<lambda>o1. case so_failure o1 of None \<Rightarrow> True | Some f \<Rightarrow> tf_kind f \<noteq> ''cancelled'') (b # bs) of
             Some o1 \<Rightarrow> Some o1 | None \<Rightarrow> Some b))"

definition first_stop :: "step_outcome list \<Rightarrow> step_outcome option" where
  "first_stop outcomes =
     (case find (\<lambda>o1. so_status o1 = SoAborted) outcomes of
        Some o1 \<Rightarrow> Some o1
      | None \<Rightarrow> find (\<lambda>o1. so_status o1 = SoSuspended) outcomes)"

definition resume_after :: "run_state_view \<Rightarrow> step_id \<Rightarrow> int \<Rightarrow> suspend_reason option \<Rightarrow> step_resume option" where
  "resume_after st sid seq reason =
     find (\<lambda>a. sv_seq a > seq \<and> (case reason of None \<Rightarrow> True | Some r \<Rightarrow> sv_reason a = r))
       (case dict_get (v_step_resumes st) sid of None \<Rightarrow> [] | Some xs \<Rightarrow> xs)"

definition opt_obj :: "obj option \<Rightarrow> json" where
  "opt_obj x = (case x of None \<Rightarrow> JNull | Some kvs \<Rightarrow> JObj kvs)"

definition prior_of :: "workflow_scope \<Rightarrow> json" where
  "prior_of sc = JObj (map (\<lambda>(name, entry). (name, case dict_get entry ''output'' of None \<Rightarrow> JNull | Some v \<Rightarrow> v)) (ws_steps sc))"

definition step_input :: "'a workflow_step \<Rightarrow> workflow_scope \<Rightarrow> value_error + obj" where
  "step_input step sc =
     (let prior = (''prior'', prior_of sc);
          mapped = (\<lambda>m. if m = [] then Inr [prior]
                        else case resolve_mapping sc m of Inl e \<Rightarrow> Inl e | Inr kvs \<Rightarrow> Inr [(''input'', JObj kvs), prior])
      in case step of
           ToolStep _ tool arguments arguments_from \<Rightarrow>
             (case resolve_mapping sc arguments_from of
                Inl e \<Rightarrow> Inl e
              | Inr kvs \<Rightarrow> Inr [(''tool'', JStr tool), (''arguments'', JObj (dict_merge arguments kvs)), prior])
         | AgentStep _ _ m \<Rightarrow> mapped m
         | WorkflowStepRef _ _ m \<Rightarrow> mapped m
         | ForEachStep _ items _ _ _ \<Rightarrow>
             (case resolve_path sc items of Inl e \<Rightarrow> Inl e | Inr v \<Rightarrow> Inr [(''items'', v), prior])
         | _ \<Rightarrow> Inr [prior])"

text \<open>\<open>failure.model_dump(mode="json")\<close>\<close>

definition failure_dump :: "tool_failure \<Rightarrow> json" where
  "failure_dump f = JObj
     [(''kind'', JStr (tf_kind f)), (''message'', JStr (tf_message f)),
      (''traceback'', case tf_traceback f of None \<Rightarrow> JNull | Some t \<Rightarrow> JStr t),
      (''transient'', JBool (tf_transient f)),
      (''traceback_is_for_the_model'', JBool (tf_traceback_is_for_the_model f))]"

definition current_state :: "'a engine \<Rightarrow> run_state_view \<Rightarrow> obj" where
  "current_state en st = dict_merge (wf_initial_state (en_root en)) (v_workflow_state_updates st)"

definition entry_of :: "step_outcome \<Rightarrow> obj" where
  "entry_of o1 =
     [(''output'', opt_obj (so_output o1)),
      (''failure'', case so_failure o1 of None \<Rightarrow> JNull | Some f \<Rightarrow> failure_dump f),
      (''skipped'', JBool (so_status o1 = SoSkipped)),
      (''status'', JStr (status_str (so_status o1)))]"

definition after :: "'a engine \<Rightarrow> run_state_view \<Rightarrow> workflow_scope \<Rightarrow> 'a workflow_step \<Rightarrow> step_outcome \<Rightarrow> workflow_scope" where
  "after en st sc step o1 = with_state (current_state en st) (with_step (step_name step) (entry_of o1) sc)"

definition stopped :: "'a engine \<Rightarrow> step_outcome option walked" where
  "stopped en = then_do (refresh_walk en) (\<lambda>_ w.
     (Inr (if view_aborted (j_state (wk_journal w)) \<or>
              (case en_abort en (wk_tick w) of
                 None \<Rightarrow> False | Some sg \<Rightarrow> sg_set sg \<and> sg_reason sg \<noteq> Some DeadlinePassed)
           then Some (outcome [] SoAborted None None) else None), w))"

definition retry_policy_of :: "'a engine \<Rightarrow> 'a workflow_step \<Rightarrow> retry_policy" where
  "retry_policy_of en step = (case sb_retry (step_base_of step) of Some p \<Rightarrow> p | None \<Rightarrow> wf_retry (en_root en))"

section \<open>Waiting\<close>

definition suspend :: "'a engine \<Rightarrow> 'a workflow_step \<Rightarrow> step_id \<Rightarrow> suspend_reason \<Rightarrow> rat \<Rightarrow> string \<Rightarrow> string option \<Rightarrow> obj \<Rightarrow>
    asked_question list \<Rightarrow> step_outcome walked" where
  "suspend en step sid reason expires_in question event payload_schema questions =
     then_do (clock en) (\<lambda>now.
     then_do (write_rec en (Suspended
       \<lparr>su_reason = reason, su_payload_schema = payload_schema, su_expires_at = now + seconds_us expires_in,
        su_step_id = Some sid, su_step_name = Some (step_name step), su_event = event, su_wake_at = None,
        su_pending_call_id = None, su_question = Some question, su_questions = questions\<rparr>)) (\<lambda>_.
     give (outcome (step_name step) SoSuspended None None)))"

definition timer_grace :: int where
  "timer_grace = 7 * 86400000000"

definition suspend_timer :: "'a engine \<Rightarrow> 'a workflow_step \<Rightarrow> step_id \<Rightarrow> timestamp \<Rightarrow> step_outcome walked" where
  "suspend_timer en step sid wake_at =
     then_do (write_rec en (Suspended
       \<lparr>su_reason = Timer, su_payload_schema = [], su_expires_at = wake_at + timer_grace,
        su_step_id = Some sid, su_step_name = Some (step_name step), su_event = None, su_wake_at = Some wake_at,
        su_pending_call_id = None,
        su_question = Some (''step '' @ repr_str (step_name step) @ '' waits until '' @ iso_utc wake_at), su_questions = []\<rparr>)) (\<lambda>_.
     then_do (park en wake_at) (\<lambda>_.
     give (outcome (step_name step) SoSuspended None None)))"

definition suspension_of :: "'a engine \<Rightarrow> suspension_policy" where
  "suspension_of en = wf_suspension (en_root en)"

definition breakpoint :: "'a engine \<Rightarrow> 'a workflow_step \<Rightarrow> step_id \<Rightarrow> step_outcome option walked" where
  "breakpoint en step sid = look (\<lambda>st.
     if \<not> (v_step_mode st \<or> step_name step \<in> set (v_breakpoints st)) then give None
     else if list_ex (\<lambda>a. sv_reason a = Breakpoint) (case dict_get (v_step_resumes st) sid of None \<Rightarrow> [] | Some xs \<Rightarrow> xs)
     then give None
     else then_do (suspend en step sid Breakpoint (sp_question_expires_seconds (suspension_of en))
            (''paused before step '' @ repr_str (step_name step)) None [] []) (\<lambda>o1. give (Some o1)))"

text \<open>The step has started, so its record is there: \<open>state.steps[step_id]\<close> does not raise.\<close>

definition started_seq_of :: "run_state_view \<Rightarrow> step_id \<Rightarrow> int" where
  "started_seq_of st sid = (case dict_get (v_steps st) sid of Some m \<Rightarrow> sr_started_seq m | None \<Rightarrow> 0)"

definition woken_by :: "obj \<Rightarrow> json" where
  "woken_by payload = (case dict_get payload ''woken_by'' of None \<Rightarrow> JStr ''resume'' | Some v \<Rightarrow> v)"

definition sleep_until :: "'a engine \<Rightarrow> frame \<Rightarrow> rat option \<Rightarrow> string option \<Rightarrow> timestamp walked" where
  "sleep_until en fr seconds until =
     (case seconds of
        Some q \<Rightarrow> then_do (clock en) (\<lambda>now. give (now + seconds_us q))
      | None \<Rightarrow>
          (case until of
             None \<Rightarrow> raise_it (ValueErr PyAssertion)
           | Some p \<Rightarrow>
               then_do (lift_value (resolve_path (fr_scope fr) p)) (\<lambda>raw.
                 case raw of
                   JStr t \<Rightarrow>
                     (case en_fromisoformat en t of
                        Inl why \<Rightarrow> raise_it (ValueErr (UnresolvedPath p (''not an ISO 8601 timestamp: '' @ why)))
                      | Inr at_time \<Rightarrow> give at_time)
                 | _ \<Rightarrow> raise_it (ValueErr (UnresolvedPath p ''a sleep's `until` must be an ISO 8601 string'')))))"

definition do_sleep :: "'a engine \<Rightarrow> 'a workflow_step \<Rightarrow> frame \<Rightarrow> step_id \<Rightarrow> rat option \<Rightarrow> string option \<Rightarrow> step_outcome walked" where
  "do_sleep en step fr sid seconds until = look (\<lambda>st.
     case resume_after st sid (started_seq_of st sid) None of
       Some woken \<Rightarrow> give (outcome (step_name step) SoCompleted (Some [(''woken_by'', woken_by (sv_payload woken))]) None)
     | None \<Rightarrow>
         then_do (sleep_until en fr seconds until) (\<lambda>wake_at.
         then_do (clock en) (\<lambda>now.
           if wake_at \<le> now then give (outcome (step_name step) SoCompleted (Some [(''woken_by'', JStr ''elapsed'')]) None)
           else suspend_timer en step sid wake_at)))"

text \<open>\<open>x or y\<close> on an optional number of seconds, which is positive when it is there.\<close>

definition seconds_or :: "rat option \<Rightarrow> rat \<Rightarrow> rat" where
  "seconds_or x y = (case x of None \<Rightarrow> y | Some q \<Rightarrow> if q = 0 then y else q)"

definition do_wait :: "'a engine \<Rightarrow> 'a workflow_step \<Rightarrow> step_id \<Rightarrow> string \<Rightarrow> obj \<Rightarrow> step_outcome walked" where
  "do_wait en step sid event payload_schema = look (\<lambda>st.
     case resume_after st sid (started_seq_of st sid) (Some External) of
       Some answer \<Rightarrow>
         (case (if payload_schema = [] then Inr () else validate_schema (en_re en) (JObj (sv_payload answer)) (JObj payload_schema) []) of
            Inr _ \<Rightarrow> give (outcome (step_name step) SoCompleted (Some (sv_payload answer)) None)
          | Inl (SchemaViolation loc msg) \<Rightarrow> raise_it (StepFailedErr (guided_failure ''schema_violation''
              (''the payload delivered for event '' @ repr_str event @ '' does not satisfy payload_schema: '' @
               value_error_text (SchemaViolation loc msg))))
          | Inl e \<Rightarrow> raise_it (ValueErr e))
     | None \<Rightarrow>
         suspend en step sid External
           (seconds_or (sb_timeout_seconds (step_base_of step)) (sp_external_expires_seconds (suspension_of en)))
           (''waiting for event '' @ repr_str event) (Some event) payload_schema [])"

definition do_human :: "'a engine \<Rightarrow> 'a workflow_step \<Rightarrow> step_id \<Rightarrow> string \<Rightarrow> asked_question list \<Rightarrow> rat option \<Rightarrow>
    step_outcome walked" where
  "do_human en step sid prompt questions expires = look (\<lambda>st.
     case resume_after st sid (started_seq_of st sid) (Some Question) of
       Some answer \<Rightarrow> give (outcome (step_name step) SoCompleted (Some (sv_payload answer)) None)
     | None \<Rightarrow>
         suspend en step sid Question (seconds_or expires (sp_question_expires_seconds (suspension_of en)))
           (if questions = [] then prompt else render_questions questions) None [] questions)"

section \<open>Tools and agents\<close>

definition timed :: "'a engine \<Rightarrow> 'a workflow_step \<Rightarrow> 'x walked \<Rightarrow> 'x walked" where
  "timed en step work w =
     (case sb_timeout_seconds (step_base_of step) of
        None \<Rightarrow> work w
      | Some q \<Rightarrow> (case en_overrun en q w of Some w' \<Rightarrow> (Inl TimeoutErr, w') | None \<Rightarrow> work w))"

definition step_arguments :: "obj \<Rightarrow> value_error + obj" where
  "step_arguments input = (case dict_get input ''arguments'' of None \<Rightarrow> Inr [] | Some (JObj kvs) \<Rightarrow> Inr kvs | Some _ \<Rightarrow> Inl PyTypeError)"

definition refusal :: "string \<Rightarrow> step_resume \<Rightarrow> tool_failure" where
  "refusal tool answer = guided_failure ''denied''
     (''the call to '' @ repr_str tool @ '' was not approved'' @
      (case dict_get (sv_payload answer) ''by'' of
         None \<Rightarrow> [] | Some v \<Rightarrow> if truthy v then '' by '' @ py_str v else []) @ ''.'')"

text \<open>What the gate makes of a call: Some outcome suspends, None lets it run.\<close>

definition gated :: "'a engine \<Rightarrow> 'a workflow_step \<Rightarrow> string \<Rightarrow> step_id \<Rightarrow> obj \<Rightarrow> step_outcome option walked" where
  "gated en step tool sid arguments =
     (case en_gate en of
        None \<Rightarrow> give None
      | Some gate \<Rightarrow> then_do (gate tool arguments) (\<lambda>d.
          if de_requires_approval d then look (\<lambda>st.
            case resume_after st sid (started_seq_of st sid) (Some Approval) of
              None \<Rightarrow> then_do (suspend en step sid Approval (sp_approval_expires_seconds (suspension_of en))
                       (if de_reason d \<noteq> [] then de_reason d
                        else ''Approve the call to '' @ repr_str tool @ '' with arguments '' @ py_repr (JObj arguments) @ ''?'')
                       None [] []) (\<lambda>o1. give (Some o1))
            | Some answer \<Rightarrow>
                if sv_approved answer = Some True then give None else raise_it (StepFailedErr (refusal tool answer)))
          else if \<not> de_allowed d then raise_it (StepFailedErr (guided_failure ''denied''
            (if de_reason d \<noteq> [] then de_reason d else ''the policy refused tool '' @ repr_str tool)))
          else give None))"

definition do_tool :: "'a engine \<Rightarrow> 'a workflow_step \<Rightarrow> string \<Rightarrow> step_id \<Rightarrow> obj \<Rightarrow> step_outcome walked" where
  "do_tool en step tool sid input =
     then_do (lift_value (step_arguments input)) (\<lambda>arguments.
     then_do (gated en step tool sid arguments) (\<lambda>paused.
       case paused of
         Some o1 \<Rightarrow> give o1
       | None \<Rightarrow> then_do (timed en step (en_tool en tool arguments)) (\<lambda>result.
           give (outcome (step_name step) SoCompleted (Some [(''result'', result)]) None))))"

section \<open>Composites\<close>

text \<open>The steps run by a composite are run by \<open>rec\<close>.\<close>

record seq_result =
  sq_outcome :: "step_outcome option"
  sq_scope :: workflow_scope
  sq_outputs :: obj

fun sequence_from :: "'a engine \<Rightarrow> ('a workflow_step \<Rightarrow> frame \<Rightarrow> step_outcome walked) \<Rightarrow> string \<Rightarrow> frame \<Rightarrow> nat \<Rightarrow>
    'a workflow_step list \<Rightarrow> workflow_scope \<Rightarrow> obj \<Rightarrow> seq_result walked" where
  "sequence_from en rec name fr index [] sc outs = give \<lparr>sq_outcome = None, sq_scope = sc, sq_outputs = outs\<rparr>"
| "sequence_from en rec name fr index (step # steps) sc outs =
     then_do (stopped en) (\<lambda>halt.
       case halt of
         Some o1 \<Rightarrow> give \<lparr>sq_outcome = Some o1, sq_scope = sc, sq_outputs = outs\<rparr>
       | None \<Rightarrow>
           then_do (rec step (fr\<lparr>fr_scope := sc, fr_path := fr_path fr @ [PName name, PIndex (int index), PName (step_name step)]\<rparr>)) (\<lambda>o1.
           look (\<lambda>st.
             let sc1 = after en st sc step o1; outs1 = dict_put (step_name step) (opt_obj (so_output o1)) outs in
             if stops_sequence o1 \<or> is_blocking step o1
             then give \<lparr>sq_outcome = Some o1, sq_scope = sc1, sq_outputs = outs1\<rparr>
             else if sb_ends_workflow (step_base_of step) \<and> so_status o1 = SoCompleted
             then give \<lparr>sq_outcome = None, sq_scope = sc1, sq_outputs = outs1\<rparr>
             else sequence_from en rec name fr (index + 1) steps sc1 outs1)))"

definition sequence :: "'a engine \<Rightarrow> ('a workflow_step \<Rightarrow> frame \<Rightarrow> step_outcome walked) \<Rightarrow> 'a workflow_spec \<Rightarrow> frame \<Rightarrow>
    seq_result walked" where
  "sequence en rec spec fr = sequence_from en rec (wf_name spec) fr 0 (wf_steps spec) (fr_scope fr) []"

text \<open>
  \<open>_concurrently\<close>, in the schedule above: what each child came to, None where it was not started or was
  cancelled.
\<close>

type_synonym 'a work = "('a workflow_step \<times> frame) list"

fun run_each :: "('a workflow_step \<Rightarrow> frame \<Rightarrow> step_outcome walked) \<Rightarrow> bool \<Rightarrow> bool \<Rightarrow> 'a work \<Rightarrow> walk \<Rightarrow>
    (raised + step_outcome) option list \<times> walk" where
  "run_each rec fail_fast halt [] w = ([], w)"
| "run_each rec fail_fast halt ((step, fr) # work) w =
     (if halt then (let (rs, w1) = run_each rec fail_fast True work w in (None # rs, w1))
      else case rec step fr w of
        (Inl e, w1) \<Rightarrow>
          (let (rs, w2) = run_each rec fail_fast False work w1
           in ((if e = CancelledErr then None else Some (Inl e)) # rs, w2))
      | (Inr o1, w1) \<Rightarrow>
          (let (rs, w2) = run_each rec fail_fast (stops_sequence o1 \<or> fail_fast \<and> is_blocking step o1) work w1
           in (Some (Inr o1) # rs, w2)))"

definition filler :: "step_outcome option \<Rightarrow> 'a workflow_step \<Rightarrow> step_outcome" where
  "filler real_stop step =
     (case real_stop of
        Some o1 \<Rightarrow> outcome (step_name step) (so_status o1) None None
      | None \<Rightarrow> outcome (step_name step) SoFailed None (Some (guided_failure ''cancelled''
          (''step '' @ repr_str (step_name step) @ '' was cancelled because a sibling failed first.''))))"

definition first_error :: "(raised + step_outcome) option list \<Rightarrow> raised option" where
  "first_error rs = (case List.map_filter (\<lambda>r. case r of Some (Inl e) \<Rightarrow> Some e | _ \<Rightarrow> None) rs of [] \<Rightarrow> None | e # _ \<Rightarrow> Some e)"

definition finished_of :: "(raised + step_outcome) option list \<Rightarrow> step_outcome list" where
  "finished_of rs = List.map_filter (\<lambda>r. case r of Some (Inr o1) \<Rightarrow> Some o1 | _ \<Rightarrow> None) rs"

definition concurrently :: "('a workflow_step \<Rightarrow> frame \<Rightarrow> step_outcome walked) \<Rightarrow> 'a work \<Rightarrow> bool \<Rightarrow> step_outcome list walked" where
  "concurrently rec work fail_fast w =
     (case run_each rec fail_fast False work w of
        (rs, w1) \<Rightarrow>
          (case first_error rs of
             Some e \<Rightarrow> (Inl e, w1)
           | None \<Rightarrow>
               (Inr (map2 (\<lambda>r p. case r of Some (Inr o1) \<Rightarrow> o1 | _ \<Rightarrow> filler (find stops_sequence (finished_of rs)) (fst p)) rs work), w1)))"

text \<open>How a parallel, branch or foreach ends.\<close>

definition conclude :: "'a workflow_step \<Rightarrow> 'a workflow_step list \<Rightarrow> step_outcome list \<Rightarrow> obj \<Rightarrow> step_outcome" where
  "conclude step children outcomes output =
     (case first_stop outcomes of
        Some o1 \<Rightarrow> o1
      | None \<Rightarrow>
          (case blocking_failure children outcomes of
             Some o1 \<Rightarrow> outcome (step_name step) SoFailed None (so_failure o1)
           | None \<Rightarrow> outcome (step_name step) SoCompleted (Some output) None))"

definition at_child :: "frame \<Rightarrow> path_elem \<Rightarrow> 'a workflow_step \<Rightarrow> 'a workflow_step \<times> frame" where
  "at_child fr e step = (step, fr\<lparr>fr_path := fr_path fr @ [e, PName (step_name step)]\<rparr>)"

definition do_parallel :: "'a engine \<Rightarrow> ('a workflow_step \<Rightarrow> frame \<Rightarrow> step_outcome walked) \<Rightarrow> 'a workflow_step \<Rightarrow>
    'a workflow_step list \<Rightarrow> bool \<Rightarrow> frame \<Rightarrow> step_outcome walked" where
  "do_parallel en rec step branches fail_fast fr =
     then_do (concurrently rec (map (\<lambda>(i, b). at_child fr (PIndex (int i)) b) (enumerate 0 branches)) fail_fast) (\<lambda>outcomes.
     give (conclude step branches outcomes
       (fold (\<lambda>(b, o1). dict_put (step_name b) (opt_obj (so_output o1))) (zip branches outcomes) [])))"

text \<open>\<open>_branch\<close>: which cases run, and which are recorded as skipped.\<close>

fun choose_cases :: "re_search \<Rightarrow> bool \<Rightarrow> frame \<Rightarrow> nat \<Rightarrow> 'a branch_case list \<Rightarrow> 'a work \<Rightarrow> 'a work \<Rightarrow>
    value_error + 'a work \<times> 'a work" where
  "choose_cases re mode_all fr index [] chosen skipped = Inr (chosen, skipped)"
| "choose_cases re mode_all fr index (c # cs) chosen skipped =
     (case evaluate_condition re (fr_scope fr) (bc_when c) of
        Inl e \<Rightarrow> Inl e
      | Inr holds \<Rightarrow>
          let child = at_child fr (PIndex (int index)) (bc_step c)
          in if holds \<and> (mode_all \<or> chosen = [])
             then choose_cases re mode_all fr (index + 1) cs (chosen @ [child]) skipped
             else choose_cases re mode_all fr (index + 1) cs chosen (skipped @ [child]))"

definition with_otherwise :: "frame \<Rightarrow> 'a workflow_step option \<Rightarrow> 'a work \<times> 'a work \<Rightarrow> 'a work \<times> 'a work" where
  "with_otherwise fr otherwise p =
     (case otherwise of
        None \<Rightarrow> p
      | Some s \<Rightarrow>
          let child = at_child fr (PName ''otherwise'') s
          in if fst p = [] then ([child], snd p) else (fst p, snd p @ [child]))"

definition start_record :: "'a workflow_step \<Rightarrow> frame \<Rightarrow> step_id \<Rightarrow> int \<Rightarrow> obj \<Rightarrow> body" where
  "start_record step fr sid n input = StepStarted
     \<lparr>ss_step_id = sid, ss_name = step_name step, ss_kind = kind_of step, ss_attempt_number = n, ss_input = input,
      ss_path = fr_path fr, ss_parent_step_id = fr_parent_step_id fr, ss_iteration = fr_iteration fr,
      ss_replayed_from = None\<rparr>"

definition end_record :: "step_id \<Rightarrow> obj option \<Rightarrow> tool_failure option \<Rightarrow> bool \<Rightarrow> timestamp option \<Rightarrow> body" where
  "end_record sid output f skipped retry_at = StepCompleted
     \<lparr>sc_step_id = sid, sc_output = output, sc_failure = f, sc_child_run_id = None, sc_skipped = skipped,
      sc_will_retry = retry_at \<noteq> None, sc_retry_at = retry_at\<rparr>"

definition record_skipped :: "'a engine \<Rightarrow> 'a workflow_step \<Rightarrow> frame \<Rightarrow> step_id \<Rightarrow> int \<Rightarrow> unit walked" where
  "record_skipped en step fr sid n =
     then_do (write_rec en (start_record step fr sid n [])) (\<lambda>_.
     then_do (write_rec en (end_record sid None None True None)) (\<lambda>_. give ()))"

definition id_of :: "frame \<Rightarrow> walk \<Rightarrow> step_id" where
  "id_of fr w = derive_step_id (j_run_id (wk_journal w)) (fr_path fr)"

definition skip_step :: "'a engine \<Rightarrow> 'a workflow_step \<Rightarrow> frame \<Rightarrow> unit walked" where
  "skip_step en step fr w =
     (case dict_get (v_steps (j_state (wk_journal w))) (id_of fr w) of
        None \<Rightarrow> record_skipped en step fr (id_of fr w) 1 w
      | Some memo \<Rightarrow> if sr_completed memo then give () w
                     else record_skipped en step fr (id_of fr w) (sr_attempt_number memo + 1) w)"

fun skip_all :: "'a engine \<Rightarrow> 'a work \<Rightarrow> unit walked" where
  "skip_all en [] = give ()"
| "skip_all en ((step, fr) # work) = then_do (skip_step en step fr) (\<lambda>_. skip_all en work)"

definition do_branch :: "'a engine \<Rightarrow> ('a workflow_step \<Rightarrow> frame \<Rightarrow> step_outcome walked) \<Rightarrow> 'a workflow_step \<Rightarrow>
    'a branch_case list \<Rightarrow> 'a workflow_step option \<Rightarrow> bool \<Rightarrow> frame \<Rightarrow> step_outcome walked" where
  "do_branch en rec step cases otherwise mode_all fr =
     then_do (lift_value (choose_cases (en_re en) mode_all fr 0 cases [] [])) (\<lambda>p.
     let (chosen, skipped) = with_otherwise fr otherwise p in
     then_do (skip_all en skipped) (\<lambda>_.
     then_do (concurrently rec chosen True) (\<lambda>outcomes.
     give (conclude step (map fst chosen) outcomes
       (fold (\<lambda>(p, o1). dict_put (step_name (fst p)) (opt_obj (so_output o1))) (zip chosen outcomes)
         [(''chosen'', JArr (map (\<lambda>p. JStr (step_name (fst p))) chosen))])))))"

definition foreach_work :: "'a workflow_step \<Rightarrow> frame \<Rightarrow> json list \<Rightarrow> 'a work" where
  "foreach_work body fr xs =
     map (\<lambda>(i, x). (body, fr\<lparr>fr_scope := inside (Some x) (Some (int i)) None (fr_scope fr),
                              fr_path := fr_path fr @ [PIndex (int i), PName (step_name body)],
                              fr_iteration := Some (int i)\<rparr>)) (enumerate 0 xs)"

definition do_foreach :: "'a engine \<Rightarrow> ('a workflow_step \<Rightarrow> frame \<Rightarrow> step_outcome walked) \<Rightarrow> 'a workflow_step \<Rightarrow>
    string \<Rightarrow> 'a workflow_step \<Rightarrow> bool \<Rightarrow> frame \<Rightarrow> step_outcome walked" where
  "do_foreach en rec step items body fail_fast fr =
     then_do (lift_value (resolve_path (fr_scope fr) items)) (\<lambda>v.
       case v of
         JArr xs \<Rightarrow>
           then_do (concurrently rec (foreach_work body fr xs) fail_fast) (\<lambda>outcomes.
           give (conclude step (map (\<lambda>_. body) xs) outcomes
             [(''items'', JArr (map (\<lambda>o1. opt_obj (so_output o1)) outcomes)), (''count'', JInt (int (length outcomes)))]))
       | _ \<Rightarrow> raise_it (ValueErr (UnresolvedPath items (''a foreach needs a list; got '' @ type_name v))))"

text \<open>\<open>left\<close> iterations are left of \<open>range(1, max_iterations + 1)\<close>.\<close>

definition loop_exit :: "'a workflow_step \<Rightarrow> int \<Rightarrow> obj option \<Rightarrow> step_outcome" where
  "loop_exit step iteration last1 =
     outcome (step_name step) SoCompleted (Some [(''iterations'', JInt iteration), (''last'', opt_obj last1)]) None"

definition exit_holds :: "re_search \<Rightarrow> workflow_scope \<Rightarrow> condition option \<Rightarrow> condition option \<Rightarrow> value_error + bool" where
  "exit_holds re sc until while =
     (case (case until of None \<Rightarrow> Inr False | Some c \<Rightarrow> evaluate_condition re sc c) of
        Inl e \<Rightarrow> Inl e
      | Inr True \<Rightarrow> Inr True
      | Inr False \<Rightarrow>
          (case while of
             None \<Rightarrow> Inr False
           | Some c \<Rightarrow> (case evaluate_condition re sc c of Inl e \<Rightarrow> Inl e | Inr b \<Rightarrow> Inr (\<not> b))))"

fun loop_from :: "'a engine \<Rightarrow> ('a workflow_step \<Rightarrow> frame \<Rightarrow> step_outcome walked) \<Rightarrow> 'a workflow_step \<Rightarrow> 'a workflow_step \<Rightarrow>
    condition option \<Rightarrow> condition option \<Rightarrow> int \<Rightarrow> frame \<Rightarrow> nat \<Rightarrow> int \<Rightarrow> workflow_scope \<Rightarrow> step_outcome walked" where
  "loop_from en rec step body until while max_iterations fr 0 iteration sc =
     give (outcome (step_name step) SoFailed None (Some (guided_failure ''loop_exhausted''
       (''loop '' @ repr_str (step_name step) @ '' ran its max_iterations of '' @ int_str max_iterations @
        '' without its exit condition holding.''))))"
| "loop_from en rec step body until while max_iterations fr (Suc left) iteration sc =
     then_do (stopped en) (\<lambda>halt.
       case halt of
         Some o1 \<Rightarrow> give o1
       | None \<Rightarrow>
           then_do (rec body (fr\<lparr>fr_scope := inside None None (Some iteration) sc,
                                 fr_path := fr_path fr @ [PIndex iteration, PName (step_name body)],
                                 fr_iteration := Some iteration\<rparr>)) (\<lambda>o1.
           look (\<lambda>st.
             let sc1 = after en st sc body o1 in
             if stops_sequence o1 then give o1
             else if is_blocking body o1 then give (outcome (step_name step) SoFailed None (so_failure o1))
             else then_do (lift_value (exit_holds (en_re en) (inside None None (Some iteration) sc1) until while)) (\<lambda>leave.
               if leave then give (loop_exit step iteration (so_output o1))
               else loop_from en rec step body until while max_iterations fr left (iteration + 1) sc1))))"

definition do_nested :: "'a engine \<Rightarrow> ('a workflow_step \<Rightarrow> frame \<Rightarrow> step_outcome walked) \<Rightarrow> 'a workflow_step \<Rightarrow>
    'a workflow_spec \<Rightarrow> frame \<Rightarrow> obj \<Rightarrow> step_outcome walked" where
  "do_nested en rec step spec fr input =
     then_do (lift_value (case dict_get input ''input'' of
         None \<Rightarrow> Inr (ws_input (fr_scope fr)) | Some (JObj kvs) \<Rightarrow> Inr kvs | Some _ \<Rightarrow> Inl PyTypeError)) (\<lambda>inner_input.
     look (\<lambda>st.
     then_do (sequence en rec spec (fr\<lparr>fr_scope := \<lparr>ws_input = inner_input, ws_steps = [], ws_state = current_state en st,
                                          ws_item = None, ws_index = None, ws_iteration = None\<rparr>\<rparr>)) (\<lambda>result.
       case sq_outcome result of
         Some o1 \<Rightarrow>
           give (if so_status o1 = SoFailed then outcome (step_name step) SoFailed None (so_failure o1) else o1)
       | None \<Rightarrow>
           then_do (lift_value (case wf_output spec of None \<Rightarrow> Inr (sq_outputs result) | Some m \<Rightarrow> resolve_mapping (sq_scope result) m))
             (\<lambda>output. give (outcome (step_name step) SoCompleted (Some output) None)))))"

definition execute_step :: "'a engine \<Rightarrow> ('a workflow_step \<Rightarrow> frame \<Rightarrow> step_outcome walked) \<Rightarrow> 'a workflow_step \<Rightarrow> frame \<Rightarrow>
    step_id \<Rightarrow> obj \<Rightarrow> step_outcome walked" where
  "execute_step en rec step fr sid input =
     (let inner = fr\<lparr>fr_parent_step_id := Some sid\<rparr> in
      case step of
        ToolStep _ tool _ _ \<Rightarrow> do_tool en step tool sid input
      | AgentStep _ spec _ \<Rightarrow>
          then_do (timed en step (en_agent en spec input sid)) (\<lambda>output. give (outcome (step_name step) SoCompleted output None))
      | WorkflowStepRef _ spec _ \<Rightarrow> do_nested en rec step spec inner input
      | ParallelStep _ branches fail_fast \<Rightarrow> do_parallel en rec step branches fail_fast inner
      | BranchStep _ cases otherwise mode_all \<Rightarrow> do_branch en rec step cases otherwise mode_all inner
      | ForEachStep _ items body _ fail_fast \<Rightarrow> do_foreach en rec step items body fail_fast inner
      | LoopStep _ body until while max_iterations \<Rightarrow>
          loop_from en rec step body until while max_iterations inner (nat max_iterations) 1 (fr_scope inner)
      | MapStep _ output \<Rightarrow>
          then_do (lift_value (resolve_mapping (fr_scope fr) output)) (\<lambda>kvs. give (outcome (step_name step) SoCompleted (Some kvs) None))
      | SetStateStep _ values \<Rightarrow>
          then_do (lift_value (resolve_mapping (fr_scope fr) values)) (\<lambda>kvs. give (outcome (step_name step) SoCompleted (Some kvs) None))
      | SleepStep _ seconds until \<Rightarrow> do_sleep en step fr sid seconds until
      | WaitStep _ event payload_schema \<Rightarrow> do_wait en step sid event payload_schema
      | HumanStep _ prompt questions expires \<Rightarrow> do_human en step sid prompt questions expires)"

section \<open>Attempts\<close>

text \<open>\<open>again\<close> is the next attempt of the step; the code calls it where an attempt is left.\<close>

definition may_retry :: "retry_policy \<Rightarrow> int \<Rightarrow> tool_failure \<Rightarrow> bool" where
  "may_retry policy n f \<longleftrightarrow>
     n < rp_max_attempts policy \<and> (rp_retry_on policy = [] \<or> tf_kind f \<in> set (rp_retry_on policy)) \<and> tf_kind f \<noteq> ''denied''"

definition end_failed :: "'a engine \<Rightarrow> 'a workflow_step \<Rightarrow> step_id \<Rightarrow> tool_failure option \<Rightarrow> step_outcome walked" where
  "end_failed en step sid f =
     then_do (write_rec en (end_record sid None f False None)) (\<lambda>_. give (outcome (step_name step) SoFailed None f))"

definition failed :: "'a engine \<Rightarrow> 'a workflow_step \<Rightarrow> step_id \<Rightarrow> int \<Rightarrow> tool_failure option \<Rightarrow> step_outcome walked \<Rightarrow>
    step_outcome walked" where
  "failed en step sid n failure again =
     (let f = (case failure of Some x \<Rightarrow> x | None \<Rightarrow> guided_failure ''step_failed'' (''step '' @ repr_str (step_name step) @ '' failed''));
          policy = retry_policy_of en step
      in if \<not> may_retry policy n f then end_failed en step sid (Some f)
         else let delay = delay_before policy (n + 1) in
              then_do (clock en) (\<lambda>now.
              let retry_at = now + seconds_us delay in
              then_do (write_rec en (end_record sid None (Some f) False (Some retry_at))) (\<lambda>_.
                if delay > 0 then suspend_timer en step sid retry_at
                else then_do (stopped en) (\<lambda>halt. case halt of Some o1 \<Rightarrow> give o1 | None \<Rightarrow> again))))"

definition record_failure :: "'a engine \<Rightarrow> 'a workflow_step \<Rightarrow> frame \<Rightarrow> step_id \<Rightarrow> int \<Rightarrow> tool_failure \<Rightarrow> step_outcome walked \<Rightarrow>
    step_outcome walked" where
  "record_failure en step fr sid n f again =
     then_do (write_rec en (start_record step fr sid n [])) (\<lambda>_. failed en step sid n (Some f) again)"

text \<open>The except clauses around \<open>_execute\<close>; None lets the exception through.\<close>

definition caught :: "'a engine \<Rightarrow> 'a workflow_step \<Rightarrow> raised \<Rightarrow> raised + tool_failure" where
  "caught en step e =
     (case e of
        StepFailedErr f \<Rightarrow> Inr f
      | TimeoutErr \<Rightarrow> Inr (guided_failure ''step_timeout''
          (''step '' @ repr_str (step_name step) @ '' ran past its timeout of '' @
           (case sb_timeout_seconds (step_base_of step) of None \<Rightarrow> ''None'' | Some q \<Rightarrow> en_float_str en q) @
           '' seconds and was stopped.''))
      | ValueErr (UnresolvedPath p why) \<Rightarrow> Inr (guided_failure ''unresolved_path'' (value_error_text (UnresolvedPath p why)))
      | CancelledErr \<Rightarrow> Inl CancelledErr
      | _ \<Rightarrow>
          let x = en_describe en e in
          (case mk_tool_failure (kind_of_exception x) (failure_guidance (kind_of_exception x) (px_text x) False None)
                  (Some (px_traceback x)) False False of
             None \<Rightarrow> Inl ValidationErr | Some f \<Rightarrow> Inr f))"

definition finish :: "'a engine \<Rightarrow> 'a workflow_step \<Rightarrow> step_id \<Rightarrow> int \<Rightarrow> obj option \<Rightarrow> step_outcome walked \<Rightarrow> step_outcome walked" where
  "finish en step sid n output again =
     (let complete = then_do (write_rec en (end_record sid output None False None))
            (\<lambda>_. give (outcome (step_name step) SoCompleted output None))
      in case (sb_output_schema (step_base_of step), output) of
           (Some schema, Some kvs) \<Rightarrow>
             (case validate_schema (en_re en) (JObj kvs) (JObj schema) [] of
                Inr _ \<Rightarrow> complete
              | Inl (SchemaViolation loc msg) \<Rightarrow>
                  failed en step sid n (Some (guided_failure ''schema_violation''
                    (''step '' @ repr_str (step_name step) @ '' produced output that does not satisfy its output_schema: '' @
                     value_error_text (SchemaViolation loc msg)))) again
              | Inl e \<Rightarrow> raise_it (ValueErr e))
         | _ \<Rightarrow> complete)"

definition drive :: "'a engine \<Rightarrow> (obj \<Rightarrow> step_outcome walked) \<Rightarrow> 'a workflow_step \<Rightarrow> step_id \<Rightarrow> int \<Rightarrow> obj \<Rightarrow> step_outcome walked \<Rightarrow>
    step_outcome walked" where
  "drive en exec step sid n input again w =
     (case exec input w of
        (Inl e, w1) \<Rightarrow>
          (case caught en step e of
             Inl e' \<Rightarrow> (Inl e', w1)
           | Inr f \<Rightarrow> failed en step sid n (Some f) again w1)
      | (Inr result, w1) \<Rightarrow>
          (case so_status result of
             SoCompleted \<Rightarrow> finish en step sid n (so_output result) again w1
           | SoFailed \<Rightarrow>
               if composite step then end_failed en step sid (so_failure result) w1
               else failed en step sid n (so_failure result) again w1
           | _ \<Rightarrow> (Inr result, w1)))"

definition budget_failure :: "int \<Rightarrow> int \<Rightarrow> tool_failure" where
  "budget_failure starts max_steps = guided_failure ''budget_exhausted''
     (''the workflow has started '' @ int_str starts @ '' steps, which is its Limits.max_steps of '' @ int_str max_steps @
      ''. Loops and foreach bodies count once per iteration; raise the limit or bound the loop.'')"

definition attempt_step :: "'a engine \<Rightarrow> (obj \<Rightarrow> step_outcome walked) \<Rightarrow> 'a workflow_step \<Rightarrow> frame \<Rightarrow> step_id \<Rightarrow> int \<Rightarrow>
    step_outcome walked \<Rightarrow> step_outcome walked" where
  "attempt_step en exec step fr sid n again = look (\<lambda>st.
     if v_step_starts st \<ge> li_max_steps (wf_limits (en_root en))
     then let f = budget_failure (v_step_starts st) (li_max_steps (wf_limits (en_root en))) in
          then_do (write_rec en (start_record step fr sid n [])) (\<lambda>_. end_failed en step sid (Some f))
     else case (case sb_when (step_base_of step) of None \<Rightarrow> Inr True | Some c \<Rightarrow> evaluate_condition (en_re en) (fr_scope fr) c) of
            Inl (UnresolvedPath p why) \<Rightarrow>
              record_failure en step fr sid n (guided_failure ''unresolved_path''
                (''the step'' @ [CHR 0x27] @ ''s `when` did not resolve: '' @ value_error_text (UnresolvedPath p why))) again
          | Inl e \<Rightarrow> raise_it (ValueErr e)
          | Inr False \<Rightarrow>
              then_do (record_skipped en step fr sid n) (\<lambda>_. give (outcome (step_name step) SoSkipped None None))
          | Inr True \<Rightarrow>
              (case step_input step (fr_scope fr) of
                 Inl (UnresolvedPath p why) \<Rightarrow>
                   record_failure en step fr sid n (guided_failure ''unresolved_path''
                     (''the step'' @ [CHR 0x27] @ ''s input did not resolve: '' @ value_error_text (UnresolvedPath p why))) again
               | Inl e \<Rightarrow> raise_it (ValueErr e)
               | Inr input \<Rightarrow>
                   then_do (write_rec en (start_record step fr sid n input)) (\<lambda>_. drive en exec step sid n input again)))"

lemma failed_cong:
  "(n < rp_max_attempts (retry_policy_of en step) \<Longrightarrow> a = b) \<Longrightarrow> failed en step sid n f a = failed en step sid n f b"
  by (cases "n < rp_max_attempts (retry_policy_of en step)") (simp_all add: failed_def may_retry_def Let_def)

lemma attempt_step_cong [fundef_cong]:
  assumes "en = en'" "exec = exec'" "step = step'" "fr = fr'" "sid = sid'" "n = n'"
    and "n' < rp_max_attempts (retry_policy_of en' step') \<Longrightarrow> a = b"
  shows "attempt_step en exec step fr sid n a = attempt_step en' exec' step' fr' sid' n' b"
proof -
  have f: "failed en' step' sid' n' g a = failed en' step' sid' n' g b" for g
    using assms(7) by (rule failed_cong)
  have "drive en' exec' step' sid' n' input a = drive en' exec' step' sid' n' input b" for input
    by (rule ext) (simp only: drive_def finish_def f)
  then show ?thesis unfolding assms(1-6) attempt_step_def record_failure_def f by presburger
qed

function attempts :: "'a engine \<Rightarrow> (obj \<Rightarrow> step_outcome walked) \<Rightarrow> 'a workflow_step \<Rightarrow> frame \<Rightarrow> step_id \<Rightarrow> int \<Rightarrow> step_outcome walked" where
  "attempts en exec step fr sid n = attempt_step en exec step fr sid n (attempts en exec step fr sid (n + 1))"
  by pat_completeness auto
termination
  by (relation "measure (\<lambda>(en, _, step, _, _, n). nat (rp_max_attempts (retry_policy_of en step) - n))") auto

declare attempts.simps [simp del]

section \<open>Steps\<close>

definition memoised :: "'a workflow_step \<Rightarrow> step_record \<Rightarrow> step_outcome" where
  "memoised step memo =
     \<lparr>so_name = step_name step, so_status = status_of memo, so_output = sr_output memo, so_failure = sr_failure memo,
      so_memoised = True\<rparr>"

text \<open>\<open>_step\<close>; \<open>exec\<close> is \<open>_execute\<close> of this step in this frame.\<close>

definition step_body :: "'a engine \<Rightarrow> (step_id \<Rightarrow> obj \<Rightarrow> step_outcome walked) \<Rightarrow> 'a workflow_step \<Rightarrow> frame \<Rightarrow> step_outcome walked" where
  "step_body en exec step fr w =
     (let sid = id_of fr w; st = j_state (wk_journal w); next_attempt = (\<lambda>n. attempts en (exec sid) step fr sid n)
      in case dict_get (v_steps st) sid of
           None \<Rightarrow>
             then_do (breakpoint en step sid) (\<lambda>paused. case paused of Some o1 \<Rightarrow> give o1 | None \<Rightarrow> next_attempt 1) w
         | Some memo \<Rightarrow>
             if step_settled memo then (Inr (memoised step memo), w)
             else if sr_completed memo then
               (case sr_retry_at memo of
                  None \<Rightarrow> next_attempt (sr_attempt_number memo + 1)
                | Some due \<Rightarrow> then_do (clock en) (\<lambda>now.
                    if now < due \<and>
                       resume_after st sid (case sr_completed_seq memo of None \<Rightarrow> 0 | Some q \<Rightarrow> q) None = None
                    then suspend_timer en step sid due
                    else next_attempt (sr_attempt_number memo + 1))) w
             else if resume_after st sid (sr_started_seq memo) None \<noteq> None
             then drive en (exec sid) step sid (sr_attempt_number memo) (sr_input memo) (next_attempt (sr_attempt_number memo + 1)) w
             else next_attempt (sr_attempt_number memo + 1) w)"

lemma run_each_cong:
  "(\<And>s f. s \<in> fst ` set work \<Longrightarrow> rec s f = rec' s f) \<Longrightarrow> run_each rec ff h work w = run_each rec' ff h work w"
proof (induction rec ff h work w rule: run_each.induct)
  case (2 rec ff h step fr work w)
  have r: "rec step fr = rec' step fr" using 2(4) by simp
  note ih = 2(1-3)[unfolded r]
  show ?case
    unfolding run_each.simps r using ih 2(4) by (auto split: sum.splits prod.splits)
qed simp

lemma concurrently_cong:
  "(\<And>s f. s \<in> fst ` set work \<Longrightarrow> rec s f = rec' s f) \<Longrightarrow> concurrently rec work ff = concurrently rec' work ff"
  by (rule ext) (simp add: concurrently_def run_each_cong[of work rec rec'])

lemma sequence_from_cong:
  "(\<And>s f. s \<in> set steps \<Longrightarrow> rec s f = rec' s f) \<Longrightarrow>
     sequence_from en rec name fr i steps sc outs = sequence_from en rec' name fr i steps sc outs"
  by (induction steps arbitrary: i sc outs) (simp_all cong: if_cong)

lemma loop_from_cong:
  "(\<And>f. rec body f = rec' body f) \<Longrightarrow>
     loop_from en rec step body until while m fr left k sc = loop_from en rec' step body until while m fr left k sc"
  by (induction left arbitrary: k sc) (simp_all cong: if_cong)

lemma choose_cases_set:
  "choose_cases re m fr i cs chosen skipped = Inr (c, k) \<Longrightarrow>
     fst ` set c \<union> fst ` set k = fst ` set chosen \<union> fst ` set skipped \<union> bc_step ` set cs"
proof (induction cs arbitrary: i chosen skipped)
  case (Cons x cs)
  let ?child = "at_child fr (PIndex (int i)) (bc_step x)"
  have child: "fst ?child = bc_step x" by (simp add: at_child_def)
  from Cons.prems consider "choose_cases re m fr (i + 1) cs (chosen @ [?child]) skipped = Inr (c, k)"
    | "choose_cases re m fr (i + 1) cs chosen (skipped @ [?child]) = Inr (c, k)"
    by (auto simp: Let_def split: sum.splits if_splits)
  then show ?case
    using Cons.IH[of "i + 1" "chosen @ [?child]" skipped] Cons.IH[of "i + 1" chosen "skipped @ [?child]"] child
    by cases auto
qed simp

lemma then_lift_cong:
  "(\<And>x. r = Inr x \<Longrightarrow> f x = g x) \<Longrightarrow> then_do (lift_value r) f = then_do (lift_value r) g"
  by (rule ext) (simp add: then_do_def lift_value_def raise_it_def give_def split: sum.splits)

lemma chosen_steps:
  assumes "choose_cases re m fr 0 cases [] [] = Inr p" and "with_otherwise fr otherwise p = (chosen, skipped)"
  shows "fst ` set chosen \<subseteq> bc_step ` set cases \<union> set_option otherwise"
  using choose_cases_set[of re m fr 0 cases "[]" "[]" "fst p" "snd p"] assms
  by (auto simp: with_otherwise_def at_child_def Let_def split: option.splits if_splits)

lemma do_branch_cong:
  assumes "\<And>s f. s \<in> bc_step ` set cases \<union> set_option otherwise \<Longrightarrow> rec s f = rec' s f"
  shows "do_branch en rec step cases otherwise m fr = do_branch en rec' step cases otherwise m fr"
  unfolding do_branch_def
proof (rule then_lift_cong)
  fix p assume c: "choose_cases (en_re en) m fr 0 cases [] [] = Inr p"
  obtain chosen skipped where w: "with_otherwise fr otherwise p = (chosen, skipped)" by (cases "with_otherwise fr otherwise p")
  have "concurrently rec chosen True = concurrently rec' chosen True"
    using assms chosen_steps[OF c w] by (intro concurrently_cong) blast
  then show "(let (chosen, skipped) = with_otherwise fr otherwise p in
     then_do (skip_all en skipped) (\<lambda>_. then_do (concurrently rec chosen True) (\<lambda>outcomes.
     give (conclude step (map fst chosen) outcomes
       (fold (\<lambda>(p, o1). dict_put (step_name (fst p)) (opt_obj (so_output o1))) (zip chosen outcomes)
         [(''chosen'', JArr (map (\<lambda>p. JStr (step_name (fst p))) chosen))]))))) =
    (let (chosen, skipped) = with_otherwise fr otherwise p in
     then_do (skip_all en skipped) (\<lambda>_. then_do (concurrently rec' chosen True) (\<lambda>outcomes.
     give (conclude step (map fst chosen) outcomes
       (fold (\<lambda>(p, o1). dict_put (step_name (fst p)) (opt_obj (so_output o1))) (zip chosen outcomes)
         [(''chosen'', JArr (map (\<lambda>p. JStr (step_name (fst p))) chosen))])))))"
    by (simp add: w)
qed

lemma execute_step_cong [fundef_cong]:
  assumes "en = en'" "step = step'" "fr = fr'"
    and rec: "\<And>s f. s \<in> set (children_of step') \<Longrightarrow> rec s f = rec' s f"
  shows "execute_step en rec step fr = execute_step en' rec' step' fr'"
proof (intro ext)
  fix sid input w
  show "execute_step en rec step fr sid input w = execute_step en' rec' step' fr' sid input w"
  proof (cases step')
    case (WorkflowStepRef b spec m)
    then have "sequence_from en' rec name f i (wf_steps spec) sc outs = sequence_from en' rec' name f i (wf_steps spec) sc outs"
      for name f i sc outs using rec by (intro sequence_from_cong) simp
    with WorkflowStepRef assms(1-3) show ?thesis by (simp add: execute_step_def do_nested_def sequence_def)
  next
    case (ParallelStep b branches ff)
    have "concurrently rec (map (\<lambda>(i, b). at_child f (PIndex (int i)) b) (enumerate 0 branches)) ff =
          concurrently rec' (map (\<lambda>(i, b). at_child f (PIndex (int i)) b) (enumerate 0 branches)) ff" for f
      using rec ParallelStep by (intro concurrently_cong) (auto simp: at_child_def in_set_enumerate_eq)
    with ParallelStep assms(1-3) show ?thesis by (simp add: execute_step_def do_parallel_def)
  next
    case (BranchStep b cs otherwise m)
    have "do_branch en' rec step' cs otherwise m f = do_branch en' rec' step' cs otherwise m f" for f
      using rec BranchStep by (intro do_branch_cong) (auto split: option.splits)
    with BranchStep assms(1-3) show ?thesis by (simp add: execute_step_def)
  next
    case (ForEachStep b items body c ff)
    have "concurrently rec (foreach_work body f xs) ff = concurrently rec' (foreach_work body f xs) ff" for f xs
      using rec ForEachStep by (intro concurrently_cong) (auto simp: foreach_work_def)
    with ForEachStep assms(1-3) show ?thesis by (simp add: execute_step_def do_foreach_def cong: json.case_cong)
  next
    case (LoopStep b body until while m)
    have "loop_from en' rec step' body until while m f left k sc = loop_from en' rec' step' body until while m f left k sc" for f left k sc
      using rec LoopStep by (intro loop_from_cong) simp
    with LoopStep assms(1-3) show ?thesis by (simp add: execute_step_def)
  qed (use assms in \<open>simp_all add: execute_step_def\<close>)
qed

function do_step :: "'a engine \<Rightarrow> 'a workflow_step \<Rightarrow> frame \<Rightarrow> step_outcome walked" where
  "do_step en step fr = step_body en (execute_step en (\<lambda>s f. do_step en s f) step fr) step fr"
  by pat_completeness auto
termination
  by (relation "measure (\<lambda>(_, step, _). size step)") (auto dest: size_child)

declare do_step.simps [simp del]

section \<open>The workflow\<close>

definition root_frame :: "'a engine \<Rightarrow> path_elem list \<Rightarrow> run_state_view \<Rightarrow> frame" where
  "root_frame en path st =
     \<lparr>fr_scope = \<lparr>ws_input = v_run_input st, ws_steps = [], ws_state = current_state en st, ws_item = None,
                  ws_index = None, ws_iteration = None\<rparr>,
      fr_path = path, fr_parent_step_id = None, fr_iteration = None\<rparr>"

definition ended :: "'a workflow_spec \<Rightarrow> seq_result \<Rightarrow> workflow_outcome walked" where
  "ended spec result =
     (case sq_outcome result of
        Some o1 \<Rightarrow> give
          (case so_status o1 of
             SoSuspended \<Rightarrow> \<lparr>wo_state = None, wo_output = Some (sq_outputs result), wo_failure = None\<rparr>
           | SoAborted \<Rightarrow> \<lparr>wo_state = Some Aborted, wo_output = Some (sq_outputs result), wo_failure = None\<rparr>
           | _ \<Rightarrow> \<lparr>wo_state = Some Failed, wo_output = Some (sq_outputs result), wo_failure = so_failure o1\<rparr>)
      | None \<Rightarrow>
          (case (case wf_output spec of None \<Rightarrow> Inr (sq_outputs result) | Some m \<Rightarrow> resolve_mapping (sq_scope result) m) of
             Inr output \<Rightarrow> give \<lparr>wo_state = Some Completed, wo_output = Some output, wo_failure = None\<rparr>
           | Inl (UnresolvedPath p why) \<Rightarrow> give
               \<lparr>wo_state = Some Failed, wo_output = Some (sq_outputs result),
                wo_failure = Some (guided_failure ''unresolved_path''
                  (''the workflow'' @ [CHR 0x27] @ ''s output mapping did not resolve: '' @ value_error_text (UnresolvedPath p why)))\<rparr>
           | Inl e \<Rightarrow> raise_it (ValueErr e)))"

definition input_check :: "re_search \<Rightarrow> obj option \<Rightarrow> obj \<Rightarrow> value_error + unit" where
  "input_check re schema input =
     (case schema of None \<Rightarrow> Inr () | Some s \<Rightarrow> validate_schema re (JObj input) (JObj s) [])"

text \<open>\<open>WorkflowEngine.execute\<close>.\<close>

definition execute_workflow :: "'a engine \<Rightarrow> path_elem list \<Rightarrow> workflow_outcome walked" where
  "execute_workflow en path = look (\<lambda>st.
     let spec = en_root en in
     case input_check (en_re en) (wf_input_schema spec) (v_run_input st) of
       Inl (SchemaViolation loc msg) \<Rightarrow> give
         \<lparr>wo_state = Some Failed, wo_output = None,
          wo_failure = Some (guided_failure ''schema_violation''
            (''the Run'' @ [CHR 0x27] @ ''s input does not satisfy input_schema: '' @ value_error_text (SchemaViolation loc msg)))\<rparr>
     | Inl e \<Rightarrow> raise_it (ValueErr e)
     | Inr _ \<Rightarrow> then_do (sequence en (do_step en) spec (root_frame en path st)) (ended spec))"

text \<open>\<open>WorkflowEngine.run\<close>.\<close>

definition run_engine :: "'a engine \<Rightarrow> path_elem list \<Rightarrow> (terminal_state \<times> obj) walked" where
  "run_engine en path = then_do (execute_workflow en path) (\<lambda>out. give
     (case wo_state out of None \<Rightarrow> Completed | Some ts \<Rightarrow> ts, case wo_output out of None \<Rightarrow> [] | Some kvs \<Rightarrow> kvs))"

end
