(* ===== verification/Walks.thy ===== *)
theory Walks
  imports Workflow
begin

text \<open>
  What a walk of the workflow engine guarantees. The locale \<open>walk_relation\<close> extends \<open>await_relation\<close>: a
  relation that holds across every await, and across the engine's runners, holds across a step, a sequence
  and a workflow.

  Shown: a step that ended is memoised for every later walk; walking a finished workflow again writes
  nothing and ends the same way; a walk that reports a suspension leaves the Run suspended.
\<close>

text \<open>The runners' part of the contract, a premise of what is shown of the whole walk.\<close>

definition runners_keep :: "(walk \<Rightarrow> walk \<Rightarrow> bool) \<Rightarrow> 'a engine \<Rightarrow> bool" where
  "runners_keep R en \<longleftrightarrow>
     (\<forall>spec input sid. carries R (en_agent en spec input sid)) \<and>
     (\<forall>tool arguments. carries R (en_tool en tool arguments)) \<and>
     (\<forall>gate tool arguments. en_gate en = Some gate \<longrightarrow> carries R (gate tool arguments)) \<and>
     (\<forall>q w w'. en_overrun en q w = Some w' \<longrightarrow> R w w')"

locale walk_relation = await_relation R en for R and en :: "'a engine"
begin

lemma over_stopped: "carries R (stopped en)"
  unfolding stopped_def by (rule over_then[OF over_refresh]) (simp add: carries_def still)

lemma over_suspend: "carries R (suspend en step sid reason q question event schema qs)"
  unfolding suspend_def by (intro over_rules)

lemma over_suspend_timer: "carries R (suspend_timer en step sid at_time)"
  unfolding suspend_timer_def by (intro over_rules)

lemma over_breakpoint: "carries R (breakpoint en step sid)"
  unfolding breakpoint_def by (intro over_rules over_suspend)

lemma over_sleep: "carries R (do_sleep en step fr sid seconds until)"
  unfolding do_sleep_def sleep_until_def
  by (intro over_rules over_suspend_timer) (auto intro!: over_rules split: json.splits)

lemma over_wait: "carries R (do_wait en step sid event schema)"
  unfolding do_wait_def by (intro over_rules over_suspend) (auto intro!: over_rules split: value_error.splits)

lemma over_human: "carries R (do_human en step sid prompt qs expires)"
  unfolding do_human_def by (intro over_rules over_suspend)

lemma over_timed: "runners_keep R en \<Longrightarrow> carries R work \<Longrightarrow> carries R (timed en step work)"
  by (auto simp: carries_def timed_def runners_keep_def split: option.splits)

lemma over_gated: "runners_keep R en \<Longrightarrow> carries R (gated en step tool sid arguments)"
  unfolding gated_def runners_keep_def by (cases "en_gate en") (auto intro!: over_rules over_suspend)

lemma over_do_tool: "runners_keep R en \<Longrightarrow> carries R (do_tool en step tool sid input)"
  unfolding do_tool_def by (intro over_rules over_gated over_timed) (simp_all add: runners_keep_def)

lemma over_end_failed: "carries R (end_failed en step sid f)"
  unfolding end_failed_def by (intro over_rules)

lemma over_failed: "carries R again \<Longrightarrow> carries R (failed en step sid n f again)"
  unfolding failed_def Let_def by (intro over_rules over_end_failed over_suspend_timer over_stopped)

lemma over_finish: "carries R again \<Longrightarrow> carries R (finish en step sid n output again)"
  unfolding finish_def Let_def
  by (auto intro!: over_rules over_failed split: option.splits sum.splits value_error.splits)

lemma over_drive:
  assumes "\<And>input. carries R (exec input)" and "carries R again"
  shows "carries R (drive en exec step sid n input again)"
proof (unfold carries_def, rule allI)
  fix w
  obtain r w1 where e: "exec input w = (r, w1)" by (cases "exec input w")
  with assms(1)[of input] have "R w w1" by (metis carries_def snd_conv)
  moreover have "R w1 (snd (failed en step sid n f again w1))" "R w1 (snd (finish en step sid n out again w1))"
    "R w1 (snd (end_failed en step sid f w1))" for f out
    using over_failed[OF assms(2)] over_finish[OF assms(2)] over_end_failed by (simp_all add: carries_def)
  ultimately show "R w (snd (drive en exec step sid n input again w))"
    using e by (auto simp: drive_def intro: compose split: sum.splits step_status.splits)
qed

lemma over_record_skipped: "carries R (record_skipped en step fr sid n)"
  unfolding record_skipped_def by (intro over_rules)

lemma over_record_failure: "carries R again \<Longrightarrow> carries R (record_failure en step fr sid n f again)"
  unfolding record_failure_def by (intro over_rules over_failed)

lemma over_attempt_step:
  assumes "\<And>input. carries R (exec input)" and "n < rp_max_attempts (retry_policy_of en step) \<Longrightarrow> carries R again"
  shows "carries R (attempt_step en exec step fr sid n again)"
proof -
  have "carries R (attempt_step en exec step fr sid n
      (if n < rp_max_attempts (retry_policy_of en step) then again else raise_it CancelledErr))" (is "carries R (attempt_step _ _ _ _ _ _ ?again)")
  proof -
    have "carries R ?again" by (intro over_if over_raise assms(2))
    then show ?thesis unfolding attempt_step_def Let_def
      by (intro over_look over_if over_then over_write over_end_failed over_sum)
         (auto intro!: over_rules over_record_failure over_record_skipped over_drive assms(1)
               split: value_error.splits sum.splits bool.splits)
  qed
  then show ?thesis by (subst (asm) attempt_step_cong[of _ en _ exec _ step _ fr _ sid _ n _ again]) simp_all
qed

lemma over_attempts: "(\<And>input. carries R (exec input)) \<Longrightarrow> carries R (attempts en exec step fr sid n)"
proof (induction "nat (rp_max_attempts (retry_policy_of en step) - n)" arbitrary: n rule: less_induct)
  case less
  then show ?case by (subst attempts.simps) (auto intro!: over_attempt_step)
qed

lemma over_step_body:
  assumes "\<And>sid input. carries R (exec sid input)"
  shows "carries R (step_body en exec step fr)"
proof -
  have a: "carries R (attempts en (exec sid) step fr sid n)" for sid n by (intro over_attempts assms)
  have d: "carries R (drive en (exec sid) step sid n input (attempts en (exec sid) step fr sid m))" for sid n input m
    by (intro over_drive assms a)
  show ?thesis
  proof (unfold carries_def, rule allI)
    fix w
    have b: "carries R (then_do (breakpoint en step sid) (\<lambda>paused. case paused of Some o1 \<Rightarrow> give o1 | None \<Rightarrow> attempts en (exec sid) step fr sid 1))" for sid
      by (intro over_rules over_breakpoint a)
    have c: "carries R (then_do (clock en) (\<lambda>now. if now < due \<and> P then suspend_timer en step sid due else attempts en (exec sid) step fr sid n))" for due P sid n
      by (intro over_rules over_suspend_timer a)
    from a b c d still show "R w (snd (step_body en exec step fr w))"
      by (simp add: step_body_def Let_def carries_def split: option.split)
  qed
qed

lemma over_run_each:
  assumes "\<And>s f. s \<in> fst ` set work \<Longrightarrow> carries R (rec s f)"
  shows "R w (snd (run_each rec ff h work w))"
  using assms
proof (induction rec ff h work w rule: run_each.induct)
  case (2 rec ff h step fr work w)
  have "R w (snd (rec step fr w))" using 2(4)[of step fr] by (simp add: carries_def)
  with 2 show ?case by (auto intro: compose split: sum.splits prod.splits)
qed (simp add: still)

lemma over_concurrently:
  assumes "\<And>s f. s \<in> fst ` set work \<Longrightarrow> carries R (rec s f)"
  shows "carries R (concurrently rec work ff)"
proof (unfold carries_def, rule allI)
  fix w
  show "R w (snd (concurrently rec work ff w))"
    using over_run_each[of work rec w ff False, OF assms]
    by (cases "run_each rec ff False work w") (auto simp: concurrently_def split: option.splits)
qed

lemma over_sequence_from:
  "(\<And>s f. s \<in> set steps \<Longrightarrow> carries R (rec s f)) \<Longrightarrow> carries R (sequence_from en rec name fr i steps sc outs)"
proof (induction steps arbitrary: i sc outs)
  case (Cons step steps)
  then have "carries R (rec step f)" "carries R (sequence_from en rec name fr j steps sc' outs')" for f j sc' outs' by simp_all
  then show ?case unfolding sequence_from.simps Let_def by (intro over_rules over_stopped)
qed (simp add: over_give)

lemma over_skip_step: "carries R (skip_step en step fr)"
proof (unfold carries_def, rule allI)
  fix w
  have "carries R (record_skipped en step fr (id_of fr w) n)" for n by (rule over_record_skipped)
  then show "R w (snd (skip_step en step fr w))"
    by (auto simp: skip_step_def carries_def give_def still split: option.splits)
qed

lemma over_skip_all: "carries R (skip_all en work)"
proof (induction work)
  case (Cons p work)
  then show ?case by (cases p) (simp add: over_then over_skip_step)
qed (simp add: over_give)

lemma over_loop_from:
  "(\<And>f. carries R (rec body f)) \<Longrightarrow> carries R (loop_from en rec step body until while m fr left k sc)"
proof (induction left arbitrary: k sc)
  case (Suc left)
  then have "carries R (rec body f)" "carries R (loop_from en rec step body until while m fr left j sc')" for f j sc' by simp_all
  then show ?case unfolding loop_from.simps Let_def by (intro over_rules over_stopped)
qed (simp add: over_give)

lemma over_execute_step:
  assumes runners: "runners_keep R en"
    and rec: "\<And>s f. s \<in> set (children_of step) \<Longrightarrow> carries R (rec s f)"
  shows "carries R (execute_step en rec step fr sid input)"
proof (cases step)
  case (WorkflowStepRef b spec m)
  with rec have "carries R (rec s f)" if "s \<in> set (wf_steps spec)" for s f using that by simp
  then show ?thesis unfolding WorkflowStepRef execute_step_def Let_def workflow_step.case do_nested_def sequence_def
    by (intro over_rules over_sequence_from)
next
  case (ParallelStep b branches ff)
  have "carries R (concurrently rec (map (\<lambda>(i, b). at_child f (PIndex (int i)) b) (enumerate 0 branches)) ff)" for f
    using rec ParallelStep by (intro over_concurrently) (auto simp: at_child_def in_set_enumerate_eq)
  with ParallelStep show ?thesis by (auto simp: execute_step_def do_parallel_def intro!: over_rules)
next
  case (BranchStep b cs otherwise m)
  have "carries R (do_branch en rec step cs otherwise m f)" for f
    unfolding do_branch_def
  proof (rule over_then_lift)
    fix p assume c: "choose_cases (en_re en) m f 0 cs [] [] = Inr p"
    obtain chosen skipped where w: "with_otherwise f otherwise p = (chosen, skipped)" by (cases "with_otherwise f otherwise p")
    have "carries R (concurrently rec chosen True)"
      using chosen_steps[OF c w] rec BranchStep by (intro over_concurrently) (auto split: option.splits)
    then show "carries R (let (chosen, skipped) = with_otherwise f otherwise p in
       then_do (skip_all en skipped) (\<lambda>_. then_do (concurrently rec chosen True) (\<lambda>outcomes.
       give (conclude step (map fst chosen) outcomes
         (fold (\<lambda>(p, o1). dict_put (step_name (fst p)) (opt_obj (so_output o1))) (zip chosen outcomes)
           [(''chosen'', JArr (map (\<lambda>p. JStr (step_name (fst p))) chosen))])))))"
      by (simp add: w over_then over_skip_all over_give)
  qed
  with BranchStep show ?thesis by (simp add: execute_step_def)
next
  case (ForEachStep b items body c ff)
  have "carries R (concurrently rec (foreach_work body f xs) ff)" for f xs
    using rec ForEachStep by (intro over_concurrently) (auto simp: foreach_work_def)
  with ForEachStep show ?thesis
    by (auto simp: execute_step_def do_foreach_def intro!: over_rules split: json.splits)
next
  case (LoopStep b body until while m)
  with rec show ?thesis by (simp add: execute_step_def over_loop_from)
next
  case (AgentStep b spec m)
  from runners have "carries R (en_agent en spec input sid)" by (simp add: runners_keep_def)
  with AgentStep runners show ?thesis by (simp add: execute_step_def over_rules over_timed)
qed (use runners in \<open>simp_all add: execute_step_def over_rules over_do_tool over_sleep over_wait over_human\<close>)

lemma over_step: "runners_keep R en \<Longrightarrow> carries R (do_step en step fr)"
proof (induction step arbitrary: fr rule: measure_induct_rule[of size])
  case (less step)
  show ?case by (subst do_step.simps) (intro over_step_body over_execute_step less size_child)
qed

lemma over_workflow: "runners_keep R en \<Longrightarrow> carries R (execute_workflow en path)"
  unfolding execute_workflow_def Let_def sequence_def
  by (auto intro!: over_rules over_sequence_from over_step simp: ended_def split: sum.splits value_error.splits option.splits)

end

text \<open>Growth holds across the whole engine.\<close>

interpretation growth: walk_relation grows en for en
  by unfold_locales

section \<open>What a step yields\<close>

lemma yields_stopped: "(\<And>w'. Q None w') \<Longrightarrow> (\<And>w'. Q (Some (outcome [] SoAborted None None)) w') \<Longrightarrow> yields (stopped en) Q w"
  unfolding stopped_def by (rule yields_then, rule yields_any) (simp add: yields_def)

section \<open>How a step ends\<close>

text \<open>A failure has its details, and a suspension is in the log.\<close>

definition sound :: "step_outcome \<Rightarrow> walk \<Rightarrow> bool" where
  "sound o1 w \<longleftrightarrow> (so_status o1 = SoFailed \<longrightarrow> so_failure o1 \<noteq> None) \<and>
     (so_status o1 = SoSuspended \<longrightarrow> v_suspended (j_state (wk_journal w)))"

text \<open>The outcome is what the log remembers of the step.\<close>

definition remembered :: "step_id \<Rightarrow> string \<Rightarrow> step_outcome \<Rightarrow> run_state_view \<Rightarrow> bool" where
  "remembered sid name o1 st \<longleftrightarrow> so_name o1 = name \<and>
     (\<exists>m. dict_get (v_steps st) sid = Some m \<and> step_settled m \<and> status_of m = so_status o1 \<and>
          sr_output m = so_output o1 \<and> sr_failure m = so_failure o1)"

definition recorded :: "step_id \<Rightarrow> string \<Rightarrow> step_outcome \<Rightarrow> walk \<Rightarrow> bool" where
  "recorded sid name o1 w \<longleftrightarrow> sound o1 w \<and> (\<not> stops_sequence o1 \<longrightarrow> remembered sid name o1 (j_state (wk_journal w)))"

lemma end_last:
  assumes "folded_last (end_record sid out f sk ra) r st"
  shows "\<exists>m. dict_get (v_steps st) sid = Some m \<and> sr_completed m \<and> sr_output m = out \<and> sr_failure m = f \<and>
             sr_skipped m = sk \<and> (sr_will_retry m \<longleftrightarrow> ra \<noteq> None)"
proof -
  from assms obtain u cx where "fold_step u r = Inr (st, cx)" "r_body r = end_record sid out f sk ra"
    by (auto simp: folded_last_def)
  with step_steps[OF this(1)] show ?thesis by (auto simp: end_record_def completed_step_def)
qed

lemma yields_end:
  "(\<And>r w'. folded_last (end_record sid out f sk None) r (j_state (wk_journal w')) \<Longrightarrow> recorded sid name o1 w') \<Longrightarrow>
   yields (then_do (write_rec en (end_record sid out f sk None)) (\<lambda>_. give o1)) (recorded sid name) w"
  by (intro yields_then yields_write yields_give)

lemma end_recorded:
  assumes "folded_last (end_record sid out f sk None) r (j_state (wk_journal w))"
    and "st = (if sk then SoSkipped else if f \<noteq> None then SoFailed else SoCompleted)"
  shows "recorded sid name (outcome name st out f) w"
  using end_last[OF assms(1)] assms(2)
  by (auto simp: recorded_def sound_def remembered_def step_settled_def status_of_def)

lemma yields_suspend: "yields (suspend en step sid reason q question event schema qs) (recorded sid name) w"
  unfolding suspend_def
  by (intro yields_then yields_any yields_write yields_give)
     (auto simp: recorded_def sound_def stops_sequence_def dest: suspended_last)

lemma yields_park:
  assumes "v_suspended (j_state (wk_journal w))"
  shows "yields (then_do (park en t) (\<lambda>_. give (outcome name1 SoSuspended None None))) (recorded sid name) w"
  by (intro yields_then yields_mono[OF park_state] yields_give)
     (use assms in \<open>simp add: recorded_def sound_def stops_sequence_def\<close>)

lemma yields_suspend_timer: "yields (suspend_timer en step sid at_time) (recorded sid name) w"
  unfolding suspend_timer_def by (rule yields_then, intro yields_write yields_park suspended_last)

lemma aborted_recorded: "recorded sid name (outcome [] SoAborted None None) w"
  by (simp add: recorded_def sound_def stops_sequence_def)

lemma yields_end_failed: "f \<noteq> None \<Longrightarrow> yields (end_failed en step sid f) (recorded sid (step_name step)) w"
  unfolding end_failed_def by (intro yields_end end_recorded) auto

lemma yields_failed:
  assumes "\<And>w. n < rp_max_attempts (retry_policy_of en step) \<Longrightarrow> yields again (recorded sid (step_name step)) w"
  shows "yields (failed en step sid n f again) (recorded sid (step_name step)) w"
proof -
  let ?Q = "recorded sid (step_name step)"
  define g where "g = (case f of Some x \<Rightarrow> x | None \<Rightarrow> guided_failure ''step_failed'' (''step '' @ repr_str (step_name step) @ '' failed''))"
  have e: "yields (end_failed en step sid (Some g)) ?Q w" for w by (rule yields_end_failed) simp
  have retry: "yields (then_do (stopped en) (\<lambda>halt. case halt of Some o1 \<Rightarrow> give o1 | None \<Rightarrow> again)) ?Q w"
    if "may_retry (retry_policy_of en step) n g" for w
    using assms that by (intro yields_then yields_stopped) (auto simp: may_retry_def intro: yields_give aborted_recorded)
  show ?thesis unfolding failed_def Let_def g_def[symmetric]
    by (intro yields_if e yields_first[of _ _ "clock en"] yields_first[of _ _ "write_rec en _"] yields_suspend_timer)
       (simp add: retry)
qed

lemma yields_finish:
  assumes "\<And>w. n < rp_max_attempts (retry_policy_of en step) \<Longrightarrow> yields again (recorded sid (step_name step)) w"
  shows "yields (finish en step sid n out again) (recorded sid (step_name step)) w"
proof -
  have "yields (then_do (write_rec en (end_record sid out None False None)) (\<lambda>_. give (outcome (step_name step) SoCompleted out None)))
      (recorded sid (step_name step)) w"
    by (intro yields_end end_recorded) auto
  with yields_failed[OF assms] show ?thesis unfolding finish_def Let_def
    by (auto intro: yields_raise split: option.splits sum.splits value_error.splits)
qed

text \<open>What \<open>_execute\<close> may return: never a skip, and what a composite failed with is known.\<close>

definition executed :: "step_outcome \<Rightarrow> walk \<Rightarrow> bool" where
  "executed o1 w \<longleftrightarrow> sound o1 w \<and> so_status o1 \<noteq> SoSkipped"

lemma yields_drive:
  assumes "yields (exec input) executed w"
    and again: "\<And>w. n < rp_max_attempts (retry_policy_of en step) \<Longrightarrow> yields again (recorded sid (step_name step)) w"
  shows "yields (drive en exec step sid n input again) (recorded sid (step_name step)) w"
proof -
  have parts: "yields (failed en step sid n g again) (recorded sid (step_name step)) v"
    "yields (finish en step sid n out again) (recorded sid (step_name step)) v"
    "g \<noteq> None \<Longrightarrow> yields (end_failed en step sid g) (recorded sid (step_name step)) v" for g out v
    by (intro yields_failed yields_finish yields_end_failed again; assumption)+
  show ?thesis
  proof (cases "exec input w")
    case (Pair r w1)
    show ?thesis
    proof (cases r)
      case (Inl e)
      with Pair parts show ?thesis by (auto simp: yields_def drive_def split: sum.splits)
    next
      case (Inr o1)
      with Pair assms(1) have x: "executed o1 w1" by (simp add: yields_def)
      then have "so_status o1 = SoFailed \<Longrightarrow> so_failure o1 \<noteq> None" by (simp add: executed_def sound_def)
      moreover have "so_status o1 \<in> {SoSuspended, SoAborted} \<Longrightarrow> recorded sid (step_name step) o1 w1"
        using x by (simp add: recorded_def executed_def stops_sequence_def)
      ultimately show ?thesis using Pair Inr parts x
        by (cases "so_status o1") (auto simp: yields_def drive_def executed_def)
    qed
  qed
qed

lemma yields_skipped: "yields (then_do (record_skipped en step fr sid n) (\<lambda>_. give (outcome name SoSkipped None None))) (recorded sid name) w"
proof -
  have "yields (then_do (write_rec en (end_record sid None None True None)) (\<lambda>_. give ()))
      (\<lambda>_. yields (give (outcome name SoSkipped None None)) (recorded sid name)) v" for v
    by (rule yields_then, intro yields_write yields_give end_recorded) simp_all
  then show ?thesis unfolding record_skipped_def by (rule yields_then[OF yields_first])
qed

lemma yields_attempt_step:
  assumes exec: "\<And>input w. yields (exec input) executed w"
    and again: "\<And>w. n < rp_max_attempts (retry_policy_of en step) \<Longrightarrow> yields again (recorded sid (step_name step)) w"
  shows "yields (attempt_step en exec step fr sid n again) (recorded sid (step_name step)) w"
proof -
  let ?Q = "recorded sid (step_name step)"
  have parts: "yields (failed en step sid n g again) ?Q v" "yields (drive en exec step sid n input again) ?Q v" for g input v
    by (intro yields_failed yields_drive exec again; assumption)+
  have "yields (record_failure en step fr sid n f again) ?Q v" for f v
    unfolding record_failure_def by (intro yields_first parts)
  moreover have "yields (then_do (write_rec en b) (\<lambda>_. drive en exec step sid n input again)) ?Q v"
    "yields (then_do (write_rec en b) (\<lambda>_. end_failed en step sid (Some f))) ?Q v" for b input f v
    by (intro yields_first parts yields_end_failed; simp)+
  ultimately show ?thesis unfolding attempt_step_def
    by (intro yields_look) (auto simp: Let_def yields_raise yields_skipped split: sum.splits value_error.splits bool.splits)
qed

lemma yields_attempts:
  "(\<And>input w. yields (exec input) executed w) \<Longrightarrow> yields (attempts en exec step fr sid n) (recorded sid (step_name step)) w"
proof (induction "nat (rp_max_attempts (retry_policy_of en step) - n)" arbitrary: n w rule: less_induct)
  case less
  then show ?case by (subst attempts.simps) (intro yields_attempt_step less; simp)
qed

lemma yields_breakpoint:
  "(\<And>w'. wk_journal w' = wk_journal w \<Longrightarrow> Q None w') \<Longrightarrow> (\<And>o1 w'. recorded sid name o1 w' \<Longrightarrow> stops_sequence o1 \<Longrightarrow> Q (Some o1) w') \<Longrightarrow>
   yields (breakpoint en step sid) Q w"
proof -
  assume q: "\<And>w'. wk_journal w' = wk_journal w \<Longrightarrow> Q None w'" "\<And>o1 w'. recorded sid name o1 w' \<Longrightarrow> stops_sequence o1 \<Longrightarrow> Q (Some o1) w'"
  have "yields (suspend en step sid Breakpoint d question None [] []) (\<lambda>o1. Q (Some o1)) v" for d question v
    unfolding suspend_def
    by (intro yields_first[of _ _ "clock en"], rule yields_then, intro yields_write yields_give q)
       (auto simp: recorded_def sound_def stops_sequence_def dest: suspended_last)
  then have "yields (then_do (suspend en step sid Breakpoint d question None [] []) (\<lambda>o1. give (Some o1))) Q v" for d question v
    by (rule yields_then[OF yields_mono]) (rule yields_give)
  then show ?thesis unfolding breakpoint_def by (auto intro!: yields_look yields_give q)
qed

lemma yields_step_body:
  assumes exec: "\<And>sid input w. yields (exec sid input) executed w"
  shows "yields (step_body en exec step fr) (recorded (id_of fr w) (step_name step)) w"
proof -
  let ?sid = "id_of fr w" and ?Q = "recorded (id_of fr w) (step_name step)"
  have a: "yields (attempts en (exec sid) step fr sid n) (recorded sid (step_name step)) v" for sid n v
    by (intro yields_attempts exec)
  have d: "yields (drive en (exec ?sid) step ?sid n input (attempts en (exec ?sid) step fr ?sid m)) ?Q v" for n input m v
    by (intro yields_drive exec a)
  have b: "yields (then_do (breakpoint en step ?sid) (\<lambda>paused. case paused of Some o1 \<Rightarrow> give o1 | None \<Rightarrow> attempts en (exec ?sid) step fr ?sid 1)) ?Q v" for v
    by (intro yields_then yields_breakpoint[where name = "step_name step" and sid = ?sid]) (simp_all add: a yields_give)
  have c: "yields (then_do (clock en) (\<lambda>now. if now < due \<and> P then suspend_timer en step ?sid due else attempts en (exec ?sid) step fr ?sid n)) ?Q v" for due P n v
    by (intro yields_first yields_if yields_suspend_timer a)
  have m: "?Q (memoised step m) w" if "dict_get (v_steps (j_state (wk_journal w))) ?sid = Some m" "step_settled m" for m
    using that by (auto simp: recorded_def sound_def remembered_def memoised_def stops_sequence_def status_of_def)
  show ?thesis
    using a b c d m by (auto simp: yields_def step_body_def Let_def split: option.splits if_splits)
qed

section \<open>How a composite ends\<close>

lemma run_each_halted: "run_each rec ff True work w = (map (\<lambda>_. None) work, w)"
  by (induction work) (auto simp: split_def)

lemma run_each_sound:
  assumes "\<And>s f v. s \<in> fst ` set work \<Longrightarrow> yields (rec s f) sound v" and "run_each rec ff h work w = (rs, w1)"
  shows "length rs = length work \<and> list_all (\<lambda>r. case r of Some (Inr o1) \<Rightarrow> sound o1 w1 | _ \<Rightarrow> True) rs"
  using assms
proof (induction rec ff h work w arbitrary: rs w1 rule: run_each.induct)
  case (2 rec ff h step fr work w)
  show ?case
  proof (cases h)
    case True
    with 2(5) show ?thesis using run_each_halted[of rec ff "(step, fr) # work" w] by (auto simp: list_all_iff)
  next
    case False
    obtain r v where r: "rec step fr w = (r, v)" by (cases "rec step fr w")
    have below: "s \<in> fst ` set work \<Longrightarrow> yields (rec s f) sound u" for s f u using 2(4) by simp
    show ?thesis
    proof (cases r)
      case (Inl e)
      with False r 2(5) obtain rs' where "run_each rec ff False work v = (rs', w1)" "length rs = Suc (length rs')"
        "rs = (if e = CancelledErr then None else Some (Inl e)) # rs'" by (auto split: prod.splits)
      with 2(2)[OF False r[symmetric] Inl below this(1)] show ?thesis by auto
    next
      case (Inr o1)
      let ?h = "stops_sequence o1 \<or> ff \<and> is_blocking step o1"
      from False r Inr 2(5) obtain rs' where rest: "run_each rec ff ?h work v = (rs', w1)" "rs = Some (Inr o1) # rs'"
        by (auto split: prod.splits)
      have "sound o1 v" using 2(4)[of step fr w] r Inr by (simp add: yields_def)
      moreover have "so_status o1 = SoSuspended \<Longrightarrow> w1 = v"
        using rest(1) run_each_halted[of rec ff work v] by (simp add: stops_sequence_def)
      ultimately have "sound o1 w1" by (auto simp: sound_def)
      with 2(3)[OF False r[symmetric] Inr below rest(1)] rest(2) show ?thesis by auto
    qed
  qed
qed simp

lemma set_finished_of: "o1 \<in> set (finished_of rs) \<longleftrightarrow> Some (Inr o1) \<in> set rs"
  by (induction rs) (auto simp: finished_of_def map_filter_simps split: option.splits sum.splits)

lemma yields_concurrently:
  assumes "\<And>s f v. s \<in> fst ` set work \<Longrightarrow> yields (rec s f) sound v"
  shows "yields (concurrently rec work ff) (\<lambda>os w'. list_all (\<lambda>o1. sound o1 w') os) w"
proof (unfold yields_def, intro allI impI)
  fix os w1 assume c: "concurrently rec work ff w = (Inr os, w1)"
  obtain rs v where r: "run_each rec ff False work w = (rs, v)" by (cases "run_each rec ff False work w")
  note s = run_each_sound[of work rec ff False w, OF assms r]
  let ?stop = "find stops_sequence (finished_of rs)"
  from c r have os: "os = map2 (\<lambda>r p. case r of Some (Inr o1) \<Rightarrow> o1 | _ \<Rightarrow> filler ?stop (fst p)) rs work" "w1 = v"
    by (auto simp: concurrently_def split: option.splits)
  have fin: "sound o1 v" if "o1 \<in> set (finished_of rs)" for o1
    using that s by (fastforce simp: set_finished_of list_all_iff)
  have "sound (filler ?stop p) v" for p
  proof (cases ?stop)
    case (Some o1)
    with find_SomeD[OF Some] fin[of o1] show ?thesis by (auto simp: filler_def sound_def stops_sequence_def)
  qed (simp add: filler_def sound_def)
  with s show "list_all (\<lambda>o1. sound o1 w1) os" unfolding os
    by (auto simp: list_all_iff dest!: set_zip_leftD split: option.splits sum.splits)
qed

lemma find_or_head:
  "(case xs of [] \<Rightarrow> None | b # bs \<Rightarrow> (case find P (b # bs) of Some x \<Rightarrow> Some x | None \<Rightarrow> Some b)) = Some y \<Longrightarrow> y \<in> set xs"
  by (cases xs; cases "find P xs") (auto dest: find_SomeD simp del: find.simps)

lemma conclude_executed:
  assumes "list_all (\<lambda>o1. sound o1 w) outcomes"
  shows "executed (conclude step children outcomes output) w"
proof (cases "first_stop outcomes")
  case (Some o1)
  then have "o1 \<in> set outcomes \<and> so_status o1 \<noteq> SoSkipped"
    by (auto simp: first_stop_def dest!: find_SomeD split: option.splits)
  with assms Some show ?thesis by (auto simp: conclude_def executed_def list_all_iff)
next
  case None
  show ?thesis
  proof (cases "blocking_failure children outcomes")
    case (Some o1)
    let ?bs = "map snd (filter (\<lambda>(c, o1). is_blocking c o1) (zip children outcomes))"
    have "o1 \<in> set ?bs" using Some unfolding blocking_failure_def by (rule find_or_head)
    then have "o1 \<in> set outcomes" "so_status o1 = SoFailed" by (auto simp: is_blocking_def dest: set_zip_rightD)
    with assms Some None show ?thesis by (auto simp: conclude_def executed_def sound_def list_all_iff)
  qed (use None in \<open>simp add: conclude_def executed_def sound_def\<close>)
qed

lemma yields_conclude:
  "(\<And>s f v. s \<in> fst ` set work \<Longrightarrow> yields (rec s f) sound v) \<Longrightarrow>
   yields (then_do (concurrently rec work ff) (\<lambda>os. give (conclude step (children os) os (output os)))) executed w"
  by (rule yields_then, rule yields_mono[OF yields_concurrently]) (auto intro: yields_give conclude_executed)

lemma completed_executed: "executed (outcome name SoCompleted out f) w"
  by (simp add: executed_def sound_def)

lemma suspend_executed: "yields (suspend en step sid reason q question event schema qs) executed w"
  unfolding suspend_def
  by (rule yields_first, rule yields_then, intro yields_write yields_give)
     (auto simp: executed_def sound_def dest: suspended_last)

lemma suspend_timer_executed: "yields (suspend_timer en step sid at_time) executed w"
  unfolding suspend_timer_def
  by (rule yields_then, rule yields_write, rule yields_then, rule yields_mono[OF park_state], rule yields_give)
     (auto simp: executed_def sound_def dest: suspended_last)

lemma sequence_sound:
  assumes "\<And>s f v. s \<in> set steps \<Longrightarrow> yields (rec s f) sound v"
  shows "yields (sequence_from en rec name fr i steps sc outs)
     (\<lambda>res w'. case sq_outcome res of None \<Rightarrow> True
        | Some o1 \<Rightarrow> sound o1 w' \<and> so_status o1 \<in> {SoFailed, SoSuspended, SoAborted}) w"
  using assms
proof (induction steps arbitrary: i sc outs w)
  case Nil
  show ?case by (simp add: yields_give)
next
  case (Cons step steps)
  let ?Q = "\<lambda>res w'. case sq_outcome res of None \<Rightarrow> True
      | Some o1 \<Rightarrow> sound o1 w' \<and> so_status o1 \<in> {SoFailed, SoSuspended, SoAborted}"
  have IH: "yields (sequence_from en rec name fr j steps sc' outs') ?Q v" for j sc' outs' v
    using Cons by simp
  have next1: "yields (then_do (rec step f) (\<lambda>o1. look (\<lambda>st.
             let sc1 = after en st sc step o1; outs1 = dict_put (step_name step) (opt_obj (so_output o1)) outs in
             if stops_sequence o1 \<or> is_blocking step o1
             then give \<lparr>sq_outcome = Some o1, sq_scope = sc1, sq_outputs = outs1\<rparr>
             else if sb_ends_workflow (step_base_of step) \<and> so_status o1 = SoCompleted
             then give \<lparr>sq_outcome = None, sq_scope = sc1, sq_outputs = outs1\<rparr>
             else sequence_from en rec name fr (i + 1) steps sc1 outs1))) ?Q v" for f v
    by (rule yields_then, rule yields_mono[OF Cons.prems[of step f v]])
       (auto simp: Let_def stops_sequence_def is_blocking_def intro!: yields_look yields_if yields_give IH)
  show ?case unfolding sequence_from.simps
    by (rule yields_then, rule yields_stopped) (simp_all add: next1 yields_give sound_def)
qed

lemma yields_nested:
  assumes "\<And>s f v. s \<in> set (wf_steps spec) \<Longrightarrow> yields (rec s f) sound v"
  shows "yields (do_nested en rec step spec fr input) executed w"
  unfolding do_nested_def sequence_def
  by (rule yields_then, rule yields_lift, rule yields_look, rule yields_then, rule yields_mono[OF sequence_sound[OF assms]])
     (auto simp: executed_def sound_def intro!: yields_give yields_then yields_lift split: option.splits)

lemma yields_loop:
  assumes "\<And>f v. yields (rec body f) sound v"
  shows "yields (loop_from en rec step body until while m fr left k sc) executed w"
proof (induction left arbitrary: k sc w)
  case 0
  show ?case by (simp add: yields_give executed_def sound_def)
next
  case (Suc left)
  have iteration: "yields (then_do (rec body f) (\<lambda>o1. look (\<lambda>st.
             let sc1 = after en st sc body o1 in
             if stops_sequence o1 then give o1
             else if is_blocking body o1 then give (outcome (step_name step) SoFailed None (so_failure o1))
             else then_do (lift_value (exit_holds (en_re en) (inside None None (Some k) sc1) until while)) (\<lambda>leave.
               if leave then give (loop_exit step k (so_output o1))
               else loop_from en rec step body until while m fr left (k + 1) sc1)))) executed v" for f v
    by (rule yields_then, rule yields_mono[OF assms])
       (auto simp: Let_def executed_def sound_def is_blocking_def stops_sequence_def loop_exit_def
             intro!: yields_look yields_if yields_give yields_then yields_lift Suc.IH)
  show ?case unfolding loop_from.simps
    by (rule yields_then, rule yields_stopped, unfold option.case, rule iteration, rule yields_give)
       (simp add: executed_def sound_def)
qed

lemma yields_branch:
  assumes "\<And>s f v. s \<in> bc_step ` set cases \<union> set_option otherwise \<Longrightarrow> yields (rec s f) sound v"
  shows "yields (do_branch en rec step cases otherwise mode_all fr) executed w"
  unfolding do_branch_def
proof (rule yields_then, rule yields_lift)
  fix p assume c: "choose_cases (en_re en) mode_all fr 0 cases [] [] = Inr p"
  obtain chosen skipped where o1: "with_otherwise fr otherwise p = (chosen, skipped)" by (cases "with_otherwise fr otherwise p")
  have "yields (rec s f) sound v" if "s \<in> fst ` set chosen" for s f v
    using assms chosen_steps[OF c o1] that by blast
  then show "yields (let (chosen, skipped) = with_otherwise fr otherwise p in
       then_do (skip_all en skipped) (\<lambda>_. then_do (concurrently rec chosen True) (\<lambda>outcomes.
       give (conclude step (map fst chosen) outcomes
         (fold (\<lambda>(p, o1). dict_put (step_name (fst p)) (opt_obj (so_output o1))) (zip chosen outcomes)
           [(''chosen'', JArr (map (\<lambda>p. JStr (step_name (fst p))) chosen))]))))) executed w"
    unfolding o1 Let_def prod.case by (intro yields_first yields_conclude)
qed

lemma yields_tool:
  "yields (do_tool en step tool sid input) executed w"
proof -
  have g: "yields (gated en step tool sid arguments) (\<lambda>p v. case p of None \<Rightarrow> True | Some o1 \<Rightarrow> executed o1 v) w" for arguments w
    unfolding gated_def
  proof (cases "en_gate en")
    case (Some gate)
    have s: "yields (then_do (suspend en step sid reason q question event schema qs) (\<lambda>o1. give (Some o1)))
        (\<lambda>p v. case p of None \<Rightarrow> True | Some o1 \<Rightarrow> executed o1 v) v" for reason q question event schema qs v
      by (rule yields_then, rule yields_mono[OF suspend_executed]) (simp add: yields_give)
    show "yields (case en_gate en of None \<Rightarrow> give None | Some gate \<Rightarrow> then_do (gate tool arguments) (\<lambda>d.
          if de_requires_approval d then look (\<lambda>st.
            case resume_after st sid (started_seq_of st sid) (Some Approval) of
              None \<Rightarrow> then_do (suspend en step sid Approval (sp_approval_expires_seconds (suspension_of en))
                       (if de_reason d \<noteq> [] then de_reason d
                        else ''Approve the call to '' @ repr_str tool @ '' with arguments '' @ py_repr (JObj arguments) @ ''?'')
                       None [] []) (\<lambda>o1. give (Some o1))
            | Some answer \<Rightarrow>
                if sv_approved answer = Some True then give None else raise_it (StepFailedErr (refusal tool answer)))
          else if \<not> de_allowed d then raise_it (StepFailedErr (guided_failure ''denied''
            (if de_reason d \<noteq> [] then de_reason d else ''the policy refused tool '' @ repr_str tool)))
          else give None)) (\<lambda>p v. case p of None \<Rightarrow> True | Some o1 \<Rightarrow> executed o1 v) w"
      unfolding Some option.case
      by (rule yields_first, intro yields_if yields_look yields_option yields_raise s) (simp_all add: yields_give)
  qed (simp add: yields_give)
  show ?thesis unfolding do_tool_def
    by (rule yields_first, rule yields_then, rule yields_mono[OF g])
       (auto intro!: yields_give yields_first completed_executed split: option.splits)
qed

lemma yields_execute_step:
  assumes rec: "\<And>s f v. s \<in> set (children_of step) \<Longrightarrow> yields (rec s f) sound v"
  shows "yields (execute_step en rec step fr sid input) executed w"
proof (cases step)
  case (WorkflowStepRef b spec m)
  with rec show ?thesis by (auto simp: execute_step_def intro!: yields_nested)
next
  case (ParallelStep b branches ff)
  with rec show ?thesis
    by (auto simp: execute_step_def do_parallel_def at_child_def in_set_enumerate_eq intro!: yields_conclude)
next
  case (BranchStep b cs otherwise m)
  with rec show ?thesis by (auto simp: execute_step_def intro!: yields_branch split: option.splits)
next
  case (ForEachStep b items body c ff)
  have "yields (then_do (concurrently rec (foreach_work body f xs) ff) (\<lambda>os. give (conclude step (map (\<lambda>_. body) xs) os
      [(''items'', JArr (map (\<lambda>o1. opt_obj (so_output o1)) os)), (''count'', JInt (int (length os)))]))) executed v" for f xs v
    using rec ForEachStep by (intro yields_conclude) (auto simp: foreach_work_def)
  then show ?thesis unfolding ForEachStep execute_step_def do_foreach_def Let_def workflow_step.case
    by (intro yields_first) (auto intro: yields_raise split: json.splits)
next
  case (LoopStep b body until while m)
  with rec show ?thesis by (auto simp: execute_step_def intro!: yields_loop)
next
  case (SleepStep b seconds until)
  then show ?thesis unfolding execute_step_def Let_def do_sleep_def
    by (auto intro!: yields_look yields_option yields_give yields_first yields_if completed_executed suspend_timer_executed)
next
  case (WaitStep b event schema)
  then show ?thesis unfolding execute_step_def Let_def do_wait_def
    by (auto intro!: yields_look yields_option yields_give yields_raise completed_executed suspend_executed
             split: sum.splits value_error.splits)
next
  case (HumanStep b prompt qs expires)
  then show ?thesis unfolding execute_step_def Let_def do_human_def
    by (auto intro!: yields_look yields_option yields_give completed_executed suspend_executed)
qed (auto simp: execute_step_def yields_tool intro!: yields_first yields_give completed_executed)

theorem do_step_recorded: "yields (do_step en step fr) (recorded (id_of fr w) (step_name step)) w"
proof (induction step arbitrary: fr w rule: measure_induct_rule[of size])
  case (less step)
  have "yields (do_step en s f) sound v" if "s \<in> set (children_of step)" for s f v
    using less[OF size_child[OF that], of f v] by (rule yields_mono) (simp add: recorded_def)
  then show ?case by (subst do_step.simps) (intro yields_step_body yields_execute_step)
qed

end
