(* ===== verification/WalkSamples.thy ===== *)
theory WalkSamples
  imports Workflow Samples
begin

text \<open>
  Concrete walks for the witnesses: an engine over a Run that was admitted and holds an attempt, with
  steps that finish, wait, ask and are guarded. A step's id is a SHA-256 digest; the lemmas hold for every
  id, so that no digest is computed.
\<close>

definition s_base :: "string \<Rightarrow> step_base" where
  "s_base name = \<lparr>sb_name = name, sb_description = [], sb_when = None, sb_retry = None, sb_timeout_seconds = None,
     sb_on_failure_continue = False, sb_output_schema = None, sb_ends_workflow = False\<rparr>"

definition s_map :: "unit workflow_step" where
  "s_map = MapStep (s_base ''m'') [(''x'', LiteralValue (JInt 1))]"

definition s_wait :: "unit workflow_step" where
  "s_wait = WaitStep (s_base ''e'') ''event'' []"

definition s_engine :: "unit workflow_step \<Rightarrow> unit engine" where
  "s_engine step = \<lparr>en_now = int, en_abort = \<lambda>_. None, en_others = \<lambda>_. id, en_root = WorkflowSpec ''w'' [] [step] default_limits default_suspension None [] None default_retry,
     en_agent = \<lambda>_ _ _. give None, en_tool = \<lambda>_ _. give JNull, en_gate = None,
     en_overrun = \<lambda>_ _. None, en_re = \<lambda>_ _. Some False,
     en_fromisoformat = \<lambda>_. Inl [],
     en_describe = \<lambda>_. \<lparr>px_access_denied = False, px_type_name = ''E'', px_text = [], px_traceback = []\<rparr>,
     en_float_str = \<lambda>_. []\<rparr>"

definition s_state :: run_state_view where
  "s_state = (initial_view ''run'' s_scope)\<lparr>v_admitted := True, v_head_seq := 2\<rparr>"

definition s_walk_at :: "run_state_view \<Rightarrow> nat \<Rightarrow> walk" where
  "s_walk_at st t =
     \<lparr>wk_journal = \<lparr>j_run_id = ''run'', j_scope = s_scope, j_state = st, j_attempt_id = None\<rparr>,
      wk_store = s_store [b_admitted, b_attempt 1], wk_tick = t\<rparr>"

definition s_frame :: "path_elem list \<Rightarrow> frame" where
  "s_frame path =
     \<lparr>fr_scope = \<lparr>ws_input = [], ws_steps = [], ws_state = [], ws_item = None, ws_index = None, ws_iteration = None\<rparr>,
      fr_path = path, fr_parent_step_id = None, fr_iteration = None\<rparr>"

section \<open>Steps that run\<close>

text \<open>The step ended with a status, and nothing is in the log that the Journal has not folded.\<close>

definition ends_as :: "step_status \<Rightarrow> (raised + step_outcome) \<times> walk \<Rightarrow> bool" where
  "ends_as status rw = (case rw of
     (Inl _, _) \<Rightarrow> False
   | (Inr o1, w) \<Rightarrow> so_status o1 = status \<and> \<not> view_aborted (j_state (wk_journal w)) \<and> j_run_id (wk_journal w) = ''run'' \<and>
       store_read (wk_store w) ''run'' (v_head_seq (j_state (wk_journal w))) None = [])"

lemma s_no_memo: "dict_get (v_steps s_state) sid = None" and s_not_paused: "breakpoint en step sid (s_walk_at s_state t) = (Inr None, s_walk_at s_state t)"
  by (simp_all add: s_walk_at_def s_state_def initial_view_def breakpoint_def look_def give_def)

lemma s_first_attempt:
  "do_step en step fr (s_walk_at s_state t) =
     (let sid = id_of fr (s_walk_at s_state t) in
      attempt_step en (execute_step en (do_step en) step fr sid) step fr sid 1
        (attempts en (execute_step en (do_step en) step fr sid) step fr sid 2) (s_walk_at s_state t))"
proof -
  have "j_state (wk_journal (s_walk_at s_state t)) = s_state" by (simp add: s_walk_at_def)
  then show ?thesis
    by (subst do_step.simps) (simp add: step_body_def then_do_def s_not_paused s_no_memo attempts.simps[of en _ step fr _ 1] Let_def)
qed

lemma s_map_runs:
  "execute_step en rec s_map fr sid = (\<lambda>input w. (Inr (outcome ''m'' SoCompleted (Some [(''x'', JInt 1)]) None), w))"
  by (rule ext) (simp add: fun_eq_iff execute_step_def s_map_def s_base_def give_def then_do_def lift_value_def)

lemma s_map_attempt:
  "ends_as SoCompleted (attempt_step (s_engine s_map)
     (\<lambda>input w. (Inr (outcome ''m'' SoCompleted (Some [(''x'', JInt 1)]) None), w))
     s_map (s_frame path) sid 1 again (s_walk_at s_state 1))"
  by code_simp

lemma s_map_step: "ends_as SoCompleted (do_step (s_engine s_map) s_map (s_frame path) (s_walk_at s_state 1))"
  by (simp add: s_first_attempt s_map_runs s_map_attempt Let_def del: One_nat_def)

lemma s_wait_runs:
  "execute_step en rec s_wait fr sid = (\<lambda>input. do_wait en s_wait sid ''event'' [])"
  by (rule ext) (simp add: execute_step_def s_wait_def)

lemma s_wait_attempt:
  "ends_as SoSuspended (attempt_step (s_engine s_wait) (\<lambda>input. do_wait (s_engine s_wait) s_wait sid ''event'' [])
     s_wait (s_frame path) sid 1 again (s_walk_at s_state 1))"
  by code_simp

lemma s_wait_step: "ends_as SoSuspended (do_step (s_engine s_wait) s_wait (s_frame path) (s_walk_at s_state 1))"
  by (simp add: s_first_attempt s_wait_runs s_wait_attempt Let_def del: One_nat_def)

section \<open>Workflows that run\<close>

lemma s_stopped: "stopped (s_engine step) (s_walk_at s_state 0) = (Inr None, s_walk_at s_state 1)"
proof -
  have "store_read (s_store [b_admitted, b_attempt 1]) ''run'' 2 None = []" by code_simp
  then show ?thesis
    by (simp add: stopped_def then_do_def refresh_walk_def refresh_def absorb_def s_engine_def s_walk_at_def s_state_def
        initial_view_def Let_def view_aborted_def)
qed


lemma s_root_frame: "root_frame (s_engine step) [] s_state = s_frame []"
  by (simp add: root_frame_def s_frame_def s_engine_def s_state_def initial_view_def current_state_def dict_merge_def)

lemma s_execute:
  assumes "ends_as status (do_step (s_engine step) step (s_frame [PName ''w'', PIndex 0, PName (step_name step)]) (s_walk_at s_state 1))"
    and "\<not> sb_ends_workflow (step_base_of step)" "status = SoCompleted \<or> status = SoSuspended"
  obtains out w where "execute_workflow (s_engine step) [] (s_walk_at s_state 0) = (Inr out, w)"
    and "wo_state out = (if status = SoCompleted then Some Completed else None)"
    and "\<not> view_aborted (j_state (wk_journal w))" and "j_run_id (wk_journal w) = ''run''"
    and "store_read (wk_store w) ''run'' (v_head_seq (j_state (wk_journal w))) None = []"
proof -
  let ?fr = "s_frame [PName ''w'', PIndex 0, PName (step_name step)]"
  from assms(1) obtain o1 w where s: "do_step (s_engine step) step ?fr (s_walk_at s_state 1) = (Inr o1, w)" and o1: "so_status o1 = status"
    and w: "\<not> view_aborted (j_state (wk_journal w))" "j_run_id (wk_journal w) = ''run''"
      "store_read (wk_store w) ''run'' (v_head_seq (j_state (wk_journal w))) None = []"
    by (auto simp: ends_as_def split: prod.splits sum.splits)
  have st: "j_state (wk_journal (s_walk_at s_state t)) = s_state" and i: "v_run_input s_state = []" for t
    by (simp_all add: s_walk_at_def s_state_def initial_view_def)
  have r: "en_root (s_engine step) = WorkflowSpec ''w'' [] [step] default_limits default_suspension None [] None default_retry"
    by (simp add: s_engine_def)
  have f: "s_frame []\<lparr>fr_path := fr_path (s_frame []) @ [PName ''w'', PIndex 0, PName (step_name step)]\<rparr> = ?fr"
    by (simp add: s_frame_def)
  show thesis
    using that[of _ w] s o1 w assms(2,3)
    by (auto simp: execute_workflow_def look_def r st input_check_def s_root_frame sequence_def then_do_def s_stopped f stops_sequence_def
        is_blocking_def ended_def give_def simp del: One_nat_def)
qed

section \<open>A composite that was underway\<close>

definition s_guarded :: "unit workflow_step" where
  "s_guarded = ParallelStep ((s_base ''p'')\<lparr>sb_when := Some (Condition (Some ''state.open'') OpTruthy JNull [] [] False)\<rparr>) [s_map, s_wait] True"

definition s_underway :: "step_id \<Rightarrow> step_record" where
  "s_underway sid =
     \<lparr>sr_step_id = sid, sr_name = ''p'', sr_kind = ''parallel'', sr_attempt_number = 1, sr_input = [], sr_completed = False,
      sr_output = None, sr_failure = None, sr_child_run_id = None, sr_path = [], sr_parent_step_id = None, sr_iteration = None,
      sr_skipped = False, sr_will_retry = False, sr_retry_at = None, sr_started_at = Some 2, sr_completed_at = None,
      sr_started_seq = 2, sr_completed_seq = None, sr_replayed_from = None\<rparr>"

definition s_halfway :: "step_id \<Rightarrow> run_state_view" where
  "s_halfway sid = s_state\<lparr>v_steps := [(sid, s_underway sid)], v_step_starts := 1\<rparr>"

definition s_closed :: "path_elem list \<Rightarrow> frame" where
  "s_closed path = (s_frame path)\<lparr>fr_scope := (fr_scope (s_frame path))\<lparr>ws_state := [(''open'', JBool False)]\<rparr>\<rparr>"

lemma s_guard_skips:
  "ends_as SoSkipped (attempt_step (s_engine s_guarded) exec s_guarded (s_closed path) sid 2 again (s_walk_at (s_halfway sid) 0))"
  by code_simp

end
