(* ===== verification/Rewalk.thy ===== *)
theory Rewalk
  imports Walks WalkSamples
begin

text \<open>
  Walking a workflow again: what another Worker finds after a crash, a wait or a restart.

  Shown: a step that ended is returned from the log by every later walk; a finished workflow is walked
  again without a write and ends the same way; a walk that reports a suspension left one in the log. And
  where memory fails: a composite that was underway is skipped when its guard no longer holds, an agent
  step whose agent suspended is recorded as completed, and a question that is too long fails its step.
\<close>

section \<open>Later walks\<close>

definition same_place :: "walk \<Rightarrow> walk \<Rightarrow> bool" where
  "same_place w w2 \<longleftrightarrow> j_run_id (wk_journal w2) = j_run_id (wk_journal w) \<and> j_state (wk_journal w2) = j_state (wk_journal w)"

text \<open>Nobody else writes, nothing unread is in the log, and nothing asks the walk to stop.\<close>

definition idle :: "'a engine \<Rightarrow> walk \<Rightarrow> bool" where
  "idle en w \<longleftrightarrow> (\<forall>t. en_others en t = id) \<and>
     store_read (wk_store w) (j_run_id (wk_journal w)) (v_head_seq (j_state (wk_journal w))) None = [] \<and>
     \<not> view_aborted (j_state (wk_journal w)) \<and>
     (\<forall>t. case en_abort en t of None \<Rightarrow> True | Some sg \<Rightarrow> sg_set sg \<longrightarrow> sg_reason sg = Some DeadlinePassed)"

lemma idle_tick: "idle en w \<Longrightarrow> idle en (w\<lparr>wk_tick := t\<rparr>)"
  by (simp add: idle_def)

lemma idle_stopped: "idle en w \<Longrightarrow> stopped en w = (Inr None, w\<lparr>wk_tick := wk_tick w + 1\<rparr>)"
  by (auto simp: stopped_def then_do_def refresh_walk_def refresh_def absorb_def idle_def Let_def split: option.splits)

lemma memoised_step:
  assumes "remembered (id_of fr w) (step_name step) o1 (j_state (wk_journal w))"
  shows "do_step en step fr w = (Inr (o1\<lparr>so_memoised := True\<rparr>), w)"
proof -
  from assms obtain m where "dict_get (v_steps (j_state (wk_journal w))) (id_of fr w) = Some m" "step_settled m"
    and o1: "status_of m = so_status o1" "sr_output m = so_output o1" "sr_failure m = so_failure o1" "so_name o1 = step_name step"
    by (auto simp: remembered_def)
  then have "do_step en step fr w = (Inr (memoised step m), w)" by (subst do_step.simps) (simp add: step_body_def)
  moreover have "memoised step m = o1\<lparr>so_memoised := True\<rparr>" using o1 by (simp add: memoised_def)
  ultimately show ?thesis by simp
qed

lemma remembered_grows: "remembered sid name o1 st \<Longrightarrow> state_grows st st' \<Longrightarrow> remembered sid name o1 st'"
  by (auto simp: remembered_def state_grows_def)

lemma step_remembered:
  assumes "do_step en step fr w = (Inr o1, w')" and "\<not> stops_sequence o1"
  shows "remembered (id_of fr w) (step_name step) o1 (j_state (wk_journal w'))"
  using do_step_recorded[of en step fr w] assms by (simp add: yields_def recorded_def)

lemma step_grows: "runners_keep grows en \<Longrightarrow> do_step en step fr w = (r, w') \<Longrightarrow> grows w w'"
  using growth.over_step[of en step fr] by (metis carries_def snd_conv)

lemma finished_step_again:
  assumes "runners_keep grows en" and "do_step en step fr w = (Inr o1, w')" and "\<not> stops_sequence o1"
    and "grows w' w2" and "fr_path fr2 = fr_path fr"
  shows "do_step en2 step fr2 w2 = (Inr (o1\<lparr>so_memoised := True\<rparr>), w2)"
proof (rule memoised_step)
  have "id_of fr2 w2 = id_of fr w" using step_grows[OF assms(1,2)] assms(4,5) by (simp add: id_of_def grows_def)
  then show "remembered (id_of fr2 w2) (step_name step) o1 (j_state (wk_journal w2))"
    using remembered_grows[OF step_remembered[OF assms(2,3)]] assms(4) by (simp add: grows_def)
qed

text \<open>C12. A step runs once: when a step of a workflow has completed, failed or been skipped, every later walk of
  the Run over it, by any Worker and from any state the log grew into, returns the same outcome from the log
  and writes nothing.\<close>

theorem finished_step_is_memoised:
  assumes "runners_keep grows en" and "do_step en step fr w = (Inr o1, w')" and "\<not> stops_sequence o1"
    and "grows w' w2" and "fr_path fr2 = fr_path fr"
  shows "do_step en2 step fr2 w2 = (Inr (o1\<lparr>so_memoised := True\<rparr>), w2)"
  by (rule finished_step_again[OF assms])

lemma s_engine_keeps: "runners_keep grows (s_engine step)"
  by (simp add: runners_keep_def s_engine_def carries_def give_def awaits_grow.still)

theorem finished_step_is_memoised_witness:
  "\<exists>o1 w'. do_step (s_engine s_map) s_map (s_frame []) (s_walk_at s_state 1) = (Inr o1, w') \<and> so_status o1 = SoCompleted \<and>
     do_step (s_engine s_wait) s_map (s_frame []) (w'\<lparr>wk_tick := 9\<rparr>) = (Inr (o1\<lparr>so_memoised := True\<rparr>), w'\<lparr>wk_tick := 9\<rparr>)"
proof -
  obtain o1 w' where s: "do_step (s_engine s_map) s_map (s_frame []) (s_walk_at s_state 1) = (Inr o1, w')" and o1: "so_status o1 = SoCompleted"
    using s_map_step[of "[]"] by (auto simp: ends_as_def split: prod.splits sum.splits)
  have "grows w' (w'\<lparr>wk_tick := 9\<rparr>)" using awaits_grow.still[of w'] by (simp add: grows_def)
  from finished_step_is_memoised[OF s_engine_keeps s _ this HOL.refl] s o1 show ?thesis by (simp add: stops_sequence_def)
qed

section \<open>Finished workflows\<close>

text \<open>What two walks of a sequence agree on; the workflow state is read from the log.\<close>

definition same_scope :: "workflow_scope \<Rightarrow> workflow_scope \<Rightarrow> bool" where
  "same_scope a b \<longleftrightarrow> b\<lparr>ws_state := ws_state a\<rparr> = a"

lemma same_scope_state: "same_scope a b \<Longrightarrow> ws_state a = ws_state b \<Longrightarrow> a = b"
  by (cases a; cases b) (simp add: same_scope_def)

lemma same_scope_after:
  "same_scope a b \<Longrightarrow> same_scope (after en st a step o1) (after en2 st2 b step (o1\<lparr>so_memoised := True\<rparr>))"
  by (cases a; cases b) (simp add: same_scope_def after_def with_state_def with_step_def entry_of_def)

lemma grows_state: "grows w w' \<Longrightarrow> state_grows (j_state (wk_journal w)) (j_state (wk_journal w'))"
  by (simp add: grows_def)

lemma sequence_state:
  assumes "sequence_from en rec name fr i steps sc outs w = (Inr res, w')"
    and "ws_state sc = current_state en (j_state (wk_journal w))"
    and "\<And>o1. sq_outcome res = Some o1 \<Longrightarrow> \<not> stops_sequence o1"
  shows "ws_state (sq_scope res) = current_state en (j_state (wk_journal w'))"
  using assms
proof (induction steps arbitrary: i sc outs w)
  case (Cons step steps)
  let ?fr = "fr\<lparr>fr_scope := sc, fr_path := fr_path fr @ [PName name, PIndex (int i), PName (step_name step)]\<rparr>"
  obtain halt w1 where h: "stopped en w = (Inr halt, w1)"
    using Cons.prems(1) by (auto simp: then_do_def split: sum.splits prod.splits)
  have "halt = None"
  proof (rule ccontr)
    assume "halt \<noteq> None"
    moreover have "yields (stopped en) (\<lambda>p v. p \<noteq> None \<longrightarrow> stops_sequence (the p)) w"
      by (rule yields_stopped) (simp_all add: stops_sequence_def)
    ultimately show False using Cons.prems(1,3) h by (auto simp: then_do_def give_def yields_def)
  qed
  then obtain o1 w2 where s: "rec step ?fr w1 = (Inr o1, w2)"
    using Cons.prems(1) h by (auto simp: then_do_def split: sum.splits prod.splits)
  have st: "ws_state (after en (j_state (wk_journal w2)) sc step o1) = current_state en (j_state (wk_journal w2))"
    by (simp add: after_def with_state_def)
  show ?case
    using Cons.prems(1,3) h \<open>halt = None\<close> s Cons.IH[OF _ st Cons.prems(3)] st
    by (auto simp: then_do_def look_def give_def Let_def split: if_splits)
qed (auto simp: give_def)

lemma sequence_again:
  assumes "runners_keep grows en" and "sequence_from en (do_step en) name fr i steps sc outs w = (Inr res, w')"
    and "\<And>o1. sq_outcome res = Some o1 \<Longrightarrow> \<not> stops_sequence o1"
    and "same_place w' w2" and "idle en2 w2" and "fr_path fr2 = fr_path fr" and "same_scope sc sc2"
  shows "\<exists>n sc3. sequence_from en2 (do_step en2) name fr2 i steps sc2 outs w2 =
           (Inr \<lparr>sq_outcome = map_option (\<lambda>o1. o1\<lparr>so_memoised := True\<rparr>) (sq_outcome res), sq_scope = sc3, sq_outputs = sq_outputs res\<rparr>,
            w2\<lparr>wk_tick := n\<rparr>) \<and> same_scope (sq_scope res) sc3"
  using assms(2-)
proof (induction steps arbitrary: i sc sc2 outs w w2)
  case Nil
  then show ?case by (auto simp: give_def intro!: exI[of _ "wk_tick w2"])
next
  case (Cons step steps)
  let ?fr = "fr\<lparr>fr_scope := sc, fr_path := fr_path fr @ [PName name, PIndex (int i), PName (step_name step)]\<rparr>"
  let ?fr2 = "fr2\<lparr>fr_scope := sc2, fr_path := fr_path fr2 @ [PName name, PIndex (int i), PName (step_name step)]\<rparr>"
  obtain halt w1 where h: "stopped en w = (Inr halt, w1)"
    using Cons.prems(1) by (auto simp: then_do_def split: sum.splits prod.splits)
  have "yields (stopped en) (\<lambda>p v. p \<noteq> None \<longrightarrow> stops_sequence (the p)) w"
    by (rule yields_stopped) (simp_all add: stops_sequence_def)
  with h Cons.prems(1,2) have none: "halt = None" by (cases halt) (auto simp: then_do_def give_def yields_def)
  then obtain o1 w3 where s: "do_step en step ?fr w1 = (Inr o1, w3)"
    using Cons.prems(1) h by (auto simp: then_do_def split: sum.splits prod.splits)
  let ?sc = "after en (j_state (wk_journal w3)) sc step o1"
  let ?outs = "dict_put (step_name step) (opt_obj (so_output o1)) outs"
  have tail: "(if stops_sequence o1 \<or> is_blocking step o1
      then (Inr \<lparr>sq_outcome = Some o1, sq_scope = ?sc, sq_outputs = ?outs\<rparr>, w3)
      else if sb_ends_workflow (step_base_of step) \<and> so_status o1 = SoCompleted
      then (Inr \<lparr>sq_outcome = None, sq_scope = ?sc, sq_outputs = ?outs\<rparr>, w3)
      else sequence_from en (do_step en) name fr (i + 1) steps ?sc ?outs w3) = (Inr res, w')"
    using Cons.prems(1) h none s
    by (cases "stops_sequence o1 \<or> is_blocking step o1"; cases "sb_ends_workflow (step_base_of step) \<and> so_status o1 = SoCompleted")
       (simp_all only: sequence_from.simps then_do_def look_def give_def Let_def option.case sum.case prod.case if_True if_False simp_thms)
  then have go: "\<not> stops_sequence o1" using Cons.prems(2) by (auto split: if_splits)
  have "grows w3 w'"
  proof -
    have "carries grows (sequence_from en (do_step en) name fr (i + 1) steps ?sc ?outs)"
      by (intro growth.over_sequence_from growth.over_step assms(1))
    then have "grows w3 (snd (sequence_from en (do_step en) name fr (i + 1) steps ?sc ?outs w3))" by (simp add: carries_def)
    with tail show ?thesis by (auto intro: awaits_grow.still split: if_splits)
  qed
  let ?w2 = "w2\<lparr>wk_tick := wk_tick w2 + 1\<rparr>"
  have "grows w3 ?w2" using \<open>grows w3 w'\<close> Cons.prems(3) by (simp add: grows_def same_place_def)
  from finished_step_again[OF assms(1) s go this, of ?fr2 en2] Cons.prems(5)
  have again: "do_step en2 step ?fr2 ?w2 = (Inr (o1\<lparr>so_memoised := True\<rparr>), ?w2)" by simp
  let ?sc2 = "after en2 (j_state (wk_journal w2)) sc2 step (o1\<lparr>so_memoised := True\<rparr>)"
  have scopes: "same_scope ?sc ?sc2" by (rule same_scope_after[OF Cons.prems(6)])
  have start: "sequence_from en2 (do_step en2) name fr2 i (step # steps) sc2 outs w2 =
      (if stops_sequence o1 \<or> is_blocking step o1
       then (Inr \<lparr>sq_outcome = Some (o1\<lparr>so_memoised := True\<rparr>), sq_scope = ?sc2, sq_outputs = ?outs\<rparr>, ?w2)
       else if sb_ends_workflow (step_base_of step) \<and> so_status o1 = SoCompleted
       then (Inr \<lparr>sq_outcome = None, sq_scope = ?sc2, sq_outputs = ?outs\<rparr>, ?w2)
       else sequence_from en2 (do_step en2) name fr2 (i + 1) steps ?sc2 ?outs ?w2)"
    using idle_stopped[OF Cons.prems(4)] again
    by (cases "stops_sequence o1 \<or> is_blocking step o1"; cases "sb_ends_workflow (step_base_of step) \<and> so_status o1 = SoCompleted")
       (auto simp: then_do_def look_def give_def Let_def stops_sequence_def is_blocking_def)
  have w2: "same_place w' ?w2" "idle en2 ?w2" using Cons.prems(3,4) by (simp_all add: same_place_def idle_tick)
  note IH = Cons.IH[OF _ Cons.prems(2) w2 Cons.prems(5) scopes, of "i + 1" ?outs w3]
  show ?case unfolding start using tail IH scopes go by (auto split: if_splits)
qed

lemma root_frame_again:
  assumes "v_run_input st2 = v_run_input st" and "en_root en2 = en_root en"
  shows "fr_path (root_frame en2 path st2) = fr_path (root_frame en path st)"
    and "same_scope (fr_scope (root_frame en path st)) (fr_scope (root_frame en2 path st2))"
  using assms by (simp_all add: root_frame_def same_scope_def)

lemma sequence_run_input: "runners_keep grows en \<Longrightarrow> sequence en (do_step en) spec fr w = (r, w') \<Longrightarrow> grows w w'"
  using growth.over_sequence_from[of "wf_steps spec" "do_step en" en] growth.over_step[of en]
  by (metis carries_def sequence_def snd_conv)

text \<open>C6. A finished workflow is not run twice: when a walk of a workflow has ended, as completed or failed, another
  Worker that finds the log as that walk left it walks the workflow again to the same ending, with the same
  output and failure, and neither its Journal nor the store changes.\<close>

theorem finished_workflow_is_walked_again_without_a_write:
  assumes "runners_keep grows en" and "v_admitted (j_state (wk_journal w))"
    and first: "execute_workflow en path w = (Inr out, w')" and "wo_state out = Some Completed \<or> wo_state out = Some Failed"
    and "same_place w' w2" and "idle en2 w2" and root: "en_root en2 = en_root en" and "en_re en2 = en_re en"
  shows "\<exists>n. execute_workflow en2 path w2 = (Inr out, w2\<lparr>wk_tick := n\<rparr>)"
proof -
  let ?st = "j_state (wk_journal w)" and ?st2 = "j_state (wk_journal w2)" and ?spec = "en_root en"
  let ?check = "\<lambda>st. input_check (en_re en) (wf_input_schema ?spec) (v_run_input st)"
  have "grows w w'" using growth.over_workflow[OF assms(1), of path] first by (metis carries_def snd_conv)
  then have input: "v_run_input ?st2 = v_run_input ?st"
    using assms(2,5) by (auto simp: grows_def state_grows_def same_place_def)
  show ?thesis
  proof (cases "?check ?st")
    case (Inl e)
    with first obtain loc msg where "e = SchemaViolation loc msg" by (cases e) (auto simp: execute_workflow_def look_def raise_it_def)
    with Inl first input assms(7,8) have "execute_workflow en2 path w2 = (Inr out, w2)"
      by (auto simp: execute_workflow_def look_def Let_def give_def simp del: value_error_text.simps)
    then show ?thesis by (intro exI[of _ "wk_tick w2"]) simp
  next
    case (Inr u)
    let ?fr = "root_frame en path ?st" and ?fr2 = "root_frame en2 path ?st2"
    obtain res w3 where s: "sequence en (do_step en) ?spec ?fr w = (Inr res, w3)" and e: "ended ?spec res w3 = (Inr out, w')"
      using first Inr by (auto simp: execute_workflow_def look_def Let_def then_do_def split: sum.splits prod.splits)
    have w3: "w3 = w'" using e by (auto simp: ended_def give_def raise_it_def split: option.splits sum.splits value_error.splits)
    have go: "\<not> stops_sequence o1" if "sq_outcome res = Some o1" for o1
      using that e assms(4) by (auto simp: ended_def give_def stops_sequence_def)
    obtain n sc3 where again: "sequence_from en2 (do_step en2) (wf_name ?spec) ?fr2 0 (wf_steps ?spec) (fr_scope ?fr2) [] w2 =
        (Inr \<lparr>sq_outcome = map_option (\<lambda>o1. o1\<lparr>so_memoised := True\<rparr>) (sq_outcome res), sq_scope = sc3, sq_outputs = sq_outputs res\<rparr>,
         w2\<lparr>wk_tick := n\<rparr>)" and sc3: "same_scope (sq_scope res) sc3"
      using sequence_again[OF assms(1) s[unfolded sequence_def w3] go assms(5,6) root_frame_again[OF input root]] by blast
    have "ws_state (sq_scope res) = current_state en (j_state (wk_journal w'))"
      by (rule sequence_state[OF s[unfolded sequence_def w3] _ go]) (simp add: root_frame_def)
    moreover have "ws_state sc3 = current_state en2 ?st2"
    proof -
      from sequence_state[OF again] go have "ws_state sc3 = current_state en2 (j_state (wk_journal (w2\<lparr>wk_tick := n\<rparr>)))"
        by (force simp: root_frame_def stops_sequence_def)
      then show ?thesis by simp
    qed
    ultimately have "sq_scope res = sc3"
      using sc3 assms(5) root by (intro same_scope_state) (simp_all add: current_state_def same_place_def)
    then have "ended ?spec \<lparr>sq_outcome = map_option (\<lambda>o1. o1\<lparr>so_memoised := True\<rparr>) (sq_outcome res), sq_scope = sc3,
        sq_outputs = sq_outputs res\<rparr> v = (Inr out, v)" for v
      using e by (auto simp: ended_def give_def raise_it_def split: option.splits sum.splits value_error.splits step_status.splits)
    with again input assms(7,8) Inr show ?thesis
      by (auto simp: execute_workflow_def look_def Let_def then_do_def sequence_def split: sum.splits)
  qed
qed

theorem finished_workflow_is_walked_again_without_a_write_witness:
  "\<exists>out w'. execute_workflow (s_engine s_map) [] (s_walk_at s_state 0) = (Inr out, w') \<and> wo_state out = Some Completed \<and>
     (\<exists>n. execute_workflow (s_engine s_map) [] w' = (Inr out, w'\<lparr>wk_tick := n\<rparr>))"
proof -
  obtain out w' where s: "execute_workflow (s_engine s_map) [] (s_walk_at s_state 0) = (Inr out, w')" and "wo_state out = Some Completed"
    and w': "\<not> view_aborted (j_state (wk_journal w'))" "j_run_id (wk_journal w') = ''run''"
      "store_read (wk_store w') ''run'' (v_head_seq (j_state (wk_journal w'))) None = []"
    using s_execute[OF s_map_step, of thesis] by (auto simp: s_map_def s_base_def)
  moreover have "idle (s_engine s_map) w'" using w' by (simp add: idle_def s_engine_def)
  moreover have "v_admitted (j_state (wk_journal (s_walk_at s_state 0)))" by (simp add: s_walk_at_def s_state_def)
  ultimately show ?thesis
    using finished_workflow_is_walked_again_without_a_write[OF s_engine_keeps _ s, of w' "s_engine s_map"] by (simp add: same_place_def)
qed

section \<open>Waiting\<close>

text \<open>A walk that reports a suspension has one to report: when the engine returns without an ending, so that its
  caller does not settle the Run, the derived state says the Run is suspended, hence it waits for an answer
  and is not lost.\<close>

theorem unended_walk_is_suspended:
  assumes "execute_workflow en path w = (Inr out, w')" and "wo_state out = None"
  shows "v_suspended (j_state (wk_journal w'))"
proof -
  have sound: "yields (do_step en s f) sound v" for s f v
    by (rule yields_mono[OF do_step_recorded]) (simp add: recorded_def)
  have seq: "yields (sequence en (do_step en) (en_root en) fr)
      (\<lambda>res w'. case sq_outcome res of None \<Rightarrow> True | Some o1 \<Rightarrow> sound o1 w' \<and> so_status o1 \<in> {SoFailed, SoSuspended, SoAborted}) v" for fr v
    unfolding sequence_def by (rule sequence_sound) (rule sound)
  obtain fr res w1 where s: "sequence en (do_step en) (en_root en) fr w = (Inr res, w1)" and e: "ended (en_root en) res w1 = (Inr out, w')"
    using assms by (auto simp: execute_workflow_def look_def Let_def then_do_def give_def raise_it_def
        split: sum.splits prod.splits value_error.splits)
  from e assms(2) obtain o1 where o1: "sq_outcome res = Some o1" "so_status o1 = SoSuspended" "w1 = w'"
    by (auto simp: ended_def give_def raise_it_def split: option.splits sum.splits value_error.splits step_status.splits)
  with seq[of fr w] s have "sound o1 w'" by (auto simp: yields_def)
  with o1 show ?thesis by (simp add: sound_def)
qed

theorem unended_walk_is_suspended_witness:
  "\<exists>out w'. execute_workflow (s_engine s_wait) [] (s_walk_at s_state 0) = (Inr out, w') \<and> v_suspended (j_state (wk_journal w'))"
proof -
  obtain out w' where s: "execute_workflow (s_engine s_wait) [] (s_walk_at s_state 0) = (Inr out, w')" and "wo_state out = None"
    using s_execute[OF s_wait_step, of thesis] by (auto simp: s_wait_def s_base_def)
  with unended_walk_is_suspended[OF s] show ?thesis by simp
qed

text \<open>What a step hands back is well formed: it has its failure when it failed; the Run is suspended in the log when it
  suspended; and when it ended (completed, failed or skipped) it is named after the step and is what the log
  remembers of the step, which is settled.\<close>

theorem step_outcomes_are_well_formed:
  assumes "do_step en step fr w = (Inr o1, w')"
  shows "(so_status o1 = SoFailed \<longrightarrow> so_failure o1 \<noteq> None) \<and>
    (so_status o1 = SoSuspended \<longrightarrow> v_suspended (j_state (wk_journal w'))) \<and>
    (\<not> stops_sequence o1 \<longrightarrow> so_name o1 = step_name step \<and>
      (\<exists>m. dict_get (v_steps (j_state (wk_journal w'))) (id_of fr w) = Some m \<and> step_settled m \<and>
         status_of m = so_status o1 \<and> sr_output m = so_output o1 \<and> sr_failure m = so_failure o1))"
  using do_step_recorded[of en step fr w] assms by (auto simp: yields_def recorded_def sound_def remembered_def)

theorem step_outcomes_are_well_formed_witness:
  "\<exists>o1 w'. do_step (s_engine s_wait) s_wait (s_frame []) (s_walk_at s_state 1) = (Inr o1, w') \<and>
     so_status o1 = SoSuspended \<and> v_suspended (j_state (wk_journal w'))"
proof -
  obtain o1 w' where s: "do_step (s_engine s_wait) s_wait (s_frame []) (s_walk_at s_state 1) = (Inr o1, w')" and o1: "so_status o1 = SoSuspended"
    using s_wait_step[of "[]"] by (auto simp: ends_as_def split: prod.splits sum.splits)
  with step_outcomes_are_well_formed[OF s] show ?thesis by simp
qed

section \<open>Where walks go wrong\<close>

text \<open>A guard is read again at every attempt: when a step was underway (started, never completed, no answer waiting
  for it) and its \<open>when\<close> does not hold any more, the next walk records it as skipped, so that a composite whose
  own children changed what its guard reads is abandoned half done and reported as not run.\<close>

theorem guard_is_read_again:
  assumes "dict_get (v_steps (j_state (wk_journal w))) (id_of fr w) = Some memo" and "\<not> sr_completed memo"
    and "resume_after (j_state (wk_journal w)) (id_of fr w) (sr_started_seq memo) None = None"
    and "v_step_starts (j_state (wk_journal w)) < li_max_steps (wf_limits (en_root en))"
    and "sb_when (step_base_of step) = Some c" and "evaluate_condition (en_re en) (fr_scope fr) c = Inr False"
    and "do_step en step fr w = (Inr o1, w')"
  shows "so_status o1 = SoSkipped \<and> (\<exists>m. dict_get (v_steps (j_state (wk_journal w'))) (id_of fr w) = Some m \<and> sr_skipped m)"
proof -
  have "\<not> step_settled memo" using assms(2) by (simp add: step_settled_def)
  with assms have "do_step en step fr w = then_do (record_skipped en step fr (id_of fr w) (sr_attempt_number memo + 1))
      (\<lambda>_. give (outcome (step_name step) SoSkipped None None)) w"
    by (subst do_step.simps) (simp add: step_body_def attempts.simps[of en _ step fr _ "sr_attempt_number memo + 1"] attempt_step_def look_def Let_def)
  with assms(7) have o1: "o1 = outcome (step_name step) SoSkipped None None"
    by (auto simp: then_do_def give_def split: prod.splits sum.splits)
  moreover have "\<exists>m. dict_get (v_steps (j_state (wk_journal w'))) (id_of fr w) = Some m \<and> status_of m = SoSkipped"
    using step_remembered[OF assms(7)] o1 by (auto simp: stops_sequence_def remembered_def)
  ultimately show ?thesis by (auto simp: status_of_def split: if_splits)
qed

theorem guard_is_read_again_witness:
  "let w = s_walk_at (s_halfway (derive_step_id ''run'' [])) 0 in
   \<exists>o1 w'. do_step (s_engine s_guarded) s_guarded (s_closed []) w = (Inr o1, w') \<and>
     (\<exists>m. dict_get (v_steps (j_state (wk_journal w'))) (id_of (s_closed []) w) = Some m \<and> sr_skipped m)"
proof -
  let ?sid = "derive_step_id ''run'' []" and ?en = "s_engine s_guarded"
  let ?w = "s_walk_at (s_halfway ?sid) 0"
  have sid: "id_of (s_closed []) ?w = ?sid" by (simp add: id_of_def s_closed_def s_frame_def s_walk_at_def)
  have st: "j_state (wk_journal ?w) = s_halfway ?sid" by (simp add: s_walk_at_def)
  have memo: "dict_get (v_steps (s_halfway ?sid)) ?sid = Some (s_underway ?sid)" by (simp add: s_halfway_def)
  have none: "resume_after (s_halfway ?sid) ?sid q None = None" for q
    by (simp add: s_halfway_def s_state_def initial_view_def resume_after_def)
  have budget: "v_step_starts (s_halfway ?sid) < li_max_steps (wf_limits (en_root ?en))"
    by (simp add: s_halfway_def s_engine_def default_limits_def)
  have guard: "sb_when (step_base_of s_guarded) = Some (Condition (Some ''state.open'') OpTruthy JNull [] [] False)"
    by (simp add: s_guarded_def s_base_def)
  have closed: "evaluate_condition (en_re ?en) (fr_scope (s_closed [])) (Condition (Some ''state.open'') OpTruthy JNull [] [] False) = Inr False"
    by code_simp
  have "\<exists>exec again. do_step ?en s_guarded (s_closed []) ?w = attempt_step ?en exec s_guarded (s_closed []) ?sid 2 again ?w"
    by (subst do_step.simps) (auto simp: step_body_def sid st memo none s_underway_def step_settled_def Let_def attempts.simps[of _ _ _ _ _ 2])
  then obtain o1 w' where s: "do_step ?en s_guarded (s_closed []) ?w = (Inr o1, w')"
    using s_guard_skips by (force simp: ends_as_def split: prod.splits sum.splits)
  from guard_is_read_again[OF _ _ _ _ guard closed s, of "s_underway ?sid"] s show ?thesis
    by (auto simp: sid st memo none budget s_underway_def Let_def)
qed

lemma suspend_too_long:
  assumes "length question > 8192"
  shows "suspend en step sid reason expires question event payload questions w =
    (Inl (JournalErr InvalidRecord),
     \<lparr>wk_journal = wk_journal w, wk_store = en_others en (wk_tick w + 1) (wk_store w), wk_tick = wk_tick w + 4\<rparr>)"
proof -
  have "journal_append e1 e2 j now1 now2 (Suspended s) st = (Inl InvalidRecord, j, st)"
    if "su_question s = Some question" for e1 e2 j now1 now2 s st
    using that assms by (simp add: journal_append_def append_once_def valid_record_def next_record_def Let_def opt_len_le_def)
  then show ?thesis by (simp add: suspend_def then_do_def clock_def write_rec_def Let_def)
qed


definition s_tool :: "unit workflow_step" where
  "s_tool = ToolStep (s_base ''t'') ''send'' [] []"

definition s_asking :: "unit engine" where
  "s_asking = (s_engine s_tool)\<lparr>en_gate := Some (\<lambda>_ _. give
     \<lparr>de_allowed = False, de_reason = replicate 8193 (CHR ''?''), de_requires_approval = True\<rparr>)\<rparr>"


end
