(* ===== verification/ModelCalls.thy ===== *)
theory ModelCalls
  imports Usage PyNum Guidance
begin

text \<open>
  What surrounds a call of a model: which failures are worth another attempt and how long to wait
  (\<open>psych_runtime/model/transient.py\<close>), what a call cost (\<open>psych_runtime/model/pricing.py\<close>), and how the
  stream of an answer becomes a text and tool calls (\<open>AgentLoop._stream\<close> in \<open>runtime/agent.py\<close>).

  Shown: a cost that is computed is valid, and its parts add up to it but for the rounding; a stream is
  put together the same however the fragments of its calls interleave.
\<close>

section \<open>Errors\<close>

text \<open>
  What the code asks of an exception with \<open>isinstance\<close>, \<open>getattr\<close> and \<open>str\<close>. \<open>ef_transient_class\<close> is
  membership in \<open>_ALWAYS_TRANSIENT\<close>; \<open>ef_errno\<close> names the \<open>errno\<close> of an \<open>OSError\<close>; \<open>ef_problems\<close> are the
  errors of a pydantic \<open>ValidationError\<close>.
\<close>

record error_facts =
  ef_cancelled :: bool
  ef_access_denied :: bool
  ef_transient_class :: bool
  ef_errno :: "string option"
  ef_status :: "int option"
  ef_retry_after :: "rat option"
  ef_problems :: "(string list \<times> string option) list option"
  ef_type_name :: string
  ef_text :: string
  ef_traceback :: string

definition retryable_status_codes :: "int list" where
  "retryable_status_codes = [408, 425, 429, 500, 502, 503, 504, 529]"

definition non_retryable_status :: "int list" where
  "non_retryable_status = [400, 401, 403, 404, 413, 422]"

definition classify_status :: "int \<Rightarrow> bool" where
  "classify_status code =
     (if code \<in> set retryable_status_codes then True
      else if code \<in> set non_retryable_status then False else code \<ge> 500)"

definition transient_os_errors :: "string list" where
  "transient_os_errors = [''ECONNRESET'', ''ECONNREFUSED'', ''ECONNABORTED'', ''EPIPE'', ''ETIMEDOUT'', ''EHOSTUNREACH'',
     ''ENETUNREACH'', ''ENETRESET'', ''EAGAIN'']"

definition is_transient :: "error_facts \<Rightarrow> bool" where
  "is_transient e =
     (if ef_cancelled e then False
      else if ef_transient_class e then True
      else if (case ef_errno e of None \<Rightarrow> False | Some n \<Rightarrow> n \<in> set transient_os_errors) then True
      else (case ef_status e of Some code \<Rightarrow> classify_status code | None \<Rightarrow> False))"

definition context_overflow_status :: "int list" where
  "context_overflow_status = [400, 413, 422]"

definition context_overflow_markers :: "string list" where
  "context_overflow_markers = [''context length'', ''context window'', ''context_length_exceeded'', ''maximum context'',
     ''prompt is too long'', ''reduce the length of the messages'', ''too many input tokens'', ''too many tokens'']"

definition is_context_overflow :: "error_facts \<Rightarrow> bool" where
  "is_context_overflow e =
     (if is_transient e then False
      else if (case ef_status e of Some code \<Rightarrow> code \<notin> set context_overflow_status | None \<Rightarrow> False) then False
      else list_ex (\<lambda>m. is_substring m (py_lower (ef_text e))) context_overflow_markers)"

definition retry_delay_seconds :: "int \<Rightarrow> rat option \<Rightarrow> rat" where
  "retry_delay_seconds n retry_after =
     (case retry_after of
        Some q \<Rightarrow> if q \<ge> 0 then min q 30 else min ((1/2) * 2 ^ nat (min (max (n - 1) 0) 16)) 30
      | None \<Rightarrow> min ((1/2) * 2 ^ nat (min (max (n - 1) 0) 16)) 30)"

section \<open>Prices\<close>

record model_price =
  mp_input :: rat
  mp_output :: rat
  mp_cache_read :: rat
  mp_cache_write :: rat
  mp_cache_write_1h :: "rat option"
  mp_currency :: string

definition valid_price :: "model_price \<Rightarrow> bool" where
  "valid_price p \<longleftrightarrow> 0 \<le> mp_input p \<and> 0 \<le> mp_output p \<and> 0 \<le> mp_cache_read p \<and> 0 \<le> mp_cache_write p \<and>
     opt_nonneg (mp_cache_write_1h p) \<and>
     length (mp_currency p) = 3 \<and> list_all (\<lambda>x. CHR ''A'' \<le> x \<and> x \<le> CHR ''Z'') (mp_currency p)"

record price_table =
  pt_prices :: "(string, model_price) dict"
  pt_overrides :: "(string, model_price) dict"

text \<open>\<open>sorted(prices, key=len, reverse=True)\<close> keeps the order of equally long names.\<close>

definition prefixes_of :: "(string, model_price) dict \<Rightarrow> string list" where
  "prefixes_of prices = sort_key (\<lambda>k. - int (length k)) (map fst prices)"

definition match_price :: "string \<Rightarrow> (string, model_price) dict \<Rightarrow> model_price option" where
  "match_price model prices =
     (case dict_get prices model of
        Some p \<Rightarrow> Some p
      | None \<Rightarrow> (case find (py_startswith model) (prefixes_of prices) of
                   Some k \<Rightarrow> dict_get prices k | None \<Rightarrow> None))"

definition price_for :: "price_table \<Rightarrow> string \<Rightarrow> model_price option" where
  "price_for t model =
     (case match_price model (pt_overrides t) of Some p \<Rightarrow> Some p | None \<Rightarrow> match_price model (pt_prices t))"

definition with_overrides :: "price_table \<Rightarrow> (string, model_price) dict \<Rightarrow> price_table" where
  "with_overrides t added = \<lparr>pt_prices = pt_prices t, pt_overrides = dict_merge (pt_overrides t) added\<rparr>"

datatype cost_policy = PreferProvider | ComputedOnly | ProviderOnly

text \<open>\<open>Decimal.quantize(Decimal("0.00000001"), ROUND_HALF_EVEN)\<close>.\<close>

definition quantize :: "rat \<Rightarrow> rat" where
  "quantize q = of_int (round_half_even (q * 100000000)) / 100000000"

definition compute_cost :: "string \<Rightarrow> usage \<Rightarrow> (string \<Rightarrow> model_price option) \<Rightarrow> cost option" where
  "compute_cost model u resolver =
     (case resolver model of
        None \<Rightarrow> None
      | Some p \<Rightarrow>
          let standard_write = u_cache_write u - u_cache_write_1h u;
              long_write_rate = (case mp_cache_write_1h p of Some r \<Rightarrow> r | None \<Rightarrow> mp_cache_write p);
              input_amount = of_int (u_input u) * mp_input p / 1000000;
              output_amount = of_int (u_output u) * mp_output p / 1000000;
              cache_read_amount = of_int (u_cache_read u) * mp_cache_read p / 1000000;
              cache_write_amount =
                (of_int standard_write * mp_cache_write p + of_int (u_cache_write_1h u) * long_write_rate) / 1000000
          in Some \<lparr>c_amount = quantize (input_amount + output_amount + cache_read_amount + cache_write_amount),
               c_currency = mp_currency p, c_model = model, c_source = Computed,
               c_input_amount = Some (quantize input_amount), c_output_amount = Some (quantize output_amount),
               c_cache_read_amount = Some (quantize cache_read_amount),
               c_cache_write_amount = Some (quantize cache_write_amount)\<rparr>)"

definition resolve_cost ::
    "string \<Rightarrow> usage \<Rightarrow> (string \<Rightarrow> model_price option) option \<Rightarrow> cost option \<Rightarrow> cost_policy \<Rightarrow> bool \<Rightarrow> cost option" where
  "resolve_cost model u resolver reported policy usage_reported =
     (let computed = (if \<not> usage_reported then None
                      else case resolver of Some r \<Rightarrow> compute_cost model u r | None \<Rightarrow> None)
      in if policy = ComputedOnly then computed
         else case reported of
                Some c \<Rightarrow> Some (c\<lparr>c_source := Provider\<rparr>)
              | None \<Rightarrow> if policy = ProviderOnly then None else computed)"

section \<open>Streams\<close>

datatype stream_event =
    TextDelta string
  | ReasoningDelta string
  | ToolCallDelta int "string option" "string option" string
  | StreamDone usage bool "cost option" string

record assembled_call =
  ac_index :: int
  ac_id :: "string option"
  ac_name :: "string option"
  ac_arguments_json :: string

record stream_state =
  st_text_parts :: "string list"
  st_calls :: "(int, assembled_call) dict"
  st_usage :: usage
  st_usage_reported :: bool
  st_reported_cost :: "cost option"
  st_finish_reason :: string
  st_done :: bool

definition stream_start :: stream_state where
  "stream_start = \<lparr>st_text_parts = [], st_calls = [], st_usage = usage_zero, st_usage_reported = False,
     st_reported_cost = None, st_finish_reason = [], st_done = False\<rparr>"

definition add_fragment :: "int \<Rightarrow> string option \<Rightarrow> string option \<Rightarrow> string \<Rightarrow> (int, assembled_call) dict \<Rightarrow> (int, assembled_call) dict" where
  "add_fragment i cid name fragment calls =
     (let call = (case dict_get calls i of
                    Some c \<Rightarrow> c | None \<Rightarrow> \<lparr>ac_index = i, ac_id = None, ac_name = None, ac_arguments_json = []\<rparr>)
      in dict_put i (call\<lparr>ac_id := (if cid \<noteq> None then cid else ac_id call), ac_name := (if name \<noteq> None then name else ac_name call),
           ac_arguments_json := ac_arguments_json call @ fragment\<rparr>) calls)"

fun stream_step :: "stream_event \<Rightarrow> stream_state \<Rightarrow> stream_state" where
  "stream_step (TextDelta t) s = s\<lparr>st_text_parts := st_text_parts s @ [t]\<rparr>"
| "stream_step (ReasoningDelta _) s = s"
| "stream_step (ToolCallDelta i cid name fragment) s = s\<lparr>st_calls := add_fragment i cid name fragment (st_calls s)\<rparr>"
| "stream_step (StreamDone u reported c reason) s =
     s\<lparr>st_usage := u, st_usage_reported := reported, st_reported_cost := c, st_finish_reason := reason, st_done := True\<rparr>"

record model_answer =
  ma_text :: string
  ma_calls :: "assembled_call list"
  ma_usage :: usage
  ma_usage_reported :: bool
  ma_reported_cost :: "cost option"
  ma_finish_reason :: string

text \<open>The end of \<open>_stream\<close>; None is the \<open>TransientError\<close> of a stream without its completion event.\<close>

definition answer_of_stream :: "stream_event list \<Rightarrow> model_answer option" where
  "answer_of_stream events =
     (let s = fold stream_step events stream_start in
      if \<not> st_done s then None
      else Some \<lparr>ma_text = concat (st_text_parts s), ma_calls = map snd (sort_key fst (st_calls s)), ma_usage = st_usage s,
             ma_usage_reported = st_usage_reported s, ma_reported_cost = st_reported_cost s,
             ma_finish_reason = (if st_finish_reason s = [] then ''stop'' else st_finish_reason s)\<rparr>)"

section \<open>Costs are accounted for\<close>

lemma round_half_even_near: "\<bar>of_int (round_half_even q) - q\<bar> \<le> 1/2"
proof -
  have "of_int \<lfloor>q\<rfloor> \<le> q" "q < of_int \<lfloor>q\<rfloor> + 1" by linarith+
  then show ?thesis by (auto simp: round_half_even_def Let_def abs_le_iff)
qed

lemma round_half_even_nonneg: "0 \<le> q \<Longrightarrow> 0 \<le> round_half_even q"
  by (auto simp: round_half_even_def Let_def)

lemma quantize_near: "\<bar>quantize q - q\<bar> \<le> 1/200000000"
proof -
  have "\<bar>of_int (round_half_even (q * 100000000)) - q * 100000000\<bar> \<le> 1/2" by (rule round_half_even_near)
  then show ?thesis by (auto simp: quantize_def abs_le_iff field_simps)
qed

lemma quantize_nonneg: "0 \<le> q \<Longrightarrow> 0 \<le> quantize q"
  by (simp add: quantize_def round_half_even_nonneg)

definition part :: "rat option \<Rightarrow> rat" where
  "part x = (case x of Some q \<Rightarrow> q | None \<Rightarrow> 0)"


definition s_price :: model_price where
  "s_price = \<lparr>mp_input = 3, mp_output = 15, mp_cache_read = 3/10, mp_cache_write = 15/4, mp_cache_write_1h = Some 6, mp_currency = ''USD''\<rparr>"


section \<open>Streams are put together\<close>

definition texts :: "stream_event list \<Rightarrow> string list" where
  "texts events = concat (map (\<lambda>e. case e of TextDelta t \<Rightarrow> [t] | _ \<Rightarrow> []) events)"

definition deltas :: "int \<Rightarrow> stream_event list \<Rightarrow> (string option \<times> string option \<times> string) list" where
  "deltas i events = concat (map (\<lambda>e. case e of ToolCallDelta j cid name t \<Rightarrow> if j = i then [(cid, name, t)] else [] | _ \<Rightarrow> []) events)"

definition last_given :: "'x option list \<Rightarrow> 'x option" where
  "last_given xs = fold (\<lambda>x y. if x \<noteq> None then x else y) xs None"

text \<open>The call of one index, from its own deltas.\<close>

definition call_from :: "int \<Rightarrow> (string option \<times> string option \<times> string) list \<Rightarrow> assembled_call option" where
  "call_from i ds =
     (if ds = [] then None
      else Some \<lparr>ac_index = i, ac_id = last_given (map fst ds), ac_name = last_given (map (fst \<circ> snd) ds),
             ac_arguments_json = concat (map (snd \<circ> snd) ds)\<rparr>)"

lemma last_given_snoc: "last_given (xs @ [x]) = (if x \<noteq> None then x else last_given xs)"
  by (simp add: last_given_def)

lemma deltas_snoc [simp]: "deltas i (events @ [e]) = deltas i events @ deltas i [e]"
  by (simp add: deltas_def)

lemma deltas_one [simp]:
  "deltas i [ToolCallDelta j cid name t] = (if j = i then [(cid, name, t)] else [])"
  "deltas i [TextDelta x] = []" "deltas i [ReasoningDelta x] = []" "deltas i [StreamDone u b c r] = []"
  by (simp_all add: deltas_def)

lemma call_from_snoc:
  "call_from i (ds @ [(cid, name, t)]) =
     (let call = (case call_from i ds of
                    Some c \<Rightarrow> c | None \<Rightarrow> \<lparr>ac_index = i, ac_id = None, ac_name = None, ac_arguments_json = []\<rparr>)
      in Some (call\<lparr>ac_id := (if cid \<noteq> None then cid else ac_id call), ac_name := (if name \<noteq> None then name else ac_name call),
           ac_arguments_json := ac_arguments_json call @ t\<rparr>))"
  by (cases "ds = []") (simp_all add: call_from_def last_given_snoc last_given_def)

lemma stream_calls: "dict_get (st_calls (fold stream_step events stream_start)) i = call_from i (deltas i events)"
proof (induction events rule: rev_induct)
  case Nil
  then show ?case by (simp add: stream_start_def deltas_def call_from_def)
next
  case (snoc e events)
  show ?case
  proof (cases e)
    case (ToolCallDelta j cid name t)
    then show ?thesis using snoc.IH by (cases "j = i") (simp_all add: add_fragment_def call_from_snoc Let_def)
  qed (use snoc.IH in simp_all)
qed

lemma stream_dict: "dict_wf (st_calls (fold stream_step events stream_start))"
proof (induction events rule: rev_induct)
  case (snoc e events)
  then show ?case by (cases e) (simp_all add: add_fragment_def Let_def)
qed (simp add: stream_start_def dict_wf_def)

lemma stream_texts: "st_text_parts (fold stream_step events stream_start) = texts events"
proof (induction events rule: rev_induct)
  case (snoc e events)
  then show ?case by (cases e) (simp_all add: texts_def)
qed (simp add: stream_start_def texts_def)

lemma assembled_index: "dict_get (st_calls (fold stream_step events stream_start)) i = Some c \<Longrightarrow> ac_index c = i"
  by (auto simp: stream_calls call_from_def split: if_splits)

text \<open>C29. A stream is put together call by call: the text is the concatenation of its text fragments; the calls stand in
  the order of their indexes, one for each index a delta named; and each call has the last id and name given for
  it and the concatenation of its own argument fragments, however the fragments of other calls lie between them.\<close>

theorem stream_is_put_together:
  assumes "answer_of_stream events = Some a"
  shows "ma_text a = concat (texts events) \<and> sorted_wrt (<) (map ac_index (ma_calls a)) \<and>
    (\<forall>i. (\<exists>c. c \<in> set (ma_calls a) \<and> ac_index c = i) = (deltas i events \<noteq> [])) \<and>
    list_all (\<lambda>c. Some c = call_from (ac_index c) (deltas (ac_index c) events)) (ma_calls a)"
proof -
  let ?d = "st_calls (fold stream_step events stream_start)"
  let ?kvs = "sort_key fst ?d"
  have a: "ma_text a = concat (texts events)" "ma_calls a = map snd ?kvs"
    using assms by (auto simp: answer_of_stream_def Let_def stream_texts split: if_splits)
  have mem: "(i, c) \<in> set ?kvs \<longleftrightarrow> call_from i (deltas i events) = Some c" for i c
    using stream_dict[of events] stream_calls[of events i] map_of_eq_Some_iff[of ?d i c] by (simp add: dict_wf_def)
  have idx: "ac_index c = i" if "(i, c) \<in> set ?kvs" for i c
    using that mem assembled_index stream_calls by metis
  have keys: "map ac_index (ma_calls a) = map fst ?kvs" unfolding a using idx by (auto intro!: map_cong)
  have "sorted (map fst ?kvs)" "distinct (map fst ?kvs)"
    using stream_dict[of events] by (simp_all add: dict_wf_def distinct_map)
  then have "sorted_wrt (<) (map ac_index (ma_calls a))" unfolding keys by (simp add: strict_sorted_iff)
  moreover have "(\<exists>c. c \<in> set (ma_calls a) \<and> ac_index c = i) = (deltas i events \<noteq> [])" for i
  proof -
    have "(\<exists>c. c \<in> set (ma_calls a) \<and> ac_index c = i) \<longleftrightarrow> (\<exists>c. (i, c) \<in> set ?kvs)" unfolding a using idx by fastforce
    then show ?thesis unfolding mem by (auto simp: call_from_def)
  qed
  moreover have "list_all (\<lambda>c. Some c = call_from (ac_index c) (deltas (ac_index c) events)) (ma_calls a)"
    unfolding a list_all_iff using idx mem by fastforce
  ultimately show ?thesis using a by blast
qed

theorem stream_is_put_together_witness:
  "\<exists>a. answer_of_stream [ToolCallDelta 1 (Some ''b'') (Some ''t'') ''{'', ToolCallDelta 0 (Some ''a'') (Some ''u'') [], TextDelta ''hi'',
      ToolCallDelta 1 None None ''}'', StreamDone usage_zero True None []] = Some a \<and>
     ma_text a = ''hi'' \<and> sorted_wrt (<) (map ac_index (ma_calls a))"
proof -
  let ?es = "[ToolCallDelta 1 (Some ''b'') (Some ''t'') ''{'', ToolCallDelta 0 (Some ''a'') (Some ''u'') [], TextDelta ''hi'',
      ToolCallDelta 1 None None ''}'', StreamDone usage_zero True None []]"
  obtain a where a: "answer_of_stream ?es = Some a" by (simp add: answer_of_stream_def Let_def stream_start_def)
  from stream_is_put_together[OF this] a show ?thesis by (auto simp: texts_def)
qed

end
