(* ===== verification/Access.thy ===== *)
theory Access
  imports StepSpecs View
begin

text \<open>
  Who may call what: the narrowing planes (\<open>psych_runtime/tools/narrowing.py\<close>), the approval selectors
  (\<open>psych_runtime/tools/policy.py\<close>), the names MCP tools get (\<open>psych_runtime/core/tool_names.py\<close>), the agent
  half of \<open>core/spec.py\<close> as far as the loop reads it, and what a subagent may be given
  (\<open>psych_runtime/runtime/subagent.py\<close>).

  Shown: narrowing never widens and keeps the server's order; a composed subagent holds no tool its parent
  does not; a name made for an MCP tool is one a provider accepts.
\<close>

section \<open>Narrowing\<close>

definition matches_pattern :: "string \<Rightarrow> string \<Rightarrow> bool" where
  "matches_pattern name pattern =
     (if pattern = ''*'' then True
      else if pattern \<noteq> [] \<and> last pattern = CHR ''*'' then py_startswith name (butlast pattern)
      else name = pattern)"

definition select_names :: "string list \<Rightarrow> string list \<Rightarrow> string list" where
  "select_names available patterns = filter (\<lambda>name. list_ex (matches_pattern name) patterns) available"

definition tenant_permitted :: "string list \<Rightarrow> string list \<Rightarrow> string list" where
  "tenant_permitted server_offers tenant_allows =
     (if tenant_allows = [] then server_offers else select_names server_offers tenant_allows)"

definition narrow :: "string list \<Rightarrow> string list \<Rightarrow> string list \<Rightarrow> string list option \<Rightarrow> string list" where
  "narrow server_offers tenant_allows spec_grants callable_now =
     (let permitted = tenant_permitted server_offers tenant_allows;
          granted = (if spec_grants = [] then permitted else select_names permitted spec_grants)
      in case callable_now of None \<Rightarrow> granted | Some live \<Rightarrow> filter (\<lambda>name. name \<in> set live) granted)"

section \<open>Approval\<close>

record tool_definition =
  td_name :: string
  td_description :: string
  td_input_schema :: obj
  td_annotations :: "string list"

datatype tool_class = ReadOnlyTool | WriteTool | DestructiveTool

fun class_str :: "tool_class \<Rightarrow> string" where
  "class_str ReadOnlyTool = ''read-only''" | "class_str WriteTool = ''write''" | "class_str DestructiveTool = ''destructive''"

definition classify :: "tool_definition \<Rightarrow> tool_class" where
  "classify d =
     (let annotations = map py_lower (td_annotations d) in
      if ''destructive'' \<in> set annotations then DestructiveTool
      else if ''write'' \<in> set annotations then WriteTool
      else if ''read-only'' \<in> set annotations then ReadOnlyTool
      else WriteTool)"

definition approval_required :: "tool_definition \<Rightarrow> string list \<Rightarrow> string list \<Rightarrow> string list \<Rightarrow> bool" where
  "approval_required d selectors always never =
     (if td_name d \<in> set never then False
      else if td_name d \<in> set always then True
      else list_ex (\<lambda>s. py_lower (dropWhile (\<lambda>c. c = CHR ''@'') s) = class_str (classify d)) selectors)"

section \<open>Names of MCP tools\<close>

definition tool_char :: "char \<Rightarrow> bool" where
  "tool_char c \<longleftrightarrow> (CHR ''A'' \<le> c \<and> c \<le> CHR ''Z'') \<or> (CHR ''a'' \<le> c \<and> c \<le> CHR ''z'') \<or>
     (CHR ''0'' \<le> c \<and> c \<le> CHR ''9'') \<or> c = CHR ''_'' \<or> c = CHR ''-''"

definition safe_name :: "string \<Rightarrow> string" where
  "safe_name s = map (\<lambda>c. if tool_char c then c else CHR ''_'') s"

definition mcp_tool_name :: "string \<Rightarrow> string \<Rightarrow> string" where
  "mcp_tool_name server tool =
     (let original = server @ ''__'' @ tool; safe = safe_name original in
      if safe = original \<and> length safe \<le> 64 then safe
      else let digest = take 10 (sha256_hex (utf8 original)) in take (64 - length digest - 1) safe @ ''_'' @ digest)"

text \<open>\<open>owners\<close> are tried longest first; of equally long ones in their order.\<close>

definition qualified_owner :: "string \<Rightarrow> string list \<Rightarrow> string option" where
  "qualified_owner name owners =
     find (\<lambda>owner. let prefix = safe_name (owner @ ''__'') in
             py_startswith name prefix \<or> (length name = 64 \<and> py_startswith name (take (64 - 10 - 1) prefix)))
          (sort_key (\<lambda>o1. - int (length o1)) owners)"

section \<open>The agent Spec\<close>

text \<open>
  Of the Specs of MCP servers, A2A peers and code execution the record keeps what the loop and the
  composition of subagents look at: names, and whether programs are enabled. \<open>'s\<close> is the Spec of a subagent.
\<close>

record model_ref =
  mr_model :: string
  mr_temperature :: "rat option"
  mr_top_p :: "rat option"
  mr_max_output_tokens :: "int option"
  mr_reasoning_effort :: "string option"
  mr_fallbacks :: "string list"

record agent_tool =
  to_name :: string
  to_http :: bool
  to_interruptible :: bool

record skill =
  sk_name :: string
  sk_description :: string
  sk_body :: string

record spawn_envelope =
  se_tools :: "string list"
  se_models :: "string list"
  se_max_depth :: int
  se_max_alive :: int
  se_may_message :: bool

record compaction_policy =
  cp_trigger_tokens :: int
  cp_keep_recent_turns :: nat
  cp_model :: "string option"
  cp_max_summary_tokens :: int
  cp_summary_instructions :: "string option"

record 's subagent_ref =
  sa_name :: string
  sa_description :: string
  sa_spec :: 's

record 's agent_spec =
  ag_name :: string
  ag_description :: string
  ag_instructions :: string
  ag_model :: model_ref
  ag_tools :: "agent_tool list"
  ag_mcp_servers :: "string list"
  ag_a2a_peers :: "string list"
  ag_skills :: "skill list"
  ag_subagents :: "'s subagent_ref list"
  ag_spawn :: "spawn_envelope option"
  ag_compaction :: "compaction_policy option"
  ag_code_execution :: bool
  ag_limits :: limits
  ag_suspension :: suspension_policy
  ag_tasks_enabled :: bool
  ag_components_enabled :: bool
  ag_answer_style :: "string option"

section \<open>Subagents\<close>

text \<open>\<open>AccessDenied\<close>: what was asked for, and why not.\<close>

type_synonym denied = "string \<times> string"

definition denied_text :: "denied \<Rightarrow> string" where
  "denied_text d = ''access to '' @ fst d @ '' denied: '' @ snd d"

definition resolve_child_depth :: "int \<Rightarrow> int option \<Rightarrow> int" where
  "resolve_child_depth parent_depth requested =
     (case requested of None \<Rightarrow> parent_depth + 1 | Some d \<Rightarrow> max (parent_depth + 1) d)"

definition check_depth :: "int \<Rightarrow> int \<Rightarrow> denied + unit" where
  "check_depth child_depth max_depth =
     (if child_depth > max_depth then Inl (''delegation'',
        ''this would be delegation depth '' @ int_str child_depth @ '' and the limit is '' @ int_str max_depth @
        ''. Do the work yourself rather than delegating further, or tell the user the task is nested more deeply than this agent allows.'')
      else Inr ())"

definition check_fanout :: "int \<Rightarrow> int \<Rightarrow> denied + unit" where
  "check_fanout already_spawned max_fanout =
     (if already_spawned \<ge> max_fanout then Inl (''delegation'',
        ''this turn has already delegated '' @ int_str already_spawned @ '' times and the limit is '' @ int_str max_fanout @
        ''. Wait for the results you already asked for before delegating again.'')
      else Inr ())"

definition check_alive :: "int \<Rightarrow> int \<Rightarrow> denied + unit" where
  "check_alive alive max_alive =
     (if alive \<ge> max_alive then Inl (''spawning a subagent'',
        int_str alive @ '' of your subagents are still running and the limit is '' @ int_str max_alive @
        ''. Wait for one to finish, or use `check_subagent` to see where they are, before starting another.'')
      else Inr ())"

definition names_or_none :: "string list \<Rightarrow> string" where
  "names_or_none names = (let l = join '', '' names in if l = [] then ''none'' else l)"

definition find_subagent :: "'s agent_spec \<Rightarrow> string \<Rightarrow> denied + 's subagent_ref" where
  "find_subagent spec name =
     (case find (\<lambda>r. sa_name r = name) (ag_subagents spec) of
        Some r \<Rightarrow> Inr r
      | None \<Rightarrow> Inl (''subagent '' @ repr_str name,
          ''this agent has no subagent by that name. Available: '' @ names_or_none (map sa_name (ag_subagents spec)) @ ''.''))"

definition child_tool_names :: "string list \<Rightarrow> 's agent_spec \<Rightarrow> string list" where
  "child_tool_names parent_tools child = narrow parent_tools [] (map to_name (ag_tools child)) None"

definition child_input :: "string \<Rightarrow> obj \<Rightarrow> obj" where
  "child_input task parent_input =
     (''message'', JStr task) # (if parent_input \<noteq> [] then [(''parent_input'', JObj parent_input)] else [])"

definition find_child :: "run_state_view \<Rightarrow> string \<Rightarrow> denied + child_run" where
  "find_child st name =
     (let named = filter (\<lambda>c. cr_name c = name) (map snd (v_children st)); live = filter child_alive named in
      if live \<noteq> [] then Inr (last live)
      else if named \<noteq> [] then Inr (last named)
      else Inl (''subagent '' @ repr_str name,
        ''you have not started a subagent by that name. Started so far: '' @
        names_or_none (map (\<lambda>kv. cr_name (snd kv)) (v_children st)) @ ''.''))"

definition envelope_tools :: "spawn_envelope \<Rightarrow> string list \<Rightarrow> string list" where
  "envelope_tools e parent_tools = narrow parent_tools [] (se_tools e) None"

definition envelope_models :: "spawn_envelope \<Rightarrow> string \<Rightarrow> string list" where
  "envelope_models e parent_model = (if se_models e = [] then [parent_model] else se_models e)"

definition composed_tool_names :: "spawn_envelope \<Rightarrow> string list \<Rightarrow> string list \<Rightarrow> string list" where
  "composed_tool_names e parent_tools asked =
     (let ceiling = envelope_tools e parent_tools in if asked = [] then ceiling else narrow ceiling [] asked None)"

record spawn_request =
  rq_name :: string
  rq_purpose :: string
  rq_task :: string
  rq_deliverable :: string
  rq_tools :: "string list"
  rq_model :: "string option"

definition valid_spawn_request :: "spawn_request \<Rightarrow> bool" where
  "valid_spawn_request r \<longleftrightarrow> name_ok (rq_name r) \<and>
     20 \<le> length (rq_purpose r) \<and> length (rq_purpose r) \<le> 2048 \<and>
     40 \<le> length (rq_task r) \<and> length (rq_task r) \<le> 65536 \<and>
     15 \<le> length (rq_deliverable r) \<and> length (rq_deliverable r) \<le> 4096"

definition child_instructions :: "spawn_request \<Rightarrow> string" where
  "child_instructions r = join [CHR 0x0A, CHR 0x0A]
     [''You are a subagent. Your job: '' @ rq_purpose r,
      ''You were started by another agent to do one piece of work. You cannot see the conversation you came from, and you '' @
      ''cannot ask the person who started it anything: everything you need is in the message you were given. If something '' @
      ''essential is missing, say exactly what is missing and stop rather than guessing.'',
      ''What to return: '' @ rq_deliverable r,
      ''Your answer is read by the agent that started you, not by a person. Give it the result and what it needs to trust '' @
      ''the result. Skip the pleasantries.'']"

record 's composed_child =
  cc_spec :: "'s agent_spec"
  cc_tools :: "string list"
  cc_model :: string

definition compose_child_spec :: "'s agent_spec \<Rightarrow> spawn_request \<Rightarrow> string list \<Rightarrow> denied + 's composed_child" where
  "compose_child_spec parent r parent_tools =
     (case ag_spawn parent of
        None \<Rightarrow> Inl (''spawning a subagent'',
          ''this agent may not compose subagents. It can only delegate to the ones it was published with, if it has any.'')
      | Some e \<Rightarrow>
          let model = (case rq_model r of Some m \<Rightarrow> if m = [] then mr_model (ag_model parent) else m | None \<Rightarrow> mr_model (ag_model parent));
              permitted = envelope_models e (mr_model (ag_model parent))
          in if model \<notin> set permitted then Inl (''model '' @ repr_str model,
               ''a subagent of this agent may run on: '' @ join '', '' permitted @ ''.'')
             else
               let granted = composed_tool_names e parent_tools (rq_tools r);
                   by_name = dict_of to_name (ag_tools parent);
                   tools = List.map_filter (dict_get by_name) granted
               in Inr \<lparr>cc_spec =
                    \<lparr>ag_name = rq_name r, ag_description = normalise_text (rq_purpose r),
                     ag_instructions = normalise_text (child_instructions r),
                     ag_model = (ag_model parent)\<lparr>mr_model := model, mr_fallbacks := []\<rparr>,
                     ag_tools = sort_key to_name tools, ag_mcp_servers = [], ag_a2a_peers = [], ag_skills = [], ag_subagents = [],
                     ag_spawn = None, ag_compaction = None, ag_code_execution = False, ag_limits = ag_limits parent,
                     ag_suspension = default_suspension
                       \<lparr>sp_approval_expires_seconds := sp_approval_expires_seconds (ag_suspension parent),
                        sp_question_expires_seconds := sp_question_expires_seconds (ag_suspension parent),
                        sp_external_expires_seconds := sp_external_expires_seconds (ag_suspension parent),
                        sp_may_ask_questions := False\<rparr>,
                     ag_tasks_enabled = False, ag_components_enabled = False, ag_answer_style = ag_answer_style parent\<rparr>,
                    cc_tools = map to_name tools, cc_model = model\<rparr>)"

section \<open>Narrowing never widens\<close>

lemma select_subset: "set (select_names available patterns) \<subseteq> set available"
  by (auto simp: select_names_def)

lemma narrow_from: "set (narrow offers tenant grants live) \<subseteq> set offers"
  by (auto simp: narrow_def Let_def tenant_permitted_def select_names_def split: option.splits if_splits)

text \<open>Narrowing only takes away: what \<open>narrow\<close> returns is a subsequence of what the server offers, in the server's
  order, and every name of it is permitted by the tenant's patterns, granted by the Spec's patterns and live;
  a plane with no patterns permits everything, and an empty list of live names permits nothing.\<close>

theorem narrowing_only_takes_away:
  "subseq (narrow offers tenant grants live) offers \<and>
   (\<forall>name. name \<in> set (narrow offers tenant grants live) \<longleftrightarrow>
      name \<in> set offers \<and> (tenant = [] \<or> list_ex (matches_pattern name) tenant) \<and>
      (grants = [] \<or> list_ex (matches_pattern name) grants) \<and> (case live of None \<Rightarrow> True | Some l \<Rightarrow> name \<in> set l))"
proof
  have f: "subseq (filter P xs) ys" if "subseq xs ys" for P and xs ys :: "string list"
    using subseq_filter_left[of P xs] that subseq_order.order_trans by blast
  have "subseq (tenant_permitted offers tenant) offers"
    by (simp add: tenant_permitted_def select_names_def subseq_filter_left)
  then show "subseq (narrow offers tenant grants live) offers"
    by (auto simp: narrow_def Let_def select_names_def f split: option.splits)
qed (auto simp: narrow_def Let_def tenant_permitted_def select_names_def split: option.splits)

theorem narrowing_only_takes_away_witness:
  "set (narrow [''read_a'', ''write_b'', ''read_c''] [''read_*''] [] (Some [''read_c''])) \<subseteq> {''read_a'', ''write_b'', ''read_c''}"
  using narrowing_only_takes_away[of "[''read_a'', ''write_b'', ''read_c'']" "[''read_*'']" "[]" "Some [''read_c'']"] by auto


definition s_agent :: "unit agent_spec" where
  "s_agent = \<lparr>ag_name = ''a'', ag_description = [], ag_instructions = [],
     ag_model = \<lparr>mr_model = ''m'', mr_temperature = None, mr_top_p = None, mr_max_output_tokens = None,
       mr_reasoning_effort = None, mr_fallbacks = []\<rparr>,
     ag_tools = [\<lparr>to_name = ''read'', to_http = False, to_interruptible = True\<rparr>,
                 \<lparr>to_name = ''refund'', to_http = False, to_interruptible = False\<rparr>],
     ag_mcp_servers = [], ag_a2a_peers = [], ag_skills = [], ag_subagents = [],
     ag_spawn = Some \<lparr>se_tools = [''re*''], se_models = [], se_max_depth = 2, se_max_alive = 3, se_may_message = True\<rparr>,
     ag_compaction = None, ag_code_execution = False, ag_limits = default_limits, ag_suspension = default_suspension,
     ag_tasks_enabled = False, ag_components_enabled = False, ag_answer_style = None\<rparr>"


lemma tool_char_hex: "n < 16 \<Longrightarrow> tool_char (hex_digit n)"
proof -
  have "list_all (\<lambda>k. tool_char (hex_digit k)) [0..<16]" by code_simp
  then show "n < 16 \<Longrightarrow> tool_char (hex_digit n)" by (simp add: list_all_iff)
qed

lemma unat_and_15: "unat (w AND 15 :: 32 word) < 16"
proof -
  have "w AND 15 = take_bit 4 w" by (simp add: take_bit_eq_mask mask_eq_exp_minus_1)
  moreover have "take_bit 4 (unat w) < 2 ^ 4" by (rule take_bit_nat_less_exp)
  ultimately show ?thesis by (simp add: unsigned_take_bit_eq)
qed

lemma tool_char_sha: "list_all tool_char (sha256_hex bs)"
  by (auto simp: sha256_hex_def hex_word_def list_all_iff unat_and_15 intro!: tool_char_hex)

lemma tool_char_safe: "list_all tool_char (safe_name s)"
proof -
  have "tool_char (CHR ''_'')" by (simp add: tool_char_def)
  then show ?thesis by (auto simp: safe_name_def list_all_iff)
qed

text \<open>A name made for an MCP tool is one every provider accepts: at most 64 characters, each a letter, a digit, an
  underscore or a dash.\<close>

theorem mcp_names_are_accepted:
  "length (mcp_tool_name server tool) \<le> 64 \<and> list_all tool_char (mcp_tool_name server tool)"
proof -
  let ?safe = "safe_name (server @ ''__'' @ tool)" and ?digest = "take 10 (sha256_hex (utf8 (server @ ''__'' @ tool)))"
  have "list_all tool_char ?digest" using tool_char_sha by (auto simp: list_all_iff dest: in_set_takeD)
  moreover have "list_all tool_char (take n ?safe)" for n using tool_char_safe by (auto simp: list_all_iff dest: in_set_takeD)
  moreover have "tool_char (CHR ''_'')" by (simp add: tool_char_def)
  moreover have "length ?digest \<le> 10" by simp
  ultimately show ?thesis using tool_char_safe[of "server @ ''__'' @ tool"] by (auto simp: mcp_tool_name_def Let_def)
qed

end
