(* ===== verification/Prompt.thy ===== *)
theory Prompt
  imports Access Conversation
begin

text \<open>
  The prompt of a turn (\<open>psych_runtime/model/prompt.py\<close>): one system message in a fixed order of sections,
  then the conversation. And the request that summarises a conversation
  (\<open>summarisation_request\<close> in \<open>runtime/compaction.py\<close>).

  Shown: what comes from the pinned Version is a prefix of every turn's system message, whatever is
  remembered and advised, so that a provider's cache can match it.
\<close>

record prompt_sections =
  ps_instructions :: string
  ps_skills_index :: string
  ps_memories :: string
  ps_advisories :: string
  ps_answer_style :: string

definition gap :: string where
  "gap = [CHR 0x0A, CHR 0x0A]"

definition newline :: string where
  "newline = [CHR 0x0A]"

definition present :: "string list \<Rightarrow> string list" where
  "present sections = filter (\<lambda>s. py_strip s \<noteq> []) sections"

definition render_sections :: "prompt_sections \<Rightarrow> string" where
  "render_sections p = join gap (present
     [ps_instructions p, ps_answer_style p, ps_skills_index p, ps_memories p, ps_advisories p])"

definition stable_prefix :: "prompt_sections \<Rightarrow> string" where
  "stable_prefix p = join gap (present [ps_instructions p, ps_answer_style p, ps_skills_index p])"

definition skills_index :: "skill list \<Rightarrow> string" where
  "skills_index skills =
     (if skills = [] then []
      else join newline
        ([''## Skills'', [],
          ''Instruction packs you can load when you need them. Call `load_skill` with a name to read one. Load a skill before '' @
          ''doing work it covers rather than guessing at its content.'', []] @
         map (\<lambda>k. ''- `'' @ sk_name k @ ''`: '' @ sk_description k) skills))"

definition memories_block :: "string list \<Rightarrow> string" where
  "memories_block memories =
     (if memories = [] then []
      else join newline ([''## What you remember about this user'', []] @ map (\<lambda>m. ''- '' @ m) memories))"

definition answer_style_block :: "string option \<Rightarrow> string" where
  "answer_style_block style =
     (if style \<noteq> Some ''concise'' then []
      else join newline
        [''## Answering'', [],
         ''Lead with the answer. Keep it short: give the conclusion and the facts that support it, not a description of how you found them.'',
         ''Use bullet points or a small table when you are presenting more than two or three facts, and plain sentences when you are not.'',
         ''Do not recap the steps you took or the tools you called. Someone reading this can already see them.''])"

definition advisories_block :: "string list \<Rightarrow> string" where
  "advisories_block advisories =
     (if advisories = [] then [] else join newline ([''## Notices'', []] @ map (\<lambda>a. ''- '' @ a) advisories))"

definition system_prompt :: "'s agent_spec \<Rightarrow> string list \<Rightarrow> string list \<Rightarrow> prompt_sections" where
  "system_prompt spec memories advisories =
     (let stripped = py_strip (ag_instructions spec);
          identity = (if py_strip (ag_description spec) \<noteq> [] \<and> stripped = [] then py_strip (ag_description spec) else stripped)
      in \<lparr>ps_instructions = identity, ps_skills_index = skills_index (ag_skills spec), ps_memories = memories_block memories,
          ps_advisories = advisories_block advisories, ps_answer_style = answer_style_block (ag_answer_style spec)\<rparr>)"

definition is_system :: "message \<Rightarrow> bool" where
  "is_system m = (case m of SystemMessage _ \<Rightarrow> True | _ \<Rightarrow> False)"

definition assemble :: "'s agent_spec \<Rightarrow> message list \<Rightarrow> string list \<Rightarrow> string list \<Rightarrow> message list" where
  "assemble spec conversation memories advisories =
     (let body = render_sections (system_prompt spec memories advisories);
          rest = filter (\<lambda>m. \<not> is_system m) conversation
      in if body = [] then rest else SystemMessage body # rest)"

definition cache_breakpoints :: "message list \<Rightarrow> tool_definition list \<Rightarrow> int list" where
  "cache_breakpoints messages tools = (if messages \<noteq> [] \<and> is_system (hd messages) then [0] else [])"

section \<open>Requests\<close>

record model_request =
  rm_model :: string
  rm_messages :: "message list"
  rm_tools :: "tool_definition list"
  rm_temperature :: "rat option"
  rm_top_p :: "rat option"
  rm_max_output_tokens :: "int option"
  rm_reasoning_effort :: "string option"
  rm_cache_breakpoints :: "int list"
  rm_idle_timeout_seconds :: rat

definition summary_system :: string where
  "summary_system =
     ''You are compacting a transcript so that another assistant can carry on '' @
     ''the conversation without it. Write a summary of everything below that '' @
     ''the assistant will still need.''"

definition summary_instruction :: string where
  "summary_instruction =
     ''Summarise the conversation above so it can be replaced by your summary and the conversation can continue.'' @ gap @
     ''Keep: what the user asked for and any constraints they gave, facts established by tool results, decisions taken and why, '' @
     ''what has already been done, and anything still outstanding. Preserve identifiers, names, numbers and quoted text exactly; '' @
     ''they cannot be recovered once the records they came from are out of context.'' @ gap @
     ''Drop: pleasantries, superseded attempts, and detail that changed nothing.'' @ gap @
     ''Write it as notes to the assistant that will read it. Do not address the user, do not answer the conversation, and do not '' @
     ''offer to do anything next.''"

definition extra_instruction :: string where
  "extra_instruction = gap @
     ''This agent has further requirements about what its summary must keep. They add to the rules above and do not replace them: '' @
     ''where they name something to keep, keep it as well.'' @ gap"

text \<open>The defaults of \<open>ModelRequest\<close> for what the code leaves out are no tools, no sampling and no breakpoints.\<close>

definition summarisation_request ::
    "'s agent_spec \<Rightarrow> compaction_policy \<Rightarrow> log_record list \<Rightarrow> int \<Rightarrow> message list \<Rightarrow> model_request" where
  "summarisation_request spec policy records last_seq history =
     (let conversation = history @ build_conversation (filter (\<lambda>r. r_seq r \<le> last_seq) records);
          extra = py_strip (case cp_summary_instructions policy of None \<Rightarrow> [] | Some s \<Rightarrow> s);
          instruction = (if extra = [] then summary_instruction else summary_instruction @ extra_instruction @ extra)
      in \<lparr>rm_model = (case cp_model policy of None \<Rightarrow> mr_model (ag_model spec)
                       | Some m \<Rightarrow> if m = [] then mr_model (ag_model spec) else m),
          rm_messages = SystemMessage summary_system # conversation @ [UserMessage instruction None],
          rm_tools = [], rm_temperature = None, rm_top_p = None, rm_max_output_tokens = Some (cp_max_summary_tokens policy),
          rm_reasoning_effort = None, rm_cache_breakpoints = [],
          rm_idle_timeout_seconds = li_stream_idle_seconds (ag_limits spec)\<rparr>)"

section \<open>The stable prefix\<close>

lemma join_append: "xs \<noteq> [] \<Longrightarrow> join sep (xs @ ys) = join sep xs @ (if ys = [] then [] else sep @ join sep ys)"
  by (induction sep xs rule: join.induct) (auto simp: neq_Nil_conv)

text \<open>The prompt's prefix is stable: on every turn of a Run, whatever is remembered and advised, there is one system
  message at most, at the front, and it starts with the sections that come from the pinned Version; the rest of
  the conversation follows it unchanged.\<close>

theorem prompt_prefix_is_stable:
  "stable_prefix (system_prompt spec memories advisories) = stable_prefix (system_prompt spec [] []) \<and>
   (\<exists>volatile. let body = stable_prefix (system_prompt spec [] []) @ volatile; rest = filter (\<lambda>m. \<not> is_system m) conversation in
      assemble spec conversation memories advisories = (if body = [] then rest else SystemMessage body # rest))"
proof
  let ?p = "system_prompt spec memories advisories"
  show same: "stable_prefix ?p = stable_prefix (system_prompt spec [] [])"
    by (simp add: system_prompt_def stable_prefix_def Let_def)
  let ?kept = "present [ps_instructions ?p, ps_answer_style ?p, ps_skills_index ?p]" and ?late = "present [ps_memories ?p, ps_advisories ?p]"
  have split: "render_sections ?p = join gap (?kept @ ?late)" by (simp add: render_sections_def present_def)
  obtain volatile where v: "render_sections ?p = stable_prefix ?p @ volatile"
    by (cases "?kept = []") (auto simp: split stable_prefix_def join_append)
  show "\<exists>volatile. let body = stable_prefix (system_prompt spec [] []) @ volatile; rest = filter (\<lambda>m. \<not> is_system m) conversation in
      assemble spec conversation memories advisories = (if body = [] then rest else SystemMessage body # rest)"
    by (intro exI[of _ volatile]) (simp add: assemble_def Let_def v same)
qed

end
