(* ===== verification/Results.thy ===== *)
theory Results
  imports PyNum Guidance Records
begin

text \<open>
  What a tool call is given and what becomes of what it returns: the questions and the plan a model asks for
  (\<open>psych_runtime/tools/builtins.py\<close>), the elision and offload of large results
  (\<open>psych_runtime/tools/large_results.py\<close>), the addresses of blobs (\<open>psych_runtime/store/blob.py\<close>), the
  outcome of a \<open>run_code\<close> call (\<open>psych_runtime/tools/code.py\<close>) and its payload as the agent loop finishes it.

  A result is JSON data; a tool that returns raw bytes is not modelled. Shown: whatever a model sends as
  questions or as a plan, what is parsed can be recorded.
\<close>

section \<open>Questions and tasks\<close>

definition str_or_empty :: "json option \<Rightarrow> string" where
  "str_or_empty v = (case v of Some j \<Rightarrow> if truthy j then py_str j else [] | None \<Rightarrow> [])"

text \<open>An entry that is a bare string stands for an object with that one member.\<close>

definition as_entry :: "string \<Rightarrow> json \<Rightarrow> obj option" where
  "as_entry key raw = (case raw of JStr s \<Rightarrow> Some [(key, JStr s)] | JObj kvs \<Rightarrow> Some kvs | _ \<Rightarrow> None)"

definition text_member :: "string \<Rightarrow> obj \<Rightarrow> string option" where
  "text_member key item =
     (case dict_get item key of Some (JStr s) \<Rightarrow> if py_strip s = [] then None else Some (py_strip s) | _ \<Rightarrow> None)"

definition parse_option :: "json \<Rightarrow> question_option option" where
  "parse_option raw =
     (case as_entry ''label'' raw of
        None \<Rightarrow> None
      | Some item \<Rightarrow>
          (case text_member ''label'' item of
             None \<Rightarrow> None
           | Some label \<Rightarrow> Some \<lparr>qo_label = take 80 label,
               qo_description = take 400 (str_or_empty (dict_get item ''description''))\<rparr>))"

definition parse_options :: "json option \<Rightarrow> question_option list" where
  "parse_options raw =
     (case raw of Some (JArr xs) \<Rightarrow> List.map_filter parse_option (take max_options xs) | _ \<Rightarrow> [])"

definition parse_question :: "json \<Rightarrow> asked_question option" where
  "parse_question raw =
     (case as_entry ''question'' raw of
        None \<Rightarrow> None
      | Some item \<Rightarrow>
          (case text_member ''question'' item of
             None \<Rightarrow> None
           | Some text \<Rightarrow> Some \<lparr>aq_question = take 2000 text,
               aq_header = take 24 (str_or_empty (dict_get item ''header'')),
               aq_options = parse_options (dict_get item ''options''),
               aq_multi_select = (case dict_get item ''multi_select'' of Some v \<Rightarrow> truthy v | None \<Rightarrow> False)\<rparr>))"

definition parse_questions :: "obj \<Rightarrow> asked_question list" where
  "parse_questions arguments =
     (case dict_get arguments ''questions'' of
        Some (JStr s) \<Rightarrow> List.map_filter parse_question [JObj [(''question'', JStr s)]]
      | Some (JArr xs) \<Rightarrow> List.map_filter parse_question (take max_questions xs)
      | _ \<Rightarrow> [])"

definition parse_status :: "json option \<Rightarrow> task_status" where
  "parse_status v = (if v = Some (JStr ''in_progress'') then TaskInProgress
     else if v = Some (JStr ''completed'') then TaskCompleted else TaskPending)"

definition parse_task :: "json \<Rightarrow> task option" where
  "parse_task raw =
     (case as_entry ''title'' raw of
        None \<Rightarrow> None
      | Some item \<Rightarrow>
          (case text_member ''title'' item of
             None \<Rightarrow> None
           | Some title \<Rightarrow> Some \<lparr>t_title = take 200 title,
               t_active_form = take 200 (let snake = str_or_empty (dict_get item ''active_form'') in
                 if (case dict_get item ''active_form'' of Some v \<Rightarrow> truthy v | None \<Rightarrow> False) then snake
                 else str_or_empty (dict_get item ''activeForm'')),
               t_description = take 2000 (str_or_empty (dict_get item ''description'')),
               t_status = parse_status (dict_get item ''status'')\<rparr>))"

definition parse_tasks :: "json \<Rightarrow> task list" where
  "parse_tasks raw = (case raw of JArr xs \<Rightarrow> List.map_filter parse_task (take max_tasks xs) | _ \<Rightarrow> [])"

text \<open>The body of \<open>update_tasks\<close>: the record it appends, if any, and what it answers.\<close>

definition update_tasks :: "json \<Rightarrow> body option \<times> string" where
  "update_tasks raw =
     (let parsed = parse_tasks raw in
      if parsed = [] then (None, ''No tasks were recorded: every entry needs a `title`. The plan is unchanged.'')
      else (Some (TaskListUpdated \<lparr>tl_tasks = parsed\<rparr>), ''Plan updated: '' @ task_summary parsed @ ''.''))"

section \<open>Elision and offload\<close>

text \<open>\<open>json.dumps\<close> with the members in the order the object has them.\<close>

fun json_plain :: "string \<Rightarrow> string \<Rightarrow> json \<Rightarrow> string" where
  "json_plain isep ksep JNull = ''null''"
| "json_plain isep ksep (JBool b) = (if b then ''true'' else ''false'')"
| "json_plain isep ksep (JInt i) = int_str i"
| "json_plain isep ksep (JFloat r) = r"
| "json_plain isep ksep (JStr s) = json_quote s"
| "json_plain isep ksep (JArr xs) = ''['' @ join isep (map (json_plain isep ksep) xs) @ '']''"
| "json_plain isep ksep (JObj kvs) =
     ''{'' @ join isep (map (\<lambda>kv. json_quote (fst kv) @ ksep @ json_plain isep ksep (snd kv)) kvs) @ ''}''"

definition preview_chars :: nat where "preview_chars = 2000"

record elision_decision =
  el_elide :: bool
  el_result_bytes :: int
  el_preview :: "string option"
  el_handle :: "string option"

definition rendered_for_elision :: "json \<Rightarrow> string" where
  "rendered_for_elision result = (case result of JStr s \<Rightarrow> s | _ \<Rightarrow> json_plain '','' '':'' result)"

definition force_elision :: "json \<Rightarrow> call_id \<Rightarrow> elision_decision" where
  "force_elision result cid =
     (let rendered = rendered_for_elision result in
      \<lparr>el_elide = True, el_result_bytes = int (length (utf8 rendered)), el_preview = Some (take preview_chars rendered),
       el_handle = Some (''res_'' @ cid)\<rparr>)"

definition decide_elision :: "json \<Rightarrow> call_id \<Rightarrow> int \<Rightarrow> elision_decision" where
  "decide_elision result cid threshold =
     (let rendered = rendered_for_elision result; size = int (length (utf8 rendered)) in
      if size \<le> threshold then \<lparr>el_elide = False, el_result_bytes = size, el_preview = None, el_handle = None\<rparr>
      else \<lparr>el_elide = True, el_result_bytes = size, el_preview = Some (take preview_chars rendered),
            el_handle = Some (''res_'' @ cid)\<rparr>)"

definition content_type_text :: string where "content_type_text = ''text/plain; charset=utf-8''"
definition content_type_json :: string where "content_type_json = ''application/json''"

definition render_result_bytes :: "json \<Rightarrow> byte list \<times> string" where
  "render_result_bytes result =
     (case result of JStr s \<Rightarrow> (utf8 s, content_type_text)
      | _ \<Rightarrow> (utf8 (json_plain '', '' '': '' result), content_type_json))"

record offload_decision =
  of_offload :: bool
  of_payload :: "byte list"
  of_content_type :: string
  of_metadata :: "(string, string) dict"

definition line_count :: "byte list \<Rightarrow> string" where
  "line_count payload = nat_str (length (filter (\<lambda>b. b = 10) payload) + 1)"

definition decide_offload :: "json \<Rightarrow> int \<Rightarrow> offload_decision" where
  "decide_offload result threshold =
     (let (payload, content_type) = render_result_bytes result in
      \<lparr>of_offload = (int (length payload) > threshold), of_payload = payload, of_content_type = content_type,
       of_metadata = (if content_type = content_type_text then [(''line_count'', line_count payload)] else [])\<rparr>)"

section \<open>Blob addresses\<close>

record blob_key =
  bk_tenant :: string
  bk_run_id :: run_id
  bk_call_id :: call_id

text \<open>\<open>_check_key_segment\<close>: a segment that it refuses raises \<open>ValueError\<close>.\<close>

definition key_segment_ok :: "string \<Rightarrow> bool" where
  "key_segment_ok s \<longleftrightarrow> s \<noteq> [] \<and> s \<noteq> ''.'' \<and> s \<noteq> ''..'' \<and>
     CHR ''/'' \<notin> set s \<and> CHR 0x5C \<notin> set s \<and> CHR 0x00 \<notin> set s"

definition segment_refusal :: "string \<Rightarrow> string \<Rightarrow> string" where
  "segment_refusal field value =
     ''BlobKey.'' @ field @ '' is '' @ repr_str value @ '', which cannot address a single '' @
     ''path segment or object key component safely. This must never come '' @
     ''from unvalidated input: tenant is the one field of a BlobKey a '' @
     ''consumer controls, so a Scope with a hostile tenant string is '' @
     ''refused here rather than followed into a filesystem or an S3 key.''"

definition mk_blob_key :: "scope \<Rightarrow> run_id \<Rightarrow> call_id \<Rightarrow> string + blob_key" where
  "mk_blob_key sc rid cid =
     (if \<not> key_segment_ok (sc_tenant sc) then Inl (segment_refusal ''tenant'' (sc_tenant sc))
      else if \<not> key_segment_ok rid then Inl (segment_refusal ''run_id'' rid)
      else if \<not> key_segment_ok cid then Inl (segment_refusal ''call_id'' cid)
      else Inr \<lparr>bk_tenant = sc_tenant sc, bk_run_id = rid, bk_call_id = cid\<rparr>)"

definition blob_key_str :: "blob_key \<Rightarrow> string" where
  "blob_key_str k = bk_tenant k @ ''/'' @ bk_run_id k @ ''/'' @ bk_call_id k"

definition attachment_blob_key :: "scope \<Rightarrow> run_id \<Rightarrow> call_id \<Rightarrow> string \<Rightarrow> string + blob_key" where
  "attachment_blob_key sc rid cid slot = mk_blob_key sc rid (cid @ ''.'' @ slot)"

section \<open>Programs\<close>

datatype output_preservation = WhenAvailable | Required | Never

record pending_attachment =
  pa_slot :: string
  pa_name :: string
  pa_data :: "byte list"
  pa_observed_bytes :: int
  pa_content_type :: string
  pa_must_keep :: bool

record code_outcome =
  co_payload :: obj
  co_attachments :: "pending_attachment list"
  co_preserve :: output_preservation

definition attachment_handle :: "call_id \<Rightarrow> string \<Rightarrow> string" where
  "attachment_handle cid slot = ''out_'' @ cid @ ''_'' @ slot"

definition slot_placeholder :: string where "slot_placeholder = ''__slot__:''"

definition slot_of :: "json \<Rightarrow> string option" where
  "slot_of value = (case value of
     JStr s \<Rightarrow> if py_startswith s slot_placeholder then Some (drop (length slot_placeholder) s) else None | _ \<Rightarrow> None)"

definition handle_for :: "(string, string option) dict \<Rightarrow> string \<Rightarrow> string option" where
  "handle_for handles slot = (case dict_get handles slot of Some h \<Rightarrow> h | None \<Rightarrow> None)"

definition without_suffix :: "string \<Rightarrow> string \<Rightarrow> string" where
  "without_suffix s suffix = (if suffix \<noteq> [] \<and> length suffix \<le> length s \<and> drop (length s - length suffix) s = suffix
     then take (length s - length suffix) s else s)"

definition finish_artifact :: "(string, string option) dict \<Rightarrow> json \<Rightarrow> json" where
  "finish_artifact handles entry =
     (case entry of
        JObj kvs \<Rightarrow>
          (case dict_get kvs ''handle'' of
             Some v \<Rightarrow>
               (case slot_of v of
                  None \<Rightarrow> entry
                | Some slot \<Rightarrow>
                    let rest = dict_del ''handle'' kvs in
                    (case handle_for handles slot of
                       None \<Rightarrow> JObj (dict_put ''omitted'' (JBool True) rest)
                     | Some h \<Rightarrow> JObj (dict_put ''handle'' (JStr h) rest)))
           | None \<Rightarrow> entry)
      | _ \<Rightarrow> entry)"

definition finish_member :: "(string, string option) dict \<Rightarrow> (string, int) dict \<Rightarrow> string \<times> json \<Rightarrow> obj \<Rightarrow> obj" where
  "finish_member handles omitted kv finished =
     (case slot_of (snd kv) of
        Some slot \<Rightarrow>
          (case handle_for handles slot of
             None \<Rightarrow> dict_put (without_suffix (fst kv) ''_handle'' @ ''_omitted_bytes'')
                       (JInt (case dict_get omitted slot of Some n \<Rightarrow> n | None \<Rightarrow> 0)) finished
           | Some h \<Rightarrow> dict_put (fst kv) (JStr h) finished)
      | None \<Rightarrow>
          (case (fst kv = ''artifacts'', snd kv) of
             (True, JArr entries) \<Rightarrow> dict_put (fst kv) (JArr (map (finish_artifact handles) entries)) finished
           | _ \<Rightarrow> dict_put (fst kv) (snd kv) finished))"

definition finish_payload :: "obj \<Rightarrow> (string, string option) dict \<Rightarrow> (string, int) dict \<Rightarrow> obj" where
  "finish_payload payload handles omitted = fold (finish_member handles omitted) payload []"

section \<open>What is parsed can be recorded\<close>

lemma map_filter_all: "(\<And>x y. f x = Some y \<Longrightarrow> P y) \<Longrightarrow> list_all P (List.map_filter f xs)"
  by (auto simp: List.map_filter_def list_all_iff)

lemma map_filter_length: "length (List.map_filter f xs) \<le> length xs"
  by (simp add: List.map_filter_def)

lemma text_member_nonempty: "text_member key item = Some s \<Longrightarrow> s \<noteq> []"
  by (auto simp: text_member_def split: option.splits json.splits if_splits)

lemma parse_option_valid: "parse_option raw = Some q \<Longrightarrow> valid_question_option q"
  by (auto simp: parse_option_def valid_question_option_def Suc_le_eq dest: text_member_nonempty split: option.splits)

lemma parse_options_valid: "list_all valid_question_option (parse_options v) \<and> length (parse_options v) \<le> max_options"
proof (cases "\<exists>xs. v = Some (JArr xs)")
  case True
  then obtain xs where "v = Some (JArr xs)" ..
  moreover have "length (List.map_filter parse_option (take max_options xs)) \<le> max_options"
    using map_filter_length[of parse_option "take max_options xs"] by simp
  ultimately show ?thesis by (simp add: parse_options_def map_filter_all parse_option_valid)
qed (auto simp: parse_options_def split: option.splits json.splits)

lemma parse_question_valid: "parse_question raw = Some q \<Longrightarrow> valid_asked_question q"
  using parse_options_valid
  by (auto simp: parse_question_def valid_asked_question_def Suc_le_eq dest: text_member_nonempty split: option.splits)

lemma parse_questions_valid:
  "list_all valid_asked_question (parse_questions arguments) \<and> length (parse_questions arguments) \<le> max_questions"
proof -
  have "length (List.map_filter parse_question (take max_questions xs)) \<le> max_questions" for xs
    using map_filter_length[of parse_question "take max_questions xs"] by simp
  moreover have "length (List.map_filter parse_question [x]) \<le> max_questions" for x
    using map_filter_length[of parse_question "[x]"] by (simp add: max_questions_def)
  moreover have "list_all valid_asked_question (List.map_filter parse_question xs)" for xs
    by (rule map_filter_all) (rule parse_question_valid)
  ultimately show ?thesis
    by (simp add: parse_questions_def del: map_filter_simps split: option.split json.split)
qed

lemma parse_tasks_valid: "list_all valid_task (parse_tasks raw) \<and> length (parse_tasks raw) \<le> max_tasks"
proof -
  have one: "parse_task x = Some t \<Longrightarrow> valid_task t" for x t
    by (auto simp: parse_task_def valid_task_def Let_def Suc_le_eq dest: text_member_nonempty split: option.splits)
  have "list_all valid_task (List.map_filter parse_task xs)" for xs by (rule map_filter_all) (rule one)
  moreover have "length (List.map_filter parse_task (take max_tasks xs)) \<le> max_tasks" for xs
    using map_filter_length[of parse_task "take max_tasks xs"] by simp
  ultimately show ?thesis by (simp add: parse_tasks_def split: json.split)
qed

end
