(* ===== verification/Offers.thy ===== *)
theory Offers
  imports Access
begin

text \<open>
  The tools by which an agent reaches subagents, as \<open>psych_runtime/runtime/subagent.py\<close> describes them to the
  model, and which of them a turn offers (\<open>_turn\<close> of \<open>psych_runtime/runtime/agent.py\<close>).
\<close>

definition str_schema :: "string \<Rightarrow> json" where
  "str_schema description = JObj [(''type'', JStr ''string''), (''description'', JStr description)]"

definition strs :: "string list \<Rightarrow> json" where
  "strs names = JArr (map JStr names)"

definition lines :: "string list \<Rightarrow> string" where
  "lines = join [CHR 0x0A]"

definition object_schema :: "obj \<Rightarrow> string list \<Rightarrow> obj" where
  "object_schema properties required =
     [(''type'', JStr ''object''), (''properties'', JObj properties), (''required'', strs required),
      (''additionalProperties'', JBool False)]"

definition holds_line :: "string list \<Rightarrow> 's agent_spec subagent_ref \<Rightarrow> string" where
  "holds_line parent_tools ref =
     (let holds = child_tool_names parent_tools (sa_spec ref) in
      ''- `'' @ sa_name ref @ ''`: '' @ sa_description ref @ '' (has: '' @
        (if holds = [] then ''no tools'' else join '', '' holds) @ '')'')"

definition delegation_definition :: "'s agent_spec subagent_ref list \<Rightarrow> string list \<Rightarrow> tool_definition option" where
  "delegation_definition subagents parent_tools =
     (if subagents = [] then None
      else Some \<lparr>td_name = ''delegate'',
        td_description = lines ([''Delegate a task to a specialist agent. Choose the one whose description '' @
          ''matches the work. Give it everything it needs in `task`: it does not see '' @
          ''this conversation.'', [], ''Available agents:''] @ map (holds_line parent_tools) subagents),
        td_input_schema = object_schema
          [(''subagent'', JObj [(''type'', JStr ''string''), (''description'', JStr ''Which agent to delegate to.''),
              (''enum'', strs (map sa_name subagents))]),
           (''task'', str_schema (''The complete task, self-contained. The agent does not see '' @
              ''this conversation, so include every detail it needs.''))]
          [''subagent'', ''task''],
        td_annotations = [''write'']\<rparr>)"

definition spawn_definition :: "'s agent_spec \<Rightarrow> string list \<Rightarrow> tool_definition option" where
  "spawn_definition spec parent_tools =
     (case ag_spawn spec of
        None \<Rightarrow> None
      | Some envelope \<Rightarrow>
          let allowed = envelope_tools envelope parent_tools;
              models = envelope_models envelope (mr_model (ag_model spec));
              tools_line = (if allowed = [] then ''no tools'' else join '', '' allowed)
          in Some \<lparr>td_name = ''spawn_subagent'',
            td_description = lines
              [''Start a subagent you describe yourself, running in the background.'', [],
               ''It gets its own conversation and does not see this one, so `task` has to '' @
               ''carry everything it needs. You keep working while it runs; when it '' @
               ''finishes, its result arrives as a message here. Use `check_subagent` to '' @
               ''look at one mid-flight and `message_subagent` to send it something.'', [],
               ''Say three separate things:'',
               ''- `purpose`: what this agent is for, in a sentence someone else could route on.'',
               ''- `task`: the work itself, self-contained.'',
               ''- `deliverable`: what it should hand back, and in what shape.'', [],
               ''It may be given any of: '' @ tools_line @ ''.'',
               ''It may run on: '' @ join '', '' models @ ''.'',
               ''At most '' @ int_str (se_max_alive envelope) @ '' of your subagents may be running at once.''],
            td_input_schema = object_schema
              [(''name'', str_schema (''A short name you will use to refer to this subagent later, '' @ ''such as `pricing_research`.'')),
               (''purpose'', str_schema ''What this agent is for, at least 20 characters.''),
               (''task'', str_schema (''The complete task. The agent does not see this conversation, '' @
                  ''so include every detail it needs. At least 40 '' @ ''characters.'')),
               (''deliverable'', str_schema (''What it should return, and in what shape. At least '' @ ''15 characters.'')),
               (''tools'', JObj [(''type'', JStr ''array''), (''items'', JObj [(''type'', JStr ''string''), (''enum'', strs allowed)]),
                  (''description'', JStr (''Which tools it may call. Leave empty to give it everything '' @
                     ''listed above. Anything else you name is ignored.''))]),
               (''model'', JObj [(''type'', JStr ''string''), (''enum'', strs models),
                  (''description'', JStr ''Which model it runs on. Omit for the default.'')])]
              [''name'', ''purpose'', ''task'', ''deliverable''],
            td_annotations = [''write'']\<rparr>)"

definition check_definition :: "'s agent_spec \<Rightarrow> tool_definition option" where
  "check_definition spec =
     (if ag_spawn spec = None then None
      else Some \<lparr>td_name = ''check_subagent'',
        td_description = ''Look at a subagent you started: whether it is still running, what it has '' @
          ''done so far, and what it last said. Returns immediately and does not wait '' @ ''for it to finish.'',
        td_input_schema = object_schema [(''name'', str_schema ''The name you gave it when you started it.'')] [''name''],
        td_annotations = [''read-only'']\<rparr>)"

definition message_definition :: "'s agent_spec \<Rightarrow> tool_definition option" where
  "message_definition spec =
     (case ag_spawn spec of
        None \<Rightarrow> None
      | Some e \<Rightarrow>
          if \<not> se_may_message e then None
          else Some \<lparr>td_name = ''message_subagent'',
            td_description = ''Send a message to a subagent that is still running -- a correction, a '' @
              ''constraint you forgot, something you have since learned. It is delivered '' @
              ''at the start of its next turn, not in the middle of whatever it is doing '' @
              ''right now. To stop one instead of steering it, say so in the message and '' @ ''let it finish.'',
            td_input_schema = object_schema
              [(''name'', str_schema ''The name you gave it when you started it.''), (''message'', str_schema ''What to tell it.'')]
              [''name'', ''message''],
            td_annotations = [''write'']\<rparr>)"

section \<open>What a turn offers\<close>

text \<open>
  The list \<open>extra\<close> of \<open>_turn\<close>: the builtins, the reader of stored results where there is one to read, the
  placeholder of \<open>run_code\<close>, and the subagent tools the loop was given the means to serve.
\<close>

definition extra_tools ::
    "tool_definition list \<Rightarrow> tool_definition \<Rightarrow> tool_definition option \<Rightarrow> bool \<Rightarrow> bool \<Rightarrow> 's agent_spec agent_spec \<Rightarrow> run_state_view \<Rightarrow>
       tool_definition list" where
  "extra_tools builtins reader run_code delegates composes spec st =
     (let granted = map to_name (ag_tools spec); some = (\<lambda>d. case d of None \<Rightarrow> [] | Some t \<Rightarrow> [t]) in
      builtins @ (if v_result_handles st = [] then [] else [reader]) @ some run_code @
      (if delegates then some (delegation_definition (ag_subagents spec) granted) else []) @
      (if composes then some (spawn_definition spec granted) @ some (check_definition spec) @ some (message_definition spec)
       else []))"

end
