(* ===== verification/Loop.thy ===== *)
theory Loop
  imports Walked Results Offers Prompt ModelCalls Guards
begin

text \<open>
  The tool calls of an agent (\<open>psych_runtime/runtime/agent.py\<close>): how a call is started, gated, run, recorded and
  settled after a crash. Pieces of a walk, as the workflow engine's: what an append, a tool, a policy check
  or another writer does is explicit.

  Arguments of the loop (\<open>agent_loop\<close>): the model's stream, the resolver of the turn's tools, the callers of
  the tool executor, the consumer's policy, the BlobStore, a delegate and the operations on composed children,
  \<open>json.loads\<close>, minted ids, elapsed times, and what the code asks of an exception. Programs that call tools
  back (\<open>call_as_binding\<close>) and spans are not modelled; \<open>run_code\<close> is a caller like the others.
\<close>

section \<open>The loop and what it is given\<close>

record loop_outcome =
  lo_state :: terminal_state
  lo_reason :: string
  lo_output :: "obj option"
  lo_failure :: "tool_failure option"

datatype gate = GateAllowed | GateDenied | GateSuspended

datatype tool_value = PlainResult json | CodeResult code_outcome

record resolved_tools =
  rt_definitions :: "tool_definition list"
  rt_advisories :: "string list"

record registered_tool =
  rg_call :: "obj \<Rightarrow> tool_value walked"
  rg_safe_to_retry :: bool

record 's executor =
  ex_registry :: "string \<Rightarrow> registered_tool option"
  ex_http_caller :: "(agent_tool \<Rightarrow> obj \<Rightarrow> tool_value walked) option"
  ex_mcp_caller :: "(string \<Rightarrow> obj \<Rightarrow> tool_value walked) option"
  ex_code_caller :: "(call_id \<Rightarrow> obj \<Rightarrow> tool_value walked) option"
  ex_discovery :: "(string \<Rightarrow> obj \<Rightarrow> tool_value walked) option"
  ex_resolve_target :: "'s agent_spec agent_spec \<Rightarrow> obj \<Rightarrow> tool_definition option walked"
  ex_a2a_caller :: "(string \<Rightarrow> obj \<Rightarrow> tool_value walked) option"

record child_ops =
  ch_spawn :: "call_id \<Rightarrow> spawn_request \<Rightarrow> int \<Rightarrow> obj walked"
  ch_check :: "child_run \<Rightarrow> obj walked"
  ch_message :: "call_id \<Rightarrow> child_run \<Rightarrow> string \<Rightarrow> obj walked"
  ch_reconcile :: "unit walked"

record 's agent_loop = surroundings +
  al_spec :: "'s agent_spec agent_spec"
  al_step_id :: "step_id option"
  al_stream :: "model_request \<Rightarrow> nat \<Rightarrow> raised + stream_event list"
  al_timings :: "nat \<Rightarrow> model_timings"
  al_resolve :: "(string, int) dict \<Rightarrow> tool_definition list \<Rightarrow> resolved_tools walked"
  al_executor :: "'s executor"
  al_prices :: "(string \<Rightarrow> model_price option) option"
  al_cost_policy :: cost_policy
  al_memories :: "string list"
  al_policy :: "string \<Rightarrow> obj \<Rightarrow> decision walked"
  al_approval_selectors :: "string list"
  al_always_approve :: "string list"
  al_never_approve :: "string list"
  al_delegate :: "('s agent_spec subagent_ref \<Rightarrow> string \<Rightarrow> int \<Rightarrow> obj walked) option"
  al_children :: "child_ops option"
  al_builtins :: "tool_definition list"
  al_reader :: tool_definition
  al_run_code :: "tool_definition option"
  al_with_run_code :: "resolved_tools \<Rightarrow> resolved_tools"
  al_read_output :: "run_state_view \<Rightarrow> obj \<Rightarrow> json walked"
  al_validate_spawn :: "obj \<Rightarrow> raised + spawn_request"
  al_blob :: "(blob_key \<Rightarrow> byte list \<Rightarrow> string \<Rightarrow> (string, string) dict \<Rightarrow> unit walked) option"
  al_blob_offload_bytes :: int
  al_history :: "message list"
  al_new_call_id :: "nat \<Rightarrow> call_id"
  al_json_loads :: "string \<Rightarrow> string + json"
  al_elapsed :: "nat \<Rightarrow> nat \<Rightarrow> rat"
  al_facts :: "raised \<Rightarrow> error_facts"

definition raise_denied :: "denied \<Rightarrow> 'x walked" where
  "raise_denied d = raise_it (OtherErr ''AccessDenied'' (denied_text d))"

definition or_denied :: "denied + 'x \<Rightarrow> ('x \<Rightarrow> 'y walked) \<Rightarrow> 'y walked" where
  "or_denied r f = (case r of Inl d \<Rightarrow> raise_denied d | Inr x \<Rightarrow> f x)"

text \<open>A \<open>ToolFailure\<close> that its own validation refuses raises \<open>ValidationError\<close>.\<close>

definition with_failure :: "tool_failure option \<Rightarrow> (tool_failure \<Rightarrow> 'x walked) \<Rightarrow> 'x walked" where
  "with_failure f g = (case f of None \<Rightarrow> raise_it ValidationErr | Some x \<Rightarrow> g x)"

definition traceback_of :: "error_facts \<Rightarrow> string" where
  "traceback_of x = trim_traceback (ef_traceback x)"

section \<open>The executor\<close>

text \<open>A program is told the call it runs under (the context variable \<open>_ACTIVE_CODE_CALL\<close>).\<close>

definition executor_call :: "'s executor \<Rightarrow> 's agent_spec agent_spec \<Rightarrow> call_id \<Rightarrow> string \<Rightarrow> obj \<Rightarrow> tool_value walked" where
  "executor_call ex spec cid name arguments =
     (case (if name = ''run_code'' then ex_code_caller ex else None) of
        Some run \<Rightarrow> run cid arguments
      | None \<Rightarrow>
     (case (if name \<in> {''list_tools'', ''get_tool_info'', ''call_tool''} then ex_discovery ex else None) of
        Some discover \<Rightarrow> discover name arguments
      | None \<Rightarrow>
     (case find (\<lambda>t. to_http t \<and> to_name t = name) (ag_tools spec) of
        Some t \<Rightarrow>
          (case ex_http_caller ex of
             None \<Rightarrow> raise_denied (''tool '' @ repr_str name, ''it is an http tool but this Worker has no http caller configured'')
           | Some http \<Rightarrow> http t arguments)
      | None \<Rightarrow>
     (case ex_registry ex name of
        Some tool \<Rightarrow> rg_call tool arguments
      | None \<Rightarrow>
     (case (if list_ex (\<lambda>peer. py_startswith name (peer @ ''__'')) (ag_a2a_peers spec) then ex_a2a_caller ex else None) of
        Some call_peer \<Rightarrow> call_peer name arguments
      | None \<Rightarrow>
     (case ex_mcp_caller ex of
        Some mcp \<Rightarrow> mcp name arguments
      | None \<Rightarrow> raise_denied (''tool '' @ repr_str name, ''no code, http, mcp or A2A tool of that name is available to this Run'')))))))"

definition safe_to_retry :: "'s agent_loop \<Rightarrow> string \<Rightarrow> bool" where
  "safe_to_retry lp name = (case ex_registry (al_executor lp) name of Some t \<Rightarrow> rg_safe_to_retry t | None \<Rightarrow> False)"

definition interruptible :: "'s agent_spec \<Rightarrow> string \<Rightarrow> bool" where
  "interruptible spec name = (case find (\<lambda>t. to_name t = name) (ag_tools spec) of Some t \<Rightarrow> to_interruptible t | None \<Rightarrow> True)"

section \<open>Recording a result\<close>

definition finish_record :: "call_id \<Rightarrow> tool_outcome \<Rightarrow> json \<Rightarrow> tool_failure option \<Rightarrow> rat \<Rightarrow> tool_call_finished" where
  "finish_record cid outcome result failure duration =
     \<lparr>tcf_call_id = cid, tcf_outcome = outcome, tcf_result = result, tcf_failure = failure, tcf_duration_seconds = duration,
      tcf_result_handle = None, tcf_preview = None, tcf_result_bytes = 0, tcf_result_blob_key = None,
      tcf_result_content_type = None, tcf_attachments = []\<rparr>"

definition finish_call :: "'s agent_loop \<Rightarrow> tool_call_finished \<Rightarrow> unit walked" where
  "finish_call lp b = then_do (write_rec lp (ToolCallFinished b)) (\<lambda>_. give ())"

text \<open>A call that is reply without running: \<open>failure_guidance(kind, message)\<close> as its result.\<close>

definition answer_failed :: "'s agent_loop \<Rightarrow> call_id \<Rightarrow> tool_outcome \<Rightarrow> string \<Rightarrow> string \<Rightarrow> unit walked" where
  "answer_failed lp cid outcome kind message =
     finish_call lp (finish_record cid outcome JNull (Some (guided_failure kind message)) 0)"

definition inline_attachment_bytes :: int where "inline_attachment_bytes = 16 * 1024"

definition attachment_of :: "call_id \<Rightarrow> pending_attachment \<Rightarrow> stored_kind \<Rightarrow> result_attachment" where
  "attachment_of cid p kind =
     (let size = int (length (pa_data p)); readable = (pa_slot p \<noteq> ''execution'') in
      \<lparr>at_name = pa_name p, at_handle = attachment_handle cid (pa_slot p), at_content_type = pa_content_type p,
       at_size_bytes = (if kind = StoredPreviewOnly then 0 else size), at_observed_bytes = pa_observed_bytes p,
       at_truncated = (if kind = StoredPreviewOnly then pa_observed_bytes p > 0 else pa_observed_bytes p > size),
       at_data = (if kind = StoredInline then Some (pa_data p) else None), at_stored = kind,
       at_sha256 = Some (sha256_hex (pa_data p)),
       at_readable = (if kind = StoredPreviewOnly then False else readable)\<rparr>)"

text \<open>\<open>ValueError\<close> of \<open>BlobKey\<close>.\<close>

definition with_key :: "string + blob_key \<Rightarrow> (blob_key \<Rightarrow> 'x walked) \<Rightarrow> 'x walked" where
  "with_key k f = (case k of Inl text \<Rightarrow> raise_it (OtherErr ''ValueError'' text) | Inr key \<Rightarrow> f key)"

text \<open>The accumulators of \<open>_store_attachments\<close>: inline bytes used, handles, omitted bytes, what is stored.\<close>

fun keep_attachments ::
    "'s agent_loop \<Rightarrow> call_id \<Rightarrow> output_preservation \<Rightarrow> int \<Rightarrow> (string, string option) dict \<Rightarrow> (string, int) dict \<Rightarrow>
       result_attachment list \<Rightarrow> pending_attachment list \<Rightarrow>
       ((string, string option) dict \<times> (string, int) dict \<times> result_attachment list) option walked" where
  "keep_attachments lp cid preserve used handles omitted stored [] = give (Some (handles, omitted, stored))"
| "keep_attachments lp cid preserve used handles omitted stored (p # ps) =
     (let handle = attachment_handle cid (pa_slot p); size = int (length (pa_data p));
          fits_inline = (size \<le> inline_attachment_bytes \<and> used + size \<le> al_blob_offload_bytes lp div 4);
          keep = (preserve \<noteq> Never \<or> pa_slot p = ''execution'');
          kept = (\<lambda>kind used. keep_attachments lp cid preserve used (dict_put (pa_slot p) (Some handle) handles) omitted
                    (stored @ [attachment_of cid p kind]) ps);
          dropped =
            (if pa_must_keep p then
               then_do (answer_failed lp cid OutcomeError ''blob_store_required''
                 (''This program produced '' @ int_str (pa_observed_bytes p) @ '' bytes of '' @ pa_name p @
                  '', and the agent's output policy requires that '' @
                  ''output be kept in full, but no BlobStore is configured for '' @
                  ''this Runtime. Configure Runtime(blob=...) or relax '' @ ''code_execution.output.preserve.'')) (\<lambda>_. give None)
             else keep_attachments lp cid preserve used (dict_put (pa_slot p) None handles)
                    (dict_put (pa_slot p) (pa_observed_bytes p) omitted) (stored @ [attachment_of cid p StoredPreviewOnly]) ps)
      in if keep \<and> fits_inline then kept StoredInline (used + size)
         else case (if keep then al_blob lp else None) of
                Some put \<Rightarrow>
                  (\<lambda>w. with_key (attachment_blob_key (j_scope (wk_journal w)) (j_run_id (wk_journal w)) cid (pa_slot p)) (\<lambda>key.
                    then_do (put key (pa_data p) (pa_content_type p)
                      ((''sha256'', sha256_hex (pa_data p)) #
                       (if py_startswith (pa_content_type p) ''text/'' then [(''line_count'', line_count (pa_data p))] else [])))
                      (\<lambda>_. kept StoredBlob used)) w)
              | None \<Rightarrow> dropped)"

definition store_attachments :: "'s agent_loop \<Rightarrow> call_id \<Rightarrow> code_outcome \<Rightarrow> (obj \<times> result_attachment list) option walked" where
  "store_attachments lp cid outcome =
     then_do (keep_attachments lp cid (co_preserve outcome) 0 [] [] [] (co_attachments outcome)) (\<lambda>r.
     give (case r of None \<Rightarrow> None
           | Some (handles, omitted, stored) \<Rightarrow> Some (finish_payload (co_payload outcome) handles omitted, stored)))"

definition record_result :: "'s agent_loop \<Rightarrow> call_id \<Rightarrow> json \<Rightarrow> result_attachment list \<Rightarrow> rat \<Rightarrow> unit walked" where
  "record_result lp cid result attachments duration =
     (let elision = decide_elision result cid (li_large_result_bytes (ag_limits (al_spec lp)));
          offload = decide_offload result (al_blob_offload_bytes lp);
          base = finish_record cid OutcomeOk result None duration
      in if \<not> of_offload offload then
           finish_call lp (base\<lparr>tcf_result_bytes := el_result_bytes elision, tcf_result_handle := el_handle elision,
             tcf_preview := el_preview elision, tcf_attachments := attachments\<rparr>)
         else case al_blob lp of
             None \<Rightarrow>
               finish_call lp ((finish_record cid OutcomeError JNull (Some (guided_failure ''blob_store_required''
                 (''This call's result is '' @ int_str (el_result_bytes elision) @ '' bytes, above '' @
                  ''the '' @ int_str (al_blob_offload_bytes lp) @ ''-byte offload threshold, but '' @
                  ''no BlobStore is configured for this Run. Configure '' @
                  ''Runtime(blob=...) to store results this large, or have '' @ ''the tool return less.''))) duration)
                 \<lparr>tcf_result_bytes := el_result_bytes elision\<rparr>)
           | Some put \<Rightarrow>
               let shown = (if el_elide elision then elision else force_elision result cid) in
               (\<lambda>w. with_key (mk_blob_key (j_scope (wk_journal w)) (j_run_id (wk_journal w)) cid) (\<lambda>key.
                 then_do (put key (of_payload offload) (of_content_type offload) (of_metadata offload)) (\<lambda>_.
                 finish_call lp (base\<lparr>tcf_result := JNull, tcf_result_bytes := el_result_bytes shown,
                   tcf_result_handle := el_handle shown, tcf_preview := el_preview shown,
                   tcf_result_blob_key := Some (blob_key_str key), tcf_result_content_type := Some (of_content_type offload),
                   tcf_attachments := attachments\<rparr>))) w))"

definition record_success :: "'s agent_loop \<Rightarrow> call_id \<Rightarrow> tool_value \<Rightarrow> rat \<Rightarrow> unit walked" where
  "record_success lp cid result duration =
     (case result of
        PlainResult j \<Rightarrow> record_result lp cid j [] duration
      | CodeResult outcome \<Rightarrow>
          then_do (store_attachments lp cid outcome) (\<lambda>stored.
          case stored of None \<Rightarrow> give () | Some (payload, attachments) \<Rightarrow> record_result lp cid (JObj payload) attachments duration))"

section \<open>Running a call\<close>

definition arg_str :: "string \<Rightarrow> obj \<Rightarrow> string" where
  "arg_str key arguments = (case dict_get arguments key of Some v \<Rightarrow> py_str v | None \<Rightarrow> [])"

text \<open>The number of delegations of the turn is the loop's own counter: \<open>n\<close> before a call, \<open>delegations_after\<close> it.\<close>

definition delegations_after :: "'s agent_loop \<Rightarrow> string \<Rightarrow> int \<Rightarrow> int" where
  "delegations_after lp name n =
     (if name = ''delegate'' \<and> al_delegate lp \<noteq> None \<and> check_fanout n (li_max_fanout_per_turn (ag_limits (al_spec lp))) = Inr ()
      then n + 1 else n)"

definition delegate_to_subagent :: "'s agent_loop \<Rightarrow> int \<Rightarrow> obj \<Rightarrow> obj walked" where
  "delegate_to_subagent lp n arguments =
     (case al_delegate lp of
        None \<Rightarrow> raise_denied (''delegation'', ''this Worker has no delegation configured'')
      | Some delegate \<Rightarrow>
          or_denied (check_fanout n (li_max_fanout_per_turn (ag_limits (al_spec lp)))) (\<lambda>_.
          or_denied (find_subagent (al_spec lp) (arg_str ''subagent'' arguments)) (\<lambda>ref.
          look (\<lambda>st. let child_depth = resolve_child_depth (v_delegation_depth st) None in
          or_denied (check_depth child_depth (li_max_delegation_depth (ag_limits (al_spec lp)))) (\<lambda>_.
          delegate ref (arg_str ''task'' arguments) child_depth)))))"

definition lift_raised :: "raised + 'x \<Rightarrow> 'x walked" where
  "lift_raised r = (case r of Inl e \<Rightarrow> raise_it e | Inr x \<Rightarrow> give x)"

definition spawn_subagent :: "'s agent_loop \<Rightarrow> call_id \<Rightarrow> obj \<Rightarrow> child_ops \<Rightarrow> spawn_envelope \<Rightarrow> obj walked" where
  "spawn_subagent lp cid arguments children envelope =
     look (\<lambda>st.
     then_do (lift_raised (al_validate_spawn lp arguments)) (\<lambda>request.
     or_denied (check_alive (int (length (live_children st))) (se_max_alive envelope)) (\<lambda>_.
     let child_depth = resolve_child_depth (v_delegation_depth st) None in
     or_denied (check_depth child_depth (min (se_max_depth envelope) (li_max_delegation_depth (ag_limits (al_spec lp))))) (\<lambda>_.
     ch_spawn children cid request child_depth))))"

definition composed_subagent :: "'s agent_loop \<Rightarrow> call_id \<Rightarrow> string \<Rightarrow> obj \<Rightarrow> obj walked" where
  "composed_subagent lp cid name arguments =
     (case (al_children lp, ag_spawn (al_spec lp)) of
        (Some children, Some envelope) \<Rightarrow>
          if name = ''spawn_subagent'' then spawn_subagent lp cid arguments children envelope
          else look (\<lambda>st. or_denied (find_child st (arg_str ''name'' arguments)) (\<lambda>child.
            if name = ''check_subagent'' then ch_check children child
            else if \<not> child_alive child then
              raise_denied (''messaging subagent '' @ repr_str (cr_name child),
                ''it has already finished ('' @ (case cr_terminal_state child of Some t \<Rightarrow> terminal_state_str t | None \<Rightarrow> ''None'') @
                ''), so there is no turn '' @ ''left for a message to reach. Start another one if there is more to do.'')
            else ch_message children cid child (arg_str ''message'' arguments)))
      | _ \<Rightarrow> raise_denied (''composing a subagent'', ''this agent may not compose subagents at run time.''))"

definition call_body :: "'s agent_loop \<Rightarrow> int \<Rightarrow> call_id \<Rightarrow> string \<Rightarrow> obj \<Rightarrow> tool_value walked" where
  "call_body lp n cid name arguments =
     (if name = ''delegate'' then then_do (delegate_to_subagent lp n arguments) (\<lambda>r. give (PlainResult (JObj r)))
      else if name \<in> {''spawn_subagent'', ''check_subagent'', ''message_subagent''} then
        then_do (composed_subagent lp cid name arguments) (\<lambda>r. give (PlainResult (JObj r)))
      else if name = ''read_tool_output'' then
        look (\<lambda>st. then_do (al_read_output lp st arguments) (\<lambda>j. give (PlainResult j)))
      else executor_call (al_executor lp) (al_spec lp) cid name arguments)"

text \<open>The three \<open>except\<close> clauses of \<open>_execute_and_record\<close>.\<close>

definition record_raised :: "'s agent_loop \<Rightarrow> call_id \<Rightarrow> string \<Rightarrow> raised \<Rightarrow> rat \<Rightarrow> unit walked" where
  "record_raised lp cid name e duration =
     (if e = CancelledErr then
        then_do (finish_call lp (finish_record cid OutcomeAborted JNull None duration)) (\<lambda>_. raise_it CancelledErr)
      else let x = al_facts lp e in
        (case ef_problems x of
           Some problems \<Rightarrow>
             finish_call lp (finish_record cid OutcomeError JNull (Some (guided_failure ''invalid_arguments''
               (''The arguments you sent to '' @ repr_str name @ '' do not match its schema. '' @
                nat_str (length problems) @ '' problem(s): '' @ describe_argument_errors problems))) duration)
         | None \<Rightarrow>
             let transient = is_transient x in
             with_failure (mk_tool_failure (ef_type_name x) (failure_guidance (ef_type_name x) (ef_text x) transient None)
               (Some (traceback_of x)) transient (name = ''run_code'')) (\<lambda>f.
             finish_call lp (finish_record cid OutcomeError JNull (Some f) duration))))"

text \<open>The delegations of the turn so far, and what the call produced, which only programs read.\<close>

definition run_and_record :: "'s agent_loop \<Rightarrow> int \<Rightarrow> call_id \<Rightarrow> string \<Rightarrow> obj \<Rightarrow> (int \<times> tool_value option) walked" where
  "run_and_record lp n cid name arguments w =
     (let after_call = delegations_after lp name n in
      case call_body lp n cid name arguments w of
        (Inr v, w1) \<Rightarrow>
          then_do (record_success lp cid v (al_elapsed lp (wk_tick w) (wk_tick w1))) (\<lambda>_. give (after_call, Some v)) w1
      | (Inl e, w1) \<Rightarrow>
          then_do (record_raised lp cid name e (al_elapsed lp (wk_tick w) (wk_tick w1))) (\<lambda>_. give (after_call, None)) w1)"

definition execute_and_record :: "'s agent_loop \<Rightarrow> int \<Rightarrow> call_id \<Rightarrow> string \<Rightarrow> obj \<Rightarrow> int walked" where
  "execute_and_record lp n cid name arguments = then_do (run_and_record lp n cid name arguments) (\<lambda>r. give (fst r))"

section \<open>The gate\<close>

text \<open>The lines of \<open>_settle_question\<close>: the answers that are text and not blank.\<close>

definition answer_lines :: "obj \<Rightarrow> string list" where
  "answer_lines answers = List.map_filter (\<lambda>kv. case snd kv of
     JStr s \<Rightarrow> if py_strip s = [] then None else Some (fst kv @ '': '' @ s) | _ \<Rightarrow> None) answers"

definition question_answer :: "obj option \<Rightarrow> string" where
  "question_answer reply =
     (let payload = (case reply of Some p \<Rightarrow> p | None \<Rightarrow> []);
          answer_given = (case dict_get payload ''answers'' of Some (JObj answers) \<Rightarrow> answer_lines answers | _ \<Rightarrow> [])
      in if answer_given \<noteq> [] then join [CHR 0x0A] answer_given
         else case dict_get payload ''answer'' of
                Some (JStr s) \<Rightarrow> if py_strip s \<noteq> [] then s
                  else ''The person did not give an answer. Continue without it, or say what you '' @ ''need and stop.''
              | _ \<Rightarrow> ''The person did not give an answer. Continue without it, or say what you '' @ ''need and stop.'')"

definition settle_question :: "'s agent_loop \<Rightarrow> call_id \<Rightarrow> obj option \<Rightarrow> unit walked" where
  "settle_question lp cid reply = finish_call lp (finish_record cid OutcomeOk (JStr (question_answer reply)) None 0)"

definition suspend_call :: "'s agent_loop \<Rightarrow> call_id \<Rightarrow> suspend_reason \<Rightarrow> rat \<Rightarrow> string \<Rightarrow> asked_question list \<Rightarrow> gate walked" where
  "suspend_call lp cid reason expires_in question questions =
     then_do (clock lp) (\<lambda>now.
     then_do (write_rec lp (Suspended
       \<lparr>su_reason = reason, su_payload_schema = [], su_expires_at = now + seconds_us expires_in, su_step_id = None,
        su_step_name = None, su_event = None, su_wake_at = None, su_pending_call_id = Some cid,
        su_question = Some question, su_questions = questions\<rparr>)) (\<lambda>_.
     give GateSuspended))"

definition gate_question :: "'s agent_loop \<Rightarrow> call_id \<Rightarrow> obj \<Rightarrow> gate walked" where
  "gate_question lp cid arguments =
     look (\<lambda>st. case dict_get (v_resume_payloads st) cid of
       Some reply \<Rightarrow> then_do (settle_question lp cid (Some reply)) (\<lambda>_. give GateDenied)
     | None \<Rightarrow>
         let questions = parse_questions arguments in
         if questions = [] then
           then_do (answer_failed lp cid OutcomeError ''invalid_arguments''
             (''ask_question needs at least one `questions` entry with a `question` '' @
              ''in it. Nothing was asked, so nobody was interrupted.'')) (\<lambda>_. give GateDenied)
         else suspend_call lp cid Question (sp_question_expires_seconds (ag_suspension (al_spec lp)))
                (render_questions questions) questions)"

definition resolve_call_tool_target :: "'s agent_loop \<Rightarrow> obj \<Rightarrow> (string \<times> tool_definition) walked" where
  "resolve_call_tool_target lp arguments =
     (let server = arg_str ''server'' arguments; target = arg_str ''tool'' arguments;
          qualified = mcp_tool_name (if server = [] then ''unknown'' else server) (if target = [] then ''unknown'' else target)
      in then_do (if ex_discovery (al_executor lp) = None then give None
                  else ex_resolve_target (al_executor lp) (al_spec lp) arguments) (\<lambda>resolved.
         give (case resolved of
           Some d \<Rightarrow> (td_name d, d)
         | None \<Rightarrow> (qualified, \<lparr>td_name = qualified, td_description = ''an MCP tool this Run could not resolve'',
             td_input_schema = [], td_annotations = [''destructive'']\<rparr>))))"

text \<open>A policy that fails denies.\<close>

definition policy_decision :: "'s agent_loop \<Rightarrow> string \<Rightarrow> obj \<Rightarrow> decision walked" where
  "policy_decision lp name arguments w =
     (case al_policy lp name arguments w of
        (Inl e, w1) \<Rightarrow>
          if e = CancelledErr then (Inl e, w1)
          else (Inr \<lparr>de_allowed = False, de_reason = ''the policy check failed: '' @ ef_text (al_facts lp e),
                     de_requires_approval = False\<rparr>, w1)
      | outcome \<Rightarrow> outcome)"

definition needs_human :: "'s agent_loop \<Rightarrow> decision \<Rightarrow> tool_definition option \<Rightarrow> bool" where
  "needs_human lp d definition \<longleftrightarrow>
     de_requires_approval d \<or>
     (de_allowed d \<and> al_approval_selectors lp \<noteq> [] \<and>
      (case definition of None \<Rightarrow> False
       | Some t \<Rightarrow> approval_required t (al_approval_selectors lp) (al_always_approve lp) (al_never_approve lp)))"

definition gate_decided :: "'s agent_loop \<Rightarrow> call_id \<Rightarrow> string \<Rightarrow> obj \<Rightarrow> tool_definition option \<Rightarrow> gate walked" where
  "gate_decided lp cid name arguments definition =
     then_do (policy_decision lp name arguments) (\<lambda>d.
       if needs_human lp d definition then
         suspend_call lp cid Approval (sp_approval_expires_seconds (ag_suspension (al_spec lp)))
           (''Approve calling '' @ repr_str name @ '' with '' @ json_plain '', '' '': '' (JObj arguments) @ ''?'') []
       else if \<not> de_allowed d then
         then_do (answer_failed lp cid OutcomeError ''access_denied''
           (''You are not allowed to call '' @ repr_str name @ (if de_reason d \<noteq> [] then '': '' @ de_reason d else ''.'')))
           (\<lambda>_. give GateDenied)
       else give GateAllowed)"

definition the_gate :: "'s agent_loop \<Rightarrow> call_id \<Rightarrow> string \<Rightarrow> obj \<Rightarrow> tool_definition list \<Rightarrow> gate walked" where
  "the_gate lp cid name arguments offered =
     (if name = ''ask_question'' then gate_question lp cid arguments
      else look (\<lambda>st. case dict_get (v_approval_decisions st) cid of
        Some True \<Rightarrow> give GateAllowed
      | Some False \<Rightarrow>
          then_do (answer_failed lp cid OutcomeError ''denied'' ''A human declined this call.'') (\<lambda>_. give GateDenied)
      | None \<Rightarrow>
          if name = ''call_tool'' then
            then_do (resolve_call_tool_target lp arguments) (\<lambda>(target, d). gate_decided lp cid target arguments (Some d))
          else gate_decided lp cid name arguments (find (\<lambda>d. td_name d = name) offered)))"

section \<open>The calls of a turn\<close>

definition fresh_call_id :: "'s agent_loop \<Rightarrow> run_state_view \<Rightarrow> nat \<Rightarrow> call_id option \<Rightarrow> call_id \<times> call_id option" where
  "fresh_call_id lp st t proposed =
     (case proposed of
        None \<Rightarrow> (al_new_call_id lp t, None)
      | Some cid \<Rightarrow>
          if cid \<in> dict_keys (v_open_tool_calls st) \<or> list_ex (\<lambda>r. tr_call_id r = cid) (v_tool_results st)
          then (al_new_call_id lp t, Some cid) else (cid, None))"

definition malformed :: "string \<Rightarrow> tool_failure" where
  "malformed message = guided_failure ''malformed_arguments'' message"

definition parse_arguments :: "(string \<Rightarrow> string + json) \<Rightarrow> string \<Rightarrow> obj \<times> tool_failure option" where
  "parse_arguments loads raw =
     (if py_strip raw = [] then ([], None)
      else case loads raw of
             Inl err \<Rightarrow> ([], Some (malformed (''The arguments you sent were not valid JSON: '' @ err @ ''. Send the '' @
               ''arguments again as a single valid JSON object.'')))
           | Inr (JObj kvs) \<Rightarrow> (kvs, None)
           | Inr j \<Rightarrow> ([], Some (malformed (''Tool arguments must be a JSON object, and you sent a '' @
               type_name j @ ''. Send an object with the parameter names as keys.''))))"

definition start_call :: "'s agent_loop \<Rightarrow> call_id \<Rightarrow> string \<Rightarrow> string \<Rightarrow> obj \<Rightarrow> unit walked" where
  "start_call lp cid name shown arguments =
     look (\<lambda>st. then_do (write_rec lp (ToolCallStarted
       \<lparr>tcs_call_id = cid, tcs_tool = shown, tcs_arguments = arguments, tcs_turn = v_turn st, tcs_step_id = al_step_id lp,
        tcs_interruptible = interruptible (al_spec lp) name, tcs_safe_to_retry = safe_to_retry lp name,
        tcs_parent_call_id = None\<rparr>)) (\<lambda>_. give ()))"

definition name_of :: "assembled_call \<Rightarrow> string" where
  "name_of c = (case ac_name c of Some n \<Rightarrow> n | None \<Rightarrow> [])"

definition shown_name :: "string \<Rightarrow> string" where
  "shown_name name = (if name = [] then ''<unnamed>'' else name)"

text \<open>\<open>_fresh_call_id\<close> as a piece of a walk: it reads the derived state and does not await.\<close>

definition mint :: "'s agent_loop \<Rightarrow> call_id option \<Rightarrow> (call_id \<times> call_id option) walked" where
  "mint lp proposed w = (Inr (fresh_call_id lp (j_state (wk_journal w)) (wk_tick w) proposed), w)"

fun answer_unstarted :: "'s agent_loop \<Rightarrow> string \<Rightarrow> assembled_call list \<Rightarrow> unit walked" where
  "answer_unstarted lp why [] = give ()"
| "answer_unstarted lp why (c # cs) =
     then_do (mint lp (ac_id c)) (\<lambda>(cid, _).
     then_do (start_call lp cid (shown_name (name_of c)) (shown_name (name_of c)) (fst (parse_arguments (al_json_loads lp) (ac_arguments_json c)))) (\<lambda>_.
     then_do (answer_failed lp cid OutcomeError ''not_executed''
       (''This call was not run because the turn stopped first ('' @ why @ '').'')) (\<lambda>_.
     answer_unstarted lp why cs)))"

text \<open>
  What happens after a call was started: how many delegations the turn has made, and why the rest of the
  turn's calls are not run, if they are not.
\<close>

definition unknown_tool_text :: "string \<Rightarrow> tool_definition list \<Rightarrow> string" where
  "unknown_tool_text name offered =
     (let listed = join '', '' (sorted_list_of_set (td_name ` set offered)) in
      ''There is no tool called '' @ repr_str name @ '' available to you. '' @
      ''Available tools: '' @ (if listed = [] then ''none'' else listed) @ ''.'')"

definition one_call :: "'s agent_loop \<Rightarrow> tool_definition list \<Rightarrow> int \<Rightarrow> call_id \<Rightarrow> call_id option \<Rightarrow> string \<Rightarrow> obj \<Rightarrow> tool_failure option \<Rightarrow>
    (int \<times> string option) walked" where
  "one_call lp offered n cid duplicate_of name arguments parse_failure =
     (case duplicate_of of
        Some used \<Rightarrow>
          then_do (answer_failed lp cid OutcomeError ''duplicate_call_id''
            (''Tool call id '' @ repr_str used @ '' was already used by an earlier '' @
             ''call in this run, so this call was not executed.'')) (\<lambda>_. give (n, None))
      | None \<Rightarrow>
     (case parse_failure of
        Some f \<Rightarrow> then_do (finish_call lp (finish_record cid OutcomeError JNull (Some f) 0)) (\<lambda>_. give (n, None))
      | None \<Rightarrow>
     then_do (the_gate lp cid name arguments offered) (\<lambda>g.
       if g = GateSuspended then give (n, Some ''suspended'')
       else if g = GateDenied then give (n, None)
       else if name \<notin> td_name ` set offered then
         then_do (answer_failed lp cid OutcomeError ''unknown_tool'' (unknown_tool_text name offered)) (\<lambda>_. give (n, None))
       else look (\<lambda>st.
         let limits = ag_limits (al_spec lp);
             verdict = repetition_gate st name arguments (li_repeat_call_threshold limits) (li_repeat_call_hard_stop limits)
         in if rv_refuse verdict then
              then_do (answer_failed lp cid OutcomeError ''repeated_call''
                (case rv_advisory verdict of Some a \<Rightarrow> a | None \<Rightarrow> repetition_advisory (rv_repeats verdict))) (\<lambda>_.
              give (n, if rv_fail_turn verdict then Some ''repeated_call'' else None))
            else
              then_do (execute_and_record lp n cid name arguments) (\<lambda>n'.
              then_do (refresh_walk lp) (\<lambda>_.
              look (\<lambda>st'. give (n', if view_aborted st' then Some ''aborted'' else None))))))))"

fun run_tool_calls :: "'s agent_loop \<Rightarrow> tool_definition list \<Rightarrow> int \<Rightarrow> assembled_call list \<Rightarrow> unit walked" where
  "run_tool_calls lp offered n [] = give ()"
| "run_tool_calls lp offered n (c # cs) =
     then_do (mint lp (ac_id c)) (\<lambda>(cid, duplicate_of).
     let name = name_of c; (arguments, parse_failure) = parse_arguments (al_json_loads lp) (ac_arguments_json c) in
     then_do (start_call lp cid name (shown_name name) arguments) (\<lambda>_.
     then_do (one_call lp offered n cid duplicate_of name arguments parse_failure) (\<lambda>(n', stop).
     case stop of Some why \<Rightarrow> answer_unstarted lp why cs | None \<Rightarrow> run_tool_calls lp offered n' cs)))"

section \<open>After a crash\<close>

definition settle_one :: "'s agent_loop \<Rightarrow> (call_id, bool) dict \<Rightarrow> (call_id, obj) dict \<Rightarrow> int \<Rightarrow> open_tool_call \<Rightarrow> int walked" where
  "settle_one lp decisions answers n c =
     (let cid = oc_call_id c; executed = execute_and_record lp n cid (oc_tool c) (oc_arguments c) in
      if oc_tool c = ''ask_question'' then then_do (settle_question lp cid (dict_get answers cid)) (\<lambda>_. give n)
      else case dict_get decisions cid of
        Some True \<Rightarrow> executed
      | Some False \<Rightarrow>
          then_do (answer_failed lp cid OutcomeError ''denied'' ''A human declined this call.'') (\<lambda>_. give n)
      | None \<Rightarrow>
          if oc_safe_to_retry c then executed
          else then_do (answer_failed lp cid OutcomeUnknown ''orphaned''
                 (''The worker running this call stopped before recording a '' @
                  ''result. Whether it took effect is unknown.'')) (\<lambda>_. give n))"

fun settle_calls :: "'s agent_loop \<Rightarrow> (call_id, bool) dict \<Rightarrow> (call_id, obj) dict \<Rightarrow> int \<Rightarrow> open_tool_call list \<Rightarrow> unit walked" where
  "settle_calls lp decisions answers n [] = give ()"
| "settle_calls lp decisions answers n (c # cs) =
     then_do (settle_one lp decisions answers n c) (\<lambda>n'. settle_calls lp decisions answers n' cs)"

definition settle_dangling_calls :: "'s agent_loop \<Rightarrow> unit walked" where
  "settle_dangling_calls lp =
     look (\<lambda>st. settle_calls lp (v_approval_decisions st) (v_resume_payloads st) 0 (map snd (v_open_tool_calls st)))"

end
