(* ===== verification/Agent.thy ===== *)
theory Agent
  imports Loop
begin

text \<open>
  The agent loop (\<open>AgentLoop\<close> of \<open>psych_runtime/runtime/agent.py\<close>): its stop conditions, a turn with its model
  call and what it does when the call fails, compaction, the wait for background children, and the callers
  of the loop in \<open>psych_runtime/runtime/execute.py\<close>. Also \<open>psych_runtime/model/tool_normalize.py\<close>.

  The loop's fuel is the number of turns that are left, which is enough: a turn that does not end the loop
  opens one (shown in \<open>LoopEnds\<close>).
\<close>

section \<open>Requests\<close>

definition canonical_tool :: "tool_definition \<Rightarrow> json" where
  "canonical_tool t = JObj [(''name'', JStr (td_name t)), (''description'', JStr (td_description t)),
     (''input_schema'', JObj (td_input_schema t)), (''annotations'', JArr (map JStr (sort (td_annotations t))))]"

definition tool_digest :: "tool_definition \<Rightarrow> string" where
  "tool_digest t = sha256_hex (utf8 (json_text '','' '':'' (canonical_tool t)))"

definition normalize_definition :: "tool_definition \<Rightarrow> tool_definition" where
  "normalize_definition t = t\<lparr>td_input_schema := (case json_norm (JObj (td_input_schema t)) of JObj kvs \<Rightarrow> kvs | _ \<Rightarrow> [])\<rparr>"

text \<open>Sorting by digest and then, stably, by name sorts by the pair.\<close>

definition normalize_tools :: "tool_definition list \<Rightarrow> tool_definition list" where
  "normalize_tools tools = sort_key td_name (sort_key tool_digest (map normalize_definition tools))"

definition turn_request :: "'s agent_loop \<Rightarrow> message list \<Rightarrow> tool_definition list \<Rightarrow> model_request" where
  "turn_request lp messages definitions =
     (let m = ag_model (al_spec lp) in
      \<lparr>rm_model = mr_model m, rm_messages = messages, rm_tools = normalize_tools definitions,
       rm_temperature = mr_temperature m, rm_top_p = mr_top_p m, rm_max_output_tokens = mr_max_output_tokens m,
       rm_reasoning_effort = mr_reasoning_effort m, rm_cache_breakpoints = cache_breakpoints messages definitions,
       rm_idle_timeout_seconds = li_stream_idle_seconds (ag_limits (al_spec lp))\<rparr>)"

text \<open>\<open>_stream\<close>: the events of a stream put together, or what it raised.\<close>

definition call_model :: "'s agent_loop \<Rightarrow> model_request \<Rightarrow> (model_answer \<times> model_timings) walked" where
  "call_model lp request w =
     (let t = wk_tick w; w1 = w\<lparr>wk_tick := t + 1\<rparr> in
      case al_stream lp request t of
        Inl e \<Rightarrow> (Inl e, w1)
      | Inr events \<Rightarrow>
          (case answer_of_stream events of
             None \<Rightarrow> (Inl (OtherErr ''TransientError''
               (''the model stream ended without a completion event, which means it '' @
                ''aborted mid-token rather than finishing'')), w1)
           | Some a \<Rightarrow> (Inr (a, al_timings lp t), w1)))"

definition read_log :: "'s agent_loop \<Rightarrow> log_record list walked" where
  "read_log lp w =
     (let t = wk_tick w; s = en_others lp t (wk_store w) in
      (Inr (store_read s (j_run_id (wk_journal w)) 0 None), w\<lparr>wk_store := s, wk_tick := t + 1\<rparr>))"

text \<open>\<open>_sleep_unless_aborted\<close>: others write while it waits.\<close>

definition pause :: "'s agent_loop \<Rightarrow> rat \<Rightarrow> unit walked" where
  "pause lp seconds w =
     (if seconds \<le> 0 then (Inr (), w)
      else (Inr (), w\<lparr>wk_store := en_others lp (wk_tick w) (wk_store w), wk_tick := wk_tick w + 1\<rparr>))"

section \<open>Stop conditions\<close>

definition stopped_by_worker :: "abort_signal option \<Rightarrow> run_state_view \<Rightarrow> loop_outcome option" where
  "stopped_by_worker signal st =
     (case signal of
        None \<Rightarrow> None
      | Some g \<Rightarrow>
          if \<not> sg_set g \<or> view_aborted st then None
          else if sg_reason g = Some DeadlinePassed then
            Some \<lparr>lo_state = Aborted, lo_reason = ''the run passed its deadline'', lo_output = None,
              lo_failure = Some (guided_failure ''deadline'' ''The run passed its deadline and stopped at a turn boundary.'')\<rparr>
          else Some \<lparr>lo_state = Aborted, lo_reason = ''this worker stopped holding the run'', lo_output = None, lo_failure = None\<rparr>)"

definition loop_failed :: "string \<Rightarrow> tool_failure \<Rightarrow> loop_outcome" where
  "loop_failed reason f = \<lparr>lo_state = Failed, lo_reason = reason, lo_output = None, lo_failure = Some f\<rparr>"

definition stop_condition :: "'s agent_spec \<Rightarrow> abort_signal option \<Rightarrow> run_state_view \<Rightarrow> loop_outcome option" where
  "stop_condition spec signal st =
     (let limits = ag_limits spec in
      case stopped_by_worker signal st of
        Some o1 \<Rightarrow> Some o1
      | None \<Rightarrow>
     (case v_abort_seq st of
        Some q \<Rightarrow> Some \<lparr>lo_state = Aborted, lo_reason = ''an abort was requested at seq '' @ int_str q, lo_output = None, lo_failure = None\<rparr>
      | None \<Rightarrow>
      if v_suspended st then
        Some \<lparr>lo_state = Completed, lo_reason = ''the run suspended waiting for '' @
          (case v_suspend_reason st of Some x \<Rightarrow> suspend_reason_str x | None \<Rightarrow> ''None''), lo_output = None, lo_failure = None\<rparr>
      else case find (\<lambda>(tool, streak). streak \<ge> li_failure_streak_hard_stop limits) (v_failure_streaks st) of
        Some (tool, streak) \<Rightarrow>
          Some (loop_failed (repr_str tool @ '' failed '' @ int_str streak @ '' times in a row'')
            (guided_failure ''failure_streak'' (''The tool '' @ repr_str tool @ '' failed '' @ int_str streak @ '' consecutive times.'')))
      | None \<Rightarrow>
      if v_turn st \<ge> li_max_turns limits then
        Some (loop_failed (''the turn budget of '' @ int_str (li_max_turns limits) @ '' is spent'')
          (guided_failure ''budget_exhausted'' (''This run used all '' @ int_str (li_max_turns limits) @ '' of its turns.'')))
      else if int (length (v_tool_results st)) \<ge> li_max_steps limits then
        Some (loop_failed (''the step budget of '' @ int_str (li_max_steps limits) @ '' is spent'')
          (guided_failure ''budget_exhausted'' (''This run used all '' @ int_str (li_max_steps limits) @ '' of its steps.'')))
      else None))"

definition check_stop_conditions :: "'s agent_loop \<Rightarrow> loop_outcome option walked" where
  "check_stop_conditions lp w = (Inr (stop_condition (al_spec lp) (en_abort lp (wk_tick w)) (j_state (wk_journal w))), w)"

section \<open>Compaction\<close>

record compaction_try =
  cm_applied :: bool
  cm_failure :: "tool_failure option"

abbreviation not_compacted :: compaction_try where
  "not_compacted \<equiv> \<lparr>cm_applied = False, cm_failure = None\<rparr>"

definition compact :: "'s agent_loop \<Rightarrow> compaction_reason \<Rightarrow> log_record list \<Rightarrow> int \<Rightarrow> compaction_try walked" where
  "compact lp reason records last_seq =
     (case ag_compaction (al_spec lp) of
        None \<Rightarrow> give not_compacted
      | Some policy \<Rightarrow>
          let request = summarisation_request (al_spec lp) policy records last_seq (al_history lp) in
          (\<lambda>w. case call_model lp request w of
             (Inl e, w1) \<Rightarrow>
               if e = CancelledErr then (Inl e, w1)
               else let x = al_facts lp e in
                 with_failure (mk_tool_failure ''compaction_failed'' (failure_guidance ''compaction_failed''
                   (''The conversation had to be summarised to carry on, and the '' @
                    ''summarising call to '' @ repr_str (rm_model request) @ '' failed: '' @ ef_text x) (is_transient x) None)
                   (Some (traceback_of x)) (is_transient x) False) (\<lambda>f. give \<lparr>cm_applied = False, cm_failure = Some f\<rparr>) w1
           | (Inr (a, timings), w1) \<Rightarrow>
               (let summary = py_strip (ma_text a) in
                if summary = [] then
                  give \<lparr>cm_applied = False, cm_failure = Some (guided_failure ''compaction_failed''
                    (''The summarising call to '' @ repr_str (rm_model request) @ '' returned no text, '' @
                     ''so there is nothing to stand in for the conversation it was '' @ ''asked to replace.''))\<rparr>
                else look (\<lambda>st.
                  then_do (write_rec lp (CompactionApplied
                    \<lparr>ca_reason = reason, ca_timings = timings, ca_replaced_from_seq = v_compaction_boundary_seq st + 1,
                     ca_replaced_to_seq = last_seq, ca_summary = summary, ca_model = rm_model request, ca_usage = ma_usage a,
                     ca_usage_reported = ma_usage_reported a,
                     ca_cost = resolve_cost (rm_model request) (ma_usage a) (al_prices lp) (ma_reported_cost a)
                       (al_cost_policy lp) (ma_usage_reported a)\<rparr>)) (\<lambda>_.
                  give \<lparr>cm_applied = True, cm_failure = None\<rparr>))) w1))"

definition compact_if_over_threshold :: "'s agent_loop \<Rightarrow> compaction_try walked" where
  "compact_if_over_threshold lp =
     (case ag_compaction (al_spec lp) of
        None \<Rightarrow> give not_compacted
      | Some policy \<Rightarrow> look (\<lambda>st.
          if v_last_prompt_tokens st < cp_trigger_tokens policy then give not_compacted
          else then_do (read_log lp) (\<lambda>records. look (\<lambda>st1.
            case plan_cut records (v_compaction_boundary_seq st1) (cp_keep_recent_turns policy) of
              None \<Rightarrow> give not_compacted
            | Some last_seq \<Rightarrow> compact lp ByThreshold records last_seq))))"

definition overflow_cut :: "'s agent_loop \<Rightarrow> raised \<Rightarrow> log_record list \<Rightarrow> run_state_view \<Rightarrow> int option" where
  "overflow_cut lp e records st =
     (case ag_compaction (al_spec lp) of
        None \<Rightarrow> None
      | Some policy \<Rightarrow>
          if \<not> is_context_overflow (al_facts lp e) then None
          else plan_cut records (v_compaction_boundary_seq st) (cp_keep_recent_turns policy))"

section \<open>A failed model call\<close>

definition record_model_failure :: "'s agent_loop \<Rightarrow> int \<Rightarrow> string \<Rightarrow> raised \<Rightarrow> loop_outcome option walked" where
  "record_model_failure lp turn model e =
     (let x = al_facts lp e; transient = is_transient x; budget = li_transient_retry_budget (ag_limits (al_spec lp));
          message = failure_guidance (ef_type_name x) (ef_text x) transient None
      in look (\<lambda>st. let used = v_transient_retries_used st in
      then_do (read_log lp) (\<lambda>records. look (\<lambda>st1.
      let last_seq = (if transient then None else overflow_cut lp e records st1);
          will_retry = (transient \<and> used < budget \<or> last_seq \<noteq> None) in
      with_failure (mk_tool_failure (ef_type_name x) message (Some (traceback_of x)) transient False) (\<lambda>f.
      then_do (write_rec lp (ModelCallFailed \<lparr>mx_turn = turn, mx_model = model, mx_failure = f, mx_will_retry = will_retry\<rparr>)) (\<lambda>_.
      case last_seq of
        Some c \<Rightarrow>
          then_do (compact lp ByOverflow records c) (\<lambda>r. give
            (case cm_failure r of
               Some g \<Rightarrow> Some (loop_failed (''the conversation could not be compacted after the model refused it '' @ ''for being too long'') g)
             | None \<Rightarrow> None))
      | None \<Rightarrow>
          if will_retry then then_do (pause lp (retry_delay_seconds (used + 1) (ef_retry_after x))) (\<lambda>_. give None)
          else with_failure (mk_tool_failure (ef_type_name x) message None transient False) (\<lambda>g.
            give (Some (loop_failed
              (if transient then ''the model call failed and the transient budget of '' @ int_str budget @ '' is spent''
               else ''the model call failed with an error that will not succeed on retry'') g)))))))))"

section \<open>A turn\<close>

definition drain_entries :: "'s agent_loop \<Rightarrow> pending_queue_entry list \<Rightarrow> unit walked" where
  "drain_entries lp waiting =
     fold (\<lambda>e m. then_do m (\<lambda>_. then_do (write_rec lp (QueueConsumed \<lparr>qc_entry_id = pe_entry_id e\<rparr>)) (\<lambda>_. give ()))) waiting (give ())"

definition pending_in :: "queue_kind \<Rightarrow> run_state_view \<Rightarrow> pending_queue_entry list" where
  "pending_in queue st =
     (case queue of Steer \<Rightarrow> v_pending_steer st | FollowUp \<Rightarrow> v_pending_follow_up st | NextRun \<Rightarrow> v_pending_next_run st)"

definition drain :: "'s agent_loop \<Rightarrow> queue_kind \<Rightarrow> unit walked" where
  "drain lp queue = look (\<lambda>st. drain_entries lp (pending_in queue st))"

definition wait_for_children :: "'s agent_loop \<Rightarrow> child_ops \<Rightarrow> loop_outcome option walked" where
  "wait_for_children lp children =
     then_do (ch_reconcile children) (\<lambda>_. look (\<lambda>st.
     let live = live_children st; names = join '', '' (map cr_name live) in
     if live = [] then give None
     else then_do (clock lp) (\<lambda>now.
       then_do (write_rec lp (Suspended
         \<lparr>su_reason = Children, su_payload_schema = [],
          su_expires_at = now + seconds_us (sp_children_expires_seconds (ag_suspension (al_spec lp))), su_step_id = None,
          su_step_name = None, su_event = None, su_wake_at = None, su_pending_call_id = None,
          su_question = Some (''Waiting on '' @ nat_str (length live) @ '' subagent(s): '' @ names @ ''.''), su_questions = []\<rparr>)) (\<lambda>_.
       then_do (refresh_walk lp) (\<lambda>_. look (\<lambda>st1.
       if live_children st1 = [] then
         then_do (write_rec lp (Resumed \<lparr>re_payload = [(''woken_by'', JStr ''subagent''), (''while'', JStr ''suspending'')],
           re_approved = None, re_resumed_by = None\<rparr>)) (\<lambda>_. give None)
       else give (Some \<lparr>lo_state = Completed,
         lo_reason = ''waiting on '' @ nat_str (length live) @ '' subagent(s): '' @ names, lo_output = None, lo_failure = None\<rparr>)))))))"

definition finish_turn :: "'s agent_loop \<Rightarrow> int \<Rightarrow> model_request \<Rightarrow> model_answer \<Rightarrow> model_timings \<Rightarrow> tool_definition list \<Rightarrow>
    loop_outcome option walked" where
  "finish_turn lp turn request a timings definitions =
     then_do (write_rec lp (ModelCallFinished
       \<lparr>mf_turn = turn, mf_model = rm_model request, mf_usage = ma_usage a, mf_usage_reported = ma_usage_reported a,
        mf_cost = resolve_cost (rm_model request) (ma_usage a) (al_prices lp) (ma_reported_cost a) (al_cost_policy lp)
          (ma_usage_reported a),
        mf_timings = timings, mf_finish_reason = ma_finish_reason a, mf_text = ma_text a,
        mf_tool_calls = List.map_filter ac_id (ma_calls a)\<rparr>)) (\<lambda>_.
     if ma_calls a = [] then look (\<lambda>st.
       if v_pending_follow_up st \<noteq> [] then then_do (drain lp FollowUp) (\<lambda>_. give None)
       else case (if live_children st = [] then None else al_children lp) of
         Some children \<Rightarrow> wait_for_children lp children
       | None \<Rightarrow> give (Some \<lparr>lo_state = Completed, lo_reason = ''the model finished with no tool calls'',
           lo_output = Some [(''text'', JStr (ma_text a))], lo_failure = None\<rparr>))
     else then_do (run_tool_calls lp definitions 0 (ma_calls a)) (\<lambda>_. give None))"

definition system_text :: "message list \<Rightarrow> string" where
  "system_text messages = (case messages of SystemMessage s # _ \<Rightarrow> s | _ \<Rightarrow> [])"

text \<open>\<open>_turn\<close> after and from the record that opens the turn.\<close>

definition in_turn :: "'s agent_loop \<Rightarrow> int \<Rightarrow> resolved_tools \<Rightarrow> loop_outcome option walked" where
  "in_turn lp turn resolved =
     then_do (drain lp Steer) (\<lambda>_.
     then_do (read_log lp) (\<lambda>records.
     let messages = assemble (al_spec lp) (al_history lp @ build_conversation records) (al_memories lp) (rt_advisories resolved);
         request = turn_request lp messages (rt_definitions resolved) in
     then_do (write_rec lp (ModelCallStarted
       \<lparr>ms_turn = turn, ms_model = rm_model request, ms_prompt_tokens_estimate = None,
        ms_tool_names = map td_name (rt_definitions resolved), ms_system_prompt = system_text messages\<rparr>)) (\<lambda>_.
     (\<lambda>w. case call_model lp request w of
        (Inl e, w1) \<Rightarrow> if e = CancelledErr then (Inl e, w1) else record_model_failure lp turn (rm_model request) e w1
      | (Inr (a, timings), w1) \<Rightarrow> finish_turn lp turn request a timings (rt_definitions resolved) w1))))"

definition open_turn :: "'s agent_loop \<Rightarrow> int \<Rightarrow> resolved_tools \<Rightarrow> loop_outcome option walked" where
  "open_turn lp turn resolved =
     then_do (write_rec lp (TurnStarted \<lparr>tu_turn = turn, tu_step_id = al_step_id lp\<rparr>)) (\<lambda>_. in_turn lp turn resolved)"

definition build_run_code :: "'s agent_loop \<Rightarrow> resolved_tools \<Rightarrow> resolved_tools" where
  "build_run_code lp resolved =
     (if al_run_code lp = None \<or> ''run_code'' \<notin> td_name ` set (rt_definitions resolved) then resolved else al_with_run_code lp resolved)"

text \<open>The tools of the turn, or why there are none: an \<open>AccessDenied\<close> of the resolver ends the loop.\<close>

definition resolve_tools :: "'s agent_loop \<Rightarrow> (loop_outcome + resolved_tools) walked" where
  "resolve_tools lp = look (\<lambda>st. \<lambda>w.
     case al_resolve lp (v_failure_streaks st)
            (extra_tools (al_builtins lp) (al_reader lp) (al_run_code lp) (al_delegate lp \<noteq> None) (al_children lp \<noteq> None)
               (al_spec lp) st) w of
       (Inl e, w1) \<Rightarrow>
         let x = al_facts lp e in
         if \<not> ef_access_denied x then (Inl e, w1)
         else with_failure (mk_tool_failure ''tool_resolution'' (failure_guidance ''tool_resolution''
           (''The tools for this turn could not be resolved. '' @ ef_text x) False None) (Some (traceback_of x)) False False) (\<lambda>f.
           give (Inl (loop_failed (''the tool set could not be resolved: '' @ ef_text x) f))) w1
     | (Inr resolved, w1) \<Rightarrow> (Inr (Inr (build_run_code lp resolved)), w1))"

definition one_turn :: "'s agent_loop \<Rightarrow> loop_outcome option walked" where
  "one_turn lp =
     then_do (refresh_walk lp) (\<lambda>_.
     then_do (compact_if_over_threshold lp) (\<lambda>compaction.
     case cm_failure compaction of
       Some f \<Rightarrow> give (Some (loop_failed ''the conversation could not be compacted'' f))
     | None \<Rightarrow> look (\<lambda>st.
         then_do (resolve_tools lp) (\<lambda>r.
         case r of Inl o1 \<Rightarrow> give (Some o1) | Inr resolved \<Rightarrow> open_turn lp (v_turn st + 1) resolved))))"

section \<open>The loop\<close>

fun run_from :: "'s agent_loop \<Rightarrow> nat \<Rightarrow> loop_outcome option walked" where
  "run_from lp 0 = give None"
| "run_from lp (Suc fuel) =
     then_do (check_stop_conditions lp) (\<lambda>stop.
     case stop of
       Some o1 \<Rightarrow> give (Some o1)
     | None \<Rightarrow> then_do (one_turn lp) (\<lambda>outcome. case outcome of Some o1 \<Rightarrow> give (Some o1) | None \<Rightarrow> run_from lp fuel))"

definition turns_left :: "'s agent_loop \<Rightarrow> run_state_view \<Rightarrow> nat" where
  "turns_left lp st = Suc (nat (li_max_turns (ag_limits (al_spec lp)) - v_turn st))"

text \<open>\<open>AgentLoop.run\<close>. The error is never raised.\<close>

definition run_loop :: "'s agent_loop \<Rightarrow> loop_outcome walked" where
  "run_loop lp =
     then_do (settle_dangling_calls lp) (\<lambda>_. look (\<lambda>st.
     then_do (run_from lp (turns_left lp st)) (\<lambda>outcome.
     case outcome of Some o1 \<Rightarrow> give o1 | None \<Rightarrow> raise_it (OtherErr ''RuntimeError'' ''unreachable''))))"

section \<open>Who runs a loop\<close>

text \<open>\<open>_nested_agent\<close>: an agent inside a workflow step.\<close>

definition nested_agent :: "'s agent_loop \<Rightarrow> obj option walked" where
  "nested_agent lp =
     then_do (run_loop lp) (\<lambda>o1. case lo_failure o1 of Some f \<Rightarrow> raise_it (StepFailedErr f) | None \<Rightarrow> give (lo_output o1))"

definition settle_with :: "'e surroundings_scheme \<Rightarrow> terminal_state \<Rightarrow> obj option \<Rightarrow> tool_failure option \<Rightarrow> unit walked" where
  "settle_with en state output failure =
     then_do (write_rec en (RunSettled \<lparr>rs_state = state, rs_output = output, rs_failure = failure, rs_orphaned_attempt_id = None\<rparr>))
       (\<lambda>_. give ())"

text \<open>A signal other than the deadline leaves the Run to the next Worker.\<close>

definition handed_over :: "'e surroundings_scheme \<Rightarrow> walk \<Rightarrow> bool" where
  "handed_over en w =
     (case en_abort en (wk_tick w) of None \<Rightarrow> False | Some g \<Rightarrow> sg_set g \<and> sg_reason g \<noteq> Some DeadlinePassed)"

definition run_agent :: "'s agent_loop \<Rightarrow> unit walked" where
  "run_agent lp =
     then_do (run_loop lp) (\<lambda>o1. \<lambda>w.
       let st = j_state (wk_journal w) in
       if v_settled st \<or> v_suspended st then (Inr (), w)
       else if handed_over lp w then (Inr (), w)
       else settle_with lp (lo_state o1) (lo_output o1) (lo_failure o1) w)"

definition wake_timer :: "'e surroundings_scheme \<Rightarrow> unit walked" where
  "wake_timer en =
     look (\<lambda>st. if \<not> v_suspended st \<or> v_suspend_reason st \<noteq> Some Timer then give ()
       else let woken = then_do (write_rec en (Resumed \<lparr>re_payload = [(''woken_by'', JStr ''timer'')], re_approved = None,
              re_resumed_by = None\<rparr>)) (\<lambda>_. give ()) in
         case v_suspend_wake_at st of
           None \<Rightarrow> woken
         | Some wake_at \<Rightarrow> then_do (clock en) (\<lambda>now. if now < wake_at then give () else woken))"

definition settle_aborted :: "'e surroundings_scheme \<Rightarrow> unit walked" where
  "settle_aborted en =
     look (\<lambda>st. if v_settled st then give ()
       else settle_with en Aborted None (Some (guided_failure ''deadline''
         (''The run passed its deadline and was asked to stop. It unwound '' @
          ''within the grace period, so this is a clean abort rather than a '' @ ''force-settlement.''))))"

end
