(* ===== verification/LoopFacts.thy ===== *)
theory LoopFacts
  imports Agent
begin

text \<open>
  What the agent loop keeps. The locale \<open>quiet_loop\<close> carries a relation that every append but the start of a call
  keeps across all of the loop that starts no call; \<open>loop_relation\<close> carries one that every append keeps across
  the whole loop. What the loop is given has to keep it too (\<open>callers_keep\<close>).

  Instances: the turn number never falls, so the loop ends within its turns; and what starts no call opens none,
  so that no call is left open by a turn, by a crash recovery or by a settlement.
\<close>

section \<open>The contract of what the loop is given\<close>

definition callers_keep :: "(walk \<Rightarrow> walk \<Rightarrow> bool) \<Rightarrow> 's agent_loop \<Rightarrow> bool" where
  "callers_keep R lp \<longleftrightarrow>
     (\<forall>streaks extra. carries R (al_resolve lp streaks extra)) \<and>
     (\<forall>cid name arguments. carries R (executor_call (al_executor lp) (al_spec lp) cid name arguments)) \<and>
     (\<forall>arguments. carries R (ex_resolve_target (al_executor lp) (al_spec lp) arguments)) \<and>
     (\<forall>name arguments. carries R (al_policy lp name arguments)) \<and>
     (\<forall>st arguments. carries R (al_read_output lp st arguments)) \<and>
     (\<forall>f ref task depth. al_delegate lp = Some f \<longrightarrow> carries R (f ref task depth)) \<and>
     (\<forall>put k bs ct m. al_blob lp = Some put \<longrightarrow> carries R (put k bs ct m)) \<and>
     (\<forall>ch. al_children lp = Some ch \<longrightarrow> carries R (ch_reconcile ch) \<and> (\<forall>c. carries R (ch_check ch c)) \<and>
        (\<forall>cid q d. carries R (ch_spawn ch cid q d)) \<and> (\<forall>cid c t. carries R (ch_message ch cid c t)))"

context journal_relation
begin

lemma over_here: "(\<And>w. carries R (m w)) \<Longrightarrow> carries R (\<lambda>w. m w w)"
  by (simp add: carries_def)

lemma over_try: "carries R m \<Longrightarrow> (\<And>r. carries R (h r)) \<Longrightarrow> carries R (\<lambda>w. case m w of (r, w1) \<Rightarrow> h r w1)"
proof (unfold carries_def, intro allI)
  fix w
  assume "\<forall>w. R w (snd (m w))" and "\<And>r. \<forall>w. R w (snd (h r w))"
  then show "R w (snd (case m w of (r, w1) \<Rightarrow> h r w1))"
    by (cases "m w") (metis (no_types, lifting) compose prod.case snd_conv)
qed

lemma over_denied: "carries R (raise_denied d)"
  by (simp add: raise_denied_def over_raise)

lemma over_or_denied: "(\<And>x. r = Inr x \<Longrightarrow> carries R (f x)) \<Longrightarrow> carries R (or_denied r f)"
  by (simp add: or_denied_def over_denied split: sum.split)

lemma over_with_failure: "(\<And>f. x = Some f \<Longrightarrow> carries R (g f)) \<Longrightarrow> carries R (with_failure x g)"
  by (simp add: with_failure_def over_raise split: option.split)

lemma over_with_key: "(\<And>k. x = Inr k \<Longrightarrow> carries R (g k)) \<Longrightarrow> carries R (with_key x g)"
  by (simp add: with_key_def over_raise split: sum.split)

lemma over_lift_raised: "carries R (lift_raised r)"
  by (simp add: lift_raised_def over_raise over_give split: sum.split)

lemma over_call_model: "carries R (call_model lp request)"
  by (auto simp: carries_def call_model_def Let_def same_journal split: sum.split option.split)

lemma over_read_log: "carries R (read_log lp)"
  by (simp add: carries_def read_log_def Let_def same_journal)

lemma over_pause: "carries R (pause lp q)"
  by (simp add: carries_def pause_def Let_def same_journal)

lemma over_mint: "carries R (mint lp p)"
  by (simp add: carries_def mint_def still)

lemma over_reraise: "carries R m \<Longrightarrow> carries R (\<lambda>w. if P then (Inl e, w) else m w)"
  by (simp add: carries_def still)

lemma over_stop_conditions: "carries R (check_stop_conditions lp)"
  by (simp add: carries_def check_stop_conditions_def still)

lemmas over_small = over_glue over_denied over_or_denied over_with_failure over_with_key over_lift_raised over_call_model
  over_read_log over_pause over_mint over_stop_conditions

end

section \<open>What starts no call\<close>

locale quiet_loop = quiet_relation R lp for R and lp :: "'s agent_loop"
begin

lemma over_finish_call: "carries R (finish_call lp b)"
  unfolding finish_call_def by (intro over_then over_give over_quiet) (simp add: quiet_def)

lemma over_answer_failed: "carries R (answer_failed lp cid o1 kind text)"
  unfolding answer_failed_def by (rule over_finish_call)

lemma over_settle_question: "carries R (settle_question lp cid reply)"
  unfolding settle_question_def by (rule over_finish_call)

lemma over_suspend_call: "carries R (suspend_call lp cid reason q question questions)"
  unfolding suspend_call_def by (intro over_then over_give over_clock over_quiet) (simp add: quiet_def)

lemma over_gate_question: "carries R (gate_question lp cid arguments)"
  unfolding gate_question_def Let_def
  by (intro over_glue over_settle_question over_answer_failed over_suspend_call)

lemma over_keep_attachments:
  "callers_keep R lp \<Longrightarrow> carries R (keep_attachments lp cid preserve n handles omitted stored ps)"
proof (induction ps arbitrary: preserve n handles omitted stored)
  case (Cons p ps)
  then have i: "carries R (keep_attachments lp cid v n' handles' omitted' stored' ps)" for v n' handles' omitted' stored' by simp
  from Cons.prems have put: "al_blob lp = Some put \<Longrightarrow> carries R (put k bs ct m)" for put k bs ct m by (auto simp: callers_keep_def)
  have failed: "carries R (then_do (answer_failed lp cid o1 kind msg)
      (\<lambda>_. give (None :: ((string, string option) dict \<times> (string, int) dict \<times> result_attachment list) option)))" for o1 kind msg
    by (intro over_then over_answer_failed over_give)
  have blob: "carries R (\<lambda>w. with_key (key_of w) (\<lambda>key. then_do (f key (pa_data p) ct m)
      (\<lambda>_. keep_attachments lp cid preserve n h1 omitted st1 ps)) w)" if "al_blob lp = Some f" for f key_of ct m h1 st1
    by (rule over_here, rule over_with_key, rule over_then, rule put[OF that], rule i)
  show ?case by (auto simp: Let_def i failed split: option.split if_splits intro!: blob)
qed (simp add: over_give)

lemma over_record_result:
  assumes "callers_keep R lp" shows "carries R (record_result lp cid j attachments q)"
proof -
  from assms have put: "al_blob lp = Some put \<Longrightarrow> carries R (put k bs ct m)" for put k bs ct m by (auto simp: callers_keep_def)
  show ?thesis
  proof (cases "al_blob lp")
    case None
    then show ?thesis unfolding record_result_def Let_def by (simp add: over_finish_call)
  next
    case (Some f)
    show ?thesis unfolding record_result_def Let_def Some option.case
      by (rule over_if, rule over_finish_call, rule over_here, rule over_with_key, rule over_then, rule put[OF Some], rule over_finish_call)
  qed
qed

lemma over_record_success: "callers_keep R lp \<Longrightarrow> carries R (record_success lp cid v q)"
  unfolding record_success_def store_attachments_def
  by (auto split: tool_value.split option.split prod.split intro!: over_small over_keep_attachments over_record_result)

lemma over_record_raised: "carries R (record_raised lp cid name e q)"
  unfolding record_raised_def Let_def by (intro over_small over_finish_call)

lemma over_delegate: "callers_keep R lp \<Longrightarrow> carries R (delegate_to_subagent lp n arguments)"
  unfolding delegate_to_subagent_def Let_def callers_keep_def by (cases "al_delegate lp") (auto intro!: over_small)

lemma over_composed: "callers_keep R lp \<Longrightarrow> carries R (composed_subagent lp cid name arguments)"
  unfolding composed_subagent_def spawn_subagent_def Let_def callers_keep_def
  by (cases "al_children lp"; cases "ag_spawn (al_spec lp)") (auto intro!: over_small)

lemma over_call_body: "callers_keep R lp \<Longrightarrow> carries R (call_body lp n cid name arguments)"
  unfolding call_body_def
  by (intro over_if over_then over_give over_look over_delegate over_composed) (auto simp: callers_keep_def)

lemma over_run_and_record: "callers_keep R lp \<Longrightarrow> carries R (run_and_record lp n cid name arguments)"
proof (unfold carries_def, intro allI)
  fix w assume c: "callers_keep R lp"
  obtain r w1 where b: "call_body lp n cid name arguments w = (r, w1)" by (cases "call_body lp n cid name arguments w")
  with over_call_body[OF c] have "R w w1" by (metis carries_def snd_conv)
  moreover have "carries R (then_do (record_success lp cid v q) (\<lambda>_. give k))"
      "carries R (then_do (record_raised lp cid name e q) (\<lambda>_. give k))" for v e q and k :: "int \<times> tool_value option"
    by (intro over_then over_give over_record_success over_record_raised c)+
  ultimately show "R w (snd (run_and_record lp n cid name arguments w))"
    using b by (auto simp: run_and_record_def Let_def carries_def intro: compose split: sum.split)
qed

lemma over_execute: "callers_keep R lp \<Longrightarrow> carries R (execute_and_record lp n cid name arguments)"
  unfolding execute_and_record_def by (intro over_then over_give over_run_and_record)

lemma over_target: "callers_keep R lp \<Longrightarrow> carries R (resolve_call_tool_target lp arguments)"
  unfolding resolve_call_tool_target_def Let_def by (intro over_then over_if over_give) (auto simp: callers_keep_def)

lemma over_policy: "callers_keep R lp \<Longrightarrow> carries R (policy_decision lp name arguments)"
proof (unfold carries_def, intro allI)
  fix w assume "callers_keep R lp"
  then have "R w (snd (al_policy lp name arguments w))" by (simp add: callers_keep_def carries_def)
  then show "R w (snd (policy_decision lp name arguments w))"
    by (cases "al_policy lp name arguments w") (auto simp: policy_decision_def split: sum.split)
qed

lemma over_gate_decided: "callers_keep R lp \<Longrightarrow> carries R (gate_decided lp cid name arguments d)"
  unfolding gate_decided_def by (intro over_then over_if over_give over_policy over_suspend_call over_answer_failed)

lemma over_gate: "callers_keep R lp \<Longrightarrow> carries R (the_gate lp cid name arguments offered)"
  unfolding the_gate_def
  by (auto split: option.split bool.split prod.split
        intro!: over_small over_gate_question over_answer_failed over_target over_gate_decided)

lemma over_settle_one: "callers_keep R lp \<Longrightarrow> carries R (settle_one lp decisions answers n c)"
  unfolding settle_one_def Let_def
  by (auto split: option.split bool.split intro!: over_small over_execute over_settle_question over_answer_failed)

lemma over_settle_calls: "callers_keep R lp \<Longrightarrow> carries R (settle_calls lp decisions answers n cs)"
  by (induction cs arbitrary: n) (simp_all add: over_give over_then over_settle_one)

lemma over_settle_dangling: "callers_keep R lp \<Longrightarrow> carries R (settle_dangling_calls lp)"
  unfolding settle_dangling_calls_def by (intro over_look over_settle_calls)

lemma over_one_call: "callers_keep R lp \<Longrightarrow> carries R (one_call lp offered n cid d name arguments f)"
  unfolding one_call_def Let_def
  by (intro over_option over_then over_if over_look over_give over_answer_failed over_finish_call over_gate over_execute over_refresh)

lemma over_resolve_tools: "callers_keep R lp \<Longrightarrow> carries R (resolve_tools lp)"
proof -
  assume c: "callers_keep R lp"
  then have r: "carries R (al_resolve lp streaks extra)" for streaks extra by (simp add: callers_keep_def)
  have refused: "carries R (\<lambda>w. if P then (Inl e, w) else with_failure x (\<lambda>f. give (g f)) w)" for P e x g
    by (intro over_reraise over_with_failure over_give)
  have t: "carries R (\<lambda>w. case r of Inl e \<Rightarrow> if P e then (Inl e, w) else with_failure (x e) (\<lambda>f. give (g e f)) w
      | Inr resolved \<Rightarrow> (Inr (h resolved), w))" for P x g h and r :: "raised + resolved_tools"
    by (cases r) (simp_all add: refused, simp add: carries_def still)
  show ?thesis unfolding resolve_tools_def Let_def by (intro over_look over_try r t)
qed

lemma over_compact: "carries R (compact lp reason records q)"
proof -
  have w: "carries R (write_rec lp (CompactionApplied b))" for b by (rule over_quiet) (simp add: quiet_def)
  have t: "(\<And>e. carries R (f e)) \<Longrightarrow> (\<And>a ts. carries R (g a ts)) \<Longrightarrow>
      carries R (\<lambda>w. case r of Inl e \<Rightarrow> f e w | Inr (a, ts) \<Rightarrow> g a ts w)" for f g and r :: "raised + model_answer \<times> model_timings"
    by (cases r) (auto simp: split_def)
  show ?thesis unfolding compact_def Let_def
    by (intro over_option over_give over_try over_call_model t over_reraise over_with_failure over_if over_look over_then w)
qed

lemma over_compact_if: "carries R (compact_if_over_threshold lp)"
  unfolding compact_if_over_threshold_def by (auto split: option.split intro!: over_small over_compact)

lemma over_model_failure: "carries R (record_model_failure lp turn model e)"
proof -
  have w: "carries R (write_rec lp (ModelCallFailed b))" for b by (rule over_quiet) (simp add: quiet_def)
  show ?thesis unfolding record_model_failure_def Let_def
    by (auto split: option.split intro!: over_small over_compact w)
qed

lemma over_drain_entries: "carries R (drain_entries lp es)"
proof (induction es rule: rev_induct)
  case (snoc e es)
  have "carries R (write_rec lp (QueueConsumed b))" for b by (rule over_quiet) (simp add: quiet_def)
  with snoc show ?case by (simp add: drain_entries_def over_then over_give)
qed (simp add: drain_entries_def over_give)

lemma over_drain: "carries R (drain lp q)"
  unfolding drain_def by (intro over_look over_drain_entries)

lemma over_wait: "carries R (ch_reconcile ch) \<Longrightarrow> carries R (wait_for_children lp ch)"
proof -
  assume r: "carries R (ch_reconcile ch)"
  have w: "carries R (write_rec lp (Suspended b))" "carries R (write_rec lp (Resumed b'))" for b b'
    by (auto intro!: over_quiet simp: quiet_def)
  show ?thesis unfolding wait_for_children_def Let_def by (intro over_small r w over_refresh)
qed

end

section \<open>The whole loop\<close>

locale loop_relation = quiet_loop R lp + await_relation R lp for R and lp :: "'s agent_loop"
begin

lemma over_start: "carries R (start_call lp cid name shown arguments)"
  unfolding start_call_def by (intro over_look over_then over_give over_write)

lemma over_answer_unstarted: "carries R (answer_unstarted lp why cs)"
  by (induction cs) (auto intro!: over_glue over_mint over_start over_answer_failed split: prod.split)

lemma over_run_tool_calls: "callers_keep R lp \<Longrightarrow> carries R (run_tool_calls lp offered n cs)"
proof (induction cs arbitrary: n)
  case (Cons c cs)
  have rest: "carries R (case stop of Some why \<Rightarrow> answer_unstarted lp why cs | None \<Rightarrow> run_tool_calls lp offered n' cs)" for stop n'
    using Cons by (simp add: over_answer_unstarted split: option.split)
  have call: "carries R (then_do (start_call lp cid name shown arguments) (\<lambda>_.
      then_do (one_call lp offered n cid d name arguments f) (\<lambda>(n', stop). case stop of Some why \<Rightarrow> answer_unstarted lp why cs
        | None \<Rightarrow> run_tool_calls lp offered n' cs)))" for cid name shown arguments d f
    by (rule over_then, rule over_start, rule over_then, rule over_one_call, rule Cons.prems) (simp add: rest split: prod.split)
  show ?case unfolding run_tool_calls.simps Let_def
    by (rule over_then, rule over_mint) (simp add: call split: prod.split)
qed (simp add: over_give)

lemma over_finish_turn: "callers_keep R lp \<Longrightarrow> carries R (finish_turn lp turn request a ts definitions)"
proof -
  assume c: "callers_keep R lp"
  then have "al_children lp = Some ch \<Longrightarrow> carries R (wait_for_children lp ch)" for ch
    by (intro over_wait) (simp add: callers_keep_def)
  then show ?thesis unfolding finish_turn_def
    by (intro over_then over_write over_if over_look over_drain over_give over_run_tool_calls c)
       (auto intro: over_give split: option.split)
qed

lemma over_in_turn: "callers_keep R lp \<Longrightarrow> carries R (in_turn lp turn resolved)"
proof -
  assume c: "callers_keep R lp"
  have t: "(\<And>e. carries R (f e)) \<Longrightarrow> (\<And>a ts. carries R (g a ts)) \<Longrightarrow>
      carries R (\<lambda>w. case r of Inl e \<Rightarrow> if e = CancelledErr then (Inl e, w) else f e w | Inr (a, ts) \<Rightarrow> g a ts w)"
    for f g and r :: "raised + model_answer \<times> model_timings"
    by (cases r) (auto simp: split_def over_reraise)
  show ?thesis unfolding in_turn_def Let_def
    by (intro over_then over_write over_drain over_read_log over_try over_call_model t over_model_failure over_finish_turn c)
qed

lemma over_open_turn: "callers_keep R lp \<Longrightarrow> carries R (open_turn lp turn resolved)"
  unfolding open_turn_def by (intro over_then over_write over_in_turn)

lemma over_turn: "callers_keep R lp \<Longrightarrow> carries R (one_turn lp)"
  unfolding one_turn_def
  by (intro over_then over_refresh over_compact_if over_option over_give over_look over_resolve_tools over_sum over_open_turn)

lemma over_run_from: "callers_keep R lp \<Longrightarrow> carries R (run_from lp fuel)"
  by (induction fuel) (auto intro!: over_then over_give over_stop_conditions over_turn split: option.split)

lemma over_run: "callers_keep R lp \<Longrightarrow> carries R (run_loop lp)"
  unfolding run_loop_def by (intro over_then over_settle_dangling over_look over_run_from over_option over_raise over_give)

end

section \<open>Turns\<close>

definition turns_grow :: "walk \<Rightarrow> walk \<Rightarrow> bool" where
  "turns_grow w w' \<longleftrightarrow> v_turn (j_state (wk_journal w)) \<le> v_turn (j_state (wk_journal w'))"

lemma turn_step: "fold_step s r = Inr s' \<Longrightarrow> v_turn (fst s) \<le> v_turn (fst s') \<and>
    (case r_body r of TurnStarted b \<Rightarrow> v_turn (fst s') = tu_turn b \<and> v_turn (fst s) < tu_turn b | _ \<Rightarrow> True)"
  using fold_step_applies[of s r s']
  by (cases "r_body r") (auto simp: op_defs Let_def remove_entry_def split: if_splits option.splits sum.splits prod.splits)

interpretation turn_order: state_relation "\<lambda>st st'. v_turn st \<le> v_turn st'"
  by unfold_locales (auto dest: turn_step)

lemma turns_grow_lifted: "turns_grow = turn_order.lifted"
  by (intro ext) (simp add: turns_grow_def turn_order.lifted_def)

interpretation turn_loop: loop_relation turns_grow lp for lp
  unfolding turns_grow_lifted by unfold_locales

end
