(* ===== verification/LoopSamples.thy ===== *)
theory LoopSamples
  imports Agent WalkSamples
begin

text \<open>
  A concrete agent loop for the witnesses: two registered tools, \<open>read\<close> (safe to retry) and \<open>refund\<close> (not), a
  model whose stream is given, a policy, and one body for both tools.
\<close>

definition s_spec :: "unit agent_spec agent_spec" where
  "s_spec = \<lparr>ag_name = ''a'', ag_description = [], ag_instructions = ''help'',
     ag_model = \<lparr>mr_model = ''m'', mr_temperature = None, mr_top_p = None, mr_max_output_tokens = None,
       mr_reasoning_effort = None, mr_fallbacks = []\<rparr>,
     ag_tools = [\<lparr>to_name = ''read'', to_http = False, to_interruptible = True\<rparr>,
                 \<lparr>to_name = ''refund'', to_http = False, to_interruptible = False\<rparr>],
     ag_mcp_servers = [], ag_a2a_peers = [], ag_skills = [], ag_subagents = [], ag_spawn = None,
     ag_compaction = None, ag_code_execution = False, ag_limits = default_limits, ag_suspension = default_suspension,
     ag_tasks_enabled = False, ag_components_enabled = False, ag_answer_style = None\<rparr>"

definition s_tool_named :: "string \<Rightarrow> tool_definition" where
  "s_tool_named name = \<lparr>td_name = name, td_description = [], td_input_schema = [], td_annotations = []\<rparr>"

definition s_executor :: "(obj \<Rightarrow> tool_value walked) \<Rightarrow> unit executor" where
  "s_executor tool = \<lparr>ex_registry = [''read'' \<mapsto> \<lparr>rg_call = tool, rg_safe_to_retry = True\<rparr>,
       ''refund'' \<mapsto> \<lparr>rg_call = tool, rg_safe_to_retry = False\<rparr>],
     ex_http_caller = None, ex_mcp_caller = None, ex_code_caller = None, ex_discovery = None,
     ex_resolve_target = \<lambda>_ _. give None, ex_a2a_caller = None\<rparr>"

definition s_facts :: "raised \<Rightarrow> error_facts" where
  "s_facts e = \<lparr>ef_cancelled = False, ef_access_denied = False, ef_transient_class = False, ef_errno = None, ef_status = None,
     ef_retry_after = None, ef_problems = None, ef_type_name = ''E'', ef_text = [], ef_traceback = []\<rparr>"

definition s_loop :: "stream_event list \<Rightarrow> decision \<Rightarrow> (obj \<Rightarrow> tool_value walked) \<Rightarrow> unit agent_loop" where
  "s_loop events d tool = \<lparr>en_now = int, en_abort = \<lambda>_. None, en_others = \<lambda>_. id,
     al_spec = s_spec, al_step_id = None, al_stream = \<lambda>_ _. Inr events,
     al_timings = \<lambda>_. \<lparr>mt_queue_wait_seconds = 0, mt_time_to_first_token_seconds = None, mt_stream_duration_seconds = 0\<rparr>,
     al_resolve = \<lambda>_ _. give \<lparr>rt_definitions = [s_tool_named ''read'', s_tool_named ''refund''], rt_advisories = []\<rparr>,
     al_executor = s_executor tool, al_prices = None, al_cost_policy = PreferProvider, al_memories = [],
     al_policy = \<lambda>_ _. give d, al_approval_selectors = [], al_always_approve = [], al_never_approve = [],
     al_delegate = None, al_children = None, al_builtins = [], al_reader = s_tool_named ''read_tool_output'',
     al_run_code = None, al_with_run_code = id, al_read_output = \<lambda>_ _. give JNull,
     al_validate_spawn = \<lambda>_. Inl ValidationErr, al_blob = None, al_blob_offload_bytes = 300000, al_history = [],
     al_new_call_id = \<lambda>t. ''minted_'' @ nat_str t, al_json_loads = \<lambda>_. Inr (JObj []), al_elapsed = \<lambda>_ _. 0,
     al_facts = s_facts\<rparr>"

definition s_allow :: decision where
  "s_allow = \<lparr>de_allowed = True, de_reason = [], de_requires_approval = False\<rparr>"

definition s_deny :: decision where
  "s_deny = \<lparr>de_allowed = False, de_reason = ''no'', de_requires_approval = False\<rparr>"

definition s_says :: "string \<Rightarrow> stream_event list" where
  "s_says text1 = [TextDelta text1, StreamDone usage_zero True None ''stop'']"

text \<open>A state with one open call.\<close>

definition s_open_call :: "call_id \<Rightarrow> string \<Rightarrow> bool \<Rightarrow> open_tool_call" where
  "s_open_call cid tool safe = \<lparr>oc_call_id = cid, oc_tool = tool, oc_arguments = [], oc_turn = 1, oc_step_id = None,
     oc_interruptible = True, oc_safe_to_retry = safe, oc_started_at = 0\<rparr>"

definition s_with_open :: "call_id \<Rightarrow> string \<Rightarrow> bool \<Rightarrow> run_state_view" where
  "s_with_open cid tool safe = s_state\<lparr>v_open_tool_calls := [(cid, s_open_call cid tool safe)], v_turn := 1\<rparr>"

section \<open>Walks over a log\<close>

text \<open>A walk that has just opened a log.\<close>

definition s_run :: "body list \<Rightarrow> (walk \<Rightarrow> bool) \<Rightarrow> bool" where
  "s_run bs P = (case journal_open (s_store bs) ''run'' s_scope None of
     Inl _ \<Rightarrow> False | Inr j \<Rightarrow> P \<lparr>wk_journal = j, wk_store = s_store bs, wk_tick = 0\<rparr>)"

lemma s_runD: "s_run bs P \<Longrightarrow> \<exists>rs w. reduce (Some ''run'') None rs = Inr (j_state (wk_journal w)) \<and> P w"
  by (auto simp: s_run_def journal_open_def split: sum.splits)
     (rule exI[of _ "store_read (s_store bs) ''run'' 0 None"], force)

definition returns_some :: "(raised + 'x) \<times> walk \<Rightarrow> bool" where
  "returns_some rw = (case fst rw of Inl _ \<Rightarrow> False | Inr _ \<Rightarrow> True)"

lemma returns_someD: "returns_some rw \<Longrightarrow> \<exists>x w'. rw = (Inr x, w')"
  by (cases rw) (auto simp: returns_some_def split: sum.splits)

end
