(* ===== verification/LoopEnds.thy ===== *)
theory LoopEnds
  imports LoopFacts LoopSamples
begin

text \<open>
  How an agent loop ends: within its turns, and with a failure whenever it reports one.
\<close>

section \<open>A turn that goes on has opened one\<close>

lemma opens_turn:
  assumes "write_rec lp (TurnStarted b) w = (Inr r, w')"
  shows "v_turn (j_state (wk_journal w')) = tu_turn b"
proof -
  from write_last[OF assms] obtain u cx where b: "r_body r = TurnStarted b"
      and f: "fold_step u r = Inr (j_state (wk_journal w'), cx)"
    by (auto simp: folded_last_def)
  with turn_step[OF f] b show ?thesis by simp
qed

text \<open>A piece that returns None leaves a later turn number than \<open>n\<close>.\<close>

definition advances :: "int \<Rightarrow> 'x option walked \<Rightarrow> walk \<Rightarrow> bool" where
  "advances n m w \<longleftrightarrow> yields m (\<lambda>r w'. r = None \<longrightarrow> n < v_turn (j_state (wk_journal w'))) w"

lemma advances_carried: "carries turns_grow m \<Longrightarrow> n < v_turn (j_state (wk_journal w)) \<Longrightarrow> advances n m w"
  by (auto simp: advances_def yields_def carries_def turns_grow_def dest: spec[of _ w])

lemma advances_then:
  "carries turns_grow m \<Longrightarrow> n \<le> v_turn (j_state (wk_journal w)) \<Longrightarrow>
   (\<And>x w'. n \<le> v_turn (j_state (wk_journal w')) \<Longrightarrow> advances n (f x) w') \<Longrightarrow> advances n (then_do m f) w"
  unfolding advances_def
proof (rule yields_then)
  assume m: "carries turns_grow m" and n: "n \<le> v_turn (j_state (wk_journal w))"
    and f: "\<And>x w'. n \<le> v_turn (j_state (wk_journal w')) \<Longrightarrow> yields (f x) (\<lambda>r w'. r = None \<longrightarrow> n < v_turn (j_state (wk_journal w'))) w'"
  have "n \<le> v_turn (j_state (wk_journal w'))" if "m w = (Inr x, w')" for x w'
    using m n that by (metis carries_def order_trans snd_conv turns_grow_def)
  with f show "yields m (\<lambda>x. yields (f x) (\<lambda>r w'. r = None \<longrightarrow> n < v_turn (j_state (wk_journal w')))) w"
    by (auto simp: yields_def[of m])
qed

lemma advances_look: "advances n (look f) w = advances n (f (j_state (wk_journal w))) w"
  by (simp add: advances_def yields_def look_def)

lemma advances_give: "advances n (give (Some x)) w"
  by (simp add: advances_def yields_give)

lemma advances_open_turn:
  assumes "callers_keep turns_grow lp" and "n < turn"
  shows "advances n (open_turn lp turn resolved) w"
proof -
  have "yields (write_rec lp (TurnStarted \<lparr>tu_turn = turn, tu_step_id = al_step_id lp\<rparr>))
      (\<lambda>_ w1. v_turn (j_state (wk_journal w1)) = turn) w"
    by (auto simp: yields_def dest: opens_turn)
  then show ?thesis unfolding open_turn_def advances_def
    by (rule yields_then[OF yields_mono])
       (use advances_carried[OF turn_loop.over_in_turn[OF assms(1)]] assms(2) in \<open>simp add: advances_def\<close>)
qed

lemma advances_turn:
  assumes c: "callers_keep turns_grow lp" and "n \<le> v_turn (j_state (wk_journal w))"
  shows "advances n (one_turn lp) w"
  unfolding one_turn_def
proof (rule advances_then[OF turn_loop.over_refresh assms(2)], rule advances_then[OF turn_loop.over_compact_if])
  fix compaction and w1 :: walk
  assume n: "n \<le> v_turn (j_state (wk_journal w1))"
  then have "advances n (open_turn lp (v_turn (j_state (wk_journal w1)) + 1) resolved) w'" for resolved w'
    by (intro advances_open_turn c) simp
  then have "advances n (case r of Inl o1 \<Rightarrow> give (Some o1) | Inr resolved \<Rightarrow> open_turn lp (v_turn (j_state (wk_journal w1)) + 1) resolved) w'"
      for r w'
    by (simp add: advances_give split: sum.split)
  then show "advances n (case cm_failure compaction of
       Some f \<Rightarrow> give (Some (loop_failed ''the conversation could not be compacted'' f))
     | None \<Rightarrow> look (\<lambda>st. then_do (resolve_tools lp) (\<lambda>r.
         case r of Inl o1 \<Rightarrow> give (Some o1) | Inr resolved \<Rightarrow> open_turn lp (v_turn st + 1) resolved))) w1"
    by (auto simp: advances_give advances_look intro!: advances_then[OF turn_loop.over_resolve_tools[OF c] n] split: option.split)
qed

text \<open>More fuel than there are turns left changes nothing, and so much is never used up.\<close>

lemma fuel_is_enough:
  assumes "callers_keep turns_grow lp" and "nat (li_max_turns (ag_limits (al_spec lp)) - v_turn (j_state (wk_journal w))) < k"
  shows "fst (run_from lp k w) \<noteq> Inr None \<and>
         (\<forall>k' > nat (li_max_turns (ag_limits (al_spec lp)) - v_turn (j_state (wk_journal w))). run_from lp k' w = run_from lp k w)"
  using assms(2)
proof (induction k arbitrary: w)
  case (Suc k)
  let ?m = "li_max_turns (ag_limits (al_spec lp))" and ?t = "\<lambda>w. v_turn (j_state (wk_journal w))"
  let ?stop = "stop_condition (al_spec lp) (en_abort lp (wk_tick w)) (j_state (wk_journal w))"
  show ?case
  proof (cases ?stop)
    case (Some o1)
    then have "run_from lp (Suc j) w = (Inr (Some o1), w)" for j
      by (simp add: then_do_def check_stop_conditions_def give_def)
    then show ?thesis by (metis Inr_inject fst_conv gr0_conv_Suc not_less_zero option.distinct(1) not_gr_zero)
  next
    case None
    then have left: "?t w < ?m" by (auto simp: stop_condition_def Let_def split: option.splits if_splits)
    have run: "run_from lp (Suc j) w =
        then_do (one_turn lp) (\<lambda>outcome. case outcome of Some o1 \<Rightarrow> give (Some o1) | None \<Rightarrow> run_from lp j) w" for j
      using None by (simp add: then_do_def check_stop_conditions_def)
    obtain r w1 where turn: "one_turn lp w = (r, w1)" by (cases "one_turn lp w")
    show ?thesis
    proof (cases "r = Inr None")
      case True
      with turn advances_turn[OF assms(1) order_refl, of w] have "?t w < ?t w1" by (simp add: advances_def yields_def)
      with left have fewer: "nat (?m - ?t w1) < nat (?m - ?t w)" by simp
      have next_run: "run_from lp (Suc j) w = run_from lp j w1" for j
        using turn True by (subst run) (simp add: then_do_def)
      have "nat (?m - ?t w1) < k" using fewer Suc.prems by linarith
      from Suc.IH[OF this] have ih: "fst (run_from lp k w1) \<noteq> Inr None"
        "\<And>k'. nat (?m - ?t w1) < k' \<Longrightarrow> run_from lp k' w1 = run_from lp k w1" by auto
      show ?thesis
      proof (intro conjI allI impI)
        show "fst (run_from lp (Suc k) w) \<noteq> Inr None" using ih(1) by (simp only: next_run) simp
        fix k' assume "nat (?m - ?t w) < k'"
        with fewer obtain j where "k' = Suc j" "nat (?m - ?t w1) < j" by (cases k') auto
        with ih(2) show "run_from lp k' w = run_from lp (Suc k) w" by (simp only: next_run)
      qed
    next
      case False
      with turn have same: "run_from lp (Suc j) w = run_from lp (Suc 0) w" for j
        by (subst (1 2) run) (auto simp: then_do_def split: sum.split option.split)
      moreover have "fst (run_from lp (Suc 0) w) \<noteq> Inr None"
        using turn False by (subst run) (auto simp: then_do_def give_def split: sum.split option.split)
      ultimately show ?thesis by (metis gr0_conv_Suc not_less_zero not_gr_zero)
    qed
  qed
qed simp

text \<open>C7. An agent loop ends within its turns: with the turns that are left as its fuel the loop reaches a stop
  condition, an error, or an answer, and any more fuel gives the same result, as long as what the loop is
  given does not take turns back.\<close>

theorem loop_ends_within_its_turns:
  assumes "callers_keep turns_grow lp"
  shows "fst (run_from lp (turns_left lp (j_state (wk_journal w))) w) \<noteq> Inr None \<and>
         (\<forall>more. run_from lp (turns_left lp (j_state (wk_journal w)) + more) w = run_from lp (turns_left lp (j_state (wk_journal w))) w)"
proof -
  have more: "nat (li_max_turns (ag_limits (al_spec lp)) - v_turn (j_state (wk_journal w)))
      < turns_left lp (j_state (wk_journal w)) + more" for more
    by (simp add: turns_left_def)
  from fuel_is_enough[OF assms more[of 0]] more show ?thesis by (metis add_0_right)
qed

lemma s_executor_call:
  "executor_call (s_executor tool) s_spec cid name arguments =
     (if name \<in> {''read'', ''refund''} then tool arguments
      else raise_denied (''tool '' @ repr_str name, ''no code, http, mcp or A2A tool of that name is available to this Run''))"
proof -
  have r: "ex_registry (s_executor tool) name = (if name = ''refund'' then Some \<lparr>rg_call = tool, rg_safe_to_retry = False\<rparr>
      else if name = ''read'' then Some \<lparr>rg_call = tool, rg_safe_to_retry = True\<rparr> else None)"
    by (simp add: s_executor_def)
  have o: "ex_http_caller (s_executor tool) = None" "ex_mcp_caller (s_executor tool) = None" "ex_code_caller (s_executor tool) = None"
    "ex_discovery (s_executor tool) = None" "ex_a2a_caller (s_executor tool) = None" "ag_a2a_peers s_spec = []"
    "find (\<lambda>t. to_http t \<and> to_name t = name) (ag_tools s_spec) = None"
    by (simp_all add: s_executor_def s_spec_def)
  show ?thesis unfolding executor_call_def o if_cancel option.case r by simp
qed

lemma s_callers_keep:
  assumes t: "\<And>arguments. carries R (tool arguments)" and r: "\<And>w. R w w"
  shows "callers_keep R (s_loop events d tool)"
proof -
  have g: "carries R (give x)" for x :: 'x using r by (simp add: carries_def give_def)
  have "carries R (executor_call (s_executor tool) s_spec cid name arguments)" for cid name arguments
    using t r by (simp add: s_executor_call carries_def raise_denied_def raise_it_def)
  then show ?thesis unfolding callers_keep_def using r
    by (simp add: s_loop_def) (simp add: s_executor_def carries_def give_def)
qed

theorem loop_ends_within_its_turns_witness:
  "fst (run_from (s_loop (s_says ''hi'') s_allow (\<lambda>_. give (PlainResult JNull))) 33 (s_walk_at s_state 0)) \<noteq> Inr None"
proof -
  let ?lp = "s_loop (s_says ''hi'') s_allow (\<lambda>_. give (PlainResult JNull))"
  have "callers_keep turns_grow ?lp"
    by (rule s_callers_keep) (simp_all add: carries_def give_def turns_grow_def)
  moreover have "turns_left ?lp (j_state (wk_journal (s_walk_at s_state 0))) = 33"
    by (simp add: turns_left_def s_loop_def s_spec_def default_limits_def s_walk_at_def s_state_def initial_view_def)
  ultimately show ?thesis using loop_ends_within_its_turns[of ?lp "s_walk_at s_state 0"] by simp
qed

section \<open>What an outcome says\<close>

definition well_formed_outcome :: "loop_outcome \<Rightarrow> bool" where
  "well_formed_outcome o1 \<longleftrightarrow> lo_state o1 \<in> {Completed, Failed, Aborted} \<and>
     (lo_state o1 = Failed \<longrightarrow> lo_failure o1 \<noteq> None) \<and> (lo_failure o1 \<noteq> None \<longrightarrow> lo_state o1 \<noteq> Completed) \<and>
     (lo_output o1 \<noteq> None \<longrightarrow> lo_state o1 = Completed)"

definition ends_well :: "loop_outcome option walked \<Rightarrow> walk \<Rightarrow> bool" where
  "ends_well m w \<longleftrightarrow> yields m (\<lambda>r _. \<forall>o1. r = Some o1 \<longrightarrow> well_formed_outcome o1) w"

lemma ends_wellD: "ends_well m w \<Longrightarrow> m w = (Inr (Some o1), w') \<Longrightarrow> well_formed_outcome o1"
  by (simp add: ends_well_def yields_def)

lemma well_then: "(\<And>x w'. ends_well (f x) w') \<Longrightarrow> ends_well (then_do m f) w"
  unfolding ends_well_def by (rule yields_first)

lemma well_none: "ends_well (give None) w" and well_some: "well_formed_outcome o1 \<Longrightarrow> ends_well (give (Some o1)) w"
  by (simp_all add: ends_well_def yields_give)

lemma well_look: "(\<And>st. ends_well (f st) w) \<Longrightarrow> ends_well (look f) w"
  by (simp add: ends_well_def yields_look)

lemma well_if: "(P \<Longrightarrow> ends_well m w) \<Longrightarrow> (\<not> P \<Longrightarrow> ends_well m' w) \<Longrightarrow> ends_well (if P then m else m') w"
  by simp

lemma well_option: "(v = None \<Longrightarrow> ends_well m w) \<Longrightarrow> (\<And>x. v = Some x \<Longrightarrow> ends_well (f x) w) \<Longrightarrow> ends_well (case v of None \<Rightarrow> m | Some x \<Rightarrow> f x) w"
  by (cases v) simp_all

lemma well_with_failure: "(\<And>f. ends_well (g f) w) \<Longrightarrow> ends_well (with_failure x g) w"
  by (simp add: ends_well_def with_failure_def yields_raise split: option.split)

lemma failed_well_formed: "well_formed_outcome (loop_failed reason f)"
  by (simp add: well_formed_outcome_def loop_failed_def)

lemmas well_rules = well_then well_none well_some well_look well_if well_option well_with_failure failed_well_formed

lemma stop_well_formed: "stop_condition spec signal st = Some o1 \<Longrightarrow> well_formed_outcome o1"
  by (auto simp: stop_condition_def stopped_by_worker_def Let_def well_formed_outcome_def loop_failed_def
        split: option.splits if_splits prod.splits)

lemma well_model_failure: "ends_well (record_model_failure lp turn model e) w"
proof -
  have g: "ends_well (give (case y of Some g \<Rightarrow> Some (loop_failed reason g) | None \<Rightarrow> None)) w" for y reason w
    by (cases y) (simp_all add: well_none well_some failed_well_formed)
  show ?thesis unfolding record_model_failure_def Let_def by (intro well_rules g)
qed

lemma well_wait: "ends_well (wait_for_children lp ch) w"
  unfolding wait_for_children_def Let_def by (intro well_rules) (simp add: well_formed_outcome_def)

lemma well_finish_turn: "ends_well (finish_turn lp turn request a ts definitions) w"
  unfolding finish_turn_def by (intro well_rules well_wait) (simp add: well_formed_outcome_def)

lemma well_in_turn: "ends_well (in_turn lp turn resolved) w"
proof -
  have t: "ends_well (\<lambda>w. case call_model lp request w of
        (Inl e, w1) \<Rightarrow> if e = CancelledErr then (Inl e, w1) else record_model_failure lp turn m e w1
      | (Inr (a, timings), w1) \<Rightarrow> finish_turn lp turn request a timings ds w1) w" for request m ds w
    unfolding ends_well_def yields_def
    by (auto dest: ends_wellD[OF well_model_failure] ends_wellD[OF well_finish_turn] split: prod.splits sum.splits if_splits)
  show ?thesis unfolding in_turn_def Let_def by (intro well_then t)
qed

lemma resolved_well_formed: "yields (resolve_tools lp) (\<lambda>r _. \<forall>o1. r = Inl o1 \<longrightarrow> well_formed_outcome o1) w"
  by (auto simp: yields_def resolve_tools_def look_def Let_def with_failure_def raise_it_def give_def failed_well_formed
        split: prod.splits sum.splits if_splits option.splits)

lemma well_turn: "ends_well (one_turn lp) w"
proof -
  have r: "ends_well (then_do (resolve_tools lp) (\<lambda>r. case r of Inl o1 \<Rightarrow> give (Some o1) | Inr resolved \<Rightarrow> open_turn lp n resolved)) w" for n w
    unfolding ends_well_def
    by (rule yields_then, rule yields_mono[OF resolved_well_formed])
       (auto simp: yields_give open_turn_def intro: yields_first well_in_turn[unfolded ends_well_def] split: sum.split)
  show ?thesis unfolding one_turn_def by (intro well_rules r)
qed

lemma well_run_from: "ends_well (run_from lp fuel) w"
proof (induction fuel arbitrary: w)
  case (Suc fuel)
  have s: "yields (check_stop_conditions lp) (\<lambda>r _. \<forall>o1. r = Some o1 \<longrightarrow> well_formed_outcome o1) w"
    by (auto simp: yields_def check_stop_conditions_def dest: stop_well_formed)
  have t: "ends_well (then_do (one_turn lp) (\<lambda>r. case r of Some o1 \<Rightarrow> give (Some o1) | None \<Rightarrow> run_from lp fuel)) w" for w
    unfolding ends_well_def
    by (rule yields_then, rule yields_mono[OF well_turn[unfolded ends_well_def]])
       (auto simp: yields_give Suc.IH[unfolded ends_well_def] split: option.split)
  show ?case unfolding run_from.simps ends_well_def
    by (rule yields_then, rule yields_mono[OF s]) (auto simp: yields_give t[unfolded ends_well_def] split: option.split)
qed (simp add: well_none)

text \<open>C31. A loop that reports failure carries one: whatever a Run's agent loop returns, its state is completed, failed or
  aborted; a failed one carries a failure, a completed one does not, and only a completed one has an output.\<close>

theorem loop_outcomes_are_well_formed:
  "case fst (run_loop lp w) of Inl _ \<Rightarrow> True | Inr o1 \<Rightarrow> well_formed_outcome o1"
  using well_run_from[of lp]
  by (auto simp: run_loop_def ends_well_def yields_def then_do_def look_def give_def raise_it_def
        split: sum.splits prod.splits option.splits)

end
