(* ===== verification/OpenCalls.thy ===== *)
theory OpenCalls
  imports LoopFacts LoopSamples LoopEnds
begin

text \<open>
  No call is left without a result: what a crash recovery, a turn and the whole loop leave open. A provider
  refuses a conversation in which a call of the model has no result.

  \<open>tidied\<close> is what every append but the start of a call keeps: no call is opened, and what a person is asked
  about stays asked about until it was resumed. The locale \<open>call_end\<close> carries the end of one call through the
  loop, once for a recovery (the call is closed) and once for a turn (it is closed, or a person was asked).
\<close>

section \<open>What appends do to open calls\<close>

definition open_calls :: "walk \<Rightarrow> call_id set" where
  "open_calls w = dict_keys (v_open_tool_calls (j_state (wk_journal w)))"

definition asked_about :: "call_id \<Rightarrow> run_state_view \<Rightarrow> bool" where
  "asked_about c st \<longleftrightarrow> v_suspended st \<and> v_pending_approval_call_id st = Some c \<or> v_resumed_since_attempt st"

lemma open_step:
  assumes "fold_step s r = Inr s'"
  shows "dict_keys (v_open_tool_calls (fst s')) =
    (case r_body r of
       ToolCallStarted b \<Rightarrow> insert (tcs_call_id b) (dict_keys (v_open_tool_calls (fst s)))
     | ToolCallFinished b \<Rightarrow> dict_keys (v_open_tool_calls (fst s)) - {tcf_call_id b}
     | _ \<Rightarrow> dict_keys (v_open_tool_calls (fst s)))"
proof -
  note c = apply_counters[OF fold_step_applies[OF assms]]
  show ?thesis
  proof (cases "r_body r")
    case (ToolCallStarted b)
    with c obtain oc where "v_open_tool_calls (fst s') = dict_put (tcs_call_id b) oc (v_open_tool_calls (fst s))" by auto
    then show ?thesis by (simp only: ToolCallStarted body.case dict_keys_put)
  next
    case (ToolCallFinished b)
    with c have "v_open_tool_calls (fst s') = dict_del (tcf_call_id b) (v_open_tool_calls (fst s))" by auto
    then show ?thesis by (simp only: ToolCallFinished body.case dict_keys_del)
  qed (use c in simp_all)
qed

lemma asked_step:
  assumes "fold_step s r = Inr s'" and "asked_about c (fst s)" and "\<And>b. r_body r \<noteq> AttemptStarted b"
  shows "asked_about c (fst s')"
  using fold_step_applies[OF assms(1)] assms(2,3) unfolding asked_about_def
  by (cases "r_body r") (auto simp: op_defs Let_def remove_entry_def split: if_splits option.splits sum.splits prod.splits)

lemma suspended_about:
  assumes "fold_step s r = Inr s'" and "r_body r = Suspended b"
  shows "v_suspended (fst s') \<and> v_pending_approval_call_id (fst s') = su_pending_call_id b"
  using fold_step_applies[OF assms(1)] assms(2) by (auto simp: op_defs split: if_splits)

definition tidies :: "run_state_view \<Rightarrow> run_state_view \<Rightarrow> bool" where
  "tidies st st' \<longleftrightarrow> dict_keys (v_open_tool_calls st') \<subseteq> dict_keys (v_open_tool_calls st) \<and>
     (\<forall>c. asked_about c st \<longrightarrow> asked_about c st')"

lemma tidies_refl: "tidies st st" and tidies_trans: "tidies a b \<Longrightarrow> tidies b c \<Longrightarrow> tidies a c"
  unfolding tidies_def by (simp, meson subset_trans)

lemma tidies_step:
  assumes q: "quiet (r_body r)" and f: "fold_step s r = Inr s'"
  shows "tidies (fst s) (fst s')"
proof -
  have "\<And>b. r_body r \<noteq> AttemptStarted b" using q by (auto simp: quiet_def)
  with asked_step[OF f] have "asked_about c (fst s) \<longrightarrow> asked_about c (fst s')" for c by blast
  moreover have "dict_keys (v_open_tool_calls (fst s')) \<subseteq> dict_keys (v_open_tool_calls (fst s))"
    using open_step[OF f] q by (cases "r_body r") (auto simp: quiet_def)
  ultimately show ?thesis by (simp add: tidies_def)
qed

interpretation tidy: quiet_state tidies
  by unfold_locales (rule tidies_refl, erule (1) tidies_trans, erule (1) tidies_step[OF external_quiet], erule (1) tidies_step)

definition tidied :: "walk \<Rightarrow> walk \<Rightarrow> bool" where
  "tidied w w' \<longleftrightarrow> tidies (j_state (wk_journal w)) (j_state (wk_journal w'))"

lemma tidied_lifted: "tidied = tidy.lifted"
  by (intro ext) (simp add: tidied_def tidy.lifted_def)

interpretation tidy_loop: quiet_loop tidied lp for lp
  unfolding tidied_lifted by unfold_locales

lemma finish_closes: "finish_call lp b w = (Inr x, w') \<Longrightarrow> tcf_call_id b \<notin> open_calls w'"
proof -
  assume "finish_call lp b w = (Inr x, w')"
  then obtain r where "write_rec lp (ToolCallFinished b) w = (Inr r, w')"
    by (auto simp: finish_call_def then_do_def give_def split: sum.splits prod.splits)
  from write_last[OF this] obtain u cx where "r_body r = ToolCallFinished b" "fold_step u r = Inr (j_state (wk_journal w'), cx)"
    by (auto simp: folded_last_def)
  with open_step[OF this(2)] show ?thesis by (simp add: open_calls_def)
qed

section \<open>The end of a call\<close>

locale call_end =
  fixes ended :: "call_id \<Rightarrow> walk \<Rightarrow> bool"
  assumes closed: "cid \<notin> open_calls w \<Longrightarrow> ended cid w"
    and keeps: "tidied w w' \<Longrightarrow> ended cid w \<Longrightarrow> ended cid w'"
begin

definition ends :: "('x \<Rightarrow> bool) \<Rightarrow> call_id \<Rightarrow> 'x walked \<Rightarrow> bool" where
  "ends P cid m \<longleftrightarrow> (\<forall>w x w'. m w = (Inr x, w') \<longrightarrow> P x \<longrightarrow> ended cid w')"

abbreviation "always \<equiv> \<lambda>_. True"

lemma endsD: "ends P cid m \<Longrightarrow> m w = (Inr x, w') \<Longrightarrow> P x \<Longrightarrow> ended cid w'"
  by (simp add: ends_def)

lemma ends_first: "ends always cid m \<Longrightarrow> (\<And>x. carries tidied (f x)) \<Longrightarrow> ends P cid (then_do m f)"
  unfolding ends_def carries_def
  by (auto simp: then_do_def split: sum.splits prod.splits) (metis keeps snd_conv)

lemma ends_last: "(\<And>x. ends P cid (f x)) \<Longrightarrow> ends P cid (then_do m f)"
  unfolding ends_def by (auto simp: then_do_def split: sum.splits prod.splits)

lemma ends_either:
  "ends P cid m \<Longrightarrow> (\<And>x. P x \<Longrightarrow> carries tidied (f x)) \<Longrightarrow> (\<And>x. \<not> P x \<Longrightarrow> ends Q cid (f x)) \<Longrightarrow> ends Q cid (then_do m f)"
  unfolding ends_def carries_def
  by (auto simp: then_do_def split: sum.splits prod.splits) (metis keeps snd_conv)

lemma ends_raise: "ends P cid (raise_it e)"
  by (simp add: ends_def raise_it_def)

lemma ends_give: "\<not> P x \<Longrightarrow> ends P cid (give x)"
  by (simp add: ends_def give_def)

lemma ends_look: "(\<And>st. ends P cid (f st)) \<Longrightarrow> ends P cid (look f)"
  by (simp add: ends_def look_def)

lemma ends_if: "(C \<Longrightarrow> ends P cid m) \<Longrightarrow> (\<not> C \<Longrightarrow> ends P cid m') \<Longrightarrow> ends P cid (if C then m else m')"
  by simp

lemma ends_here: "(\<And>w. ends P cid (m w)) \<Longrightarrow> ends P cid (\<lambda>w. m w w)"
  by (simp add: ends_def)

lemma ends_with_key: "(\<And>k. ends P cid (g k)) \<Longrightarrow> ends P cid (with_key x g)"
  by (simp add: with_key_def ends_raise split: sum.split)

lemma ends_with_failure: "(\<And>k. ends P cid (g k)) \<Longrightarrow> ends P cid (with_failure x g)"
  by (simp add: with_failure_def ends_raise split: option.split)

lemma ends_finish: "tcf_call_id b = cid \<Longrightarrow> ends P cid (finish_call lp b)"
  using finish_closes by (fastforce simp: ends_def intro: closed)

lemma ends_answer_failed: "ends P cid (answer_failed lp cid o1 kind message)"
  by (simp add: answer_failed_def ends_finish finish_record_def)

lemma ends_settle_question: "ends P cid (settle_question lp cid reply)"
  by (simp add: settle_question_def ends_finish finish_record_def)

lemma ends_keep_attachments: "ends (\<lambda>r. r = None) cid (keep_attachments lp cid v n handles omitted stored ps)"
proof (induction ps arbitrary: v n handles omitted stored)
  case (Cons p ps)
  have failed: "ends (\<lambda>r. r = None) cid (then_do (answer_failed lp cid o1 kind msg)
      (\<lambda>_. give (None :: ((string, string option) dict \<times> (string, int) dict \<times> result_attachment list) option)))" for o1 kind msg
    by (rule ends_first[OF ends_answer_failed tidy_loop.over_give])
  have blob: "ends (\<lambda>r. r = None) cid (\<lambda>w. with_key (key_of w) (\<lambda>key. then_do (f key (pa_data p) ct m)
      (\<lambda>_. keep_attachments lp cid v n h1 omitted st1 ps)) w)" for f key_of ct m h1 st1
    by (rule ends_here, rule ends_with_key, rule ends_last, rule Cons.IH)
  show ?case by (auto simp: Let_def Cons.IH failed split: option.split if_splits intro!: blob)
qed (simp add: ends_give)

lemma ends_record_result: "ends P cid (record_result lp cid j attachments q)"
proof -
  have f: "ends P cid (finish_call lp b)" if "tcf_call_id b = cid" for b by (rule ends_finish[OF that])
  show ?thesis
  proof (cases "al_blob lp")
    case None
    then show ?thesis unfolding record_result_def Let_def by (simp add: finish_record_def f)
  next
    case (Some put)
    show ?thesis unfolding record_result_def Let_def Some option.case
      by (rule ends_if, rule f, simp add: finish_record_def, rule ends_here, rule ends_with_key, rule ends_last,
          rule f, simp add: finish_record_def)
  qed
qed

lemma ends_record_success: "callers_keep tidied lp \<Longrightarrow> ends P cid (record_success lp cid v q)"
proof -
  assume c: "callers_keep tidied lp"
  have "ends (\<lambda>r. r = None) cid (store_attachments lp cid outcome)" for outcome
    unfolding store_attachments_def
    by (rule ends_either[OF ends_keep_attachments]) (auto intro!: tidy_loop.over_give ends_give split: option.split)
  then show ?thesis unfolding record_success_def
    by (cases v) (auto intro!: ends_either tidy_loop.over_give ends_record_result split: option.split prod.split)
qed

lemma ends_record_raised: "ends P cid (record_raised lp cid name e q)"
  unfolding record_raised_def Let_def
  by (auto simp: finish_record_def split: option.split intro!: ends_finish ends_raise ends_with_failure ends_last)

lemma ends_run: "callers_keep tidied lp \<Longrightarrow> ends P cid (run_and_record lp n cid name arguments)"
proof -
  assume c: "callers_keep tidied lp"
  have k: "ends P cid (then_do (record_success lp cid v q) (\<lambda>_. give k))" "ends P cid (then_do (record_raised lp cid name e q) (\<lambda>_. give k))"
    for v e q and k :: "int \<times> tool_value option"
    by (rule ends_first[OF ends_record_success[OF c] tidy_loop.over_give] ends_first[OF ends_record_raised tidy_loop.over_give])+
  show ?thesis unfolding ends_def[of P cid "run_and_record lp n cid name arguments"]
  proof (intro allI impI)
    fix w x w' assume e: "run_and_record lp n cid name arguments w = (Inr x, w')" and p: "P x"
    obtain r w1 where b: "call_body lp n cid name arguments w = (r, w1)" by (cases "call_body lp n cid name arguments w")
    show "ended cid w'"
      by (cases r) (use e p b k[THEN endsD] in \<open>auto simp: run_and_record_def Let_def\<close>)
  qed
qed

lemma ends_execute: "callers_keep tidied lp \<Longrightarrow> ends P cid (execute_and_record lp n cid name arguments)"
  unfolding execute_and_record_def by (rule ends_first[OF ends_run tidy_loop.over_give])

lemma ends_settle_one: "callers_keep tidied lp \<Longrightarrow> ends always (oc_call_id c) (settle_one lp decisions answers n c)"
  unfolding settle_one_def Let_def
  by (auto split: option.split bool.split
        intro!: ends_execute ends_first[OF ends_settle_question tidy_loop.over_give]
          ends_first[OF ends_answer_failed tidy_loop.over_give])

lemma settle_calls_ends:
  "callers_keep tidied lp \<Longrightarrow> settle_calls lp decisions answers n cs w = (Inr x, w') \<Longrightarrow> c \<in> set cs \<Longrightarrow> ended (oc_call_id c) w'"
proof (induction cs arbitrary: n w)
  case (Cons d cs)
  then obtain n' w1 where one: "settle_one lp decisions answers n d w = (Inr n', w1)"
    and rest: "settle_calls lp decisions answers n' cs w1 = (Inr x, w')"
    by (auto simp: then_do_def split: prod.splits sum.splits)
  from tidy_loop.over_settle_calls[OF Cons.prems(1), unfolded carries_def] rest
  have "tidied w1 w'" by (metis snd_conv)
  with endsD[OF ends_settle_one[OF Cons.prems(1)] one] have "ended (oc_call_id d) w'" by (auto intro: keeps)
  with Cons.IH[OF Cons.prems(1) rest] Cons.prems(3) show ?case by auto
qed simp

end

text \<open>A recovery closes, and a turn closes a call or asks a person about it.\<close>

interpretation closing: call_end "\<lambda>c w. c \<notin> open_calls w"
  by unfold_locales (auto simp: tidied_def tidies_def open_calls_def)

definition answered_or_asked :: "call_id \<Rightarrow> walk \<Rightarrow> bool" where
  "answered_or_asked c w \<longleftrightarrow> (c \<in> open_calls w \<longrightarrow> asked_about c (j_state (wk_journal w)))"

interpretation asking: call_end answered_or_asked
  by unfold_locales (auto simp: answered_or_asked_def tidied_def tidies_def open_calls_def)

section \<open>Recovery\<close>

lemma recovered:
  assumes "callers_keep tidied lp"
    and "reduce (Some i) None rs = Inr (j_state (wk_journal w))"
    and "settle_dangling_calls lp w = (Inr (), w')"
  shows "v_open_tool_calls (j_state (wk_journal w')) = []"
proof -
  let ?st = "j_state (wk_journal w)"
  from assms(3) obtain d a where s: "settle_calls lp d a 0 (map snd (v_open_tool_calls ?st)) w = (Inr (), w')"
    by (auto simp: settle_dangling_calls_def look_def)
  have ids: "map (\<lambda>kv. oc_call_id (snd kv)) (v_open_tool_calls ?st) = map fst (v_open_tool_calls ?st)"
    using reduce_open_calls(1)[OF assms(2)] .
  have "c \<notin> open_calls w'" if "c \<in> open_calls w" for c
  proof -
    from that have "c \<in> set (map fst (v_open_tool_calls ?st))" by (simp add: open_calls_def)
    then obtain kv where "kv \<in> set (v_open_tool_calls ?st)" "oc_call_id (snd kv) = c" unfolding ids[symmetric] by auto
    with closing.settle_calls_ends[OF assms(1) s, of "snd kv"] show ?thesis by simp
  qed
  moreover have "tidied w w'"
    using tidy_loop.over_settle_dangling[OF assms(1)] assms(3) by (metis carries_def snd_conv)
  then have "open_calls w' \<subseteq> open_calls w" by (simp add: tidied_def tidies_def open_calls_def)
  ultimately have "open_calls w' = {}" by blast
  then show ?thesis by (simp add: open_calls_def)
qed

text \<open>C11. After a crash no call is left open: when the recovery returns, every call that the log of the Run had started and not
  finished has a result.\<close>

theorem recovery_leaves_no_open_call:
  assumes "callers_keep tidied lp"
    and "reduce (Some i) None rs = Inr (j_state (wk_journal w))"
    and "settle_dangling_calls lp w = (Inr (), w')"
  shows "v_open_tool_calls (j_state (wk_journal w')) = []"
  using assms by (rule recovered)

theorem recovery_leaves_no_open_call_witness:
  "\<exists>w w'. v_open_tool_calls (j_state (wk_journal w)) \<noteq> [] \<and>
     settle_dangling_calls (s_loop [] s_allow (\<lambda>_. give (PlainResult JNull))) w = (Inr (), w') \<and>
     v_open_tool_calls (j_state (wk_journal w')) = []"
proof -
  let ?lp = "s_loop [] s_allow (\<lambda>_. give (PlainResult JNull))"
  have "s_run [b_admitted, b_attempt 1, b_turn 1, b_tool ''c1'' ''refund'' 1] (\<lambda>w.
      v_open_tool_calls (j_state (wk_journal w)) \<noteq> [] \<and> returns_some (settle_dangling_calls ?lp w))"
    by code_simp
  then obtain rs w where w: "reduce (Some ''run'') None rs = Inr (j_state (wk_journal w))"
    "v_open_tool_calls (j_state (wk_journal w)) \<noteq> []" "returns_some (settle_dangling_calls ?lp w)"
    using s_runD by blast
  then obtain w' where s: "settle_dangling_calls ?lp w = (Inr (), w')" by (auto dest: returns_someD)
  have "callers_keep tidied ?lp"
    by (rule s_callers_keep) (simp_all add: carries_def give_def tidied_def tidies_def)
  from recovery_leaves_no_open_call[OF this w(1) s] w(2) s show ?thesis by blast
qed

section \<open>Turns\<close>

definition no_call_is_lost :: "walk \<Rightarrow> bool" where
  "no_call_is_lost w \<longleftrightarrow> (\<forall>c. answered_or_asked c w)"

definition loses_none :: "'x walked \<Rightarrow> bool" where
  "loses_none m \<longleftrightarrow> (\<forall>w x w'. m w = (Inr x, w') \<longrightarrow> no_call_is_lost w \<longrightarrow> no_call_is_lost w')"

lemma loses_then: "loses_none m \<Longrightarrow> (\<And>x. loses_none (f x)) \<Longrightarrow> loses_none (then_do m f)"
  unfolding loses_none_def by (auto simp: then_do_def split: sum.splits prod.splits)

lemma loses_carried: "carries tidied m \<Longrightarrow> loses_none m"
  unfolding loses_none_def carries_def no_call_is_lost_def by (metis asking.keeps snd_conv)

lemma loses_if: "(C \<Longrightarrow> loses_none m) \<Longrightarrow> (\<not> C \<Longrightarrow> loses_none m') \<Longrightarrow> loses_none (if C then m else m')"
  by simp

lemma loses_look: "(\<And>st. loses_none (f st)) \<Longrightarrow> loses_none (look f)"
  by (simp add: loses_none_def look_def)

lemma loses_option: "loses_none m \<Longrightarrow> (\<And>x. loses_none (f x)) \<Longrightarrow> loses_none (case v of None \<Rightarrow> m | Some x \<Rightarrow> f x)"
  by (cases v) simp_all

text \<open>A start opens one call, and what follows ends it.\<close>

lemma snd_then_give: "snd (then_do m (\<lambda>_. give k) w) = snd (m w)"
  by (simp add: then_do_def give_def split: sum.split prod.split)

lemma start_opens: "start_call lp cid name shown arguments w = (r, w') \<Longrightarrow>
   c \<noteq> cid \<Longrightarrow> answered_or_asked c w \<Longrightarrow> answered_or_asked c w'"
proof -
  assume s: "start_call lp cid name shown arguments w = (r, w')" and c: "c \<noteq> cid" and a: "answered_or_asked c w"
  have "\<exists>b. tcs_call_id b = cid \<and> start_call lp cid name shown arguments w = then_do (write_rec lp (ToolCallStarted b)) (\<lambda>_. give ()) w"
    unfolding start_call_def look_def
    by (rule exI[of _ "\<lparr>tcs_call_id = cid, tcs_tool = shown, tcs_arguments = arguments, tcs_turn = v_turn (j_state (wk_journal w)),
      tcs_step_id = al_step_id lp, tcs_interruptible = interruptible (al_spec lp) name, tcs_safe_to_retry = safe_to_retry lp name,
      tcs_parent_call_id = None\<rparr>"]) simp
  then obtain b where b: "tcs_call_id b = cid" and "start_call lp cid name shown arguments w = then_do (write_rec lp (ToolCallStarted b)) (\<lambda>_. give ()) w"
    by blast
  with s have w': "w' = snd (write_rec lp (ToolCallStarted b) w)" by (metis snd_conv snd_then_give)
  obtain st where st: "tidies (j_state (wk_journal w)) st" and or: "j_state (wk_journal w') = st \<or>
      (\<exists>r cx cx'. r_body r = ToolCallStarted b \<and> fold_step (st, cx) r = Inr (j_state (wk_journal w'), cx'))"
    unfolding w' by (rule tidy.write_to)
  from a st have t: "c \<in> dict_keys (v_open_tool_calls st) \<longrightarrow> asked_about c st"
    by (auto simp: answered_or_asked_def tidies_def open_calls_def)
  from or show ?thesis
  proof (elim disjE exE conjE)
    fix r cx cx' assume r: "r_body r = ToolCallStarted b" and f: "fold_step (st, cx) r = Inr (j_state (wk_journal w'), cx')"
    from open_step[OF f] asked_step[OF f, of c] t r b c show ?thesis
      by (simp add: answered_or_asked_def open_calls_def)
  qed (use t in \<open>simp add: answered_or_asked_def open_calls_def\<close>)
qed

lemma loses_started:
  assumes "asking.ends asking.always cid m" and "carries tidied m"
  shows "loses_none (then_do (start_call lp cid name shown arguments) (\<lambda>_. m))"
  unfolding loses_none_def
proof (intro allI impI)
  fix w x w' assume r: "then_do (start_call lp cid name shown arguments) (\<lambda>_. m) w = (Inr x, w')" and n: "no_call_is_lost w"
  then obtain w1 where s: "start_call lp cid name shown arguments w = (Inr (), w1)" and m: "m w1 = (Inr x, w')"
    by (auto simp: then_do_def split: prod.splits sum.splits)
  have "answered_or_asked c w'" for c
  proof (cases "c = cid")
    case True
    with asking.endsD[OF assms(1) m] show ?thesis by simp
  next
    case False
    with start_opens[OF s] n have "answered_or_asked c w1" by (simp add: no_call_is_lost_def)
    moreover from assms(2) m have "tidied w1 w'" by (metis carries_def snd_conv)
    ultimately show ?thesis by (rule asking.keeps[rotated])
  qed
  then show "no_call_is_lost w'" by (simp add: no_call_is_lost_def)
qed

lemma asks_suspend: "asking.ends P cid (suspend_call lp cid reason q question questions)"
proof -
  have "answered_or_asked cid w'" if w: "write_rec lp (Suspended b) w = (Inr r, w')" and b: "su_pending_call_id b = Some cid" for b w r w'
  proof -
    from write_last[OF w] obtain u cx where "r_body r = Suspended b" "fold_step u r = Inr (j_state (wk_journal w'), cx)"
      by (auto simp: folded_last_def)
    with suspended_about[OF this(2)] b show ?thesis by (simp add: answered_or_asked_def asked_about_def)
  qed
  then have "asking.ends asking.always cid (write_rec lp (Suspended b))" if "su_pending_call_id b = Some cid" for b
    using that by (simp add: asking.ends_def)
  then show ?thesis unfolding suspend_call_def
    by (intro asking.ends_last asking.ends_first[OF _ tidy_loop.over_give]) simp
qed

lemma asks_gate_question: "asking.ends (\<lambda>g. g \<noteq> GateAllowed) cid (gate_question lp cid arguments)"
  unfolding gate_question_def Let_def
  by (auto split: option.split intro!: asking.ends_look asks_suspend asking.ends_first[OF asking.ends_settle_question]
        asking.ends_first[OF asking.ends_answer_failed] tidy_loop.over_give)

lemma asks_gate_decided: "asking.ends (\<lambda>g. g \<noteq> GateAllowed) cid (gate_decided lp cid name arguments d)"
  unfolding gate_decided_def
  by (intro asking.ends_last asking.ends_if asks_suspend asking.ends_first[OF asking.ends_answer_failed] tidy_loop.over_give)
     (simp add: asking.ends_give)

lemma asks_gate: "asking.ends (\<lambda>g. g \<noteq> GateAllowed) cid (the_gate lp cid name arguments offered)"
  unfolding the_gate_def
  by (auto split: option.split bool.split prod.split
        intro!: asks_gate_question asks_gate_decided asking.ends_look asking.ends_last asking.ends_give
          asking.ends_first[OF asking.ends_answer_failed] tidy_loop.over_give)

lemma over_after_gate: "callers_keep tidied lp \<Longrightarrow> g \<noteq> GateAllowed \<Longrightarrow>
   carries tidied (if g = GateSuspended then give a else if g = GateDenied then give b else m)"
  by (cases g) (simp_all add: tidy_loop.over_give)

lemma then_do_assoc: "then_do (then_do m f) g = then_do m (\<lambda>x. then_do (f x) g)"
  by (intro ext) (auto simp: then_do_def split: sum.splits prod.splits)

lemma asks_one_call: "callers_keep tidied lp \<Longrightarrow> asking.ends asking.always cid (one_call lp offered n cid d name arguments f)"
proof -
  assume c: "callers_keep tidied lp"
  note closes = asking.ends_first[OF asking.ends_answer_failed tidy_loop.over_give]
    asking.ends_first[OF asking.ends_finish tidy_loop.over_give]
  have gate: "asking.ends asking.always cid (then_do (the_gate lp cid name arguments offered) (\<lambda>g.
      if g = GateSuspended then give a else if g = GateDenied then give b else m))"
    if "asking.ends asking.always cid m" for a b and m :: "(int \<times> string option) walked"
    by (rule asking.ends_either[OF asks_gate]) (rule over_after_gate[OF c], use that in simp_all)
  have run: "asking.ends asking.always cid (then_do (execute_and_record lp n cid name arguments) (\<lambda>n'.
      then_do (refresh_walk lp) (\<lambda>_. look (\<lambda>st'. give (n', h st')))))" for name and h :: "run_state_view \<Rightarrow> string option"
    by (rule asking.ends_first[OF asking.ends_execute[OF c]]) (intro tidy_loop.over_then tidy_loop.over_refresh tidy_loop.over_look tidy_loop.over_give)
  show ?thesis unfolding one_call_def Let_def
    by (auto simp: finish_record_def split: option.split intro!: closes gate run asking.ends_look asking.ends_if)
qed

lemma loses_unstarted: "loses_none (answer_unstarted lp why cs)"
proof (induction cs)
  case (Cons c cs)
  have one: "loses_none (then_do (start_call lp cid name shown arguments) (\<lambda>_. answer_failed lp cid o1 kind message))"
    for cid name shown arguments o1 kind message
    by (rule loses_started[OF asking.ends_answer_failed tidy_loop.over_answer_failed])
  have "loses_none (then_do (start_call lp cid name shown arguments) (\<lambda>_.
      then_do (answer_failed lp cid o1 kind message) (\<lambda>_. answer_unstarted lp why cs)))"
    for cid name shown arguments o1 kind message
    using loses_then[OF one Cons.IH] by (simp only: then_do_assoc)
  then show ?case unfolding answer_unstarted.simps
    by (intro loses_then[OF loses_carried[OF tidy_loop.over_mint]]) (simp split: prod.split)
qed (simp add: loses_carried tidy_loop.over_give)

lemma loses_tool_calls: "callers_keep tidied lp \<Longrightarrow> loses_none (run_tool_calls lp offered n cs)"
proof (induction cs arbitrary: n)
  case (Cons c cs)
  note keep = Cons.prems
  have one: "loses_none (then_do (start_call lp cid name shown arguments) (\<lambda>_. one_call lp offered n cid d name' arguments' f))"
    for cid name shown arguments d name' arguments' f
    by (rule loses_started[OF asks_one_call[OF keep] tidy_loop.over_one_call[OF keep]])
  have rest: "loses_none ((\<lambda>(n', stop). case stop of Some why \<Rightarrow> answer_unstarted lp why cs | None \<Rightarrow> run_tool_calls lp offered n' cs) r)" for r
    using Cons.IH[OF keep] by (auto intro: loses_unstarted split: prod.split option.split)
  have "loses_none (then_do (start_call lp cid name shown arguments) (\<lambda>_.
      then_do (one_call lp offered n cid d name' arguments' f) (\<lambda>(n', stop).
      case stop of Some why \<Rightarrow> answer_unstarted lp why cs | None \<Rightarrow> run_tool_calls lp offered n' cs)))"
    for cid name shown arguments d name' arguments' f
    using loses_then[OF one rest] by (simp only: then_do_assoc)
  then show ?case unfolding run_tool_calls.simps Let_def
    by (intro loses_then[OF loses_carried[OF tidy_loop.over_mint]]) (simp split: prod.split)
qed (simp add: loses_carried tidy_loop.over_give)

lemma loses_finish_turn: "callers_keep tidied lp \<Longrightarrow> loses_none (finish_turn lp turn request a ts definitions)"
proof -
  assume c: "callers_keep tidied lp"
  have m: "loses_none (write_rec lp (ModelCallFinished b))" for b
    by (intro loses_carried tidy_loop.over_quiet) (simp add: quiet_def)
  from c have "al_children lp = Some ch \<Longrightarrow> carries tidied (wait_for_children lp ch)" for ch
    by (intro tidy_loop.over_wait) (simp add: callers_keep_def)
  then have ending: "loses_none (look (\<lambda>st.
       if v_pending_follow_up st \<noteq> [] then then_do (drain lp FollowUp) (\<lambda>_. give None)
       else case (if live_children st = [] then None else al_children lp) of
         Some children \<Rightarrow> wait_for_children lp children
       | None \<Rightarrow> give (Some \<lparr>lo_state = Completed, lo_reason = ''the model finished with no tool calls'',
           lo_output = Some [(''text'', JStr (ma_text a))], lo_failure = None\<rparr>)))"
    by (intro loses_carried tidy_loop.over_look tidy_loop.over_if tidy_loop.over_then tidy_loop.over_drain tidy_loop.over_give)
       (auto intro: tidy_loop.over_give split: option.split)
  show ?thesis unfolding finish_turn_def
    by (intro loses_then m loses_if ending loses_tool_calls c loses_carried tidy_loop.over_give)
qed

lemma loses_open_turn: "callers_keep tidied lp \<Longrightarrow> loses_none (open_turn lp turn resolved)"
proof -
  assume c: "callers_keep tidied lp"
  have w: "loses_none (write_rec lp (TurnStarted b))" "loses_none (write_rec lp (ModelCallStarted b'))" for b b'
    by (auto intro!: loses_carried tidy_loop.over_quiet simp: quiet_def)
  have call: "loses_none (\<lambda>w. case call_model lp request w of
        (Inl e, w1) \<Rightarrow> if e = CancelledErr then (Inl e, w1) else record_model_failure lp turn m e w1
      | (Inr (a, timings), w1) \<Rightarrow> finish_turn lp turn request a timings ds w1)" for request m ds
    unfolding loses_none_def
  proof (intro allI impI)
    fix w x w'
    assume r: "(case call_model lp request w of
        (Inl e, w1) \<Rightarrow> if e = CancelledErr then (Inl e, w1) else record_model_failure lp turn m e w1
      | (Inr (a, timings), w1) \<Rightarrow> finish_turn lp turn request a timings ds w1) = (Inr x, w')" and n: "no_call_is_lost w"
    obtain z w1 where z: "call_model lp request w = (z, w1)" by (cases "call_model lp request w")
    have "tidied w w1" using tidy_loop.over_call_model[of lp request] z by (metis carries_def snd_conv)
    with n have n1: "no_call_is_lost w1" by (auto simp: no_call_is_lost_def intro: asking.keeps)
    show "no_call_is_lost w'"
    proof (cases z)
      case (Inl e)
      with r z have "record_model_failure lp turn m e w1 = (Inr x, w')" by (simp split: if_splits)
      with loses_carried[OF tidy_loop.over_model_failure] n1 show ?thesis unfolding loses_none_def by blast
    next
      case (Inr y)
      with r z have "finish_turn lp turn request (fst y) (snd y) ds w1 = (Inr x, w')" by (simp add: split_def)
      with loses_finish_turn[OF c] n1 show ?thesis unfolding loses_none_def by blast
    qed
  qed
  show ?thesis unfolding open_turn_def in_turn_def Let_def
    by (intro loses_then w call loses_carried tidy_loop.over_drain tidy_loop.over_read_log)
qed

lemma loses_turn: "callers_keep tidied lp \<Longrightarrow> loses_none (one_turn lp)"
proof -
  assume c: "callers_keep tidied lp"
  have r: "loses_none (case r of Inl o1 \<Rightarrow> give (Some o1) | Inr resolved \<Rightarrow> open_turn lp n resolved)" for r n
    by (cases r) (simp_all add: loses_open_turn c loses_carried tidy_loop.over_give)
  show ?thesis unfolding one_turn_def
    by (intro loses_then loses_option loses_look r loses_carried tidy_loop.over_refresh tidy_loop.over_compact_if
          tidy_loop.over_resolve_tools c tidy_loop.over_give)
qed

lemma loses_run_from: "callers_keep tidied lp \<Longrightarrow> loses_none (run_from lp fuel)"
proof (induction fuel)
  case (Suc fuel)
  note c = Suc.prems
  show ?case unfolding run_from.simps
    by (rule loses_then[OF loses_carried[OF tidy_loop.over_stop_conditions]], rule loses_option, rule loses_then[OF loses_turn[OF c]],
        rule loses_option, rule Suc.IH[OF c], (rule loses_carried, rule tidy_loop.over_give)+)
qed (simp add: loses_carried tidy_loop.over_give)



end
