(* ===== verification/Replay.thy ===== *)
theory Replay
  imports Walked WalkSamples
begin

text \<open>
  Seeding a replayed workflow Run from the Run it replays (\<open>psych_runtime/runtime/workflow_replay.py\<close>): the
  steps that settled before the named step are copied into the new log, from where the engine takes them as
  memoised.

  Shown: every such step is remembered with the outcome it had; a complete seeding is not repeated; and a copy
  that was interrupted between its two records is never completed, so that the step it copies runs again.
\<close>

section \<open>The seeding\<close>

text \<open>\<open>await store.read(source_id)\<close>.\<close>

definition read_run :: "'e surroundings_scheme \<Rightarrow> run_id \<Rightarrow> log_record list walked" where
  "read_run en i w =
     (let t = wk_tick w; s = en_others en t (wk_store w) in (Inr (store_read s i 0 None), w\<lparr>wk_store := s, wk_tick := t + 1\<rparr>))"

definition sits_before :: "string \<Rightarrow> int \<Rightarrow> step_record \<Rightarrow> bool" where
  "sits_before whole boundary r \<longleftrightarrow>
     (case sr_path r of PName name # PIndex position # _ # _ \<Rightarrow> name = whole \<and> position < boundary | _ \<Rightarrow> False)"

definition copied_start :: "run_id \<Rightarrow> run_id \<Rightarrow> (step_id, step_record) dict \<Rightarrow> step_record \<Rightarrow> step_started" where
  "copied_start run source_id steps r =
     \<lparr>ss_step_id = derive_step_id run (sr_path r), ss_name = sr_name r, ss_kind = sr_kind r, ss_attempt_number = 1,
      ss_input = sr_input r, ss_path = sr_path r,
      ss_parent_step_id = (case sr_parent_step_id r of None \<Rightarrow> None
        | Some p \<Rightarrow> (case dict_get steps p of None \<Rightarrow> None | Some parent \<Rightarrow> Some (derive_step_id run (sr_path parent)))),
      ss_iteration = sr_iteration r, ss_replayed_from = Some source_id\<rparr>"

definition copied_end :: "run_id \<Rightarrow> step_record \<Rightarrow> step_completed" where
  "copied_end run r =
     \<lparr>sc_step_id = derive_step_id run (sr_path r), sc_output = sr_output r, sc_failure = sr_failure r,
      sc_child_run_id = sr_child_run_id r, sc_skipped = sr_skipped r, sc_will_retry = False, sc_retry_at = None\<rparr>"

definition copy_step :: "'e surroundings_scheme \<Rightarrow> run_id \<Rightarrow> run_id \<Rightarrow> (step_id, step_record) dict \<Rightarrow> step_record \<Rightarrow> unit walked" where
  "copy_step en run source_id steps r =
     then_do (write_rec en (StepStarted (copied_start run source_id steps r))) (\<lambda>_.
     then_do (write_rec en (StepCompleted (copied_end run r))) (\<lambda>_. give ()))"

fun copy_steps :: "'e surroundings_scheme \<Rightarrow> run_id \<Rightarrow> run_id \<Rightarrow> (step_id, step_record) dict \<Rightarrow> int \<Rightarrow> step_record list \<Rightarrow> int walked" where
  "copy_steps en run source_id steps copied [] = give copied"
| "copy_steps en run source_id steps copied (r # rs) =
     look (\<lambda>st. if derive_step_id run (sr_path r) \<in> dict_keys (v_steps st) then copy_steps en run source_id steps copied rs
       else then_do (copy_step en run source_id steps r) (\<lambda>_. copy_steps en run source_id steps (copied + 1) rs))"

text \<open>The steps that are copied, in the order in which they started.\<close>

definition to_copy :: "string \<Rightarrow> int \<Rightarrow> run_state_view \<Rightarrow> step_record list" where
  "to_copy whole boundary source =
     filter (\<lambda>r. sits_before whole boundary r \<and> step_settled r) (sort_key sr_started_seq (map snd (v_steps source)))"

fun position_of :: "string \<Rightarrow> string list \<Rightarrow> int option" where
  "position_of name [] = None"
| "position_of name (n # ns) = (if n = name then Some 0 else map_option (\<lambda>i. i + 1) (position_of name ns))"

definition seed_replay :: "'e surroundings_scheme \<Rightarrow> string \<Rightarrow> string list \<Rightarrow> int walked" where
  "seed_replay en whole step_names =
     look (\<lambda>st. case (v_replays_run_id st, v_replay_from_step st) of
       (Some source_id, Some from_step) \<Rightarrow>
         then_do (read_run en source_id) (\<lambda>records.
         if records = [] then raise_it (OtherErr ''RunNotFound'' source_id)
         else case reduce (Some source_id) None records of
           Inl e \<Rightarrow> raise_it (JournalErr (Refused e))
         | Inr source \<Rightarrow> (\<lambda>w. let own = j_scope (wk_journal w); run = j_run_id (wk_journal w) in
             (if sc_tenant (v_scope source) \<noteq> sc_tenant own then
                raise_it (OtherErr ''AccessDenied'' (''access to run '' @ source_id @ '' denied: belongs to tenant '' @
                  repr_str (sc_tenant (v_scope source)) @ '', not '' @ repr_str (sc_tenant own) @ ''. A Run '' @
                  ''may only replay a Run in its own Scope.''))
              else case position_of from_step step_names of
                None \<Rightarrow> give 0
              | Some boundary \<Rightarrow> copy_steps en run source_id (v_steps source) 0 (to_copy whole boundary source)) w))
     | _ \<Rightarrow> give 0)"

section \<open>What a copy leaves\<close>

definition copied_as :: "step_id \<Rightarrow> step_record \<Rightarrow> run_state_view \<Rightarrow> bool" where
  "copied_as sid r st \<longleftrightarrow> (\<exists>m. dict_get (v_steps st) sid = Some m \<and> step_settled m \<and> sr_output m = sr_output r \<and>
     sr_failure m = sr_failure r \<and> sr_skipped m = sr_skipped r \<and> sr_child_run_id m = sr_child_run_id r)"

lemma copied_as_grows: "copied_as sid r st \<Longrightarrow> state_grows st st' \<Longrightarrow> copied_as sid r st'"
  unfolding copied_as_def state_grows_def by blast

lemma completed_remembered:
  assumes "folded_last (StepCompleted c) rec st" and "\<not> sc_will_retry c"
  shows "\<exists>m. dict_get (v_steps st) (sc_step_id c) = Some m \<and> step_settled m \<and> sr_output m = sc_output c \<and>
     sr_failure m = sc_failure c \<and> sr_skipped m = sc_skipped c \<and> sr_child_run_id m = sc_child_run_id c"
proof -
  from assms(1) obtain u cx where b: "r_body rec = StepCompleted c" and f: "fold_step u rec = Inr (st, cx)"
    by (auto simp: folded_last_def)
  from apply_step_completed[OF fold_step_applies[OF f, unfolded b]] assms(2) show ?thesis
    by (auto simp: completed_step_def step_settled_def)
qed

lemma copy_step_copies:
  "yields (copy_step en run source_id steps r) (\<lambda>_ w'. copied_as (derive_step_id run (sr_path r)) r (j_state (wk_journal w'))) w"
proof -
  have "yields (write_rec en (StepCompleted (copied_end run r)))
      (\<lambda>_ w'. copied_as (derive_step_id run (sr_path r)) r (j_state (wk_journal w'))) w" for w
    by (rule yields_write) (auto dest!: completed_remembered simp: copied_end_def copied_as_def)
  note e = this
  show ?thesis unfolding copy_step_def
    by (rule yields_first, rule yields_then, rule yields_mono[OF e]) (simp add: yields_give)
qed

section \<open>Which steps appear\<close>

interpretation others_steps: external_state "\<lambda>st st'. v_steps st' = v_steps st"
proof unfold_locales
  fix r s s' assume "is_external (r_body r)" and f: "fold_step s r = Inr s'"
  then show "v_steps (fst s') = v_steps (fst s)"
    using apply_no_step[OF fold_step_applies[OF f]] by (cases "r_body r") auto
qed auto

definition new_ids :: "body \<Rightarrow> step_id set" where
  "new_ids b = (case b of StepStarted s \<Rightarrow> {ss_step_id s} | StepCompleted c \<Rightarrow> {sc_step_id c} | _ \<Rightarrow> {})"

abbreviation steps_at :: "walk \<Rightarrow> step_id set" where
  "steps_at w \<equiv> dict_keys (v_steps (j_state (wk_journal w)))"

lemma step_ids: "fold_step s r = Inr s' \<Longrightarrow> dict_keys (v_steps (fst s')) \<subseteq> dict_keys (v_steps (fst s)) \<union> new_ids (r_body r)"
proof -
  assume "fold_step s r = Inr s'"
  note a = fold_step_applies[OF this]
  show ?thesis
  proof (cases "(\<exists>x. r_body r = StepStarted x) \<or> (\<exists>x. r_body r = StepCompleted x)")
    case False
    with apply_no_step[OF a] show ?thesis by auto
  next
    case True
    then show ?thesis
    proof (elim disjE exE)
      fix x assume b: "r_body r = StepStarted x"
      from apply_step_started[OF a[unfolded b]] show ?thesis by (simp add: b new_ids_def)
    next
      fix x assume b: "r_body r = StepCompleted x"
      from apply_step_completed[OF a[unfolded b]]
      obtain sr where "v_steps (fst s') = dict_put (sc_step_id x) sr (v_steps (fst s))" by auto
      then show ?thesis by (simp add: b new_ids_def)
    qed
  qed
qed

lemma write_ids: "steps_at (snd (write_rec en b w)) \<subseteq> steps_at w \<union> new_ids b"
proof (rule others_steps.write_to[of w en b])
  fix st
  assume s: "v_steps st = v_steps (j_state (wk_journal w))" and
    or: "j_state (wk_journal (snd (write_rec en b w))) = st \<or>
       (\<exists>r cx cx'. r_body r = b \<and> fold_step (st, cx) r = Inr (j_state (wk_journal (snd (write_rec en b w))), cx'))"
  from or show ?thesis
  proof (elim disjE exE conjE)
    fix r cx cx' assume "r_body r = b" and "fold_step (st, cx) r = Inr (j_state (wk_journal (snd (write_rec en b w))), cx')"
    with step_ids[OF this(2)] s show ?thesis by simp
  qed (use s in auto)
qed

lemma copy_step_ids: "copy_step en run source_id steps r w = (res, w') \<Longrightarrow> steps_at w' \<subseteq> insert (derive_step_id run (sr_path r)) (steps_at w)"
proof -
  let ?s = "StepStarted (copied_start run source_id steps r)" and ?e = "StepCompleted (copied_end run r)"
  assume c: "copy_step en run source_id steps r w = (res, w')"
  obtain r1 w1 where w1: "write_rec en ?s w = (r1, w1)" by (cases "write_rec en ?s w")
  obtain r2 w2 where w2: "write_rec en ?e w1 = (r2, w2)" by (cases "write_rec en ?e w1")
  from c w1 w2 have "w' = w1 \<or> w' = w2"
    by (cases r1; cases r2) (auto simp: copy_step_def then_do_def give_def)
  moreover have "new_ids ?s = {derive_step_id run (sr_path r)}" "new_ids ?e = {derive_step_id run (sr_path r)}"
    by (simp_all add: new_ids_def copied_start_def copied_end_def)
  with write_ids[of en ?s w] write_ids[of en ?e w1] w1 w2
  have "steps_at w1 \<subseteq> insert (derive_step_id run (sr_path r)) (steps_at w)"
    "steps_at w2 \<subseteq> insert (derive_step_id run (sr_path r)) (steps_at w1)"
    by simp_all
  moreover have "A \<subseteq> insert x B \<Longrightarrow> C \<subseteq> insert x A \<Longrightarrow> C \<subseteq> insert x B" for A B C :: "step_id set" and x by blast
  ultimately show ?thesis by metis
qed

lemma copy_step_grows: "carries grows (copy_step en run source_id steps r)"
  unfolding copy_step_def by (intro awaits_grow.over_then awaits_grow.over_give awaits_grow.over_write)

lemma copies_grow: "carries grows (copy_steps en run source_id steps n rs)"
proof (induction rs arbitrary: n)
  case (Cons r rs)
  with copy_step_grows show ?case by (auto intro!: awaits_grow.over_look awaits_grow.over_then)
qed (simp add: awaits_grow.over_give)

lemma all_copied:
  assumes "copy_steps en run source_id steps n rs w = (Inr m, w')"
    and "inj_on (\<lambda>r. derive_step_id run (sr_path r)) (set rs)"
    and "\<And>r. r \<in> set rs \<Longrightarrow> derive_step_id run (sr_path r) \<in> steps_at w \<Longrightarrow> copied_as (derive_step_id run (sr_path r)) r (j_state (wk_journal w))"
    and "distinct rs" and "r \<in> set rs"
  shows "copied_as (derive_step_id run (sr_path r)) r (j_state (wk_journal w'))"
  using assms
proof (induction rs arbitrary: n w)
  case (Cons q rs)
  let ?id = "\<lambda>r. derive_step_id run (sr_path r)"
  have apart: "?id x \<noteq> ?id q" if "x \<in> set rs" for x using Cons.prems(2,4) that by (auto simp: inj_on_def)
  have later: "state_grows (j_state (wk_journal v)) (j_state (wk_journal w'))"
    if "copy_steps en run source_id steps k rs v = (Inr m, w')" for v k
    using copies_grow[of en run source_id steps k rs] that by (metis carries_def grows_def snd_conv)
  show ?case
  proof (cases "?id q \<in> steps_at w")
    case True
    then have rest: "copy_steps en run source_id steps n rs w = (Inr m, w')" using Cons.prems(1) by (simp add: look_def)
    show ?thesis
    proof (cases "r = q")
      case True
      with Cons.prems(3)[of q] \<open>?id q \<in> steps_at w\<close> later[OF rest] show ?thesis by (auto intro: copied_as_grows)
    next
      case False
      with Cons.prems show ?thesis by (intro Cons.IH[OF rest]) (auto simp: inj_on_def)
    qed
  next
    case False
    then obtain w1 where one: "copy_step en run source_id steps q w = (Inr (), w1)"
      and rest: "copy_steps en run source_id steps (n + 1) rs w1 = (Inr m, w')"
      using Cons.prems(1) by (auto simp: look_def then_do_def split: sum.splits prod.splits)
    have q: "copied_as (?id q) q (j_state (wk_journal w1))" 
      using copy_step_copies[of en run source_id steps q w] one by (simp add: yields_def)
    have g: "state_grows (j_state (wk_journal w)) (j_state (wk_journal w1))"
      using copy_step_grows[of en run source_id steps q] one by (metis carries_def grows_def snd_conv)
    show ?thesis
    proof (cases "r = q")
      case True
      with q later[OF rest] show ?thesis by (auto intro: copied_as_grows)
    next
      case False
      have "copied_as (?id x) x (j_state (wk_journal w1))" if "x \<in> set rs" "?id x \<in> steps_at w1" for x
        using copy_step_ids[OF one] that apart[OF that(1)] Cons.prems(3)[of x] copied_as_grows[OF _ g] by auto
      with False Cons.prems show ?thesis by (intro Cons.IH[OF rest]) (auto simp: inj_on_def)
    qed
  qed
qed simp

section \<open>A replay\<close>

definition s_source_path :: "path_elem list" where
  "s_source_path = [PName ''w'', PIndex 0, PName ''s'']"

definition s_source_log :: "log_record list" where
  "s_source_log = map (\<lambda>r. r\<lparr>r_run_id := ''src''\<rparr>) (log_of [b_admitted, b_attempt 1,
     StepStarted \<lparr>ss_step_id = ''x'', ss_name = ''s'', ss_kind = ''map'', ss_attempt_number = 1, ss_input = [],
       ss_path = s_source_path, ss_parent_step_id = None, ss_iteration = None, ss_replayed_from = None\<rparr>,
     b_step_done ''x'' [(''y'', JInt 1)]])"

definition s_copied :: step_record where
  "s_copied = \<lparr>sr_step_id = ''x'', sr_name = ''s'', sr_kind = ''map'', sr_attempt_number = 1, sr_input = [], sr_completed = True,
     sr_output = Some [(''y'', JInt 1)], sr_failure = None, sr_child_run_id = None, sr_path = s_source_path,
     sr_parent_step_id = None, sr_iteration = None, sr_skipped = False, sr_will_retry = False, sr_retry_at = None,
     sr_started_at = Some 3, sr_completed_at = Some 4, sr_started_seq = 3, sr_completed_seq = Some 4, sr_replayed_from = None\<rparr>"

definition s_quiet :: surroundings where
  "s_quiet = \<lparr>en_now = int, en_abort = \<lambda>_. None, en_others = \<lambda>_. id\<rparr>"

text \<open>A Run that replays the Run \<open>src\<close> from its step \<open>t\<close>.\<close>

definition s_replaying :: "(step_id, step_record) dict \<Rightarrow> nat \<Rightarrow> walk" where
  "s_replaying steps t =
     \<lparr>wk_journal = \<lparr>j_run_id = ''run'', j_scope = s_scope,
        j_state = s_state\<lparr>v_replays_run_id := Some ''src'', v_replay_from_step := Some ''t'', v_steps := steps\<rparr>, j_attempt_id = None\<rparr>,
      wk_store = (s_store [b_admitted, b_attempt 1])\<lparr>st_logs := st_logs (s_store [b_admitted, b_attempt 1]) @
        [(''src'', map (\<lambda>r. (r_seq r, r)) s_source_log)]\<rparr>, wk_tick = t\<rparr>"

lemma s_replaying_simps:
  "j_run_id (wk_journal (s_replaying steps t)) = ''run''" "j_scope (wk_journal (s_replaying steps t)) = s_scope"
  "v_replays_run_id (j_state (wk_journal (s_replaying steps t))) = Some ''src''"
  "v_replay_from_step (j_state (wk_journal (s_replaying steps t))) = Some ''t''"
  "v_steps (j_state (wk_journal (s_replaying steps t))) = steps"
  by (simp_all add: s_replaying_def)

lemma s_source: "case reduce (Some ''src'') None (store_read (wk_store (s_replaying [] 0)) ''src'' 0 None) of
    Inl _ \<Rightarrow> False | Inr source \<Rightarrow> to_copy ''w'' 1 source = [s_copied] \<and> v_steps source = [(''x'', s_copied)]"
  by code_simp

lemma s_source_scope: "case reduce (Some ''src'') None (store_read (wk_store (s_replaying [] 0)) ''src'' 0 None) of
    Inl _ \<Rightarrow> False | Inr source \<Rightarrow> sc_tenant (v_scope source) = ''t''"
  by code_simp

text \<open>The digest of the path is never computed: the copy works under every id.\<close>

lemma s_copy_written:
  "case fst (then_do (write_rec s_quiet (StepStarted \<lparr>ss_step_id = sid, ss_name = ''s'', ss_kind = ''map'', ss_attempt_number = 1,
       ss_input = [], ss_path = s_source_path, ss_parent_step_id = None, ss_iteration = None, ss_replayed_from = Some ''src''\<rparr>))
     (\<lambda>_. then_do (write_rec s_quiet (StepCompleted \<lparr>sc_step_id = sid, sc_output = Some [(''y'', JInt 1)], sc_failure = None,
       sc_child_run_id = None, sc_skipped = False, sc_will_retry = False, sc_retry_at = None\<rparr>)) (\<lambda>_. give ())) (s_replaying [] 1)) of
     Inl _ \<Rightarrow> False | Inr _ \<Rightarrow> True"
  by code_simp

lemma s_seeded:
  obtains n w' where "seed_replay s_quiet ''w'' [''s'', ''t''] (s_replaying [] 0) = (Inr n, w')"
proof -
  obtain source where source: "reduce (Some ''src'') None (store_read (wk_store (s_replaying [] 0)) ''src'' 0 None) = Inr source"
    "to_copy ''w'' 1 source = [s_copied]" "v_steps source = [(''x'', s_copied)]" "sc_tenant (v_scope source) = ''t''"
    using s_source s_source_scope by (auto split: sum.splits)
  have ne: "store_read (wk_store (s_replaying [] 0)) ''src'' 0 None \<noteq> []" by code_simp
  have w1: "read_run s_quiet ''src'' (s_replaying [] 0) = (Inr (store_read (wk_store (s_replaying [] 0)) ''src'' 0 None), s_replaying [] 1)"
    by (simp add: read_run_def s_quiet_def s_replaying_def Let_def)
  let ?steps = "[(''x'', s_copied)]"
  obtain w2 where "copy_step s_quiet ''run'' ''src'' ?steps s_copied (s_replaying [] 1) = (Inr (), w2)"
    using s_copy_written[of "derive_step_id ''run'' s_source_path"]
    by (auto simp: copy_step_def copied_start_def copied_end_def s_copied_def split: sum.splits) (metis prod.collapse)
  then have "copy_steps s_quiet ''run'' ''src'' ?steps 0 [s_copied] (s_replaying [] 1) = (Inr 1, w2)"
    by (simp add: look_def then_do_def give_def s_replaying_simps)
  then have "seed_replay s_quiet ''w'' [''s'', ''t''] (s_replaying [] 0) = (Inr 1, w2)"
    using source ne w1 by (simp add: seed_replay_def look_def then_do_def s_replaying_simps Let_def s_scope_def)
  then show thesis by (rule that)
qed



section \<open>Steps that are in the log already\<close>

lemma write_keeps_step:
  assumes "sid \<notin> new_ids b"
  shows "dict_get (v_steps (j_state (wk_journal (snd (write_rec en b w))))) sid = dict_get (v_steps (j_state (wk_journal w))) sid"
proof (rule others_steps.write_to[of w en b])
  fix st
  assume s: "v_steps st = v_steps (j_state (wk_journal w))" and
    or: "j_state (wk_journal (snd (write_rec en b w))) = st \<or>
       (\<exists>r cx cx'. r_body r = b \<and> fold_step (st, cx) r = Inr (j_state (wk_journal (snd (write_rec en b w))), cx'))"
  from or show ?thesis
  proof (elim disjE exE conjE)
    fix r cx cx' assume b: "r_body r = b" and f: "fold_step (st, cx) r = Inr (j_state (wk_journal (snd (write_rec en b w))), cx')"
    note a = fold_step_applies[OF f, unfolded b]
    consider (start) x where "b = StepStarted x" | (completed) x where "b = StepCompleted x" | (other) "\<And>x. b \<noteq> StepStarted x" "\<And>x. b \<noteq> StepCompleted x"
      by blast
    then show ?thesis
    proof cases
      case start
      with apply_step_started[OF a[unfolded start]] assms s show ?thesis by (simp add: new_ids_def)
    next
      case completed
      with apply_step_completed[OF a[unfolded completed]] assms s show ?thesis by (auto simp: new_ids_def)
    next
      case other
      with apply_no_step[OF a] s show ?thesis by simp
    qed
  qed (use s in simp)
qed

lemma copies_keep_known:
  "copy_steps en run source_id steps n rs w = (res, w') \<Longrightarrow> dict_get (v_steps (j_state (wk_journal w))) sid = Some m \<Longrightarrow>
     dict_get (v_steps (j_state (wk_journal w'))) sid = Some m"
proof (induction rs arbitrary: n w)
  case (Cons r rs)
  let ?id = "derive_step_id run (sr_path r)"
  show ?case
  proof (cases "?id \<in> steps_at w")
    case True
    with Cons show ?thesis by (simp add: look_def)
  next
    case False
    with Cons.prems(2) have ne: "sid \<noteq> ?id" by (auto dest: dict_get_keyD)
    let ?s = "StepStarted (copied_start run source_id steps r)" and ?e = "StepCompleted (copied_end run r)"
    have s: "sid \<notin> new_ids ?s" and e: "sid \<notin> new_ids ?e" using ne by (simp_all add: new_ids_def copied_start_def copied_end_def)
    obtain r2 w2 where c: "copy_step en run source_id steps r w = (r2, w2)" by (cases "copy_step en run source_id steps r w")
    obtain r3 w3 where w3: "write_rec en ?s w = (r3, w3)" by (cases "write_rec en ?s w")
    have "w2 = w3 \<or> w2 = snd (write_rec en ?e w3)"
      using c w3 by (cases r3; cases "write_rec en ?e w3"; cases "fst (write_rec en ?e w3)") (auto simp: copy_step_def then_do_def give_def)
    with write_keeps_step[OF s, of en w] write_keeps_step[OF e, of en w3] w3 Cons.prems(2)
    have k: "dict_get (v_steps (j_state (wk_journal w2))) sid = Some m" by auto
    show ?thesis
    proof (cases r2)
      case (Inl x)
      with Cons.prems(1) False c k show ?thesis by (simp add: look_def then_do_def)
    next
      case (Inr x)
      with Cons.prems(1) False c have "copy_steps en run source_id steps (n + 1) rs w2 = (res, w')"
        by (simp add: look_def then_do_def)
      from Cons.IH[OF this k] show ?thesis .
    qed
  qed
qed (simp add: give_def)

text \<open>C35. An interrupted copy is never completed: a step that stands in the log of the replaying Run, settled or only
  started, is left by every seeding as it is. A Worker that dies between the two records of a copy leaves
  a step that no later seeding completes, so that the engine runs it instead of taking it from the
  replayed Run.\<close>

theorem interrupted_copy_is_never_completed:
  assumes "dict_get (v_steps (j_state (wk_journal w))) sid = Some m"
    and "seed_replay en whole names w = (res, w')"
  shows "dict_get (v_steps (j_state (wk_journal w'))) sid = Some m"
proof -
  have j: "wk_journal (snd (read_run en i w)) = wk_journal w" for i by (simp add: read_run_def Let_def)
  show ?thesis
  proof (cases "wk_journal w' = wk_journal w")
    case False
    then obtain i k steps rs where "copy_steps en (j_run_id (wk_journal w)) i steps k rs (snd (read_run en i w)) = (res, w')"
      using assms(2) by (auto simp: seed_replay_def look_def then_do_def raise_it_def give_def read_run_def Let_def
          split: option.splits if_splits sum.splits)
    from copies_keep_known[OF this] assms(1) j show ?thesis by simp
  qed (use assms(1) in simp)
qed

theorem interrupted_copy_is_never_completed_witness:
  "\<exists>res w'. seed_replay s_quiet ''w'' [''s'', ''t''] (s_replaying [(derive_step_id ''run'' s_source_path, s_copied\<lparr>sr_completed := False\<rparr>)] 0) = (res, w') \<and>
     dict_get (v_steps (j_state (wk_journal w'))) (derive_step_id ''run'' s_source_path) = Some (s_copied\<lparr>sr_completed := False\<rparr>)"
proof -
  let ?w = "s_replaying [(derive_step_id ''run'' s_source_path, s_copied\<lparr>sr_completed := False\<rparr>)] 0"
  have k: "dict_get (v_steps (j_state (wk_journal ?w))) (derive_step_id ''run'' s_source_path) = Some (s_copied\<lparr>sr_completed := False\<rparr>)"
    by (simp add: s_replaying_def)
  obtain res w' where w': "seed_replay s_quiet ''w'' [''s'', ''t''] ?w = (res, w')" by (cases "seed_replay s_quiet ''w'' [''s'', ''t''] ?w")
  from interrupted_copy_is_never_completed[OF k w'] w' show ?thesis by blast
qed

end
