(* ===== verification/Programs.thy ===== *)
theory Programs
  imports Loop
begin

text \<open>
  The tool calls a sandboxed program makes: which tools it may call and how much (\<open>psych_runtime/tools/bindings.py\<close>,
  \<open>psych_runtime/core/code_execution.py\<close>), how one call is recorded, gated and answered (\<open>call_as_binding\<close> of
  \<open>psych_runtime/runtime/agent.py\<close>), and \<open>run_code\<close> itself (\<open>psych_runtime/tools/code.py\<close>).

  A program is the tree of the calls it makes: it ends, or it sends one call and goes on with the reply
  (the loop of \<open>run_protocol\<close> in \<open>psych_runtime/sandbox/protocol.py\<close>), so that calls never overlap. What the sandbox reports
  when it ends is part of the tree.
\<close>

section \<open>What a program may call\<close>

datatype tool_origin = CodeOrigin | HttpOrigin | McpOrigin | A2aOrigin | BuiltinOrigin

record bindable_tool =
  bi_definition :: tool_definition
  bi_origin :: tool_origin
  bi_server :: "string option"

definition bi_name :: "bindable_tool \<Rightarrow> string" where
  "bi_name t = td_name (bi_definition t)"

definition bindable_builtins :: "string set" where
  "bindable_builtins = {''list_tools'', ''get_tool_info'', ''read_tool_output''}"

definition excluded_builtins :: "(string, string) dict" where
  "excluded_builtins =
     [(''ask_question'', ''it suspends the Run to ask a person, and nothing can resume into a running program''),
      (''call_tool'', ''a program calls a tool by its model-facing name through call_tool(name, '' @
        ''arguments), which routes the same way''),
      (''check_subagent'', ''it reports on a child Run, which a program does not start''),
      (''delegate'', ''it starts a child Run that outlives this execution''),
      (''forget'', ''it edits durable memory, which belongs to the turn and not to a program''),
      (''load_skill'', ''it adds instructions to the model's own context, not to a program's''),
      (''message_subagent'', ''it speaks to a child Run, which a program does not start''),
      (''remember'', ''it writes durable memory, which belongs to the turn and not to a program''),
      (''run_code'', ''a program may not start another program''),
      (''show_component'', ''it renders to the person in the conversation, who is not watching a program''),
      (''spawn_subagent'', ''it starts a child Run that outlives this execution''),
      (''update_tasks'', ''it edits the model's own task list'')]"

definition exclusion_reason :: "string \<Rightarrow> string option" where
  "exclusion_reason name = dict_get excluded_builtins name"

definition bindable_from_definitions :: "tool_definition list \<Rightarrow> tool_origin \<Rightarrow> string option \<Rightarrow> bindable_tool list" where
  "bindable_from_definitions definitions origin server =
     map (\<lambda>d. \<lparr>bi_definition = d, bi_origin = origin, bi_server = server\<rparr>)
       (filter (\<lambda>d. exclusion_reason (td_name d) = None) definitions)"

record effective_bindings =
  eb_tools :: "bindable_tool list"
  eb_missing :: "string list"

definition by_name :: "bindable_tool list \<Rightarrow> (string, bindable_tool) dict" where
  "by_name tools = dict_of bi_name tools"

text \<open>\<open>requested\<close> is a set of names.\<close>

definition effective_bindings_of :: "bindable_tool list \<Rightarrow> string set option \<Rightarrow> effective_bindings" where
  "effective_bindings_of bindable requested =
     (let available = by_name bindable;
          chosen = (case requested of
            None \<Rightarrow> sorted_list_of_set (dict_keys available)
          | Some names \<Rightarrow> sorted_list_of_set (names \<inter> dict_keys available));
          missing = (case requested of None \<Rightarrow> [] | Some names \<Rightarrow> sorted_list_of_set (names - dict_keys available))
      in \<lparr>eb_tools = List.map_filter (dict_get available) chosen, eb_missing = missing\<rparr>)"

definition with_output_reader :: "tool_definition \<Rightarrow> effective_bindings \<Rightarrow> effective_bindings" where
  "with_output_reader reader bindings =
     (if list_ex (\<lambda>t. bi_name t = ''read_tool_output'') (eb_tools bindings) then bindings
      else bindings\<lparr>eb_tools := sort_key bi_name (eb_tools bindings @
             [\<lparr>bi_definition = reader, bi_origin = BuiltinOrigin, bi_server = None\<rparr>])\<rparr>)"

section \<open>Budgets\<close>

record binding_budget =
  bb_max_calls :: int
  bb_max_calls_per_run :: int
  bb_max_argument_bytes :: int
  bb_max_result_bytes :: int
  bb_max_total_bytes :: int
  bb_max_produced_bytes :: int
  bb_max_preserved_bytes_per_run :: int

definition default_binding_budget :: binding_budget where
  "default_binding_budget =
     \<lparr>bb_max_calls = 1000, bb_max_calls_per_run = 10000, bb_max_argument_bytes = 1024 * 1024,
      bb_max_result_bytes = 8 * 1024 * 1024, bb_max_total_bytes = 64 * 1024 * 1024,
      bb_max_produced_bytes = 256 * 1024 * 1024, bb_max_preserved_bytes_per_run = 512 * 1024 * 1024\<rparr>"

definition narrow_budget :: "binding_budget \<Rightarrow> binding_budget \<Rightarrow> binding_budget" where
  "narrow_budget a b =
     \<lparr>bb_max_calls = min (bb_max_calls a) (bb_max_calls b),
      bb_max_calls_per_run = min (bb_max_calls_per_run a) (bb_max_calls_per_run b),
      bb_max_argument_bytes = min (bb_max_argument_bytes a) (bb_max_argument_bytes b),
      bb_max_result_bytes = min (bb_max_result_bytes a) (bb_max_result_bytes b),
      bb_max_total_bytes = min (bb_max_total_bytes a) (bb_max_total_bytes b),
      bb_max_produced_bytes = min (bb_max_produced_bytes a) (bb_max_produced_bytes b),
      bb_max_preserved_bytes_per_run = min (bb_max_preserved_bytes_per_run a) (bb_max_preserved_bytes_per_run b)\<rparr>"

record result_handle =
  rh_handle :: string
  rh_tool :: string
  rh_size_bytes :: int
  rh_stored :: string

definition as_wire :: "result_handle \<Rightarrow> obj" where
  "as_wire h = [(''handle'', JStr (rh_handle h)), (''tool'', JStr (rh_tool h)), (''size_bytes'', JInt (rh_size_bytes h)),
     (''stored'', JStr (rh_stored h))]"

text \<open>What a program receives: a result, or a handle to it.\<close>

datatype program_value = WholeResult json | ByHandle result_handle

text \<open>\<open>json.dumps(..., default=str)\<close>; a handle is not JSON data, so that its \<open>str\<close> is written.\<close>

definition measure_bytes :: "json \<Rightarrow> int" where
  "measure_bytes j = int (length (utf8 (json_plain '', '' '': '' j)))"

definition handle_repr :: "result_handle \<Rightarrow> string" where
  "handle_repr h = ''ResultHandle(handle='' @ repr_str (rh_handle h) @ '', tool='' @ repr_str (rh_tool h) @
     '', size_bytes='' @ int_str (rh_size_bytes h) @ '', stored='' @ repr_str (rh_stored h) @ '')''"

definition measure_value :: "program_value \<Rightarrow> int" where
  "measure_value v = (case v of WholeResult j \<Rightarrow> measure_bytes j | ByHandle h \<Rightarrow> measure_bytes (JStr (handle_repr h)))"

section \<open>One call\<close>

text \<open>
  What one execution of a program keeps: its calls and the bytes they moved (\<open>_ExecutionSpend\<close>), the handles
  it was given and the bytes its tools produced (attributes of the loop, reset when \<open>run_code\<close> starts).
\<close>

record program_state =
  pg_calls :: int
  pg_total_bytes :: int
  pg_handles :: "string set"
  pg_produced_bytes :: int

definition fresh_program :: program_state where
  "fresh_program = \<lparr>pg_calls = 0, pg_total_bytes = 0, pg_handles = {}, pg_produced_bytes = 0\<rparr>"

text \<open>\<open>ProgramToolRefused\<close> (kind, subject, reason), or anything else that was raised.\<close>

datatype call_failure = Refused string string string | Raised raised

record program_terms =
  pt_bindings :: "bindable_tool list"
  pt_budget :: binding_budget
  pt_refusal :: "(string \<times> string) option"

definition subject_of :: "string \<Rightarrow> string" where
  "subject_of name = ''tool '' @ repr_str name"

definition bytes_exhausted :: "binding_budget \<Rightarrow> int \<Rightarrow> int \<Rightarrow> string \<Rightarrow> call_failure option" where
  "bytes_exhausted budget produced preserved name =
     (if produced \<ge> bb_max_produced_bytes budget then
        Some (Refused ''binding_produced_bytes_exhausted'' (subject_of name)
          (''the tools this program has called have produced '' @ int_str produced @ '' bytes and it may spend '' @
           int_str (bb_max_produced_bytes budget) @ ''. Ask for less per call -- a filter, a '' @
           ''narrower query, a smaller page -- rather than fetching everything '' @ ''and reducing it here.''))
      else if preserved \<ge> bb_max_preserved_bytes_per_run budget then
        Some (Refused ''binding_preserved_bytes_exhausted_for_run'' (subject_of name)
          (''this Run's programs have stored '' @ int_str preserved @ '' bytes of tool '' @ ''results and may store '' @
           int_str (bb_max_preserved_bytes_per_run budget) @ ''. Answer '' @
           ''with what is already stored, or call the tool directly.''))
      else None)"

definition not_bound :: "string \<Rightarrow> call_failure" where
  "not_bound name =
     (case exclusion_reason name of
        Some excluded \<Rightarrow> Refused ''not_callable_from_a_program'' (subject_of name)
          (excluded @ ''. Call it directly rather than from run_code.'')
      | None \<Rightarrow> Refused ''binding_not_available'' (subject_of name)
          ''no tool of that name is available to programs in this Run right now.'')"

definition owns_handle :: "program_state \<Rightarrow> obj \<Rightarrow> bool" where
  "owns_handle pg arguments \<longleftrightarrow> (case dict_get arguments ''handle'' of Some (JStr h) \<Rightarrow> h \<in> pg_handles pg | _ \<Rightarrow> False)"

definition foreign_handle_message :: string where
  "foreign_handle_message = ''a program may only read results its own calls produced in this execution. '' @
     ''This handle is not one of them.''"

definition interrupted_states :: "string list" where
  "interrupted_states = [''TASK_STATE_INPUT_REQUIRED'', ''TASK_STATE_AUTH_REQUIRED'']"

text \<open>The \<open>task_id\<close> is written when it is truthy.\<close>

definition peer_needs_input :: "string \<Rightarrow> json \<Rightarrow> call_failure option" where
  "peer_needs_input name result =
     (case result of
        JObj kvs \<Rightarrow>
          (case dict_get kvs ''state'' of
             Some (JStr s) \<Rightarrow>
               if s \<notin> set interrupted_states then None
               else Some (Refused ''input_required_in_program'' (subject_of name)
                 (''the peer agent needs more input before it can finish'' @
                  (case dict_get kvs ''task_id'' of Some v \<Rightarrow> if truthy v then '' (task '' @ py_str v @ '')'' else [] | None \<Rightarrow> []) @
                  ''. A program cannot answer it; call the tool directly with that task_id.''))
           | _ \<Rightarrow> None)
      | _ \<Rightarrow> None)"

definition inline_or_handle :: "int \<Rightarrow> string \<Rightarrow> json \<Rightarrow> tool_result \<Rightarrow> int \<Rightarrow> program_state \<Rightarrow> (call_failure + program_value) \<times> program_state" where
  "inline_or_handle limit1 name shaped settled bytes pg =
     (if bytes \<le> limit1 then (Inr (WholeResult shaped), pg)
      else if name = ''read_tool_output'' then
        (Inl (Refused ''binding_result_too_large'' (subject_of name)
          (''that window is larger than the '' @ int_str limit1 @ ''-byte '' @
           ''transfer ceiling. Read the same result in smaller pieces: lower '' @ ''`limit`, or narrow the search with `pattern`.'')), pg)
      else case tr_result_handle settled of
        None \<Rightarrow> (Inl (Refused ''binding_result_not_paged'' (subject_of name)
          (''it answered more than the '' @ int_str limit1 @ ''-byte '' @
           ''transfer ceiling and the result was not preserved under a handle, '' @
           ''so there is nothing to page. The call was made and is in the log. '' @
           ''Ask for less of it, or call it directly.'')), pg)
      | Some h \<Rightarrow> (Inr (ByHandle \<lparr>rh_handle = h, rh_tool = name, rh_size_bytes = bytes,
            rh_stored = (if tr_blob_key settled \<noteq> None then ''blob'' else ''log'')\<rparr>), pg\<lparr>pg_handles := insert h (pg_handles pg)\<rparr>))"

text \<open>The value of a tool that is not \<open>run_code\<close>; only \<open>run_code\<close>, which is no binding, returns a \<open>CodeResult\<close>.\<close>

definition shaped_value :: "tool_value option \<Rightarrow> json" where
  "shaped_value v = (case v of Some (PlainResult j) \<Rightarrow> j | _ \<Rightarrow> JNull)"

type_synonym binding_answer = "(call_failure + program_value) \<times> program_state"

definition refuse_call :: "program_state \<Rightarrow> call_failure \<Rightarrow> binding_answer walked" where
  "refuse_call pg f = give (Inl f, pg)"

text \<open>After the call ran: what the log says of it, and what the program receives.\<close>

definition answer_program :: "binding_budget \<Rightarrow> bindable_tool \<Rightarrow> program_state \<Rightarrow> string \<Rightarrow> tool_value option \<Rightarrow> run_state_view \<Rightarrow>
    binding_answer walked" where
  "answer_program budget bound pg name produced st =
     (if v_tool_results st = [] then raise_it (OtherErr ''IndexError'' ''list index out of range'')
      else let settled = last (v_tool_results st); shaped = shaped_value produced in
        if tr_outcome settled \<noteq> OutcomeOk then
          let kind = (case tr_failure settled of Some f \<Rightarrow> tf_kind f | None \<Rightarrow> ''tool_failed'') in
          refuse_call pg (Refused (if kind = ''McpInputRequiredError'' then ''input_required_in_program'' else kind) (subject_of name)
            (case tr_failure settled of Some f \<Rightarrow> tf_message f | None \<Rightarrow> ''the call failed''))
        else case (if bi_origin bound = A2aOrigin then peer_needs_input name shaped else None) of
          Some f \<Rightarrow> refuse_call pg f
        | None \<Rightarrow> let bytes = measure_bytes shaped in
            give (inline_or_handle (bb_max_result_bytes budget) name shaped settled bytes
              (pg\<lparr>pg_produced_bytes := pg_produced_bytes pg + bytes\<rparr>)))"

definition gated_binding :: "'s agent_loop \<Rightarrow> binding_budget \<Rightarrow> bindable_tool \<Rightarrow> program_state \<Rightarrow> call_id \<Rightarrow> string \<Rightarrow> obj \<Rightarrow> gate \<Rightarrow>
    binding_answer walked" where
  "gated_binding lp budget bound pg cid name arguments g =
     (if g = GateSuspended then
        then_do (write_rec lp (Resumed \<lparr>re_payload = [], re_approved = Some False, re_resumed_by = None\<rparr>)) (\<lambda>_.
        then_do (answer_failed lp cid OutcomeError ''approval_required_in_program''
          (''Calling '' @ repr_str name @ '' needs a human approval, which cannot be '' @ ''asked for while a program is running.'')) (\<lambda>_.
        refuse_call pg (Refused ''approval_required_in_program'' (subject_of name)
          (''it needs a human approval, which cannot be asked for from inside a '' @
           ''program. Call it directly instead of from run_code.''))))
      else if g = GateDenied then
        refuse_call pg (Refused ''access_denied'' (subject_of name) ''the policy refused this call'')
      else look (\<lambda>st.
        let limits = ag_limits (al_spec lp);
            verdict = repetition_gate st name arguments (li_repeat_call_threshold limits) (li_repeat_call_hard_stop limits)
        in if rv_refuse verdict then
             let message = (case rv_advisory verdict of Some a \<Rightarrow> a | None \<Rightarrow> repetition_advisory (rv_repeats verdict)) in
             then_do (answer_failed lp cid OutcomeError ''repeated_call'' message) (\<lambda>_.
             refuse_call pg (Refused ''repeated_call'' (subject_of name) message))
           else
             then_do (run_and_record lp 0 cid name arguments) (\<lambda>(_, produced).
             look (answer_program budget bound pg name produced))))"

definition started_binding :: "'s agent_loop \<Rightarrow> binding_budget \<Rightarrow> bindable_tool \<Rightarrow> program_state \<Rightarrow> call_id \<Rightarrow> string \<Rightarrow> obj \<Rightarrow>
    binding_answer walked" where
  "started_binding lp budget bound pg cid name arguments =
     (if name = ''read_tool_output'' \<and> \<not> owns_handle pg arguments then
        with_failure (mk_tool_failure ''binding_handle_not_yours'' foreign_handle_message None False False) (\<lambda>f.
        then_do (finish_call lp (finish_record cid OutcomeError JNull (Some f) 0)) (\<lambda>_.
        refuse_call pg (Refused ''binding_handle_not_yours'' ''a result handle'' foreign_handle_message)))
      else
        then_do (the_gate lp cid name arguments [bi_definition bound]) (gated_binding lp budget bound pg cid name arguments))"

text \<open>\<open>new_tool_call_id()\<close>.\<close>

definition new_id :: "'s agent_loop \<Rightarrow> call_id walked" where
  "new_id lp w = (Inr (al_new_call_id lp (wk_tick w)), w)"

definition call_as_binding :: "'s agent_loop \<Rightarrow> program_terms \<Rightarrow> call_id \<Rightarrow> program_state \<Rightarrow> string \<Rightarrow> obj \<Rightarrow> binding_answer walked" where
  "call_as_binding lp terms parent pg name arguments =
     look (\<lambda>st. case bytes_exhausted (pt_budget terms) (pg_produced_bytes pg) (v_program_preserved_bytes st) name of
       Some f \<Rightarrow> refuse_call pg f
     | None \<Rightarrow>
     (case dict_get (by_name (pt_bindings terms)) name of
        None \<Rightarrow> refuse_call pg (not_bound name)
      | Some bound \<Rightarrow>
          then_do (new_id lp) (\<lambda>cid.
          then_do (write_rec lp (ToolCallStarted
            \<lparr>tcs_call_id = cid, tcs_tool = name, tcs_arguments = arguments, tcs_turn = max (v_turn st) 1,
             tcs_step_id = al_step_id lp, tcs_interruptible = interruptible (al_spec lp) name,
             tcs_safe_to_retry = safe_to_retry lp name, tcs_parent_call_id = Some parent\<rparr>)) (\<lambda>_.
          started_binding lp (pt_budget terms) bound pg cid name arguments))))"

section \<open>The budget of an execution\<close>

definition refused_before :: "binding_budget \<Rightarrow> program_state \<Rightarrow> int \<Rightarrow> string \<Rightarrow> int \<Rightarrow> call_failure option" where
  "refused_before budget pg run_calls name sent =
     (if pg_calls pg \<ge> bb_max_calls budget then
        Some (Refused ''binding_calls_exhausted'' (subject_of name)
          (''this program has already made '' @ int_str (bb_max_calls budget) @ '' host tool calls, which '' @
           ''is all one program gets. Return what you have and do the rest in '' @ ''another program, or do less work per call.''))
      else if run_calls \<ge> bb_max_calls_per_run budget then
        Some (Refused ''binding_calls_exhausted_for_run'' (subject_of name)
          (''this Run has made '' @ int_str (bb_max_calls_per_run budget) @ '' host tool calls from '' @
           ''programs, which is all one Run gets. Answer with what you have.''))
      else if sent > bb_max_argument_bytes budget then
        Some (Refused ''binding_arguments_too_large'' (subject_of name)
          (''the arguments are '' @ int_str sent @ '' bytes and one call may send '' @ int_str (bb_max_argument_bytes budget) @
           ''. Send a reference rather than the data.''))
      else if pg_total_bytes pg + sent > bb_max_total_bytes budget then
        Some (Refused ''binding_traffic_exhausted'' (subject_of name)
          (''this program has moved '' @ int_str (pg_total_bytes pg) @ '' bytes through host tool '' @ ''calls and may move '' @
           int_str (bb_max_total_bytes budget) @ ''. Filter inside the program '' @ ''rather than moving everything through it.''))
      else None)"

definition refused_after :: "binding_budget \<Rightarrow> program_state \<Rightarrow> string \<Rightarrow> int \<Rightarrow> call_failure option" where
  "refused_after budget pg name received =
     (if received > bb_max_result_bytes budget then
        Some (Refused ''binding_result_too_large'' (subject_of name)
          (''it answered '' @ int_str received @ '' bytes and one call may receive '' @ int_str (bb_max_result_bytes budget) @
           ''. The call was made and is in the log; ask '' @ ''for less of it, or call it directly so the result can be paged.''))
      else if pg_total_bytes pg + received > bb_max_total_bytes budget then
        Some (Refused ''binding_traffic_exhausted'' (subject_of name)
          (''the answer would take this program past '' @ int_str (bb_max_total_bytes budget) @ '' bytes '' @
           ''of host tool traffic. The call was made and is in the log.''))
      else None)"

text \<open>
  A host call: given the state of the program, its failure or value, the state after it and the walk.
  The Run's total is read from its log (\<open>BindingCounter\<close>); it is spent by the record of the call's start.
\<close>

type_synonym host_call = "program_state \<Rightarrow> string \<Rightarrow> obj \<Rightarrow> walk \<Rightarrow> (call_failure + program_value) \<times> program_state \<times> walk"

definition binding_host_call :: "'s agent_loop \<Rightarrow> program_terms \<Rightarrow> call_id \<Rightarrow> host_call" where
  "binding_host_call lp terms parent pg name arguments w =
     (case call_as_binding lp terms parent pg name arguments w of
        (Inl e, w1) \<Rightarrow> (Inl (Raised e), pg, w1)
      | (Inr (answer1, pg1), w1) \<Rightarrow> (answer1, pg1, w1))"

definition budgeted :: "binding_budget \<Rightarrow> host_call \<Rightarrow> host_call" where
  "budgeted budget host pg name arguments w =
     (let sent = measure_bytes (JObj arguments) in
      case refused_before budget pg (v_program_tool_calls (j_state (wk_journal w))) name sent of
        Some f \<Rightarrow> (Inl f, pg, w)
      | None \<Rightarrow>
          (case host (pg\<lparr>pg_calls := pg_calls pg + 1, pg_total_bytes := pg_total_bytes pg + sent\<rparr>) name arguments w of
             (Inl f, pg1, w1) \<Rightarrow> (Inl f, pg1, w1)
           | (Inr v, pg1, w1) \<Rightarrow>
               let received = measure_value v in
               (case refused_after budget pg1 name received of
                  Some f \<Rightarrow> (Inl f, pg1, w1)
                | None \<Rightarrow> (Inr v, pg1\<lparr>pg_total_bytes := pg_total_bytes pg1 + received\<rparr>, w1))))"

section \<open>A program\<close>

text \<open>What the program reads of a failure: its kind and its text.\<close>

datatype program = Ends code_outcome | CallsTool string obj "(string \<times> string) + program_value \<Rightarrow> program"

definition failure_reply :: "'s agent_loop \<Rightarrow> call_failure \<Rightarrow> string \<times> string" where
  "failure_reply lp f = (case f of
     Refused kind subject reason \<Rightarrow> (kind, denied_text (subject, reason))
   | Raised e \<Rightarrow> (ef_type_name (al_facts lp e), ef_text (al_facts lp e)))"

text \<open>
  A sandbox is what a source text does when it is run, and what is reported when a program breaks the
  protocol by calling a name it was not offered.
\<close>

record sandbox =
  sb_run :: "string \<Rightarrow> program"
  sb_violation :: code_outcome

primrec run_program :: "'s agent_loop \<Rightarrow> string list \<Rightarrow> code_outcome \<Rightarrow> host_call \<Rightarrow> program \<Rightarrow> program_state \<Rightarrow>
    (code_outcome \<times> program_state) walked" where
  "run_program lp known violation call (Ends outcome) = (\<lambda>pg. give (outcome, pg))"
| "run_program lp known violation call (CallsTool name arguments continue_with) = (\<lambda>pg w.
     if name \<notin> set known then (Inr (violation, pg), w)
      else case call pg name arguments w of
       (Inl f, pg1, w1) \<Rightarrow>
         if f = Raised CancelledErr then (Inl CancelledErr, w1)
         else run_program lp known violation call (continue_with (Inl (failure_reply lp f))) pg1 w1
     | (Inr v, pg1, w1) \<Rightarrow> run_program lp known violation call (continue_with (Inr v)) pg1 w1)"

definition not_run :: "output_preservation \<Rightarrow> string \<Rightarrow> string \<Rightarrow> code_outcome" where
  "not_run preserve kind message =
     \<lparr>co_payload = [(''ok'', JBool False), (''error'', JStr message), (''error_type'', JStr kind)], co_attachments = [],
      co_preserve = preserve\<rparr>"

text \<open>The body of \<open>run_code\<close>.\<close>

definition run_code :: "'s agent_loop \<Rightarrow> program_terms \<Rightarrow> output_preservation \<Rightarrow> sandbox option \<Rightarrow> call_id \<Rightarrow> obj \<Rightarrow>
    tool_value walked" where
  "run_code lp terms preserve sandbox parent arguments =
     (case (case dict_get arguments ''program'' of Some (JStr s) \<Rightarrow> if py_strip s = [] then None else Some s | _ \<Rightarrow> None) of
        None \<Rightarrow> give (CodeResult (not_run preserve ''invalid_arguments''
          (''run_code needs a `program`: a string of Python source. Send the '' @ ''code you want to run.'')))
      | Some source \<Rightarrow>
     (case (pt_refusal terms, sandbox) of
        (Some (kind, message), _) \<Rightarrow> give (CodeResult (not_run preserve kind (sandbox_failure_guidance kind message None)))
      | (None, None) \<Rightarrow> give (CodeResult (not_run preserve ''backend_not_ready''
          (sandbox_failure_guidance ''backend_not_ready'' ''no sandbox is configured for this agent's profile'' None)))
      | (None, Some sb) \<Rightarrow>
          then_do (run_program lp (map bi_name (pt_bindings terms)) (sb_violation sb)
              (budgeted (pt_budget terms) (binding_host_call lp terms parent)) (sb_run sb source) fresh_program)
            (\<lambda>r. give (CodeResult (fst r)))))"

end
