(* ===== verification/ProgramFacts.thy ===== *)
theory ProgramFacts
  imports Programs LoopSamples
begin

text \<open>
  What a sandboxed program can and cannot do: it stays within its budget, it learns nothing of results that are
  not its own, and it has no way past an approval or a policy.
\<close>

definition s_bound :: "string \<Rightarrow> bindable_tool" where
  "s_bound name = \<lparr>bi_definition = s_tool_named name, bi_origin = CodeOrigin, bi_server = None\<rparr>"

definition s_terms :: program_terms where
  "s_terms = \<lparr>pt_bindings = [s_bound ''read'', s_bound ''read_tool_output''], pt_budget = default_binding_budget\<lparr>bb_max_calls := 1\<rparr>,
     pt_refusal = None\<rparr>"

definition s_ended :: code_outcome where
  "s_ended = \<lparr>co_payload = [], co_attachments = [], co_preserve = Never\<rparr>"

definition s_reader_loop :: "decision \<Rightarrow> unit agent_loop" where
  "s_reader_loop d = s_loop [] d (\<lambda>_. give (PlainResult (JInt 7)))"

text \<open>A Run in whose turn a program was started.\<close>

definition s_in_program :: "(walk \<Rightarrow> bool) \<Rightarrow> bool" where
  "s_in_program P = s_run [b_admitted, b_attempt 1, b_turn 1, b_tool ''c1'' ''run_code'' 1] P"

lemma s_in_programD: "s_in_program P \<Longrightarrow> \<exists>w. P w"
  using s_runD by (auto simp: s_in_program_def)

section \<open>The budget\<close>

definition within_budget :: "binding_budget \<Rightarrow> program_state \<Rightarrow> bool" where
  "within_budget b pg \<longleftrightarrow> 0 \<le> pg_calls pg \<and> pg_calls pg \<le> bb_max_calls b \<and> pg_total_bytes pg \<le> bb_max_total_bytes b"

text \<open>What one call spends is spent by the wrapper around it: the call itself leaves both counts alone.\<close>

definition spends_nothing :: "host_call \<Rightarrow> bool" where
  "spends_nothing host \<longleftrightarrow> (\<forall>pg name arguments w r pg' w'. host pg name arguments w = (r, pg', w') \<longrightarrow>
     pg_calls pg' = pg_calls pg \<and> pg_total_bytes pg' = pg_total_bytes pg)"

lemma refused_before_None:
  "refused_before b pg n name sent = None \<longleftrightarrow>
     pg_calls pg < bb_max_calls b \<and> n < bb_max_calls_per_run b \<and> sent \<le> bb_max_argument_bytes b \<and>
     pg_total_bytes pg + sent \<le> bb_max_total_bytes b"
  by (auto simp: refused_before_def)

lemma refused_after_None:
  "refused_after b pg name received = None \<longleftrightarrow>
     received \<le> bb_max_result_bytes b \<and> pg_total_bytes pg + received \<le> bb_max_total_bytes b"
  by (auto simp: refused_after_def)

lemma budgeted_stays:
  assumes "spends_nothing host" and "within_budget b pg" and "budgeted b host pg name arguments w = (r, pg', w')"
  shows "within_budget b pg'"
proof (cases "refused_before b pg (v_program_tool_calls (j_state (wk_journal w))) name (measure_bytes (JObj arguments))")
  case None
  let ?pg = "pg\<lparr>pg_calls := pg_calls pg + 1, pg_total_bytes := pg_total_bytes pg + measure_bytes (JObj arguments)\<rparr>"
  obtain q pg1 w1 where h: "host ?pg name arguments w = (q, pg1, w1)" by (cases "host ?pg name arguments w") auto
  with assms(1) have "pg_calls pg1 = pg_calls pg + 1" "pg_total_bytes pg1 = pg_total_bytes pg + measure_bytes (JObj arguments)"
    unfolding spends_nothing_def by fastforce+
  with None h assms(2,3) show ?thesis
    by (auto simp: budgeted_def Let_def within_budget_def refused_before_None refused_after_None split: sum.splits option.splits)
qed (use assms(2,3) in \<open>auto simp: budgeted_def Let_def\<close>)

lemma answer_spends_nothing:
  "answer_program b bound pg name v st w = (Inr (a, pg'), w') \<Longrightarrow> pg_calls pg' = pg_calls pg \<and> pg_total_bytes pg' = pg_total_bytes pg"
  by (auto simp: answer_program_def Let_def raise_it_def refuse_call_def give_def inline_or_handle_def
        split: if_splits option.splits)

abbreviation unspent :: "program_state \<Rightarrow> binding_answer \<Rightarrow> walk \<Rightarrow> bool" where
  "unspent pg r w \<equiv> pg_calls (snd r) = pg_calls pg \<and> pg_total_bytes (snd r) = pg_total_bytes pg"

lemma refused_unspent: "yields (refuse_call pg f) (unspent pg) w"
  by (simp add: refuse_call_def yields_give)

lemma gated_unspent: "yields (gated_binding lp b bound pg cid name arguments g) (unspent pg) w"
proof -
  have a: "yields (answer_program b bound pg name v st) (unspent pg) w'" for v st w'
    by (auto simp: yields_def dest: answer_spends_nothing)
  show ?thesis unfolding gated_binding_def Let_def
    by (auto simp: refused_unspent split: option.split prod.split intro!: yields_first yields_look a)
qed

lemma binding_unspent: "yields (call_as_binding lp terms parent pg name arguments) (unspent pg) w"
  unfolding call_as_binding_def started_binding_def with_failure_def
  by (auto simp: refused_unspent gated_unspent yields_raise split: option.split intro!: yields_first yields_look)

lemma binding_host_spends_nothing: "spends_nothing (binding_host_call lp terms parent)"
proof (unfold spends_nothing_def, intro allI impI)
  fix pg name arguments w r pg' w'
  assume h: "binding_host_call lp terms parent pg name arguments w = (r, pg', w')"
  obtain z w1 where z: "call_as_binding lp terms parent pg name arguments w = (z, w1)"
    by (cases "call_as_binding lp terms parent pg name arguments w")
  with binding_unspent[of lp terms parent pg name arguments w] h
  show "pg_calls pg' = pg_calls pg \<and> pg_total_bytes pg' = pg_total_bytes pg"
    by (cases z) (auto simp: binding_host_call_def yields_def split: prod.splits)
qed

lemma program_stays:
  assumes "\<And>pg name arguments w r pg' w'. within_budget b pg \<Longrightarrow> call pg name arguments w = (r, pg', w') \<Longrightarrow> within_budget b pg'"
  shows "within_budget b pg \<Longrightarrow> run_program lp known violation call p pg w = (Inr (o1, pg'), w') \<Longrightarrow> within_budget b pg'"
proof (induction p arbitrary: pg w)
  case (CallsTool name arguments continue_with)
  show ?case
  proof (cases "name \<in> set known")
    case True
    obtain r pg1 w1 where c: "call pg name arguments w = (r, pg1, w1)" by (cases "call pg name arguments w") auto
    with assms CallsTool.prems(1) have b: "within_budget b pg1" by blast
    show ?thesis using CallsTool.IH[OF _ b] CallsTool.prems(2) True c
      by (auto simp: rangeI split: sum.splits if_splits)
  qed (use CallsTool.prems in \<open>simp\<close>)
qed (simp add: give_def)


text \<open>Two calls and an allowance of one: the policy refuses the first, the budget the second.\<close>

definition s_two_calls :: program where
  "s_two_calls = CallsTool ''read'' [] (\<lambda>_. CallsTool ''read'' [] (\<lambda>_. Ends s_ended))"


section \<open>Handles of others\<close>

lemma yields_refuse: "Q (Inl f, pg) w \<Longrightarrow> yields (refuse_call pg f) Q w"
  by (simp add: refuse_call_def yields_give)

definition foreign_reply :: "program_terms \<Rightarrow> program_state \<Rightarrow> int \<Rightarrow> call_failure" where
  "foreign_reply terms pg preserved =
     (case bytes_exhausted (pt_budget terms) (pg_produced_bytes pg) preserved ''read_tool_output'' of
        Some f \<Rightarrow> f
      | None \<Rightarrow> if dict_get (by_name (pt_bindings terms)) ''read_tool_output'' = None then not_bound ''read_tool_output''
                else Refused ''binding_handle_not_yours'' ''a result handle'' foreign_handle_message)"

lemma foreign_yields:
  assumes "\<not> owns_handle pg arguments"
  shows "yields (call_as_binding lp terms parent pg ''read_tool_output'' arguments)
           (\<lambda>r _. r = (Inl (foreign_reply terms pg (v_program_preserved_bytes (j_state (wk_journal w)))), pg)) w"
  unfolding call_as_binding_def started_binding_def with_failure_def using assms
  by (auto simp: foreign_reply_def yields_raise split: option.split intro!: yields_first yields_look yields_refuse)



section \<open>Approvals and policies\<close>

text \<open>Nobody decides about a call of a Run that asks nothing: what others write, and the start of a call, decide nothing.\<close>

definition nobody_decides :: "run_state_view \<Rightarrow> run_state_view \<Rightarrow> bool" where
  "nobody_decides st st' \<longleftrightarrow>
     (\<not> v_suspended st \<longrightarrow> \<not> v_suspended st' \<and> v_approval_decisions st' = v_approval_decisions st)"

lemma decides_step:
  "fold_step s r = Inr s' \<Longrightarrow> is_external (r_body r) \<or> (\<exists>b. r_body r = ToolCallStarted b) \<Longrightarrow> nobody_decides (fst s) (fst s')"
  using fold_step_applies[of s r s'] unfolding nobody_decides_def
  by (cases "r_body r") (auto simp: op_defs Let_def remove_entry_def split: if_splits option.splits sum.splits prod.splits)

interpretation undecided: external_state nobody_decides
  by unfold_locales (auto simp: nobody_decides_def dest: decides_step)

lemma start_decides_nothing:
  "nobody_decides (j_state (wk_journal w)) (j_state (wk_journal (snd (write_rec en (ToolCallStarted b) w))))"
proof (rule undecided.write_to[of w en "ToolCallStarted b"])
  fix st
  let ?st' = "j_state (wk_journal (snd (write_rec en (ToolCallStarted b) w)))"
  assume a: "nobody_decides (j_state (wk_journal w)) st"
    and c: "?st' = st \<or> (\<exists>r cx cx'. r_body r = ToolCallStarted b \<and> fold_step (st, cx) r = Inr (?st', cx'))"
  from c have "nobody_decides st ?st'"
    by (auto simp: undecided.s_refl dest: decides_step)
  with a show ?thesis by (rule undecided.s_trans)
qed

text \<open>The same loop over other tools.\<close>

abbreviation over_tools :: "'s executor \<Rightarrow> 's agent_loop \<Rightarrow> 's agent_loop" where
  "over_tools ex lp \<equiv> lp\<lparr>al_executor := ex\<rparr>"

lemma then_same: "yields m (\<lambda>x w'. f x w' = f' x w') w \<Longrightarrow> then_do m f w = then_do m f' w"
  by (auto simp: yields_def then_do_def split: sum.split prod.split)

lemma over_tools_same:
  "write_rec (over_tools ex lp) = write_rec lp"
  "answer_failed (over_tools ex lp) = answer_failed lp"
  "suspend_call (over_tools ex lp) = suspend_call lp"
  "policy_decision (over_tools ex lp) = policy_decision lp"
  "needs_human (over_tools ex lp) = needs_human lp"
  "new_id (over_tools ex lp) = new_id lp"
  "interruptible (al_spec (over_tools ex lp)) = interruptible (al_spec lp)"
proof -
  show w: "write_rec (over_tools ex lp) = write_rec lp" by (intro ext) (simp add: write_rec_def)
  have f: "finish_call (over_tools ex lp) = finish_call lp" by (intro ext) (simp add: finish_call_def w)
  show "answer_failed (over_tools ex lp) = answer_failed lp" by (intro ext) (simp add: answer_failed_def f)
  have c: "clock (over_tools ex lp) = clock lp" by (intro ext) (simp add: clock_def)
  show "suspend_call (over_tools ex lp) = suspend_call lp" by (intro ext) (simp add: suspend_call_def w c)
  show "policy_decision (over_tools ex lp) = policy_decision lp" by (intro ext) (simp add: policy_decision_def split: prod.split sum.split)
  show "needs_human (over_tools ex lp) = needs_human lp" by (intro ext) (simp add: needs_human_def split: option.split)
  show "new_id (over_tools ex lp) = new_id lp" by (intro ext) (simp add: new_id_def)
qed simp

lemma excluded_names: "exclusion_reason name = None \<Longrightarrow> name \<noteq> ''ask_question'' \<and> name \<noteq> ''call_tool''"
proof -
  have "exclusion_reason ''ask_question'' \<noteq> None" "exclusion_reason ''call_tool'' \<noteq> None"
    by (simp_all add: exclusion_reason_def excluded_builtins_def)
  then show "exclusion_reason name = None \<Longrightarrow> name \<noteq> ''ask_question'' \<and> name \<noteq> ''call_tool''" by metis
qed

definition blocked :: "'s agent_loop \<Rightarrow> string \<Rightarrow> obj \<Rightarrow> tool_definition \<Rightarrow> bool" where
  "blocked lp name arguments d \<longleftrightarrow>
     (\<forall>w v w'. al_policy lp name arguments w = (Inr v, w') \<longrightarrow> \<not> de_allowed v \<or> needs_human lp v (Some d))"

lemma gate_same:
  "exclusion_reason name = None \<Longrightarrow> the_gate (over_tools ex lp) cid name arguments ds = the_gate lp cid name arguments ds"
  by (intro ext, drule excluded_names) (auto simp: the_gate_def gate_decided_def over_tools_same look_def split: option.split bool.split cong: if_cong)

lemma gate_blocks:
  assumes "blocked lp name arguments d" and "exclusion_reason name = None" and "td_name d = name"
    and "dict_get (v_approval_decisions (j_state (wk_journal w))) cid = None"
  shows "yields (the_gate lp cid name arguments [d]) (\<lambda>g _. g \<noteq> GateAllowed) w"
proof -
  have p: "yields (policy_decision lp name arguments) (\<lambda>v _. \<not> de_allowed v \<or> needs_human lp v (Some d)) w'" for w'
    using assms(1) by (auto simp: blocked_def yields_def policy_decision_def split: prod.splits sum.splits if_splits)
  have s: "yields (suspend_call lp cid re q t qs) (\<lambda>g _. g \<noteq> GateAllowed) w'" for re q t qs w'
    by (auto simp: suspend_call_def intro!: yields_first yields_give)
  have "yields (gate_decided lp cid name arguments (Some d)) (\<lambda>g _. g \<noteq> GateAllowed) w"
    unfolding gate_decided_def
    by (rule yields_then, rule yields_mono[OF p]) (auto intro!: yields_first yields_give s)
  with excluded_names[OF assms(2)] assms(3,4) show ?thesis by (auto simp: the_gate_def intro!: yields_look)
qed

lemma gated_same:
  "g \<noteq> GateAllowed \<Longrightarrow> gated_binding (over_tools ex lp) b bound pg cid name arguments g = gated_binding lp b bound pg cid name arguments g"
  by (cases g) (simp_all add: gated_binding_def over_tools_same)

lemma gated_blocks: "g \<noteq> GateAllowed \<Longrightarrow> yields (gated_binding lp b bound pg cid name arguments g) (\<lambda>r _. \<exists>f. fst r = Inl f) w"
  by (cases g) (auto simp: gated_binding_def intro!: yields_first yields_refuse)

lemma by_name_named: "dict_get (by_name ts) name = Some bound \<Longrightarrow> bi_name bound = name"
  by (auto simp: by_name_def dict_get_dict_of find_Some_iff)

lemma started_blocks:
  assumes "blocked lp name arguments (bi_definition bound)" and "exclusion_reason name = None" and "bi_name bound = name"
    and "dict_get (v_approval_decisions (j_state (wk_journal w))) cid = None"
  shows "yields (started_binding lp b bound pg cid name arguments) (\<lambda>r _. \<exists>f. fst r = Inl f) w"
    and "started_binding (over_tools ex lp) b bound pg cid name arguments w = started_binding lp b bound pg cid name arguments w"
proof -
  note g = gate_blocks[OF assms(1,2) assms(3)[unfolded bi_name_def] assms(4)]
  show "yields (started_binding lp b bound pg cid name arguments) (\<lambda>r _. \<exists>f. fst r = Inl f) w"
  proof -
    have r: "yields (then_do (finish_call lp q) (\<lambda>_. refuse_call pg f)) (\<lambda>r _. \<exists>f. fst r = Inl f) w" for q f
      by (rule yields_first) (simp add: yields_refuse)
    have a: "yields (then_do (the_gate lp cid name arguments [bi_definition bound]) (gated_binding lp b bound pg cid name arguments))
        (\<lambda>r _. \<exists>f. fst r = Inl f) w"
      by (rule yields_then, rule yields_mono[OF g]) (rule gated_blocks)
    show ?thesis using r a by (simp add: started_binding_def with_failure_def yields_raise split: option.split)
  qed
  have f: "finish_call (over_tools ex lp) = finish_call lp" by (intro ext) (simp add: finish_call_def over_tools_same)
  have "then_do (the_gate lp cid name arguments [bi_definition bound]) (gated_binding (over_tools ex lp) b bound pg cid name arguments) w =
      then_do (the_gate lp cid name arguments [bi_definition bound]) (gated_binding lp b bound pg cid name arguments) w"
    by (rule then_same, rule yields_mono[OF g]) (simp add: gated_same)
  then show "started_binding (over_tools ex lp) b bound pg cid name arguments w = started_binding lp b bound pg cid name arguments w"
    by (auto simp: started_binding_def gate_same[OF assms(2)] f with_failure_def split: option.split)
qed

lemma yields_write_journal:
  "(\<And>r w'. nobody_decides (j_state (wk_journal w)) (j_state (wk_journal w')) \<Longrightarrow> Q r w') \<Longrightarrow>
     yields (write_rec en (ToolCallStarted b)) Q w"
  using start_decides_nothing[of w en b] by (auto simp: yields_def)

text \<open>C14. There is no privileged back door for code: when the policy refuses a call of a program, or the call needs a person's
  approval, the program gets no value, and the walk, log included, is the same whatever the tools do: none of
  them was run. This holds for every bound tool, also for tools that are in no registry, whose annotations
  come from the bindings of the turn.\<close>

theorem programs_bypass_no_approval:
  assumes "\<And>bound. dict_get (by_name (pt_bindings terms)) name = Some bound \<Longrightarrow> blocked lp name arguments (bi_definition bound)"
    and "exclusion_reason name = None"
    and "\<not> v_suspended (j_state (wk_journal w))"
    and "dict_get (v_approval_decisions (j_state (wk_journal w))) (al_new_call_id lp (wk_tick w)) = None"
    and "safe_to_retry (lp\<lparr>al_executor := ex\<rparr>) name = safe_to_retry lp name"
  shows "call_as_binding (lp\<lparr>al_executor := ex\<rparr>) terms parent pg name arguments w = call_as_binding lp terms parent pg name arguments w \<and>
     (\<forall>v pg' w'. call_as_binding lp terms parent pg name arguments w \<noteq> (Inr (Inr v, pg'), w'))"
proof -
  let ?st = "j_state (wk_journal w)" and ?cid = "al_new_call_id lp (wk_tick w)"
  let ?Q = "\<lambda>r _. \<exists>f. fst r = Inl f"
  let ?b = "\<lparr>tcs_call_id = ?cid, tcs_tool = name, tcs_arguments = arguments, tcs_turn = max (v_turn ?st) 1,
     tcs_step_id = al_step_id lp, tcs_interruptible = interruptible (al_spec lp) name, tcs_safe_to_retry = safe_to_retry lp name,
     tcs_parent_call_id = Some parent\<rparr>"
  have id: "then_do (new_id lp) f w = f ?cid w" for f :: "call_id \<Rightarrow> binding_answer walked"
    by (simp add: then_do_def new_id_def)
  have undecided: "dict_get (v_approval_decisions (j_state (wk_journal w'))) ?cid = None"
    if "nobody_decides ?st (j_state (wk_journal w'))" for w'
    using that assms(3,4) by (simp add: nobody_decides_def)
  show ?thesis
  proof (cases "bytes_exhausted (pt_budget terms) (pg_produced_bytes pg) (v_program_preserved_bytes ?st) name = None \<and>
      dict_get (by_name (pt_bindings terms)) name \<noteq> None")
    case False
    then show ?thesis by (auto simp: call_as_binding_def look_def refuse_call_def give_def split: option.split)
  next
    case True
    then obtain bound where bound: "dict_get (by_name (pt_bindings terms)) name = Some bound" by auto
    note started = started_blocks[OF assms(1)[OF bound] assms(2) by_name_named[OF bound] undecided]
    let ?run = "\<lambda>lp (_ :: log_record). started_binding lp (pt_budget terms) bound pg ?cid name arguments"
    have run: "call_as_binding l terms parent pg name arguments w = then_do (write_rec lp (ToolCallStarted ?b)) (?run l) w"
      if "l = lp \<or> l = over_tools ex lp" for l
      using that True bound assms(5) by (auto simp: call_as_binding_def look_def id over_tools_same)
    have "then_do (write_rec lp (ToolCallStarted ?b)) (?run (over_tools ex lp)) w = then_do (write_rec lp (ToolCallStarted ?b)) (?run lp) w"
      by (rule then_same, rule yields_write_journal) (rule started(2))
    moreover have "yields (then_do (write_rec lp (ToolCallStarted ?b)) (?run lp)) ?Q w"
      by (rule yields_then, rule yields_write_journal) (rule started(1))
    ultimately show ?thesis using run by (auto simp: yields_def)
  qed
qed

theorem programs_bypass_no_approval_witness:
  "\<exists>w. call_as_binding (s_reader_loop s_deny\<lparr>al_executor := s_executor (\<lambda>_. give (PlainResult (JInt 8)))\<rparr>) s_terms ''c1'' fresh_program ''read'' [] w
       = call_as_binding (s_reader_loop s_deny) s_terms ''c1'' fresh_program ''read'' [] w \<and>
     returns_some (call_as_binding (s_reader_loop s_deny) s_terms ''c1'' fresh_program ''read'' [] w)"
proof -
  let ?lp = "s_reader_loop s_deny" and ?ex = "s_executor (\<lambda>_. give (PlainResult (JInt 8))) :: unit executor"
  have "s_in_program (\<lambda>w. \<not> v_suspended (j_state (wk_journal w)) \<and>
      dict_get (v_approval_decisions (j_state (wk_journal w))) (al_new_call_id ?lp (wk_tick w)) = None \<and>
      returns_some (call_as_binding ?lp s_terms ''c1'' fresh_program ''read'' [] w))"
    by code_simp
  then obtain w where w: "\<not> v_suspended (j_state (wk_journal w))"
    "dict_get (v_approval_decisions (j_state (wk_journal w))) (al_new_call_id ?lp (wk_tick w)) = None"
    "returns_some (call_as_binding ?lp s_terms ''c1'' fresh_program ''read'' [] w)"
    by (auto dest!: s_in_programD)
  have "blocked ?lp ''read'' [] d" for d
    by (simp add: blocked_def s_reader_loop_def s_loop_def give_def s_deny_def)
  moreover have "exclusion_reason ''read'' = None" by (simp add: exclusion_reason_def excluded_builtins_def)
  moreover have "safe_to_retry (?lp\<lparr>al_executor := ?ex\<rparr>) ''read'' = safe_to_retry ?lp ''read''"
    by (simp add: safe_to_retry_def s_reader_loop_def s_loop_def s_executor_def)
  ultimately show ?thesis using programs_bypass_no_approval[of s_terms "''read''" ?lp "[]" w ?ex "''c1''" fresh_program] w by blast
qed

end
