(* ===== verification/Views.thy ===== *)
theory Views
  imports Metering Turns ToolCalls Steps PyNum Worker
begin

text \<open>
  What a person is shown of one Run: its status (\<open>psych_runtime/core/status.py\<close>), and its answer with the work
  behind it (\<open>psych_runtime/core/answer.py\<close>).

  Shown: the prompt a status offers is the one a resume answers; every model call of an accepted log is shown
  exactly once, as the answer or as a turn of work.
\<close>

section \<open>Status\<close>

datatype lifecycle = QueuedLife | RunningLife | WaitingLife | StoppingLife | DoneLife | FailedLife | StoppedLife

record pending_approval =
  pa_call_id :: "call_id option"
  pa_step_id :: "step_id option"
  pa_tool :: string
  pa_arguments :: obj
  pa_question :: "string option"
  pa_expires_at :: timestamp

record pending_question =
  pq_call_id :: "call_id option"
  pq_step_id :: "step_id option"
  pq_questions :: "asked_question list"
  pq_summary :: string
  pq_expires_at :: timestamp

record pending_wait =
  pw_step_id :: step_id
  pw_step_name :: string
  pw_reason :: suspend_reason
  pw_event :: "string option"
  pw_payload_schema :: obj
  pw_wake_at :: "timestamp option"
  pw_expires_at :: timestamp

record run_status =
  rn_run_id :: run_id
  rn_scope :: scope
  rn_version_hash :: version_hash
  rn_lifecycle :: lifecycle
  rn_terminal_state :: "terminal_state option"
  rn_output :: "obj option"
  rn_failure_message :: "string option"
  rn_failure_kind :: "string option"
  rn_suspend_reason :: "suspend_reason option"
  rn_suspend_expires_at :: "timestamp option"
  rn_pending_approval :: "pending_approval option"
  rn_pending_question :: "pending_question option"
  rn_pending_wait :: "pending_wait option"
  rn_suspended_step_id :: "step_id option"
  rn_components :: "component list"
  rn_tasks :: "task list"
  rn_turn :: int
  rn_tool_calls :: int
  rn_model_calls :: int
  rn_head_seq :: int
  rn_attempt_count :: int
  rn_current_attempt :: "attempt_id option"
  rn_deadline_at :: "timestamp option"
  rn_continues_run_id :: "run_id option"
  rn_parent_run_id :: "run_id option"
  rn_has_dangling_tool_calls :: bool

fun settled_lifecycle :: "terminal_state \<Rightarrow> lifecycle" where
  "settled_lifecycle Completed = DoneLife"
| "settled_lifecycle Failed = FailedLife"
| "settled_lifecycle Aborted = StoppedLife"
| "settled_lifecycle Abandoned = StoppedLife"
| "settled_lifecycle ForceSettled = StoppedLife"

definition lifecycle_of :: "run_state_view \<Rightarrow> lifecycle" where
  "lifecycle_of st =
     (case (v_settled st, v_terminal_state st) of
        (True, Some t) \<Rightarrow> settled_lifecycle t
      | _ \<Rightarrow> if view_aborted st then StoppingLife
             else if v_suspended st then WaitingLife
             else if v_attempt_count st = 0 then QueuedLife
             else RunningLife)"

definition pending_question_of :: "run_state_view \<Rightarrow> pending_question option" where
  "pending_question_of st =
     (case (v_suspend_reason st, v_suspend_expires_at st) of
        (Some Question, Some expires) \<Rightarrow>
          (if pending_call st = None \<and> v_suspended_step_id st = None then None
           else Some \<lparr>pq_call_id = map_option oc_call_id (pending_call st), pq_step_id = v_suspended_step_id st,
             pq_questions = v_suspend_questions st,
             pq_summary = (case v_suspend_question st of None \<Rightarrow> [] | Some q \<Rightarrow> q), pq_expires_at = expires\<rparr>)
      | _ \<Rightarrow> None)"

definition pending_wait_of :: "run_state_view \<Rightarrow> pending_wait option" where
  "pending_wait_of st =
     (case (v_suspended_step_id st, v_suspend_expires_at st, v_suspend_reason st) of
        (Some sid, Some expires, Some reason) \<Rightarrow>
          (if reason \<notin> {External, Timer, Breakpoint} then None
           else Some \<lparr>pw_step_id = sid,
             pw_step_name = (case v_suspended_step_name st of
                Some (c # cs) \<Rightarrow> c # cs
              | _ \<Rightarrow> (case dict_get (v_steps st) sid of Some s \<Rightarrow> sr_name s | None \<Rightarrow> [])),
             pw_reason = reason, pw_event = v_suspend_event st, pw_payload_schema = v_suspend_payload_schema st,
             pw_wake_at = v_suspend_wake_at st, pw_expires_at = expires\<rparr>)
      | _ \<Rightarrow> None)"

text \<open>
  \<open>dict(x)\<close> of a JSON value; \<open>None\<close> is an exception. Pairs whose first part is no text are taken as an error,
  where Python would accept a number as a key.
\<close>

fun pair_of :: "json \<Rightarrow> (string \<times> json) option" where
  "pair_of (JArr [JStr k, v]) = Some (k, v)"
| "pair_of (JStr [a, b]) = Some ([a], JStr [b])"
| "pair_of (JObj [(k, _), (k', _)]) = Some (k, JStr k')"
| "pair_of _ = None"

fun dict_of_json :: "json \<Rightarrow> obj option" where
  "dict_of_json (JObj kvs) = Some kvs"
| "dict_of_json (JStr []) = Some []"
| "dict_of_json (JArr xs) =
     (if list_all (\<lambda>x. pair_of x \<noteq> None) xs then Some (fold (\<lambda>(k, v). dict_put k v) (List.map_filter pair_of xs) []) else None)"
| "dict_of_json _ = None"

text \<open>The tool and the arguments of a workflow step's approval come from the input of its start.\<close>

definition pending_approval_of :: "run_state_view \<Rightarrow> pending_approval option option" where
  "pending_approval_of st =
     (case (v_suspend_reason st, v_suspend_expires_at st) of
        (Some Approval, Some expires) \<Rightarrow>
          (case pending_call st of
             Some c \<Rightarrow> Some (Some \<lparr>pa_call_id = Some (oc_call_id c), pa_step_id = None, pa_tool = oc_tool c,
               pa_arguments = oc_arguments c, pa_question = v_suspend_question st, pa_expires_at = expires\<rparr>)
           | None \<Rightarrow>
          (case v_suspended_step_id st of
             None \<Rightarrow> Some None
           | Some sid \<Rightarrow>
          (case dict_get (v_steps st) sid of
             None \<Rightarrow> Some None
           | Some s \<Rightarrow>
               (case dict_of_json (case dict_get (sr_input s) ''arguments'' of Some a \<Rightarrow> a | None \<Rightarrow> JObj []) of
                  None \<Rightarrow> None
                | Some arguments \<Rightarrow> Some (Some \<lparr>pa_call_id = None, pa_step_id = Some (sr_step_id s),
                    pa_tool = (case dict_get (sr_input s) ''tool'' of Some t \<Rightarrow> py_str t | None \<Rightarrow> sr_name s),
                    pa_arguments = arguments, pa_question = v_suspend_question st, pa_expires_at = expires\<rparr>)))))
      | _ \<Rightarrow> Some None)"

definition run_status_of :: "run_state_view \<Rightarrow> run_status option" where
  "run_status_of st = map_option (\<lambda>approval.
     \<lparr>rn_run_id = v_run_id st, rn_scope = v_scope st, rn_version_hash = v_version_hash st, rn_lifecycle = lifecycle_of st,
      rn_terminal_state = v_terminal_state st, rn_output = v_output st,
      rn_failure_message = map_option tf_message (v_failure st), rn_failure_kind = map_option tf_kind (v_failure st),
      rn_suspend_reason = v_suspend_reason st, rn_suspend_expires_at = v_suspend_expires_at st,
      rn_pending_approval = approval, rn_pending_question = pending_question_of st, rn_pending_wait = pending_wait_of st,
      rn_suspended_step_id = v_suspended_step_id st, rn_components = v_components st, rn_tasks = v_tasks st,
      rn_turn = v_turn st, rn_tool_calls = int (length (v_tool_results st)), rn_model_calls = v_model_calls st,
      rn_head_seq = v_head_seq st, rn_attempt_count = v_attempt_count st, rn_current_attempt = v_current_attempt st,
      rn_deadline_at = effective_deadline_at st, rn_continues_run_id = v_continues_run_id st,
      rn_parent_run_id = v_parent_run_id st, rn_has_dangling_tool_calls = has_dangling_tool_calls st\<rparr>)
     (pending_approval_of st)"

section \<open>Answer and work\<close>

record tool_call_view =
  tv_call_id :: call_id
  tv_tool :: string
  tv_arguments :: obj
  tv_outcome :: "tool_outcome option"
  tv_result :: json
  tv_failure_message :: "string option"
  tv_duration_seconds :: "rat option"
  tv_started_at :: timestamp
  tv_finished_at :: "timestamp option"

record work_turn =
  wt_turn :: int
  wt_text :: string
  wt_tool_calls :: "tool_call_view list"
  wt_failure_message :: "string option"
  wt_at :: timestamp

record answer_view =
  aw_run_id :: run_id
  aw_text :: string
  aw_work :: "work_turn list"
  aw_finished :: bool

definition tool_call_count :: "answer_view \<Rightarrow> int" where
  "tool_call_count a = sum_list (map (\<lambda>t. int (length (wt_tool_calls t))) (aw_work a))"

definition counted_noun :: "int \<Rightarrow> string \<Rightarrow> string" where
  "counted_noun n noun = int_str n @ '' '' @ noun @ (if n = 1 then [] else ''s'')"

definition answer_summary :: "answer_view \<Rightarrow> string" where
  "answer_summary a =
     (if aw_work a = [] then []
      else counted_noun (int (length (aw_work a))) ''turn'' @
           (if tool_call_count a = 0 then [] else '', '' @ counted_noun (tool_call_count a) ''tool call''))"

fun finishing_turn :: "log_record list \<Rightarrow> int option" where
  "finishing_turn [] = None"
| "finishing_turn (r # rs) = (case r_body r of
     ModelCallFinished m \<Rightarrow> if mf_tool_calls m = [] then Some (mf_turn m) else finishing_turn rs
   | _ \<Rightarrow> finishing_turn rs)"

text \<open>The calls that have started, each with its record and with what is shown of it.\<close>

type_synonym call_views = "(call_id, (timestamp \<times> tool_call_started) \<times> tool_call_view) dict"

definition view_call :: "log_record \<Rightarrow> call_views \<Rightarrow> call_views" where
  "view_call r views = (case r_body r of
     ToolCallStarted s \<Rightarrow> dict_put (tcs_call_id s) ((r_at r, s),
       \<lparr>tv_call_id = tcs_call_id s, tv_tool = tcs_tool s, tv_arguments = tcs_arguments s, tv_outcome = None, tv_result = JNull,
        tv_failure_message = None, tv_duration_seconds = None, tv_started_at = r_at r, tv_finished_at = None\<rparr>) views
   | ToolCallFinished f \<Rightarrow>
       (case dict_get views (tcf_call_id f) of
          None \<Rightarrow> views
        | Some ((began_at, s), _) \<Rightarrow> dict_put (tcf_call_id f) ((began_at, s),
            \<lparr>tv_call_id = tcf_call_id f, tv_tool = tcs_tool s, tv_arguments = tcs_arguments s, tv_outcome = Some (tcf_outcome f),
             tv_result = tcf_result f, tv_failure_message = map_option tf_message (tcf_failure f),
             tv_duration_seconds = Some (tcf_duration_seconds f), tv_started_at = began_at, tv_finished_at = Some (r_at r)\<rparr>) views)
   | _ \<Rightarrow> views)"

definition call_views_of :: "log_record list \<Rightarrow> call_views" where
  "call_views_of rs = fold view_call rs []"

definition shown_calls :: "call_views \<Rightarrow> call_id list \<Rightarrow> tool_call_view list" where
  "shown_calls views cs = List.map_filter (\<lambda>c. map_option snd (dict_get views c)) cs"

definition work_of :: "call_views \<Rightarrow> int option \<Rightarrow> log_record \<Rightarrow> work_turn list" where
  "work_of views answer_turn r = (case r_body r of
     ModelCallFinished m \<Rightarrow>
       (if answer_turn = Some (mf_turn m) then []
        else [\<lparr>wt_turn = mf_turn m, wt_text = mf_text m, wt_tool_calls = shown_calls views (mf_tool_calls m),
               wt_failure_message = None, wt_at = r_at r\<rparr>])
   | ModelCallFailed m \<Rightarrow> [\<lparr>wt_turn = mx_turn m, wt_text = [], wt_tool_calls = [],
        wt_failure_message = Some (tf_message (mx_failure m)), wt_at = r_at r\<rparr>]
   | _ \<Rightarrow> [])"

fun answer_text :: "int option \<Rightarrow> string \<Rightarrow> log_record list \<Rightarrow> string" where
  "answer_text answer_turn text1 [] = text1"
| "answer_text answer_turn text1 (r # rs) = (case r_body r of
     ModelCallFinished m \<Rightarrow> answer_text answer_turn (if answer_turn = Some (mf_turn m) then mf_text m else text1) rs
   | _ \<Rightarrow> answer_text answer_turn text1 rs)"

text \<open>An empty log is refused (\<open>ValueError\<close>).\<close>

definition split_answer :: "log_record list \<Rightarrow> answer_view option" where
  "split_answer rs =
     (if rs = [] then None
      else let answer_turn = finishing_turn (rev rs); views = call_views_of rs in
        Some \<lparr>aw_run_id = r_run_id (hd rs), aw_text = answer_text answer_turn [] rs,
          aw_work = concat (map (work_of views answer_turn) rs), aw_finished = answer_turn \<noteq> None\<rparr>)"

section \<open>Every model call is shown once\<close>

definition ended_turn :: "log_record \<Rightarrow> int option" where
  "ended_turn r = (case r_body r of ModelCallFinished m \<Rightarrow> Some (mf_turn m) | ModelCallFailed m \<Rightarrow> Some (mx_turn m) | _ \<Rightarrow> None)"

definition ended_turns :: "log_record list \<Rightarrow> int list" where
  "ended_turns rs = List.map_filter ended_turn rs"

definition turns_ended :: "log_record list \<Rightarrow> fold_state \<Rightarrow> bool" where
  "turns_ended rs s \<longleftrightarrow> sorted_wrt (<) (ended_turns rs) \<and>
     (\<forall>t \<in> set (ended_turns rs). t \<le> v_turn (fst s) \<and> (v_turn_open (fst s) \<longrightarrow> t < v_turn (fst s))) \<and>
     (v_model_call_open (fst s) \<longrightarrow> v_turn_open (fst s))"

lemma ended_turns_snoc: "ended_turns (rs @ [r]) = ended_turns rs @ (case ended_turn r of None \<Rightarrow> [] | Some t \<Rightarrow> [t])"
  by (simp add: ended_turns_def map_filter_snoc)

lemma turn_opens_later: "apply_body r (TurnStarted t) (st, cx) = Inr (st', cx') \<Longrightarrow> v_turn st < tu_turn t"
  by (auto simp: op_defs split: if_splits)

lemma turns_move:
  assumes "fold_step s r = Inr s'" and "v_model_call_open (fst s) \<longrightarrow> v_turn_open (fst s)"
  shows "case ended_turn r of
       Some t \<Rightarrow> v_turn_open (fst s) \<and> t = v_turn (fst s) \<and> turn_flags (fst s') = (v_turn (fst s), False, False)
     | None \<Rightarrow> v_turn (fst s) \<le> v_turn (fst s') \<and> (v_model_call_open (fst s') \<longrightarrow> v_turn_open (fst s')) \<and>
         (v_turn_open (fst s') \<longrightarrow> v_turn_open (fst s) \<or> v_turn (fst s) < v_turn (fst s'))"
proof -
  note a = fold_step_applies[OF assms(1)]
  have f: "turn_flags ((fst s)\<lparr>v_head_seq := n\<rparr>) = turn_flags (fst s)" for n by (simp add: turn_flags_def)
  show ?thesis
  proof (cases "r_body r")
    case (TurnStarted t)
    with apply_turns[OF a] turn_opens_later[OF a[unfolded TurnStarted]] show ?thesis
      by (simp add: ended_turn_def turn_flags_def)
  qed (use apply_turns[OF a] assms(2) in \<open>auto simp: ended_turn_def f, auto simp: turn_flags_def\<close>)
qed

lemma turns_ended_snoc:
  assumes "turns_ended rs s" and "fold_step s r = Inr s'"
  shows "turns_ended (rs @ [r]) s'"
proof -
  from assms(1) have m: "v_model_call_open (fst s) \<longrightarrow> v_turn_open (fst s)" by (simp add: turns_ended_def)
  show ?thesis
  proof (cases "ended_turn r")
    case None
    then have e: "ended_turns (rs @ [r]) = ended_turns rs" by (simp add: ended_turns_snoc)
    from turns_move[OF assms(2) m] None assms(1) show ?thesis unfolding turns_ended_def e by force
  next
    case (Some t)
    then have e: "ended_turns (rs @ [r]) = ended_turns rs @ [t]" by (simp add: ended_turns_snoc)
    from turns_move[OF assms(2) m] Some assms(1) show ?thesis unfolding turns_ended_def e
      by (auto simp: sorted_wrt_append turn_flags_def)
  qed
qed

interpretation ended_calls: fold_history fold_step turns_ended
  by unfold_locales (blast dest: turns_ended_snoc)

lemma ended_turns_sorted: "reduce rid None rs = Inr v \<Longrightarrow> sorted_wrt (<) (ended_turns rs)"
proof -
  assume "reduce rid None rs = Inr v"
  then obtain cx where "fold_log fold_step (fresh_state rid (hd rs)) rs = Inr (v, cx)" by (auto simp: reduce_whole_Inr_iff)
  moreover have "turns_ended [] (fresh_state rid r)" for r by (simp add: turns_ended_def ended_turns_def initial_view_def map_filter_simps)
  ultimately have "turns_ended rs (v, cx)" by (blast intro: ended_calls.fold_history)
  then show ?thesis by (simp add: turns_ended_def)
qed

lemma ended_turns_counted: "reduce rid None rs = Inr v \<Longrightarrow> v_model_calls v + v_failed_model_calls v = int (length (ended_turns rs))"
proof -
  assume "reduce rid None rs = Inr v"
  then have c: "call_counts v = fold (\<lambda>r. count_call (r_body r)) rs (0, 0, 0, 0, 0, 0)" by (rule reduce_projected(3))
  have "length (ended_turns rs) =
      length (filter (\<lambda>r. case r_body r of ModelCallFinished _ \<Rightarrow> True | _ \<Rightarrow> False) rs) +
      length (filter (\<lambda>r. case r_body r of ModelCallFailed _ \<Rightarrow> True | _ \<Rightarrow> False) rs)"
    by (induction rs) (auto simp: ended_turns_def ended_turn_def map_filter_simps split: body.splits)
  with c show ?thesis by (simp add: fold_count_call call_counts_def)
qed

lemma finishing_call:
  "finishing_turn rs = Some t \<Longrightarrow> \<exists>r m. r \<in> set rs \<and> r_body r = ModelCallFinished m \<and> mf_tool_calls m = [] \<and> mf_turn m = t"
  by (induction rs) (auto split: body.splits if_splits)

lemma length_without: "distinct xs \<Longrightarrow> t \<in> set xs \<Longrightarrow> length (filter ((\<noteq>) t) xs) + 1 = length xs"
proof (induction xs)
  case (Cons x xs)
  show ?case
  proof (cases "x = t")
    case True
    with Cons.prems have "filter ((\<noteq>) t) xs = xs" by (auto simp: filter_id_conv)
    with True show ?thesis by simp
  qed (use Cons in simp)
qed simp

lemma work_turns:
  assumes "distinct (ended_turns rs)" and "\<And>t. a = Some t \<Longrightarrow> \<exists>r m. r \<in> set rs \<and> r_body r = ModelCallFinished m \<and> mf_turn m = t"
  shows "map wt_turn (concat (map (work_of views a) rs)) = filter (\<lambda>t. a \<noteq> Some t) (ended_turns rs)"
proof -
  have apart: "mx_turn x \<noteq> mf_turn m" if "r \<in> set rs" "r_body r = ModelCallFailed x" "q \<in> set rs" "r_body q = ModelCallFinished m" for r x q m
    using assms(1) that
    by (induction rs) (auto simp: ended_turns_def map_filter_simps set_map_filter_iff ended_turn_def split: option.splits body.splits if_splits)
  have one: "map wt_turn (work_of views a r) = (case ended_turn r of None \<Rightarrow> [] | Some t \<Rightarrow> if a = Some t then [] else [t])"
    if "r \<in> set rs" for r
    using that assms(2) apart by (cases "r_body r") (fastforce simp: work_of_def ended_turn_def)+
  have "set qs \<subseteq> set rs \<Longrightarrow> map wt_turn (concat (map (work_of views a) qs)) = filter (\<lambda>t. a \<noteq> Some t) (ended_turns qs)" for qs
    using one by (induction qs) (auto simp: ended_turns_def map_filter_simps split: option.splits)
  then show ?thesis by simp
qed

lemma answer_text_of:
  assumes "distinct (ended_turns rs)" and "r \<in> set rs" and "r_body r = ModelCallFinished m"
  shows "answer_text (Some (mf_turn m)) t rs = mf_text m"
  using assms
proof (induction rs arbitrary: t)
  case (Cons q rs)
  have other: "answer_text (Some (mf_turn m)) t rs = t" if "mf_turn m \<notin> set (ended_turns rs)" for t
    using that by (induction rs arbitrary: t) (auto simp: ended_turns_def map_filter_simps ended_turn_def split: body.splits)
  have in_rest: "mf_turn m \<in> set (ended_turns rs)" if "r \<in> set rs"
    using that Cons.prems(3) by (auto simp: ended_turns_def set_map_filter_iff ended_turn_def intro!: bexI[of _ r])
  show ?case
  proof (cases "r = q")
    case True
    with Cons.prems have "mf_turn m \<notin> set (ended_turns rs)" by (simp add: ended_turns_def map_filter_simps ended_turn_def)
    with True Cons.prems(3) other show ?thesis by simp
  next
    case False
    with Cons.prems(1,2) have "distinct (ended_turns rs)" "r \<in> set rs"
      by (auto simp: ended_turns_def map_filter_simps split: option.splits)
    with Cons.IH Cons.prems(3) show ?thesis by (simp split: body.splits)
  qed
qed simp

text \<open>C39. Every model call of an accepted log is shown exactly once: the turns of work and the answer, when there is one, are as
  many as the calls the derived state counts, the work is in the order of the turns, and the answer is the text
  of a call that asked for no tool and is not among the work.\<close>

theorem every_model_call_is_shown_once:
  assumes "reduce rid None rs = Inr v"
  shows "\<exists>a. split_answer rs = Some a \<and>
     int (length (aw_work a)) + (if aw_finished a then 1 else 0) = v_model_calls v + v_failed_model_calls v \<and>
     sorted_wrt (<) (map wt_turn (aw_work a)) \<and>
     (aw_finished a = (\<exists>r \<in> set rs. \<exists>m. r_body r = ModelCallFinished m \<and> mf_tool_calls m = [])) \<and>
     (if aw_finished a then \<exists>r \<in> set rs. \<exists>m. r_body r = ModelCallFinished m \<and> mf_tool_calls m = [] \<and> aw_text a = mf_text m \<and>
        mf_turn m \<notin> wt_turn ` set (aw_work a) else aw_text a = [])"
proof -
  let ?t = "finishing_turn (rev rs)" and ?work = "concat (map (work_of (call_views_of rs) (finishing_turn (rev rs))) rs)"
  have s: "sorted_wrt (<) (ended_turns rs)" using ended_turns_sorted[OF assms] .
  then have d: "distinct (ended_turns rs)" by (simp add: strict_sorted_iff)
  have f: "\<exists>r m. r \<in> set rs \<and> r_body r = ModelCallFinished m \<and> mf_tool_calls m = [] \<and> mf_turn m = t" if "?t = Some t" for t
    using finishing_call[OF that] by simp
  have none: "?t = None \<longleftrightarrow> \<not> (\<exists>r \<in> set rs. \<exists>m. r_body r = ModelCallFinished m \<and> mf_tool_calls m = [])"
  proof -
    have "finishing_turn qs = None \<longleftrightarrow> \<not> (\<exists>r \<in> set qs. \<exists>m. r_body r = ModelCallFinished m \<and> mf_tool_calls m = [])" for qs
      by (induction qs) (auto split: body.splits)
    then show ?thesis by simp
  qed
  have w: "map wt_turn ?work = filter (\<lambda>t. ?t \<noteq> Some t) (ended_turns rs)" using f by (intro work_turns[OF d]) blast
  then have len: "length ?work = length (filter (\<lambda>t. ?t \<noteq> Some t) (ended_turns rs))" by (metis length_map)
  have blank: "answer_text None [] rs = []" by (induction rs) (auto split: body.splits)
  have "rs \<noteq> []" using assms by (auto simp: reduce_whole_Inr_iff)
  then obtain a where a: "split_answer rs = Some a" "aw_work a = ?work" "aw_finished a \<longleftrightarrow> ?t \<noteq> None" "aw_text a = answer_text ?t [] rs"
    by (simp add: split_answer_def Let_def)
  show ?thesis
  proof (cases ?t)
    case None
    then show ?thesis using a len w s blank none ended_turns_counted[OF assms] by (auto simp: sorted_wrt_filter)
  next
    case (Some t)
    from f[OF this] obtain r m where r: "r \<in> set rs" "r_body r = ModelCallFinished m" "mf_tool_calls m = []" "mf_turn m = t" by blast
    then have "t \<in> set (ended_turns rs)" by (auto simp: ended_turns_def set_map_filter_iff ended_turn_def intro!: bexI[of _ r])
    then have "length (filter ((\<noteq>) t) (ended_turns rs)) + 1 = length (ended_turns rs)" by (rule length_without[OF d])
    moreover have "t \<notin> set (map wt_turn ?work)" unfolding w using Some by simp
    then have "t \<notin> wt_turn ` set ?work" by simp
    moreover have "answer_text ?t [] rs = mf_text m" using answer_text_of[OF d r(1,2)] r(4) Some by simp
    ultimately show ?thesis using a len w s r Some none ended_turns_counted[OF assms]
      by (auto simp: sorted_wrt_filter intro!: bexI[of _ r] exI[of _ m])
  qed
qed

lemma every_model_call_is_shown_once_witness:
  "\<exists>a. split_answer whole_log = Some a \<and> int (length (aw_work a)) + (if aw_finished a then 1 else 0) = 2"
proof -
  obtain v where v: "reduce None None whole_log = Inr v" using acceptedD[OF whole_log_accepted] by blast
  have "length (ended_turns whole_log) = 2" by code_simp
  with ended_turns_counted[OF v] every_model_call_is_shown_once[OF v] show ?thesis by auto
qed

text \<open>
  A log of a Run that answered, was sent a follow-up and then failed: it has an answer, although the Run
  reached none, since the answer is the last call that asked for no tool and not the one the Run ended with.
\<close>

lemma failed_run_has_an_answer:
  "accepted (log_of [b_admitted, b_attempt 1, b_turn 1, b_call 1, b_answer 1 0 None, b_enqueue FollowUp ''q'', b_consume ''q'', b_settled Failed]) \<and>
   map_option aw_finished (split_answer (log_of [b_admitted, b_attempt 1, b_turn 1, b_call 1, b_answer 1 0 None, b_enqueue FollowUp ''q'',
     b_consume ''q'', b_settled Failed])) = Some True"
  by code_simp

section \<open>Prompts\<close>

lemma pending_call_named: "reduce rid None rs = Inr st \<Longrightarrow> pending_call st = Some c \<Longrightarrow> v_pending_approval_call_id st = Some (oc_call_id c)"
proof -
  assume r: "reduce rid None rs = Inr st" and p: "pending_call st = Some c"
  then obtain i where i: "v_pending_approval_call_id st = Some i" "dict_get (v_open_tool_calls st) i = Some c"
    by (auto simp: pending_call_def split: option.splits)
  then have "(i, c) \<in> set (v_open_tool_calls st)" by (metis map_of_SomeD)
  moreover have "map (\<lambda>kv. oc_call_id (snd kv)) (v_open_tool_calls st) = map fst (v_open_tool_calls st)"
    using reduce_open_calls(1)[OF r] .
  ultimately have "oc_call_id c = i" by (auto dest: map_eq_conv[THEN iffD1])
  with i show ?thesis by simp
qed

definition suspension_named :: "run_state_view \<Rightarrow> bool" where
  "suspension_named st \<longleftrightarrow> (v_suspended st \<longrightarrow> v_suspend_reason st \<noteq> None)"

lemma suspension_step: "suspension_named (fst s) \<Longrightarrow> fold_step s r = Inr s' \<Longrightarrow> suspension_named (fst s')"
  using fold_step_applies[of s r s'] unfolding suspension_named_def
  by (cases "r_body r") (auto simp: op_defs Let_def remove_entry_def split: if_splits option.splits sum.splits prod.splits)

interpretation named_suspension: fold_invariant fold_step "\<lambda>s. suspension_named (fst s)"
  by unfold_locales (rule suspension_step)

lemma resumed_effect:
  assumes "apply_body r (Resumed b) (st, cx) = Inr (st', cx')"
  shows "v_suspended st" and "\<not> v_suspended st'" and "v_suspend_reason st' = None" and "v_suspended_step_id st' = None"
    and "v_pending_approval_call_id st = Some c \<Longrightarrow> re_approved b = Some a \<Longrightarrow> dict_get (v_approval_decisions st') c = Some a"
    and "v_pending_approval_call_id st = Some c \<Longrightarrow> re_payload b \<noteq> [] \<Longrightarrow> dict_get (v_resume_payloads st') c = Some (re_payload b)"
    and "v_suspended_step_id st = Some sid \<Longrightarrow> v_suspend_reason st = Some reason \<Longrightarrow>
      \<exists>earlier. dict_get (v_step_resumes st') sid =
        Some (earlier @ [\<lparr>sv_reason = reason, sv_payload = re_payload b, sv_approved = re_approved b, sv_seq = r_seq r\<rparr>])"
  using assms
  by (auto simp: on_view_def on_resumed_def Let_def corrupt_def decisions_after_def payloads_after_def step_resumes_after_def
        split: if_splits option.splits sum.splits)

lemma reduce_snoc:
  assumes "reduce rid None rs = Inr st" and "reduce rid None (rs @ [r]) = Inr st'"
  obtains cx cx' where "fold_log fold_step (fresh_state rid (hd rs)) rs = Inr (st, cx)" and "fold_step (st, cx) r = Inr (st', cx')"
proof -
  from assms(1) obtain cx where f: "fold_log fold_step (fresh_state rid (hd rs)) rs = Inr (st, cx)" and n: "rs \<noteq> []"
    by (auto simp: reduce_whole_Inr_iff)
  from assms(2) n obtain cx' where "fold_log fold_step (fresh_state rid (hd rs)) (rs @ [r]) = Inr (st', cx')"
    by (auto simp: reduce_whole_Inr_iff)
  with f that show thesis by (simp add: fold_log_snoc)
qed

lemma no_prompt:
  assumes "v_suspend_reason st = None" and "v_suspended_step_id st = None"
  shows "pending_approval_of st = Some None" and "pending_question_of st = None" and "pending_wait_of st = None"
  using assms by (simp_all add: pending_approval_of_def pending_question_of_def pending_wait_of_def)

lemma lifecycle_waits: "lifecycle_of st = WaitingLife \<Longrightarrow> v_suspended st"
proof -
  have "settled_lifecycle t \<noteq> WaitingLife" for t by (cases t) simp_all
  then show "lifecycle_of st = WaitingLife \<Longrightarrow> v_suspended st"
    by (auto simp: lifecycle_of_def split: bool.splits option.splits if_splits)
qed

text \<open>C38. What a status prompts for is what the next resume answers: the decision of an approval and the words of an answer are
  recorded for the very call that was shown, what is said to a workflow step is recorded for the very step,
  and after the resume the status shows no prompt.\<close>

theorem resume_answers_the_prompt:
  assumes "reduce rid None rs = Inr st" and "reduce rid None (rs @ [r]) = Inr st'" and "r_body r = Resumed b"
    and "run_status_of st = Some u"
  shows "(\<forall>p c a. rn_pending_approval u = Some p \<and> pa_call_id p = Some c \<and> re_approved b = Some a \<longrightarrow>
            dict_get (v_approval_decisions st') c = Some a) \<and>
     (\<forall>p c. rn_pending_question u = Some p \<and> pq_call_id p = Some c \<and> re_payload b \<noteq> [] \<longrightarrow>
            dict_get (v_resume_payloads st') c = Some (re_payload b)) \<and>
     (\<forall>sid. rn_suspended_step_id u = Some sid \<longrightarrow> (\<exists>reason earlier. rn_suspend_reason u = Some reason \<and>
            dict_get (v_step_resumes st') sid =
              Some (earlier @ [\<lparr>sv_reason = reason, sv_payload = re_payload b, sv_approved = re_approved b, sv_seq = r_seq r\<rparr>]))) \<and>
     (\<exists>u'. run_status_of st' = Some u' \<and> rn_pending_approval u' = None \<and> rn_pending_question u' = None \<and> rn_pending_wait u' = None \<and>
            rn_lifecycle u' \<noteq> WaitingLife)"
proof -
  obtain cx cx' where f: "fold_log fold_step (fresh_state rid (hd rs)) rs = Inr (st, cx)" and s: "fold_step (st, cx) r = Inr (st', cx')"
    using reduce_snoc[OF assms(1,2)] .
  note e = resumed_effect[OF fold_step_applies[OF s, unfolded assms(3) bump_def], simplified]
  have named: "v_suspend_reason st \<noteq> None"
    using named_suspension.fold_keeps[OF _ f] e(1) by (simp add: suspension_named_def initial_view_def)
  from assms(4) obtain approval where u: "pending_approval_of st = Some approval" "rn_pending_approval u = approval"
      "rn_pending_question u = pending_question_of st" "rn_suspended_step_id u = v_suspended_step_id st"
      "rn_suspend_reason u = v_suspend_reason st"
    by (auto simp: run_status_of_def)
  note call = pending_call_named[OF assms(1)]
  have "dict_get (v_approval_decisions st') c = Some a" if "approval = Some p" "pa_call_id p = Some c" "re_approved b = Some a" for p c a
    using that u(1) call e(5) by (auto simp: pending_approval_of_def split: option.splits suspend_reason.splits)
  moreover have "dict_get (v_resume_payloads st') c = Some (re_payload b)"
    if "pending_question_of st = Some p" "pq_call_id p = Some c" "re_payload b \<noteq> []" for p c
    using that call e(6) by (auto simp: pending_question_of_def split: option.splits suspend_reason.splits if_splits)
  moreover note no_prompt[OF e(3,4)]
  moreover have "lifecycle_of st' \<noteq> WaitingLife" using e(2) lifecycle_waits by blast
  ultimately show ?thesis using e(7) named u by (auto simp: run_status_of_def[of st'])
qed

definition b_asks_approval :: "call_id \<Rightarrow> body" where
  "b_asks_approval c = Suspended \<lparr>su_reason = Approval, su_payload_schema = [], su_expires_at = 50, su_step_id = None,
     su_step_name = None, su_event = None, su_wake_at = None, su_pending_call_id = Some c, su_question = None, su_questions = []\<rparr>"

definition b_approved :: "bool \<Rightarrow> body" where
  "b_approved x = Resumed \<lparr>re_payload = [], re_approved = Some x, re_resumed_by = None\<rparr>"

definition asked_log :: "log_record list" where
  "asked_log = log_of [b_admitted, b_attempt 1, b_turn 1, b_tool ''c1'' ''refund'' 1, b_asks_approval ''c1'']"

text \<open>What a log prompts for.\<close>

definition prompts_for :: "log_record list \<Rightarrow> call_id \<Rightarrow> bool" where
  "prompts_for rs c = (case reduce None None rs of Inl _ \<Rightarrow> False | Inr st \<Rightarrow>
     (case run_status_of st of Some u \<Rightarrow> (case rn_pending_approval u of Some p \<Rightarrow> pa_call_id p = Some c | None \<Rightarrow> False) | None \<Rightarrow> False))"

lemma prompts_forD: "prompts_for rs c \<Longrightarrow> \<exists>st u p. reduce None None rs = Inr st \<and> run_status_of st = Some u \<and>
    rn_pending_approval u = Some p \<and> pa_call_id p = Some c"
  by (auto simp: prompts_for_def split: sum.splits option.splits)

lemma resume_answers_the_prompt_witness:
  "\<exists>st u p st'. reduce None None asked_log = Inr st \<and> run_status_of st = Some u \<and> rn_pending_approval u = Some p \<and>
     reduce None None (asked_log @ [rec_at 6 (b_approved False)]) = Inr st' \<and> dict_get (v_approval_decisions st') ''c1'' = Some False"
proof -
  have "prompts_for asked_log ''c1''" "accepted (asked_log @ [rec_at 6 (b_approved False)])" by code_simp+
  with prompts_forD acceptedD obtain st u p st' where a: "reduce None None asked_log = Inr st" "run_status_of st = Some u"
      "rn_pending_approval u = Some p" "pa_call_id p = Some ''c1''" "reduce None None (asked_log @ [rec_at 6 (b_approved False)]) = Inr st'"
    by meson
  have "r_body (rec_at 6 (b_approved False)) = Resumed \<lparr>re_payload = [], re_approved = Some False, re_resumed_by = None\<rparr>"
    by (simp add: rec_at_def b_approved_def)
  note conjunct1[OF resume_answers_the_prompt[OF a(1,5) this a(2)], rule_format, of p "''c1''" False]
  with a(3,4) have "dict_get (v_approval_decisions st') ''c1'' = Some False" by simp
  with a show ?thesis by blast
qed

text \<open>C40. A settled Run still prompts: the settlement leaves the suspension of the derived state as it is, so that the status of a
  Run that ended while it waited shows the same approval, question or wait as before, next to the lifecycle
  of its ending.\<close>

theorem settled_run_keeps_its_prompt:
  assumes "reduce rid None rs = Inr st" and "reduce rid None (rs @ [r]) = Inr st'" and "r_body r = RunSettled b"
    and "run_status_of st = Some u"
  shows "\<exists>u'. run_status_of st' = Some u' \<and> rn_pending_approval u' = rn_pending_approval u \<and>
     rn_pending_question u' = rn_pending_question u \<and> rn_pending_wait u' = rn_pending_wait u \<and>
     rn_lifecycle u' = settled_lifecycle (rs_state b)"
proof -
  obtain cx cx' where "fold_step (st, cx) r = Inr (st', cx')" using reduce_snoc[OF assms(1,2)] .
  from fold_step_applies[OF this] assms(3)
  have st': "st' = st\<lparr>v_head_seq := r_seq r, v_settled := True, v_terminal_state := Some (rs_state b), v_output := rs_output b,
      v_failure := rs_failure b, v_turn_open := False, v_model_call_open := False\<rparr>"
    by (simp add: on_view_def on_run_settled_def)
  have k: "v_pending_approval_call_id st' = v_pending_approval_call_id st" "v_open_tool_calls st' = v_open_tool_calls st"
    "v_suspend_reason st' = v_suspend_reason st" "v_suspend_expires_at st' = v_suspend_expires_at st"
    "v_suspended_step_id st' = v_suspended_step_id st" "v_suspended_step_name st' = v_suspended_step_name st"
    "v_suspend_question st' = v_suspend_question st" "v_suspend_questions st' = v_suspend_questions st"
    "v_suspend_event st' = v_suspend_event st" "v_suspend_payload_schema st' = v_suspend_payload_schema st"
    "v_suspend_wake_at st' = v_suspend_wake_at st" "v_steps st' = v_steps st"
    by (simp_all add: st')
  have c: "pending_call st' = pending_call st" unfolding pending_call_def k ..
  have "pending_approval_of st' = pending_approval_of st" unfolding pending_approval_of_def k c ..
  moreover have "pending_question_of st' = pending_question_of st" unfolding pending_question_of_def k c ..
  moreover have "pending_wait_of st' = pending_wait_of st" unfolding pending_wait_of_def k ..
  moreover have "lifecycle_of st' = settled_lifecycle (rs_state b)" by (simp add: lifecycle_of_def st')
  ultimately show ?thesis using assms(4) by (auto simp: run_status_of_def)
qed

lemma settled_run_keeps_its_prompt_witness:
  "\<exists>st u p st' u'. reduce None None asked_log = Inr st \<and> run_status_of st = Some u \<and> rn_pending_approval u = Some p \<and>
     reduce None None (asked_log @ [rec_at 6 (b_settled Abandoned)]) = Inr st' \<and> run_status_of st' = Some u' \<and>
     rn_pending_approval u' = Some p \<and> rn_lifecycle u' = StoppedLife"
proof -
  have "prompts_for asked_log ''c1''" "accepted (asked_log @ [rec_at 6 (b_settled Abandoned)])" by code_simp+
  with prompts_forD acceptedD obtain st u p st' where a: "reduce None None asked_log = Inr st" "run_status_of st = Some u"
      "rn_pending_approval u = Some p" "reduce None None (asked_log @ [rec_at 6 (b_settled Abandoned)]) = Inr st'"
    by meson
  have "r_body (rec_at 6 (b_settled Abandoned)) = RunSettled \<lparr>rs_state = Abandoned, rs_output = None, rs_failure = None, rs_orphaned_attempt_id = None\<rparr>"
    by (simp add: rec_at_def b_settled_def)
  from settled_run_keeps_its_prompt[OF a(1,4) this a(2)] a(3) obtain u' where "run_status_of st' = Some u'"
      "rn_pending_approval u' = Some p" "rn_lifecycle u' = StoppedLife" by auto
  with a show ?thesis by blast
qed

end
