(* ===== verification/Threads.thy ===== *)
theory Threads
  imports Conversation Views
begin

text \<open>
  A conversation across a chain of Runs: the messages of one Run with their positions
  (\<open>psych_runtime/core/thread_view.py\<close>), what a continuing Run replays into its model
  (\<open>psych_runtime/runtime/thread.py\<close>), and what a person scrolling back is shown (\<open>thread\<close> of \<open>psych_runtime/api.py\<close>).

  Shown: a person sees what the model sees, and the calls of programs besides; a history is a chain of Runs of
  one tenant within its budget; following the chain ends.
\<close>

section \<open>The messages of a Run\<close>

datatype view_role = UserRole | AssistantRole | ToolRole

record message_view =
  mv_role :: view_role
  mv_content :: string
  mv_run_id :: run_id
  mv_seq :: int
  mv_at :: timestamp
  mv_tool_name :: "string option"
  mv_tool_call_id :: "call_id option"
  mv_is_error :: bool

definition plain_view :: "view_role \<Rightarrow> string \<Rightarrow> run_id \<Rightarrow> log_record \<Rightarrow> message_view" where
  "plain_view role content i r =
     \<lparr>mv_role = role, mv_content = content, mv_run_id = i, mv_seq = r_seq r, mv_at = r_at r, mv_tool_name = None,
      mv_tool_call_id = None, mv_is_error = False\<rparr>"

definition user_view :: "string \<Rightarrow> run_id \<Rightarrow> log_record \<Rightarrow> message_view list" where
  "user_view content i r = (if content = [] then [] else [plain_view UserRole content i r])"

text \<open>\<open>queued\<close>: the last payload of every entry.\<close>

definition note_payload :: "log_record \<Rightarrow> (string, obj) dict \<Rightarrow> (string, obj) dict" where
  "note_payload r d = (case r_body r of QueueEnqueued q \<Rightarrow> dict_put (qe_entry_id q) (qe_payload q) d | _ \<Rightarrow> d)"

definition queued_payloads :: "log_record list \<Rightarrow> (string, obj) dict" where
  "queued_payloads ordered = fold note_payload ordered []"

text \<open>What one record is shown as; \<open>None\<close> where \<open>dict(payload)\<close> raises.\<close>

definition record_views :: "log_record list \<Rightarrow> (string, obj) dict \<Rightarrow> run_id \<Rightarrow> log_record \<Rightarrow> message_view list option" where
  "record_views ordered queued i r = (case r_body r of
     RunAdmitted a \<Rightarrow> Some (user_view (input_text (JObj (ra_input a))) i r)
   | StepStarted s \<Rightarrow>
       (if ss_kind s = ''agent''
        then (case dict_get (ss_input s) ''input'' of
                Some x \<Rightarrow> map_option (\<lambda>d. user_view (input_text (JObj d)) i r) (dict_of_json x)
              | None \<Rightarrow> Some [])
        else Some [])
   | QueueConsumed q \<Rightarrow>
       Some (user_view (input_text (JObj (case dict_get queued (qc_entry_id q) of Some p \<Rightarrow> p | None \<Rightarrow> []))) i r)
   | ModelCallFinished m \<Rightarrow>
       Some (if mf_text m \<noteq> [] \<or> mf_tool_calls m \<noteq> [] then [plain_view AssistantRole (mf_text m) i r] else [])
   | SubagentFinished f \<Rightarrow> Some [plain_view UserRole (child_finished_text f) i r]
   | ToolCallFinished f \<Rightarrow>
       Some [(plain_view ToolRole (result_text f) i r)\<lparr>mv_tool_name := Some (tool_name ordered (tcf_call_id f)),
         mv_tool_call_id := Some (tcf_call_id f), mv_is_error := (tcf_outcome f \<noteq> OutcomeOk)\<rparr>]
   | _ \<Rightarrow> Some [])"

fun views_of :: "(log_record \<Rightarrow> message_view list option) \<Rightarrow> log_record list \<Rightarrow> message_view list option" where
  "views_of f [] = Some []"
| "views_of f (r # rs) =
     (case f r of None \<Rightarrow> None | Some vs \<Rightarrow> map_option (\<lambda>ws. vs @ ws) (views_of f rs))"

definition summary_view :: "log_record list \<Rightarrow> string list \<Rightarrow> run_id \<Rightarrow> message_view list" where
  "summary_view ordered summaries i =
     (if summaries = [] then []
      else [plain_view UserRole (''Summary of the earlier conversation, which has been compacted '' @
              ''to fit the context window:'' @ [CHR 0x0A, CHR 0x0A] @ join [CHR 0x0A, CHR 0x0A] summaries) i
              (last (filter compacts ordered))])"

definition message_views :: "log_record list \<Rightarrow> message_view list option" where
  "message_views ordered =
     (if ordered = [] then Some []
      else let i = r_run_id (hd ordered); (boundary, summaries) = compaction 0 [] ordered in
        map_option (\<lambda>vs. summary_view ordered summaries i @ vs)
          (views_of (record_views ordered (queued_payloads ordered) i) (filter (\<lambda>r. boundary < r_seq r) ordered)))"

section \<open>The history of a thread\<close>

text \<open>
  The store is seen at every await (\<open>seen_at\<close>). The loop recurses on fuel; \<open>None\<close> is a walk that ran out of it.
  \<open>Inl\<close> is \<open>AccessDenied\<close> with its subject and reason.
\<close>

type_synonym 'x fallible = "((string \<times> string) + 'x) option"

definition foreign_link :: "run_id \<Rightarrow> string \<Rightarrow> string \<Rightarrow> string \<Rightarrow> string \<times> string" where
  "foreign_link i theirs own rule = (''run '' @ i, ''belongs to tenant '' @ repr_str theirs @ '', not '' @ repr_str own @ ''. '' @ rule)"

definition then_more :: "'x \<Rightarrow> 'x list fallible \<Rightarrow> 'x list fallible" where
  "then_more x rest = (case rest of Some (Inr xs) \<Rightarrow> Some (Inr (x # xs)) | _ \<Rightarrow> rest)"

fun ancestors :: "nat \<Rightarrow> (nat \<Rightarrow> store) \<Rightarrow> string \<Rightarrow> nat \<Rightarrow> int \<Rightarrow> run_id set \<Rightarrow> run_id option \<Rightarrow> (run_id \<times> log_record list) list fallible" where
  "ancestors 0 seen_at tenant t budget visited current = None"
| "ancestors (Suc fuel) seen_at tenant t budget visited current =
     (case current of
        None \<Rightarrow> Some (Inr [])
      | Some i \<Rightarrow>
          if i \<in> visited then Some (Inr [])
          else case get_run (seen_at t) i of
            None \<Rightarrow> Some (Inr [])
          | Some h \<Rightarrow>
              if sc_tenant (h_scope h) \<noteq> tenant then
                Some (Inl (foreign_link i (sc_tenant (h_scope h)) tenant ''A Run may only continue one Run in its own Scope.''))
              else let records = store_read (seen_at (t + 1)) i 0 None; left1 = budget - int (length records) in
                if left1 \<le> 0 then Some (Inr [(i, records)])
                else then_more (i, records) (ancestors fuel seen_at tenant (t + 2) left1 (insert i visited) (h_continues_run_id h)))"

definition load_thread_history :: "nat \<Rightarrow> (nat \<Rightarrow> store) \<Rightarrow> scope \<Rightarrow> run_id option \<Rightarrow> int \<Rightarrow> message list fallible" where
  "load_thread_history fuel seen_at sc continues max_history_records =
     (if continues = None \<or> max_history_records \<le> 0 then Some (Inr [])
      else map_option (map_sum id (\<lambda>chain. concat (map (\<lambda>link. build_conversation (snd link)) (rev chain))))
             (ancestors fuel seen_at (sc_tenant sc) 0 max_history_records {} continues))"

section \<open>The whole thread\<close>

datatype thread_error = ThreadNotFound run_id | ThreadDenied string string | ThreadRaised

fun chain_of :: "nat \<Rightarrow> (nat \<Rightarrow> store) \<Rightarrow> string \<Rightarrow> nat \<Rightarrow> nat option \<Rightarrow> run_id set \<Rightarrow> run_id option \<Rightarrow> run_id list fallible" where
  "chain_of 0 seen_at tenant t limit visited current = None"
| "chain_of (Suc fuel) seen_at tenant t limit visited current =
     (case current of
        None \<Rightarrow> Some (Inr [])
      | Some i \<Rightarrow>
          if i \<in> visited then Some (Inr [])
          else case get_run (seen_at t) i of
            None \<Rightarrow> Some (Inr [])
          | Some h \<Rightarrow>
              if sc_tenant (h_scope h) \<noteq> tenant then
                Some (Inl (foreign_link i (sc_tenant (h_scope h)) tenant ''A thread never crosses a tenant.''))
              else if (case limit of Some n \<Rightarrow> card visited + 1 \<ge> n | None \<Rightarrow> False) then Some (Inr [i])
              else then_more i (chain_of fuel seen_at tenant (t + 1) limit (insert i visited) (h_continues_run_id h)))"

definition check_scope :: "scope \<Rightarrow> scope option \<Rightarrow> run_id \<Rightarrow> (string \<times> string) option" where
  "check_scope owner asked i = (case asked of
     Some a \<Rightarrow> if sc_tenant owner \<noteq> sc_tenant a
       then Some (''run '' @ i, ''belongs to tenant '' @ repr_str (sc_tenant owner) @ '', not '' @ repr_str (sc_tenant a)) else None
   | None \<Rightarrow> None)"

text \<open>The reads of the messages come after those of the chain.\<close>

fun views_at :: "(nat \<Rightarrow> store) \<Rightarrow> nat \<Rightarrow> run_id list \<Rightarrow> message_view list option" where
  "views_at seen_at t [] = Some []"
| "views_at seen_at t (i # is) =
     (case message_views (store_read (seen_at t) i 0 None) of
        None \<Rightarrow> None
      | Some vs \<Rightarrow> map_option (\<lambda>ws. vs @ ws) (views_at seen_at (t + 1) is))"

definition thread :: "nat \<Rightarrow> (nat \<Rightarrow> store) \<Rightarrow> run_id \<Rightarrow> scope option \<Rightarrow> nat option \<Rightarrow>
    (thread_error + run_id list \<times> message_view list) option" where
  "thread fuel seen_at i asked limit =
     (case get_run (seen_at 0) i of
        None \<Rightarrow> Some (Inl (ThreadNotFound i))
      | Some h \<Rightarrow>
     (case check_scope (h_scope h) asked i of
        Some (subject, reason) \<Rightarrow> Some (Inl (ThreadDenied subject reason))
      | None \<Rightarrow>
     (case chain_of fuel seen_at (sc_tenant (h_scope h)) 1 limit {} (Some i) of
        None \<Rightarrow> None
      | Some (Inl (subject, reason)) \<Rightarrow> Some (Inl (ThreadDenied subject reason))
      | Some (Inr chain) \<Rightarrow>
     (case views_at seen_at (length chain + 2) (rev chain) of
        None \<Rightarrow> Some (Inl ThreadRaised)
      | Some views \<Rightarrow> Some (Inr (rev chain, views))))))"

section \<open>A person sees what the model sees\<close>

fun shown_of :: "message \<Rightarrow> (view_role \<times> string)" where
  "shown_of (SystemMessage t) = (UserRole, t)"
| "shown_of (UserMessage t _) = (UserRole, t)"
| "shown_of (AssistantMessage t _ _) = (AssistantRole, t)"
| "shown_of (ToolResultMessage _ _ t _) = (ToolRole, t)"

definition seen_as :: "message_view \<Rightarrow> view_role \<times> string" where
  "seen_as v = (mv_role v, mv_content v)"

text \<open>Everything but the results of calls that a program made.\<close>

definition of_the_model :: "log_record list \<Rightarrow> message_view \<Rightarrow> bool" where
  "of_the_model rs v \<longleftrightarrow> (case mv_tool_call_id v of Some c \<Rightarrow> own_call rs c | None \<Rightarrow> True)"

text \<open>The input a workflow maps to an agent is an object (\<open>resolve_mapping\<close>).\<close>

definition object_input :: "log_record \<Rightarrow> bool" where
  "object_input r \<longleftrightarrow> (case r_body r of
     StepStarted s \<Rightarrow> (case dict_get (ss_input s) ''input'' of Some x \<Rightarrow> (\<exists>kvs. x = JObj kvs) | None \<Rightarrow> True)
   | _ \<Rightarrow> True)"

lemma views_of_append: "views_of f (xs @ ys) = (case views_of f xs of None \<Rightarrow> None | Some vs \<Rightarrow> map_option (\<lambda>ws. vs @ ws) (views_of f ys))"
  by (cases "views_of f ys"; induction xs) (auto split: option.splits)

lemma input_text_empty: "input_text (JObj []) = []"
  by simp

declare input_text.simps [simp del] and result_text.simps [simp del]

lemma user_view_seen: "map seen_as (filter (of_the_model rs) (user_view t i r)) = map shown_of (user_text t)"
  by (simp add: user_view_def user_text_def plain_view_def of_the_model_def seen_as_def)

lemma queued_payloads_get:
  "distinct (map pe_entry_id (entries rs)) \<Longrightarrow>
     dict_get (fold note_payload rs d) q = (case search (enqueued_with q) rs of Some e \<Rightarrow> Some (qe_payload e) | None \<Rightarrow> dict_get d q)"
proof (induction rs arbitrary: d)
  case (Cons r rs)
  then have "distinct (map pe_entry_id (entries rs))" by (auto simp: entries_def map_filter_simps split: option.splits)
  note IH = Cons.IH[OF this]
  show ?case
  proof (cases "\<exists>e. r_body r = QueueEnqueued e")
    case True
    then obtain e where e: "r_body r = QueueEnqueued e" ..
    with Cons.prems have n: "search (enqueued_with (qe_entry_id e)) rs = None"
      unfolding search_enqueued by (force simp: entries_def map_filter_simps)
    have "note_payload r d = dict_put (qe_entry_id e) (qe_payload e) d" by (simp add: note_payload_def e)
    moreover have "enqueued_with q r = (if qe_entry_id e = q then Some e else None)" by (simp add: enqueued_with.simps e)
    ultimately show ?thesis using n by (auto simp: IH split: option.splits)
  next
    case False
    then have "note_payload r d = d" "enqueued_with q r = None"
      by (auto simp: note_payload_def enqueued_with.simps split: body.splits)
    then show ?thesis by (simp add: IH)
  qed
qed simp


lemma entries_distinct: "reduce rid None rs = Inr v \<Longrightarrow> distinct (map pe_entry_id (entries rs))"
  by (frule reduce_history[OF queues.fold_history_axioms queues_match_fresh]) (auto dest: queues_matchD(1))

text \<open>One record: what it is shown as is what the model is sent for it.\<close>

lemma record_seen:
  assumes "reduce rid None (xs @ r # ys) = Inr v" and "splits_no_call n (xs @ r # ys)" and "n < r_seq r" and "object_input r"
  shows "\<exists>vs. record_views (xs @ r # ys) (queued_payloads (xs @ r # ys)) i r = Some vs \<and>
     map seen_as (filter (of_the_model (xs @ r # ys)) vs) = map shown_of (record_messages (xs @ r # ys) (calls_after n [] xs) (r_body r))"
proof (cases "r_body r")
  case (ToolCallFinished f)
  let ?rs = "xs @ r # ys" and ?c = "tcf_call_id f"
  from noted_call[OF assms(1) ToolCallFinished assms(3,2)]
  obtain s where s: "dict_get (calls_after n [] xs) ?c = Some s" "search (started_with ?c) ?rs = Some s" by auto
  then have "own_call ?rs ?c \<longleftrightarrow> tcs_parent_call_id s = None" by (simp add: own_call_def)
  with s show ?thesis
    by (simp add: record_views_def record_messages_def ToolCallFinished tool_result_message_def of_the_model_def plain_view_def seen_as_def)
next
  case (QueueConsumed q)
  have "dict_get (queued_payloads (xs @ r # ys)) (qc_entry_id q) = map_option qe_payload (search (enqueued_with (qc_entry_id q)) (xs @ r # ys))"
    unfolding queued_payloads_def queued_payloads_get[OF entries_distinct[OF assms(1)]] by (simp split: option.split)
  then show ?thesis
    by (auto simp: record_views_def record_messages_def QueueConsumed user_view_seen queue_payload_def input_text_empty
        split: option.split)
next
  case (StepStarted s)
  with assms(4) show ?thesis
    by (auto simp: record_views_def record_messages_def object_input_def user_view_seen split: option.splits)
qed (simp_all add: record_views_def record_messages_def user_view_seen, simp_all add: plain_view_def of_the_model_def seen_as_def)

lemma prefix_seen:
  assumes "reduce rid None (xs @ ys) = Inr v" and "splits_no_call n (xs @ ys)" and "\<forall>r \<in> set xs. object_input r"
  shows "\<exists>vs. views_of (record_views (xs @ ys) (queued_payloads (xs @ ys)) i) (filter (\<lambda>r. n < r_seq r) xs) = Some vs \<and>
     map seen_as (filter (of_the_model (xs @ ys)) vs) = map shown_of (messages_of (xs @ ys) n [] xs)"
  using assms
proof (induction xs arbitrary: ys rule: rev_induct)
  case (snoc r xs)
  from snoc.IH[of "r # ys"] snoc.prems obtain vs where
    vs: "views_of (record_views (xs @ r # ys) (queued_payloads (xs @ r # ys)) i) (filter (\<lambda>r. n < r_seq r) xs) = Some vs"
      "map seen_as (filter (of_the_model (xs @ r # ys)) vs) = map shown_of (messages_of (xs @ r # ys) n [] xs)"
    by auto
  show ?case
  proof (cases "n < r_seq r")
    case True
    from record_seen[of rid xs r ys v n i] snoc.prems True obtain ws where
      "record_views (xs @ r # ys) (queued_payloads (xs @ r # ys)) i r = Some ws"
      "map seen_as (filter (of_the_model (xs @ r # ys)) ws) = map shown_of (record_messages (xs @ r # ys) (calls_after n [] xs) (r_body r))"
      by auto
    with vs True show ?thesis by (simp add: views_of_append messages_of_append)
  next
    case False
    with vs show ?thesis by (simp add: messages_of_append)
  qed
qed simp



section \<open>Chains\<close>

text \<open>A chain of Runs read from the await \<open>t\<close> on: each of the tenant, with its log, continued by the one before it.\<close>

fun linked :: "(nat \<Rightarrow> store) \<Rightarrow> string \<Rightarrow> nat \<Rightarrow> run_id option \<Rightarrow> (run_id \<times> log_record list) list \<Rightarrow> bool" where
  "linked seen_at tenant t current [] = True"
| "linked seen_at tenant t current ((i, records) # links) \<longleftrightarrow>
     current = Some i \<and> records = store_read (seen_at (t + 1)) i 0 None \<and>
     (\<exists>h. get_run (seen_at t) i = Some h \<and> sc_tenant (h_scope h) = tenant \<and> linked seen_at tenant (t + 2) (h_continues_run_id h) links)"

lemma ancestors_linked:
  assumes "ancestors fuel seen_at tenant t budget visited current = Some (Inr chain)"
  shows "linked seen_at tenant t current chain \<and> distinct (map fst chain) \<and> set (map fst chain) \<inter> visited = {} \<and>
     (0 < budget \<longrightarrow> int (length (concat (map snd (butlast chain)))) < budget)"
  using assms
proof (induction fuel arbitrary: t budget visited current chain)
  case (Suc fuel)
  show ?case
  proof (cases "\<exists>i h. current = Some i \<and> i \<notin> visited \<and> get_run (seen_at t) i = Some h \<and> sc_tenant (h_scope h) = tenant \<and>
      0 < budget - int (length (store_read (seen_at (t + 1)) i 0 None))")
    case False
    with Suc.prems show ?thesis by (auto simp: Let_def split: option.splits if_splits)
  next
    case True
    then obtain i h where h: "current = Some i" "i \<notin> visited" "get_run (seen_at t) i = Some h" "sc_tenant (h_scope h) = tenant"
      "0 < budget - int (length (store_read (seen_at (t + 1)) i 0 None))" by blast
    let ?records = "store_read (seen_at (t + 1)) i 0 None"
    let ?left = "budget - int (length ?records)"
    from Suc.prems h obtain rest where rest: "ancestors fuel seen_at tenant (t + 2) ?left (insert i visited) (h_continues_run_id h) = Some (Inr rest)"
      and chain: "chain = (i, ?records) # rest"
      by (auto simp: Let_def then_more_def split: option.splits sum.splits)
    note IH = Suc.IH[OF rest]
    have "int (length (concat (map snd (butlast chain)))) < budget"
      using IH h(5) chain by (cases rest) auto
    with IH h chain show ?thesis by auto
  qed
qed simp

lemma chain_fuel:
  assumes "finite U" and "\<And>t i h. get_run (seen_at t) i = Some h \<Longrightarrow> i \<in> U" and "card (U - visited) < fuel"
  shows "ancestors fuel seen_at tenant t budget visited current \<noteq> None"
  using assms(3)
proof (induction fuel arbitrary: t budget visited current)
  case (Suc fuel)
  have "ancestors fuel seen_at tenant u b (insert i visited) c \<noteq> None" if "i \<notin> visited" "get_run (seen_at t) i = Some h" for u b c i h
  proof -
    have "i \<in> U - visited" using assms(2) that by blast
    then have "card (U - insert i visited) < card (U - visited)"
      using assms(1) by (intro psubset_card_mono) auto
    with Suc.prems show ?thesis by (intro Suc.IH) simp
  qed
  then show ?case by (auto simp: Let_def then_more_def split: option.split sum.split) (metis option.distinct(1))
qed simp

text \<open>C36. What a continuing Run replays is a bounded chain of its own tenant: the conversations, oldest first, of distinct Runs of
  which each was continued by the next, the first by the Run itself, each of the Run's own tenant when it was
  read; and all of them but the oldest hold fewer records than the budget.\<close>

theorem history_is_a_bounded_chain:
  assumes "load_thread_history fuel seen_at sc continues budget = Some (Inr ms)" and "0 < budget"
  shows "\<exists>chain. ms = concat (map (\<lambda>link. build_conversation (snd link)) (rev chain)) \<and>
     linked seen_at (sc_tenant sc) 0 continues chain \<and> distinct (map fst chain) \<and>
     int (length (concat (map snd (butlast chain)))) < budget"
proof (cases continues)
  case None
  with assms show ?thesis by (intro exI[of _ "[]"]) (simp add: load_thread_history_def)
next
  case (Some i)
  with assms obtain chain where c: "ancestors fuel seen_at (sc_tenant sc) 0 budget {} continues = Some (Inr chain)"
    and ms: "ms = concat (map (\<lambda>link. build_conversation (snd link)) (rev chain))"
  proof (cases "ancestors fuel seen_at (sc_tenant sc) 0 budget {} continues")
    case (Some r)
    with assms \<open>continues = Some i\<close> that show thesis by (cases r) (simp_all add: load_thread_history_def)
  qed (use assms \<open>continues = Some i\<close> in \<open>simp add: load_thread_history_def\<close>)
  from ancestors_linked[OF c] assms(2) ms show ?thesis by blast
qed

text \<open>C37. Loading a history ends: when the stores that are seen while it is loaded hold only the Runs of a finite set, one more
  step than there are Runs is enough, however the Runs are linked, also in a circle.\<close>

theorem history_loading_ends:
  assumes "finite U" and "\<And>t i h. get_run (seen_at t) i = Some h \<Longrightarrow> i \<in> U"
  shows "load_thread_history (card U + 1) seen_at sc continues budget \<noteq> None"
  using chain_fuel[OF assms, where visited = "{}" and fuel = "card U + 1" and tenant = "sc_tenant sc" and t = 0]
  by (simp add: load_thread_history_def)

text \<open>Two Runs that continue each other.\<close>

definition s_linked_run :: "run_id \<Rightarrow> run_id \<Rightarrow> run_header" where
  "s_linked_run i j = \<lparr>h_run_id = i, h_scope = s_scope, h_version_hash = [], h_state = Settled, h_created_at = 0, h_deadline_at = 0,
     h_lease_holder = None, h_lease_expires_at = None, h_idempotency_key = None, h_attempt_count = 0, h_runnable_at = None,
     h_parent_run_id = None, h_delegation_depth = 0, h_continues_run_id = Some j\<rparr>"

definition s_circle :: store where
  "s_circle = \<lparr>st_logs = [], st_versions = [], st_runs = [(''a'', s_linked_run ''a'' ''b''), (''b'', s_linked_run ''b'' ''a'')], st_keys = []\<rparr>"

lemma history_loading_ends_witness:
  "load_thread_history 3 (\<lambda>_. s_circle) s_scope (Some ''a'') 10 \<noteq> None"
proof -
  have "i \<in> {''a'', ''b''}" if "get_run s_circle i = Some h" for i h
    using that by (auto simp: get_run_def s_circle_def split: if_splits)
  with history_loading_ends[of "{''a'', ''b''}" "\<lambda>_. s_circle" s_scope "Some ''a''" 10] show ?thesis by (simp add: numeral_3_eq_3)
qed

lemma history_is_a_bounded_chain_witness:
  "\<exists>ms chain. load_thread_history 3 (\<lambda>_. s_circle) s_scope (Some ''a'') 10 = Some (Inr ms) \<and>
     linked (\<lambda>_. s_circle) ''t'' 0 (Some ''a'') chain \<and> distinct (map fst chain)"
proof -
  have "map_option (map_sum (\<lambda>_. ()) length) (load_thread_history 3 (\<lambda>_. s_circle) s_scope (Some ''a'') 10) = Some (Inr 0)"
    by code_simp
  then obtain ms where ms: "load_thread_history 3 (\<lambda>_. s_circle) s_scope (Some ''a'') 10 = Some (Inr ms)"
    by (cases "load_thread_history 3 (\<lambda>_. s_circle) s_scope (Some ''a'') 10") (auto simp: map_sum_def split: sum.splits)
  from history_is_a_bounded_chain[OF this] ms show ?thesis by (auto simp: s_scope_def)
qed

end
