(* ===== verification/Spec2Isabelle.thy ===== *)
theory Spec2Isabelle
  imports Prelude PyText Usage Identity Payloads Records View Reducer ReducerFacts Samples LogShape
    Metering ToolCalls Guards Queues Steps Children Turns Incremental Store Journal
    Guidance Dispatch Notify Worker Conversation PyNum Values
    StepSpecs Walked Workflow Walks WalkSamples Rewalk ModelCalls Access Prompt
    Results Offers Loop Agent LoopFacts LoopSamples LoopEnds OpenCalls
    Replay Programs ProgramFacts Views Threads
begin

text \<open>
  \<^bold>\<open>A verification library of psych_runtime's durable core.\<close>

  psych_runtime runs agents durably. Everything that happens in a Run is a Record in an append-only
  log (\<open>core/records.py\<close>); the state of a Run is never stored, it is the fold of that log
  (\<open>core/reducer.py\<close>); one Attempt at a time writes the log, through a Journal
  (\<open>runtime/journal.py\<close>) that folds each record before it writes it; the store
  (\<open>store/port.py\<close>, \<open>store/memory.py\<close>) keeps logs, Versions, Run headers and the leases by which
  workers own Runs; the loop guards (\<open>tools/failure_streak.py\<close>, \<open>tools/repetition.py\<close>) read counters
  the fold keeps. A caller admits, resumes, steers and interrupts Runs (\<open>runtime/dispatch.py\<close>), a
  settled child reports to its parent (\<open>runtime/notify.py\<close>), and the Worker (\<open>runtime/worker.py\<close>,
  \<open>runtime/abort.py\<close>) claims Runs, drives an Attempt, renews its lease and force-settles what does not
  unwind. What a model is told about a failure is composed in \<open>tools/guidance.py\<close>.

  \<^bold>\<open>Theories.\<close>
  \<^item> \<open>Prelude\<close>: Python dictionaries as association lists, the error-carrying fold \<open>fold_log\<close>, and
    the locales by which every fact about an accepted log is proved: \<open>fold_invariant\<close> (what every step
    keeps), \<open>fold_history\<close> (what relates the state to the records folded so far), \<open>fold_projection\<close>
    (a part of the state that is itself a fold) and \<open>fold_relation\<close> (two folds side by side). Each is
    interpreted on the reducer's step.
  \<^item> \<open>PyText\<close>: the Python standard library the core computes text with (strip, lower, decimal
    printing, UTF-8, SHA-256, canonical JSON), executable.
  \<^item> \<open>Usage\<close>, \<open>Identity\<close>, \<open>Payloads\<close>, \<open>Records\<close>: the data of \<open>core/usage.py\<close>, \<open>core/scope.py\<close>,
    \<open>core/ids.py\<close>, \<open>core/tasks.py\<close>, \<open>core/questions.py\<close>, \<open>core/components.py\<close>, \<open>core/records.py\<close> and
    \<open>core/corruption.py\<close>, field by field, with their validators.
  \<^item> \<open>View\<close>, \<open>Reducer\<close>: \<open>RunStateView\<close> with its properties, and \<open>reduce\<close> with one definition per
    record type (\<open>on_\<close> and the record's name), the checks, and the continuation from a prior state.
    \<open>ReducerFacts\<close> holds the normal forms the invariants use, \<open>Samples\<close> the logs of the witnesses.
  \<^item> \<open>LogShape\<close>: accepted logs are gapless, belong to one Run and tenant, end at the settlement, and
    all their prefixes are accepted.
  \<^item> \<open>Metering\<close>: usage, cost, counters, plan and components are functions of the log.
  \<^item> \<open>ToolCalls\<close>, \<open>Queues\<close>, \<open>Steps\<close>, \<open>Children\<close>, \<open>Turns\<close>: what the fold enforces on tool calls,
    queue entries, workflow steps, subagents, turns, model calls, suspensions and compactions, each as
    a relation between the state and the log.
  \<^item> \<open>Guards\<close>: the failure streak and the repetition guard, with the counters as functions of the log.
  \<^item> \<open>Incremental\<close>: a continued fold is the whole fold, and where it is not.
  \<^item> \<open>Store\<close>: the in-memory adapter, the interfaces \<open>log_store\<close> and \<open>lease_table\<close> it provides, and
    the step relation \<open>store_step\<close> of its operations.
  \<^item> \<open>Journal\<close>: appends, conflicts and their absorption, against other writers.
  \<^item> \<open>Guidance\<close>: the text of every failure kind, of sandbox failures and of elided results.
  \<^item> \<open>Dispatch\<close>: \<open>dispatch\<close>, \<open>replay\<close>, \<open>resume\<close> (without its notification, \<open>resume_core\<close>), \<open>send\<close> and
    \<open>interrupt\<close>: admission once per key, expiry of suspensions, and the two writes of an admission.
  \<^item> \<open>Notify\<close>: \<open>notify_parent\<close> and \<open>resume\<close>, which call one another up the delegation chain. Their fuel
    is the number of ancestors; more than the Run's delegation depth is enough (shown).
  \<^item> \<open>Worker\<close>: the abort signal, claiming, the Attempt, heartbeats, the supervisor, force-settlement and
    the sweeps, with the clocks and the runner as arguments.
  \<^item> \<open>Conversation\<close>: the messages a model receives, projected from the log (\<open>core/conversation.py\<close>), and
    where a compaction cuts (\<open>runtime/compaction.py\<close>).
  \<^item> \<open>PyNum\<close>, \<open>Values\<close>: Python's numbers (ints, doubles with their rounding) and comparisons, and what a
    workflow step reads: paths, mappings, conditions and the JSON Schema subset of
    \<open>core/workflow_values.py\<close>.
  \<^item> \<open>StepSpecs\<close>: the workflow half of \<open>core/spec.py\<close>: limits, suspension and retry policies, the twelve
    step kinds, \<open>WorkflowSpec\<close> and their validators.
  \<^item> \<open>Walked\<close>: pieces of a walk, what may be raised in one, appends and refreshes, and the contracts by
    which a relation is carried through a walk (\<open>journal_relation\<close>, \<open>quiet_relation\<close>, \<open>await_relation\<close>), with the
    locales that give such a relation for what the reducer keeps (\<open>external_state\<close>, for what other writers
    may append, \<open>quiet_state\<close> and \<open>state_relation\<close>).
  \<^item> \<open>Workflow\<close>: the engine of \<open>runtime/workflow.py\<close>, as functions of a walk (the Journal, the store and
    the number of awaits passed): one definition per method of \<open>WorkflowEngine\<close>, every step kind,
    attempts and retries, timers, approvals, and the sequence that memoises them. An agent's or a
    tool's own work is a field of the engine. \<open>attempts\<close> recurses on the attempts left and \<open>do_step\<close>
    on the size of the step, so that the engine needs no fuel.
  \<^item> \<open>Walks\<close>, \<open>Rewalk\<close>: what every walk keeps (the locale \<open>walk_relation\<close>), what a step's outcome says
    about the log, and what a later walk makes of it: finished steps and workflows are not run twice.
    \<open>WalkSamples\<close> holds the engines and walks of the witnesses.
  \<^item> \<open>ModelCalls\<close>: which model failures are retried and after how long (\<open>model/transient.py\<close>), price
    tables and the cost of a call (\<open>model/pricing.py\<close>), and the stream that \<open>_stream\<close> of
    \<open>runtime/agent.py\<close> puts together.
  \<^item> \<open>Access\<close>: narrowing (\<open>tools/narrowing.py\<close>), approval selectors (\<open>tools/policy.py\<close>), model-facing
    tool names (\<open>core/tool_names.py\<close>), the agent Spec of \<open>core/spec.py\<close>, and what a parent may compose
    and delegate to (\<open>runtime/subagent.py\<close>).
  \<^item> \<open>Prompt\<close>: the system prompt with its stable prefix and cache breakpoints (\<open>model/prompt.py\<close>), and
    the summarisation request of \<open>runtime/compaction.py\<close>.
  \<^item> \<open>Results\<close>: what becomes of a tool's result (\<open>tools/large_results.py\<close>, \<open>store/blob.py\<close>, \<open>tools/code.py\<close>),
    and the questions and plans a model sends (\<open>tools/builtins.py\<close>). \<open>Offers\<close>: the tools by which an
    agent reaches subagents (\<open>runtime/subagent.py\<close>).
  \<^item> \<open>Loop\<close>, \<open>Agent\<close>: \<open>AgentLoop\<close> of \<open>runtime/agent.py\<close>, one definition per method: in \<open>Loop\<close> the tool calls
    (start, gate, execution, result, attachments, recovery), in \<open>Agent\<close> the turns (stop conditions, model
    calls and their failures, compaction, queues, waiting for children) and who runs a loop
    (\<open>runtime/execute.py\<close>). A model, a Policy, a tool, a BlobStore and a child are fields of the loop. The
    fuel of the loop is the number of turns left (\<open>turns_left\<close>), which is enough (shown in \<open>LoopEnds\<close>).
  \<^item> \<open>LoopFacts\<close>: what the loop keeps, in the locales \<open>quiet_loop\<close> (all that starts no call) and
    \<open>loop_relation\<close> (all of it), given what its fields keep (\<open>callers_keep\<close>). \<open>LoopEnds\<close>: the loop ends within its
    turns, with well-formed outcomes. \<open>OpenCalls\<close>: no tool call is left without a result. \<open>LoopSamples\<close>
    holds the loops of the witnesses.
  \<^item> \<open>Replay\<close>: seeding a replayed workflow Run with the settled steps of the Run it replays
    (\<open>runtime/workflow_replay.py\<close>).
  \<^item> \<open>Programs\<close>: the tool calls of a sandboxed program: what it may call (\<open>tools/bindings.py\<close>,
    \<open>core/code_execution.py\<close>), its budget, one call (\<open>call_as_binding\<close> of \<open>runtime/agent.py\<close>), the loop that answers
    a program (\<open>sandbox/protocol.py\<close>) and \<open>run_code\<close> (\<open>tools/code.py\<close>). A program is the tree of its calls, so that
    its recursion is structural. \<open>ProgramFacts\<close>: programs bypass no approval, stay within their budget and
    learn nothing of results that are not theirs.
  \<^item> \<open>Views\<close>: the status of a Run (\<open>core/status.py\<close>) and its answer with the work behind it (\<open>core/answer.py\<close>).
    \<open>Threads\<close>: the messages a person is shown (\<open>core/thread_view.py\<close>), the history a continuing Run replays
    (\<open>runtime/thread.py\<close>) and a whole thread (\<open>thread\<close> of \<open>api.py\<close>). Their fuel is the number of Runs there are,
    and one more step is enough (shown).

  \<^bold>\<open>Modelling.\<close> A class is a HOL record with a prefix per class, an enum or union a datatype, a dict an
  association list in insertion order, a Python int an \<open>int\<close>, a Decimal a \<open>rat\<close>, a datetime a number of
  microseconds, a string a list of Latin-1 characters. A raise is \<open>Inl\<close>, with \<open>CorruptLog\<close> carrying the
  code's reason, Run and sequence but not its message. An asyncio lock makes an operation atomic; what
  other coroutines do between two awaits is an explicit function on the store. Structural recursion and
  list folds need no fuel. Concurrent children of a workflow step run one after another, in the order of
  their positions, which is the schedule in which none of them blocks; which child was cancelled when one
  stops is as the code decides it. Seconds (floats in the code) are rationals.

  \<^bold>\<open>Not modelled.\<close> Model providers, MCP, HTTP, A2A, OAuth, sandbox backends, telemetry, reports, the resolution of tools,
  the database and object storage adapters, the tree view of a workflow (\<open>core/workflow_view.py\<close>), streams,
  pydantic's serialisation, the validators of the agent Spec, memories, the spans of the engine and its use without
  a parker (\<open>_step_again\<close>), the benchmarks and the example playground. The value model
  of states does not show the sharing of mutable tallies between a state and its continuation.
\<close>

end
